(* ===== verification/Prelude.thy ===== *)
theory Prelude
  imports Main "HOL-Library.Word"
begin

section \<open>Shared vocabulary of the development\<close>

text \<open>
  Machine types, the read/write locks of the standard library as plain values with a
  poison flag, and the bounded probing loop that both slot tables of the crate (the
  control plane's \<open>Shard\<close> and the data plane's \<open>FixedTierStub\<close>) run.

  The loop is written as the source writes it, an index that advances modulo the table
  length and a counter of the attempts left; \<open>probe_from_eq_scan\<close> turns it into a
  left-to-right scan of the probe order, a permutation of the indices, and every later
  proof about a table works on the scan.
\<close>

unbundle bit_operations_syntax

type_synonym u8 = "8 word"
type_synonym u16 = "16 word"
type_synonym u64 = "64 word"
type_synonym u128 = "128 word"
type_synonym bytes = "8 word list"
type_synonym utext = "nat list"

text \<open>
  Times are natural numbers of nanoseconds: an instant counts from the process clock
  anchor, a duration is its length. Where the source stores one in an atomic, the model
  stores the word it stores.
\<close>

type_synonym instant = nat
type_synonym duration = nat

text \<open>A mutex or a read/write lock: its value, and whether a panicking holder poisoned it.\<close>

record 'a lock =
  lk_poisoned :: bool
  lk_value :: 'a

definition new_lock :: "'a \<Rightarrow> 'a lock" where
  "new_lock x = \<lparr>lk_poisoned = False, lk_value = x\<rparr>"

text \<open>\<open>u64::try_from(n).unwrap_or(u64::MAX)\<close> on a wider unsigned value.\<close>

definition saturate_u64 :: "nat \<Rightarrow> u64" where
  "saturate_u64 n = (if n < 2 ^ 64 then of_nat n else 0xffffffffffffffff)"

definition saturating_sub_u64 :: "u64 \<Rightarrow> u64 \<Rightarrow> u64" where
  "saturating_sub_u64 a b = (if a < b then 0 else a - b)"

definition saturating_add_u64 :: "u64 \<Rightarrow> u64 \<Rightarrow> u64" where
  "saturating_add_u64 a b = (if unat a + unat b < 2 ^ 64 then a + b else 0xffffffffffffffff)"

text \<open>\<open>armed.elapsed() >= ttl\<close>: \<open>elapsed\<close> saturates at zero.\<close>

definition elapsed_ge :: "instant \<Rightarrow> instant \<Rightarrow> duration \<Rightarrow> bool" where
  "elapsed_ge now armed ttl \<longleftrightarrow> now - armed \<ge> ttl"

subsection \<open>The probing loop\<close>

text \<open>What one iteration of the loop decides about the slot it looks at.\<close>

datatype 'r probe_step = Stop 'r | Next

fun probe_from :: "(nat \<Rightarrow> 'a \<Rightarrow> 'r option probe_step) \<Rightarrow> 'a list \<Rightarrow> nat \<Rightarrow> nat \<Rightarrow> 'r option" where
  "probe_from body xs idx 0 = None"
| "probe_from body xs idx (Suc left) =
     (case body idx (xs ! idx) of
        Stop r \<Rightarrow> r
      | Next \<Rightarrow> probe_from body xs ((idx + 1) mod length xs) left)"

definition probe :: "(nat \<Rightarrow> 'a \<Rightarrow> 'r option probe_step) \<Rightarrow> 'a list \<Rightarrow> u64 \<Rightarrow> 'r option" where
  "probe body xs placement =
     (if xs = [] then None
      else probe_from body xs (unat placement mod length xs) (length xs))"

text \<open>The specification side: a scan of an explicit list of indices.\<close>

fun scan :: "(nat \<Rightarrow> 'a \<Rightarrow> 'r option probe_step) \<Rightarrow> 'a list \<Rightarrow> nat list \<Rightarrow> 'r option" where
  "scan body xs [] = None"
| "scan body xs (i # ks) =
     (case body i (xs ! i) of Stop r \<Rightarrow> r | Next \<Rightarrow> scan body xs ks)"

definition probe_order :: "nat \<Rightarrow> nat \<Rightarrow> nat list" where
  "probe_order n start = map (\<lambda>j. (start + j) mod n) [0..<n]"

subsection \<open>Collections of facts\<close>

named_theorems entry_simps \<open>reading a field back after a setter\<close>
named_theorems table_simps \<open>lookups in the slot tables after an update\<close>
named_theorems step_defs \<open>definitions of the control-plane transitions\<close>

subsection \<open>Words\<close>

lemma unat_saturate_u64 [simp]: "unat (saturate_u64 n) = min n (2 ^ 64 - 1)"
  by (simp add: saturate_u64_def unat_of_nat)

lemma unat_of_nat_u64: "n < 2 ^ 64 \<Longrightarrow> unat (of_nat n :: u64) = n"
  by (simp add: unat_of_nat)

lemma unat_saturating_sub_u64 [simp]:
  "unat (saturating_sub_u64 a b) = unat a - unat b"
  by (auto simp: saturating_sub_u64_def word_less_nat_alt unat_sub word_le_nat_alt)

lemma word_Suc_neq [simp]: "(w :: u64) + 1 \<noteq> w" "(w :: u64) \<noteq> w + 1"
  by simp_all

subsection \<open>Probing\<close>

lemma probe_order_length [simp]: "length (probe_order n s) = n"
  by (simp add: probe_order_def)

lemma probe_order_set [simp]: "set (probe_order n s) = {..<n}"
proof (cases "n = 0")
  case False
  have "i \<in> (\<lambda>j. (s + j) mod n) ` {0..<n}" if "i < n" for i
  proof
    let ?j = "(i + (n - s mod n)) mod n"
    show "?j \<in> {0..<n}" using False by simp
    have "(s + ?j) mod n = (s mod n + (i + (n - s mod n))) mod n"
      by (metis mod_add_left_eq mod_add_right_eq)
    also have "s mod n + (i + (n - s mod n)) = i + n"
      using mod_less_divisor [of n s] False by linarith
    finally show "i = (s + ?j) mod n" using that by simp
  qed
  with False show ?thesis by (auto simp: probe_order_def)
qed (simp add: probe_order_def)

lemma probe_order_distinct [simp]: "distinct (probe_order n s)"
  by (rule card_distinct) simp

lemma probe_from_eq_scan:
  assumes "xs \<noteq> []"
  shows "probe_from body xs (s mod length xs) k =
         scan body xs (map (\<lambda>j. (s + j) mod length xs) [0..<k])"
proof (induction k arbitrary: s)
  case (Suc k)
  let ?n = "length xs"
  have "(s mod ?n + 1) mod ?n = Suc s mod ?n"
    by (simp add: mod_Suc_eq)
  moreover have "map (\<lambda>j. (s + j) mod ?n) [0..<Suc k] =
      s mod ?n # map (\<lambda>j. (Suc s + j) mod ?n) [0..<k]"
    by (simp add: upt_conv_Cons map_Suc_upt [symmetric] del: upt_Suc)
  ultimately show ?case
    using Suc.IH [of "Suc s"] by (simp split: probe_step.split)
qed simp

lemma probe_eq_scan:
  "probe body xs p = scan body xs (probe_order (length xs) (unat p))"
  by (cases "xs = []")
     (simp_all add: probe_def probe_from_eq_scan probe_order_def)

lemma scan_append:
  "(\<And>i. i \<in> set ks \<Longrightarrow> body i (xs ! i) = Next) \<Longrightarrow> scan body xs (ks @ js) = scan body xs js"
  by (induction ks) auto

lemma scan_hit:
  assumes "ks = pre @ i # post" and "\<And>j. j \<in> set pre \<Longrightarrow> body j (xs ! j) = Next"
    and "body i (xs ! i) = Stop r"
  shows "scan body xs ks = r"
  using assms by (simp add: scan_append)

lemma scan_all_next:
  "(\<And>i. i \<in> set ks \<Longrightarrow> body i (xs ! i) = Next) \<Longrightarrow> scan body xs ks = None"
  using scan_append [of ks body xs "[]"] by simp

lemma scan_SomeD:
  assumes "scan body xs ks = Some r"
  obtains pre i post where "ks = pre @ i # post"
    and "\<And>j. j \<in> set pre \<Longrightarrow> body j (xs ! j) = Next"
    and "body i (xs ! i) = Stop (Some r)"
  using assms
proof (induction ks arbitrary: thesis)
  case (Cons i ks)
  show ?case
  proof (cases "body i (xs ! i)")
    case (Stop q)
    with Cons.prems(2) show ?thesis by (intro Cons.prems(1) [of "[]" i ks]) auto
  next
    case Next
    with Cons.prems(2) have "scan body xs ks = Some r" by simp
    then obtain pre k post where "ks = pre @ k # post"
      and "\<And>j. j \<in> set pre \<Longrightarrow> body j (xs ! j) = Next"
      and "body k (xs ! k) = Stop (Some r)"
      using Cons.IH by blast
    with Next show ?thesis by (intro Cons.prems(1) [of "i # pre" k post]) auto
  qed
qed simp

lemma scan_NoneD:
  assumes "scan body xs ks = None"
  shows "(\<forall>i \<in> set ks. body i (xs ! i) = Next) \<or>
         (\<exists>pre i post. ks = pre @ i # post \<and> (\<forall>j \<in> set pre. body j (xs ! j) = Next) \<and>
            body i (xs ! i) = Stop None)"
  using assms
proof (induction ks)
  case (Cons i ks)
  show ?case
  proof (cases "body i (xs ! i)")
    case (Stop q)
    with Cons.prems have "body i (xs ! i) = Stop None" by simp
    then show ?thesis by (intro disjI2 exI [of _ "[]"]) auto
  next
    case Next
    with Cons.prems Cons.IH
    consider "\<forall>i \<in> set ks. body i (xs ! i) = Next"
      | pre k post where "ks = pre @ k # post" "\<forall>j \<in> set pre. body j (xs ! j) = Next"
          "body k (xs ! k) = Stop None"
      by auto
    then show ?thesis
    proof cases
      case 1
      with Next show ?thesis by simp
    next
      case 2
      with Next show ?thesis by (intro disjI2 exI [of _ "i # pre"]) auto
    qed
  qed
qed simp

lemma scan_cong:
  "(\<And>i. i \<in> set ks \<Longrightarrow> body i (xs ! i) = body' i (ys ! i)) \<Longrightarrow> scan body xs ks = scan body' ys ks"
  by (induction ks) (auto split: probe_step.split)

end
