(* ===== verification/Errors.thy ===== *)
theory Errors
  imports Prelude
begin

section \<open>Errors (\<open>src/error.rs\<close>)\<close>

text \<open>
  \<open>CacheError\<close> with the source's variants, the crate's \<open>Result\<close> as a sum with the error on
  the left, and the payload-free message each variant displays.
\<close>

datatype cache_error =
    Unauthenticated
  | Unauthorized
  | TierUnavailable
  | WriteIndeterminate
  | PolicyDenied
  | Miss
  | PopulationFailed
  | Timeout
  | Cancelled
  | StaleGeneration
  | WriteContended
  | SerializationFailed
  | ConfigurationError
  | CapacityExhausted
  | Corrupted
  | UncommittedIntent

type_synonym 'a result = "cache_error + 'a"

abbreviation Ok :: "'a \<Rightarrow> 'a result" where "Ok \<equiv> Inr"
abbreviation Err :: "cache_error \<Rightarrow> 'a result" where "Err \<equiv> Inl"

definition is_ok :: "'a result \<Rightarrow> bool" where
  "is_ok r = (case r of Inl _ \<Rightarrow> False | Inr _ \<Rightarrow> True)"

text \<open>The \<open>?\<close> operator.\<close>

definition try_then :: "'a result \<Rightarrow> ('a \<Rightarrow> 'b result) \<Rightarrow> 'b result" where
  "try_then r f = (case r of Inl e \<Rightarrow> Inl e | Inr x \<Rightarrow> f x)"

fun error_message :: "cache_error \<Rightarrow> string" where
  "error_message Unauthenticated = ''unauthenticated''"
| "error_message Unauthorized = ''unauthorized''"
| "error_message TierUnavailable = ''tier unavailable''"
| "error_message WriteIndeterminate = ''write outcome indeterminate''"
| "error_message PolicyDenied = ''policy denied''"
| "error_message Miss = ''cache miss''"
| "error_message PopulationFailed = ''population failed''"
| "error_message Timeout = ''timeout''"
| "error_message Cancelled = ''cancelled''"
| "error_message StaleGeneration = ''stale generation''"
| "error_message WriteContended = ''write contended''"
| "error_message SerializationFailed = ''serialization failed''"
| "error_message ConfigurationError = ''configuration error''"
| "error_message CapacityExhausted = ''tier capacity exhausted''"
| "error_message Corrupted = ''integrity check failed''"
| "error_message UncommittedIntent = ''uncommitted write intent present''"

lemma is_ok_simps [simp]: "is_ok (Inr x)" "\<not> is_ok (Inl e)"
  by (simp_all add: is_ok_def)

lemma try_then_simps [simp]: "try_then (Inr x) f = f x" "try_then (Inl e) f = Inl e"
  by (simp_all add: try_then_def)

end
