(* ===== verification/Tier_Id.thy ===== *)
theory Tier_Id
  imports Complex_Main Errors
begin

section \<open>Rungs and their health (\<open>src/tier/mod.rs\<close>, \<open>src/tier/trait.rs\<close>)\<close>

text \<open>
  The seven rungs of the ladder with their numeric and textual spellings, the health
  record of one rung and the registry that feeds the circuit breaker. The two floating
  point fields of \<open>TierHealth\<close> are real numbers: the only arithmetic on them is one
  subtraction clamped at zero, and no decision reads \<open>health_score\<close>.
\<close>

datatype tier_id = L0 | L1 | L2 | L3 | L4 | L5 | L6

definition tier_ALL :: "tier_id list" where
  "tier_ALL = [L0, L1, L2, L3, L4, L5, L6]"

fun as_usize :: "tier_id \<Rightarrow> nat" where
  "as_usize L0 = 0"
| "as_usize L1 = 1"
| "as_usize L2 = 2"
| "as_usize L3 = 3"
| "as_usize L4 = 4"
| "as_usize L5 = 5"
| "as_usize L6 = 6"

definition from_usize :: "nat \<Rightarrow> tier_id option" where
  "from_usize idx =
     (if idx = 0 then Some L0
      else if idx = 1 then Some L1
      else if idx = 2 then Some L2
      else if idx = 3 then Some L3
      else if idx = 4 then Some L4
      else if idx = 5 then Some L5
      else if idx = 6 then Some L6
      else None)"

definition LAST_CACHE_RUNG_INDEX :: nat where
  "LAST_CACHE_RUNG_INDEX = 5"

definition AUTHORITY_RUNG_INDEX :: nat where
  "AUTHORITY_RUNG_INDEX = 6"

definition is_cache_rung :: "tier_id \<Rightarrow> bool" where
  "is_cache_rung t \<longleftrightarrow> as_usize t \<le> LAST_CACHE_RUNG_INDEX"

definition is_authority_rung :: "tier_id \<Rightarrow> bool" where
  "is_authority_rung t \<longleftrightarrow> as_usize t = AUTHORITY_RUNG_INDEX"

definition as_u8 :: "tier_id \<Rightarrow> u8" where
  "as_u8 t = of_nat (as_usize t)"

definition from_index :: "u8 \<Rightarrow> tier_id option" where
  "from_index index = (if unat index < 7 then from_usize (unat index) else None)"

text \<open>
  \<open>str::parse::<usize>\<close>: an optional plus sign, then at least one decimal digit, failing
  when the value leaves the 64-bit range.
\<close>

definition digit_of :: "char \<Rightarrow> nat option" where
  "digit_of c = (let n = of_char c :: nat in if 48 \<le> n \<and> n \<le> 57 then Some (n - 48) else None)"

fun parse_digits :: "nat \<Rightarrow> string \<Rightarrow> nat option" where
  "parse_digits acc [] = Some acc"
| "parse_digits acc (c # cs) =
     (case digit_of c of
        None \<Rightarrow> None
      | Some d \<Rightarrow> if acc * 10 + d < 2 ^ 64 then parse_digits (acc * 10 + d) cs else None)"

definition parse_usize :: "string \<Rightarrow> nat option" where
  "parse_usize s =
     (let ds = (case s of c # cs \<Rightarrow> if c = CHR ''+'' then cs else s | [] \<Rightarrow> s)
      in if ds = [] then None else parse_digits 0 ds)"

definition tier_parse :: "string \<Rightarrow> tier_id option" where
  "tier_parse s =
     (case s of
        [] \<Rightarrow> None
      | c # rest \<Rightarrow>
          if c = CHR ''L''
          then (case parse_usize rest of None \<Rightarrow> None | Some idx \<Rightarrow> from_usize idx)
          else None)"

fun tier_display :: "tier_id \<Rightarrow> string" where
  "tier_display L0 = ''L0''"
| "tier_display L1 = ''L1''"
| "tier_display L2 = ''L2''"
| "tier_display L3 = ''L3''"
| "tier_display L4 = ''L4''"
| "tier_display L5 = ''L5''"
| "tier_display L6 = ''L6''"

instantiation tier_id :: linorder
begin

definition less_eq_tier_id :: "tier_id \<Rightarrow> tier_id \<Rightarrow> bool" where
  "less_eq_tier_id t u \<longleftrightarrow> as_usize t \<le> as_usize u"

definition less_tier_id :: "tier_id \<Rightarrow> tier_id \<Rightarrow> bool" where
  "less_tier_id t u \<longleftrightarrow> as_usize t < as_usize u"

instance
proof
  fix t u :: tier_id
  show "t \<le> u \<Longrightarrow> u \<le> t \<Longrightarrow> t = u"
    by (cases t; cases u) (simp_all add: less_eq_tier_id_def)
qed (auto simp: less_eq_tier_id_def less_tier_id_def)

end

subsection \<open>Health\<close>

record tier_health =
  consecutive_failures :: u64
  last_failure_timestamp :: "instant option"
  health_score :: real
  availability :: real

definition default_health :: tier_health where
  "default_health =
     \<lparr>consecutive_failures = 0, last_failure_timestamp = None,
      health_score = 1, availability = 1\<rparr>"

definition health_healthy :: "tier_health \<Rightarrow> bool" where
  "health_healthy h \<longleftrightarrow> consecutive_failures h = 0"

definition health_circuit_open :: "tier_health \<Rightarrow> bool" where
  "health_circuit_open h \<longleftrightarrow> consecutive_failures h \<ge> 5"

definition health_fail :: "instant \<Rightarrow> tier_health \<Rightarrow> tier_health" where
  "health_fail now h =
     h\<lparr>consecutive_failures := consecutive_failures h + 1,
       last_failure_timestamp := Some now,
       health_score := max (health_score h - 1 / 10) 0\<rparr>"

definition health_recover :: "tier_health \<Rightarrow> tier_health" where
  "health_recover h =
     h\<lparr>consecutive_failures := 0, health_score := 1, last_failure_timestamp := None\<rparr>"

subsection \<open>Registry\<close>

record tier_registry =
  reg_tiers :: "tier_id list"
  reg_health :: "tier_health lock list"

definition registry_new :: tier_registry where
  "registry_new =
     (let tiers = [L0, L1, L2, L3, L4, L5, L6]
      in \<lparr>reg_tiers = tiers,
          reg_health = map (\<lambda>_. new_lock default_health) [0..<length tiers]\<rparr>)"

definition registry_all :: "tier_registry \<Rightarrow> tier_id list" where
  "registry_all r = reg_tiers r"

definition registry_len :: "tier_registry \<Rightarrow> nat" where
  "registry_len r = length (reg_tiers r)"

definition registry_is_empty :: "tier_registry \<Rightarrow> bool" where
  "registry_is_empty r \<longleftrightarrow> reg_tiers r = []"

definition registry_tier_health :: "tier_registry \<Rightarrow> tier_id \<Rightarrow> tier_health" where
  "registry_tier_health r t =
     (let l = reg_health r ! as_usize t
      in if lk_poisoned l then default_health else lk_value l)"

definition registry_update ::
    "(tier_health \<Rightarrow> tier_health) \<Rightarrow> tier_id \<Rightarrow> tier_registry \<Rightarrow> tier_registry" where
  "registry_update f t r =
     (let i = as_usize t; l = reg_health r ! i
      in if lk_poisoned l then r
         else r\<lparr>reg_health := (reg_health r)[i := l\<lparr>lk_value := f (lk_value l)\<rparr>]\<rparr>)"

definition registry_fail :: "instant \<Rightarrow> tier_id \<Rightarrow> tier_registry \<Rightarrow> tier_registry" where
  "registry_fail now = registry_update (health_fail now)"

definition registry_recover :: "tier_id \<Rightarrow> tier_registry \<Rightarrow> tier_registry" where
  "registry_recover = registry_update health_recover"

definition registry_circuit_open :: "tier_registry \<Rightarrow> tier_id \<Rightarrow> bool" where
  "registry_circuit_open r t =
     (let l = reg_health r ! as_usize t
      in if lk_poisoned l then True else health_circuit_open (lk_value l))"

fun first_closed :: "tier_registry \<Rightarrow> tier_id \<Rightarrow> tier_id list \<Rightarrow> tier_id option" where
  "first_closed r exclude [] = None"
| "first_closed r exclude (t # ts) =
     (if t = exclude then first_closed r exclude ts
      else if \<not> registry_circuit_open r t then Some t
      else first_closed r exclude ts)"

definition registry_try_fallback_tier :: "tier_registry \<Rightarrow> tier_id \<Rightarrow> tier_id option" where
  "registry_try_fallback_tier r exclude = first_closed r exclude (reg_tiers r)"

text \<open>A registry built by the constructor and changed only through its operations.\<close>

definition registry_wf :: "tier_registry \<Rightarrow> bool" where
  "registry_wf r \<longleftrightarrow> reg_tiers r = tier_ALL \<and> length (reg_health r) = 7"

subsection \<open>Facts about the spellings\<close>

lemma as_usize_less [simp]: "as_usize t < 7"
  by (cases t) simp_all

lemma from_usize_as_usize [simp]: "from_usize (as_usize t) = Some t"
  by (cases t) (simp_all add: from_usize_def)

lemma as_usize_inject [simp]: "as_usize t = as_usize u \<longleftrightarrow> t = u"
  by (metis from_usize_as_usize option.inject)

lemma from_usize_SomeD: "from_usize n = Some t \<Longrightarrow> as_usize t = n"
  by (auto simp: from_usize_def split: if_splits)

lemma unat_as_u8 [simp]: "unat (as_u8 t) = as_usize t"
  by (cases t) (simp_all add: as_u8_def)

lemma from_index_as_u8 [simp]: "from_index (as_u8 t) = Some t"
  by (simp add: from_index_def)

lemma tier_ALL_set [simp]: "t \<in> set tier_ALL"
  by (cases t) (simp_all add: tier_ALL_def)

lemma is_cache_rung_iff: "is_cache_rung t \<longleftrightarrow> t \<noteq> L6"
  by (cases t) (simp_all add: is_cache_rung_def LAST_CACHE_RUNG_INDEX_def)

lemma is_authority_rung_iff: "is_authority_rung t \<longleftrightarrow> t = L6"
  by (cases t) (simp_all add: is_authority_rung_def AUTHORITY_RUNG_INDEX_def)

lemma tier_parse_display: "tier_parse (tier_display t) = Some t"
  by (cases t)
     (simp_all add: tier_parse_def parse_usize_def digit_of_def from_usize_def)

subsection \<open>Facts about the registry\<close>

lemma registry_wf_new: "registry_wf registry_new"
  by (simp add: registry_wf_def registry_new_def tier_ALL_def)

lemma registry_wf_update [simp]: "registry_wf (registry_update f t r) \<longleftrightarrow> registry_wf r"
  by (simp add: registry_wf_def registry_update_def Let_def)

lemma registry_update_health:
  assumes "registry_wf r"
  shows "registry_tier_health (registry_update f t r) u =
    (if u = t \<and> \<not> lk_poisoned (reg_health r ! as_usize t)
     then f (registry_tier_health r t) else registry_tier_health r u)"
  using assms
  by (auto simp: registry_tier_health_def registry_update_def registry_wf_def Let_def nth_list_update)

lemma registry_circuit_open_iff:
  "registry_circuit_open r t \<longleftrightarrow>
     lk_poisoned (reg_health r ! as_usize t) \<or> health_circuit_open (registry_tier_health r t)"
  by (simp add: registry_circuit_open_def registry_tier_health_def Let_def)

lemma registry_update_poisoned [simp]:
  "registry_wf r \<Longrightarrow> lk_poisoned (reg_health (registry_update f t r) ! as_usize u) \<longleftrightarrow>
     lk_poisoned (reg_health r ! as_usize u)"
  by (auto simp: registry_update_def registry_wf_def Let_def nth_list_update)

text \<open>Consecutive failures of one rung, and what they do to the breaker.\<close>

lemma registry_fail_pow:
  assumes "registry_wf r" and "\<not> lk_poisoned (reg_health r ! as_usize t)"
    and "consecutive_failures (registry_tier_health r t) = 0"
  shows "registry_wf ((registry_fail now t ^^ n) r) \<and>
    \<not> lk_poisoned (reg_health ((registry_fail now t ^^ n) r) ! as_usize t) \<and>
    consecutive_failures (registry_tier_health ((registry_fail now t ^^ n) r) t) = of_nat n"
proof (induction n)
  case 0
  with assms show ?case by simp
next
  case (Suc n)
  define q where "q = (registry_fail now t ^^ n) r"
  have "registry_wf q" "\<not> lk_poisoned (reg_health q ! as_usize t)"
    "consecutive_failures (registry_tier_health q t) = of_nat n"
    using Suc by (simp_all add: q_def)
  then have "registry_wf (registry_fail now t q) \<and>
      \<not> lk_poisoned (reg_health (registry_fail now t q) ! as_usize t) \<and>
      consecutive_failures (registry_tier_health (registry_fail now t q) t) = of_nat (Suc n)"
    by (simp add: registry_fail_def registry_update_health health_fail_def add.commute)
  then show ?case by (simp add: q_def)
qed


subsection \<open>Properties\<close>

text \<open>
  Rung spellings round-trip. Printing a rung and parsing the result gives it back, as does its
  index in either width; and whatever text parses to a rung is that rung's index after an \<open>L\<close>.
\<close>

theorem tier_spelling_roundtrip:
  "tier_parse (tier_display t) = Some t \<and> from_usize (as_usize t) = Some t \<and>
   from_index (as_u8 t) = Some t \<and>
   (tier_parse s = Some u \<longleftrightarrow> (\<exists>rest. s = CHR ''L'' # rest \<and> parse_usize rest = Some (as_usize u)))"
proof -
  have "tier_parse s = Some u \<longleftrightarrow> (\<exists>rest. s = CHR ''L'' # rest \<and> parse_usize rest = Some (as_usize u))"
    by (auto simp: tier_parse_def split: list.splits option.splits dest: from_usize_SomeD)
  then show ?thesis by (simp add: tier_parse_display)
qed

text \<open>
  The breaker opens at the fifth failure and a success closes it. Starting from a rung without
  failures, after \<open>n\<close> consecutive failures (below the counter's range) its circuit is open exactly
  when \<open>n\<close> is at least five; recovering closes it; and no other rung's circuit is affected.
\<close>

theorem breaker_opens_at_five:
  assumes wf: "registry_wf r" and ok: "\<not> lk_poisoned (reg_health r ! as_usize t)"
    and fresh: "consecutive_failures (registry_tier_health r t) = 0" and n: "n < 2 ^ 64"
    and other: "u \<noteq> t"
  shows "(registry_circuit_open ((registry_fail now t ^^ n) r) t \<longleftrightarrow> 5 \<le> n) \<and>
    \<not> registry_circuit_open (registry_recover t ((registry_fail now t ^^ n) r)) t \<and>
    registry_circuit_open ((registry_fail now t ^^ n) r) u = registry_circuit_open r u"
proof -
  let ?q = "(registry_fail now t ^^ n) r"
  note q = registry_fail_pow [OF wf ok fresh, where now = now and n = n]
  have "registry_circuit_open ?q t \<longleftrightarrow> 5 \<le> n"
    using q n by (simp add: registry_circuit_open_iff health_circuit_open_def word_le_nat_alt unat_of_nat)
  moreover have "\<not> registry_circuit_open (registry_recover t ?q) t"
    using q by (simp add: registry_circuit_open_iff registry_recover_def registry_update_health
        health_recover_def health_circuit_open_def word_le_nat_alt)
  moreover have "registry_wf ((registry_fail now t ^^ m) r) \<and>
      registry_circuit_open ((registry_fail now t ^^ m) r) u = registry_circuit_open r u" for m
    using wf other
    by (induction m) (simp_all add: registry_circuit_open_iff registry_fail_def registry_update_health)
  ultimately show ?thesis by blast
qed

theorem breaker_opens_at_five_witness:
  "registry_circuit_open ((registry_fail 7 L3 ^^ 5) registry_new) L3 \<and>
   \<not> registry_circuit_open ((registry_fail 7 L3 ^^ 4) registry_new) L3"
proof -
  have "\<not> lk_poisoned (reg_health registry_new ! as_usize L3)"
    "consecutive_failures (registry_tier_health registry_new L3) = 0"
    by (simp_all add: registry_new_def new_lock_def registry_tier_health_def default_health_def Let_def)
  from breaker_opens_at_five [OF registry_wf_new this, where n = 5 and u = L0 and now = 7]
    breaker_opens_at_five [OF registry_wf_new this, where n = 4 and u = L0 and now = 7]
  show ?thesis by simp
qed

end
