(* ===== verification/Integrity.thy ===== *)
theory Integrity
  imports Errors
begin

section \<open>Digests, fingerprints and placement (\<open>src/integrity.rs\<close>)\<close>

text \<open>
  The two-lane FNV-1a digest of values, the fingerprint of keys, the address that pairs a
  fingerprint with a placement hash, and the injectable placement strategies, all on the
  widths the source computes with.

  The lemmas show what the digest can promise: each lane is a bijection of its state for
  fixed input, so two byte strings that differ in exactly one byte never share a digest,
  however long they are; and the digest of a value is the digest of the concatenation of
  whatever chunks its \<open>Hash\<close> implementation writes.
\<close>

definition FNV_OFFSET_A :: u64 where
  "FNV_OFFSET_A = 0xcbf29ce484222325"

definition FNV_OFFSET_B :: u64 where
  "FNV_OFFSET_B = 0x9ae16a3b2f90404f"

definition FNV_PRIME :: u64 where
  "FNV_PRIME = 0x00000100000001b3"

fun fnv1a :: "bytes \<Rightarrow> u64 \<Rightarrow> u64" where
  "fnv1a [] hash = hash"
| "fnv1a (b # bs) hash = fnv1a bs ((hash XOR ucast b) * FNV_PRIME)"

text \<open>Two 64-bit lanes side by side in 128 bits: \<open>u128::from(a) << 64 | u128::from(b)\<close>.\<close>

definition from_hashes :: "u64 \<Rightarrow> u64 \<Rightarrow> u128" where
  "from_hashes a b = push_bit 64 (ucast a) OR ucast b"

type_synonym content_digest = u128
type_synonym key_fingerprint = u128

definition digest_of_bytes :: "bytes \<Rightarrow> content_digest" where
  "digest_of_bytes bs = from_hashes (fnv1a bs FNV_OFFSET_A) (fnv1a bs FNV_OFFSET_B)"

definition digest_is_zero :: "content_digest \<Rightarrow> bool" where
  "digest_is_zero d \<longleftrightarrow> d = 0"

text \<open>
  \<open>SeededFnv\<close>: the hasher state is the running hash, and \<open>write\<close> feeds one chunk. The value's
  own \<open>Hash\<close> implementation decides which chunks it writes; \<open>chunks\<close> stands for it.
\<close>

fun seeded_write :: "u64 \<Rightarrow> bytes \<Rightarrow> u64" where
  "seeded_write state [] = state"
| "seeded_write state (b # bs) = seeded_write ((state XOR ucast b) * FNV_PRIME) bs"

definition seeded_hash :: "u64 \<Rightarrow> bytes list \<Rightarrow> u64" where
  "seeded_hash seed = foldl seeded_write seed"

definition content_digest :: "('v \<Rightarrow> bytes list) \<Rightarrow> 'v \<Rightarrow> content_digest" where
  "content_digest chunks v =
     from_hashes (seeded_hash FNV_OFFSET_A (chunks v)) (seeded_hash FNV_OFFSET_B (chunks v))"

definition fingerprint_of :: "bytes \<Rightarrow> key_fingerprint" where
  "fingerprint_of bs =
     from_hashes (fnv1a bs FNV_OFFSET_A) (fnv1a bs FNV_OFFSET_B)
     XOR (ucast (of_nat (length bs) :: u64) * ucast FNV_PRIME)"

text \<open>The fixed-width hexadecimal rendering of digests and fingerprints.\<close>

definition hex_char :: "nat \<Rightarrow> char" where
  "hex_char n = (if n < 10 then char_of (48 + n) else char_of (87 + n))"

definition hex_pad :: "nat \<Rightarrow> nat \<Rightarrow> string" where
  "hex_pad width n = map (\<lambda>i. hex_char (n div 16 ^ i mod 16)) (rev [0..<width])"

definition digest_display :: "u128 \<Rightarrow> string" where
  "digest_display d = hex_pad 32 (unat d)"

datatype placement = PlaceDefault | AllToZero | CollidingPair bytes

fun placement_hash :: "placement \<Rightarrow> bytes \<Rightarrow> u64" where
  "placement_hash PlaceDefault bs = fnv1a bs FNV_OFFSET_A"
| "placement_hash AllToZero bs = 0"
| "placement_hash (CollidingPair prefix) bs =
     (if take (length prefix) bs = prefix then 42
      else of_nat (length bs) XOR 0xdeadbeefcafef00d)"

record key_address =
  ka_fingerprint :: key_fingerprint
  ka_placement :: u64

definition address_of :: "placement \<Rightarrow> bytes \<Rightarrow> key_address" where
  "address_of p key = \<lparr>ka_fingerprint = fingerprint_of key, ka_placement = placement_hash p key\<rparr>"

subsection \<open>Each lane is injective in its state\<close>

lemma fnv_prime_inverse: "FNV_PRIME * 0xce965057aff6957b = 1"
  by (simp add: FNV_PRIME_def)

lemma mult_prime_cancel: "a * FNV_PRIME = b * FNV_PRIME \<longleftrightarrow> a = b"
proof
  assume "a * FNV_PRIME = b * FNV_PRIME"
  then have "a * FNV_PRIME * 0xce965057aff6957b = b * FNV_PRIME * 0xce965057aff6957b"
    by (rule arg_cong)
  then show "a = b" by (simp only: mult.assoc fnv_prime_inverse mult_1_right)
qed simp

lemma xor_left_cancel: "(h :: 'a::len word) XOR x = h XOR y \<longleftrightarrow> x = y"
proof
  assume "h XOR x = h XOR y"
  then have "h XOR (h XOR x) = h XOR (h XOR y)" by (rule arg_cong)
  then show "x = y" by (simp add: xor.assoc [symmetric])
qed simp

lemma xor_right_cancel: "(x :: 'a::len word) XOR h = y XOR h \<longleftrightarrow> x = y"
  using xor_left_cancel [of h x y] by (simp only: xor.commute)

lemma ucast_byte_inject: "(ucast (b :: u8) :: u64) = ucast c \<longleftrightarrow> b = c"
proof
  assume eq: "(ucast b :: u64) = ucast c"
  have "bit b n \<longleftrightarrow> bit c n" if "n < 8" for n
    using arg_cong [OF eq, of "\<lambda>w. bit w n"] that by (simp add: bit_ucast_iff)
  then show "b = c" by (intro bit_word_eqI) simp
qed simp

lemma fnv1a_inject_state: "fnv1a bs h = fnv1a bs h' \<longleftrightarrow> h = h'"
  by (induction bs arbitrary: h h') (simp_all add: mult_prime_cancel xor_right_cancel)

lemma fnv1a_append: "fnv1a (xs @ ys) h = fnv1a ys (fnv1a xs h)"
  by (induction xs arbitrary: h) simp_all

lemma fnv1a_one_byte: "fnv1a (p @ b # s) h = fnv1a (p @ c # s) h \<longleftrightarrow> b = c"
  by (simp add: fnv1a_append fnv1a_inject_state mult_prime_cancel xor_left_cancel
      ucast_byte_inject)

subsection \<open>The lanes of a digest\<close>

lemma from_hashes_low: "ucast (from_hashes a b) = b"
  by (rule bit_word_eqI)
     (auto simp: from_hashes_def bit_ucast_iff bit_or_iff bit_push_bit_iff)

lemma from_hashes_high: "ucast (drop_bit 64 (from_hashes a b)) = a"
  by (rule bit_word_eqI)
     (auto simp: from_hashes_def bit_ucast_iff bit_or_iff bit_push_bit_iff bit_drop_bit_eq
        dest: bit_imp_le_length)

lemma from_hashes_inject: "from_hashes a b = from_hashes a' b' \<longleftrightarrow> a = a' \<and> b = b'"
  by (metis from_hashes_high from_hashes_low)

lemma seeded_write_eq_fnv1a: "seeded_write s bs = fnv1a bs s"
  by (induction bs arbitrary: s) simp_all

lemma seeded_hash_eq_fnv1a: "seeded_hash s cs = fnv1a (concat cs) s"
  by (induction cs arbitrary: s)
     (simp_all add: seeded_hash_def seeded_write_eq_fnv1a fnv1a_append)

lemma fingerprint_of_inject_length:
  "length xs = length ys \<Longrightarrow> fingerprint_of xs = fingerprint_of ys \<longleftrightarrow>
     digest_of_bytes xs = digest_of_bytes ys"
  by (simp add: fingerprint_of_def digest_of_bytes_def xor_right_cancel)

lemma hex_pad_length [simp]: "length (hex_pad w n) = w"
  by (simp add: hex_pad_def)


subsection \<open>Properties\<close>

text \<open>
  C35: one changed byte is always detected. Two byte strings of any length that differ in a single
  position never have the same digest, in either lane, and never the same key fingerprint.
\<close>

theorem single_byte_change_detected:
  "(digest_of_bytes (p @ b # s) = digest_of_bytes (p @ c # s) \<longleftrightarrow> b = c) \<and>
   (fnv1a (p @ b # s) FNV_OFFSET_A = fnv1a (p @ c # s) FNV_OFFSET_A \<longleftrightarrow> b = c) \<and>
   (fnv1a (p @ b # s) FNV_OFFSET_B = fnv1a (p @ c # s) FNV_OFFSET_B \<longleftrightarrow> b = c) \<and>
   (fingerprint_of (p @ b # s) = fingerprint_of (p @ c # s) \<longleftrightarrow> b = c)"
  by (simp add: digest_of_bytes_def fingerprint_of_inject_length from_hashes_inject fnv1a_one_byte)

text \<open>
  The digest of a value is the digest of what it hashes. However the value's \<open>Hash\<close>
  implementation splits its bytes into writes, the digest computed by the streaming hasher is the
  digest of their concatenation.
\<close>

theorem streaming_digest_is_digest:
  "content_digest chunks v = digest_of_bytes (concat (chunks v))"
  by (simp add: content_digest_def digest_of_bytes_def seeded_hash_eq_fnv1a)

end
