(* ===== verification/Key_Frame.thy ===== *)
theory Key_Frame
  imports Errors
begin

section \<open>Identities and tenant-framed keys (\<open>src/key.rs\<close>, \<open>src/identity.rs\<close>)\<close>

text \<open>
  A Rust string is the list of its UTF-8 bytes. Encoders write into a caller's buffer, so
  they return the length they used together with the buffer they left behind.

  The lemmas show that the frame \<open>tenant | 0 | key\<close> is what is left in the buffer, that
  it is refused exactly when the tenant holds the separator or the frame does not fit,
  and that it determines tenant and key.
\<close>

record identity_context =
  principal :: bytes
  roles :: "bytes list"
  tenant :: bytes

definition identity_anonymous :: identity_context where
  "identity_anonymous = \<lparr>principal = [], roles = [], tenant = []\<rparr>"

definition identity_authenticated :: "identity_context \<Rightarrow> bool" where
  "identity_authenticated i \<longleftrightarrow> principal i \<noteq> []"

record cache_context =
  ctx_identity :: identity_context
  ctx_ttl :: "duration option"

definition context_new :: "identity_context \<Rightarrow> cache_context" where
  "context_new i = \<lparr>ctx_identity = i, ctx_ttl = None\<rparr>"

definition context_anonymous :: cache_context where
  "context_anonymous = \<lparr>ctx_identity = identity_anonymous, ctx_ttl = None\<rparr>"

definition context_with_ttl :: "cache_context \<Rightarrow> duration \<Rightarrow> cache_context" where
  "context_with_ttl c d = c\<lparr>ctx_ttl := Some d\<rparr>"

definition context_authenticated :: "cache_context \<Rightarrow> bool" where
  "context_authenticated c = identity_authenticated (ctx_identity c)"

definition MAX_KEY_SIZE :: nat where
  "MAX_KEY_SIZE = 512"

definition TENANT_SEPARATOR :: u8 where
  "TENANT_SEPARATOR = 0"

definition checked_add_usize :: "nat \<Rightarrow> nat \<Rightarrow> nat option" where
  "checked_add_usize a b = (if a + b < 2 ^ 64 then Some (a + b) else None)"

definition frame_tenant_key :: "bytes \<Rightarrow> bytes \<Rightarrow> bytes \<Rightarrow> (nat \<times> bytes) result" where
  "frame_tenant_key tenant_bytes key buf =
     (if TENANT_SEPARATOR \<in> set tenant_bytes then Err ConfigurationError
      else case Option.bind (checked_add_usize (length tenant_bytes) 1)
                  (\<lambda>n. checked_add_usize n (length key)) of
        None \<Rightarrow> Err ConfigurationError
      | Some needed \<Rightarrow>
          if needed > length buf then Err ConfigurationError
          else
            let rest = drop (length tenant_bytes) buf;
                rest = rest[0 := TENANT_SEPARATOR];
                rest = take 1 rest @ key @ drop (1 + length key) rest
            in Ok (needed, tenant_bytes @ rest))"

text \<open>The \<open>Key\<close> implementations for \<open>String\<close>, \<open>&str\<close> and \<open>Vec<u8>\<close> share one body.\<close>

definition key_encode :: "bytes \<Rightarrow> bytes \<Rightarrow> (nat \<times> bytes) result" where
  "key_encode self buf =
     (if length buf < length self then Err ConfigurationError
      else Ok (length self, self @ drop (length self) buf))"

definition key_encoded_len :: "bytes \<Rightarrow> nat" where
  "key_encoded_len self = length self"

subsection \<open>The frame\<close>

lemma frame_tenant_key_Ok_iff:
  "(\<exists>n buf'. frame_tenant_key t k buf = Ok (n, buf')) \<longleftrightarrow>
     TENANT_SEPARATOR \<notin> set t \<and> length t + 1 + length k < 2 ^ 64 \<and>
     length t + 1 + length k \<le> length buf"
  by (auto simp: frame_tenant_key_def checked_add_usize_def Let_def)

lemma frame_tenant_key_Ok:
  assumes "frame_tenant_key t k buf = Ok (n, buf')"
  shows "n = length t + 1 + length k" and "buf' = t @ [TENANT_SEPARATOR] @ k @ drop n buf"
    and "length buf' = length buf" and "TENANT_SEPARATOR \<notin> set t"
proof -
  have n: "n = length t + 1 + length k" and le: "n \<le> length buf"
    and b: "buf' = t @ take 1 ((drop (length t) buf)[0 := TENANT_SEPARATOR]) @ k @
              drop (1 + length k) ((drop (length t) buf)[0 := TENANT_SEPARATOR])"
    and s: "TENANT_SEPARATOR \<notin> set t"
    using assms by (auto simp: frame_tenant_key_def checked_add_usize_def Let_def split: if_splits)
  obtain x xs where d: "drop (length t) buf = x # xs"
    using n le by (cases "drop (length t) buf") auto
  have "drop n buf = drop (Suc (length k)) (drop (length t) buf)"
    by (simp add: n add.commute)
  then have tail: "drop n buf = drop (length k) xs"
    by (simp add: d)
  show "n = length t + 1 + length k" by (rule n)
  show b': "buf' = t @ [TENANT_SEPARATOR] @ k @ drop n buf"
    using b d tail by simp
  show "length buf' = length buf" using b' n le by simp
  show "TENANT_SEPARATOR \<notin> set t" by (rule s)
qed

lemma frame_tenant_key_bytes:
  "frame_tenant_key t k buf = Ok (n, buf') \<Longrightarrow> take n buf' = t @ [TENANT_SEPARATOR] @ k"
  using frame_tenant_key_Ok [of t k buf n buf'] by simp

lemma separator_split_unique:
  assumes "t @ [s] @ k = t' @ [s] @ k'" and "s \<notin> set t" and "s \<notin> set t'"
  shows "t = t' \<and> k = k'"
  using assms
proof (induction t arbitrary: t')
  case Nil
  then show ?case by (cases t') auto
next
  case (Cons x t)
  then show ?case by (cases t') auto
qed

lemma key_encode_Ok_iff:
  "key_encode k buf = Ok (n, buf') \<longleftrightarrow>
     length k \<le> length buf \<and> n = length k \<and> buf' = k @ drop n buf"
  by (auto simp: key_encode_def)

lemma key_encode_bytes: "key_encode k buf = Ok (n, buf') \<Longrightarrow> take n buf' = k"
  by (auto simp: key_encode_Ok_iff)


subsection \<open>Properties\<close>



end
