(* ===== verification/Pool.thy ===== *)
theory Pool
  imports Errors
begin

section \<open>The fixed-capacity value pool (\<open>src/pool.rs\<close>)\<close>

text \<open>
  A pool is a vector of slots and a stack of free indices; \<open>pop\<close> takes from the end of the
  free list. The invariant \<open>pool_wf\<close> says that the free list names exactly the empty slots,
  each once. \<open>allocate\<close> keeps it; \<open>deallocate\<close> keeps it only for a slot that is in use,
  because the source pushes the index without looking.
\<close>

record 'v memory_pool =
  pool_slots :: "'v option list"
  pool_free :: "nat list"
  pool_capacity :: nat

definition pool_new :: "nat \<Rightarrow> 'v memory_pool result" where
  "pool_new capacity =
     (if capacity = 0 then Err ConfigurationError
      else Ok \<lparr>pool_slots = replicate capacity None, pool_free = [0..<capacity],
               pool_capacity = capacity\<rparr>)"

definition pool_allocate :: "'v \<Rightarrow> 'v memory_pool \<Rightarrow> nat result \<times> 'v memory_pool" where
  "pool_allocate value p =
     (if pool_free p = [] then (Err ConfigurationError, p)
      else let idx = last (pool_free p)
           in (Ok idx, p\<lparr>pool_free := butlast (pool_free p),
                         pool_slots := (pool_slots p)[idx := Some value]\<rparr>))"

definition pool_deallocate :: "nat \<Rightarrow> 'v memory_pool \<Rightarrow> unit result \<times> 'v memory_pool" where
  "pool_deallocate idx p =
     (if idx \<ge> pool_capacity p then (Err ConfigurationError, p)
      else (Ok (), p\<lparr>pool_slots := (pool_slots p)[idx := None],
                     pool_free := pool_free p @ [idx]\<rparr>))"

definition pool_get :: "'v memory_pool \<Rightarrow> nat \<Rightarrow> 'v option" where
  "pool_get p idx = (if idx \<ge> pool_capacity p then None else pool_slots p ! idx)"

text \<open>
  \<open>get_mut\<close> hands out a mutable reference; its only uses assign through it, so the model
  takes the value to store. The flag says whether there was a slot to assign to.
\<close>

definition pool_get_mut_assign :: "nat \<Rightarrow> 'v \<Rightarrow> 'v memory_pool \<Rightarrow> bool \<times> 'v memory_pool" where
  "pool_get_mut_assign idx value p =
     (if idx \<ge> pool_capacity p then (False, p)
      else case pool_slots p ! idx of
        None \<Rightarrow> (False, p)
      | Some _ \<Rightarrow> (True, p\<lparr>pool_slots := (pool_slots p)[idx := Some value]\<rparr>))"

text \<open>The set of slots in use, and the invariant.\<close>

definition pool_used :: "'v memory_pool \<Rightarrow> nat set" where
  "pool_used p = {i. i < pool_capacity p \<and> pool_slots p ! i \<noteq> None}"

definition pool_wf :: "'v memory_pool \<Rightarrow> bool" where
  "pool_wf p \<longleftrightarrow>
     length (pool_slots p) = pool_capacity p \<and> distinct (pool_free p) \<and>
     set (pool_free p) = {i. i < pool_capacity p \<and> pool_slots p ! i = None}"

subsection \<open>The invariant\<close>

lemma pool_wf_new: "pool_new n = Ok p \<Longrightarrow> pool_wf p"
  by (auto simp: pool_new_def pool_wf_def split: if_splits)

lemma pool_used_new: "pool_new n = Ok p \<Longrightarrow> pool_used p = {}"
  by (auto simp: pool_new_def pool_used_def split: if_splits)

lemma pool_wf_card:
  assumes "pool_wf p"
  shows "length (pool_free p) + card (pool_used p) = pool_capacity p"
proof -
  have "length (pool_free p) = card {i. i < pool_capacity p \<and> pool_slots p ! i = None}"
    using assms by (metis distinct_card pool_wf_def)
  moreover have "card {i. i < pool_capacity p \<and> pool_slots p ! i = None} + card (pool_used p) =
      card ({i. i < pool_capacity p \<and> pool_slots p ! i = None} \<union> pool_used p)"
    by (subst card_Un_disjoint) (auto simp: pool_used_def)
  moreover have "{i. i < pool_capacity p \<and> pool_slots p ! i = None} \<union> pool_used p =
      {..<pool_capacity p}"
    by (auto simp: pool_used_def)
  ultimately show ?thesis by simp
qed

lemma pool_allocate_cases:
  assumes "pool_wf p"
  obtains "pool_allocate v p = (Err ConfigurationError, p)" "pool_used p = {..<pool_capacity p}"
  | idx q where "pool_allocate v p = (Ok idx, q)" "idx < pool_capacity p" "idx \<notin> pool_used p"
      "pool_wf q" "pool_used q = insert idx (pool_used p)" "pool_capacity q = pool_capacity p"
      "pool_slots q = (pool_slots p)[idx := Some v]"
proof (cases "pool_free p = []")
  case True
  with assms have "pool_used p = {..<pool_capacity p}"
    by (fastforce simp: pool_wf_def pool_used_def)
  with True that(1) show ?thesis by (simp add: pool_allocate_def)
next
  case False
  then obtain fs idx where free: "pool_free p = fs @ [idx]"
    by (metis rev_exhaust)
  define q where "q = p\<lparr>pool_free := fs, pool_slots := (pool_slots p)[idx := Some v]\<rparr>"
  have len: "length (pool_slots p) = pool_capacity p" and "distinct (fs @ [idx])"
    and set: "set (fs @ [idx]) = {i. i < pool_capacity p \<and> pool_slots p ! i = None}"
    using assms by (simp_all add: pool_wf_def free)
  then have idx: "idx < pool_capacity p" "pool_slots p ! idx = None"
    and fs: "set fs = {i. i < pool_capacity p \<and> pool_slots p ! i = None} - {idx}"
    by auto
  have "{i. i < pool_capacity p \<and> (pool_slots p)[idx := Some v] ! i = None} =
      {i. i < pool_capacity p \<and> pool_slots p ! i = None} - {idx}"
    using len idx by (auto simp: nth_list_update split: if_splits)
  with \<open>distinct (fs @ [idx])\<close> have "pool_wf q"
    by (simp add: pool_wf_def q_def len fs)
  moreover have "pool_used q = insert idx (pool_used p)"
    using len idx by (auto simp: pool_used_def q_def nth_list_update split: if_splits)
  ultimately show ?thesis
    using that(2) [of idx q] idx
    by (simp add: pool_allocate_def Let_def free q_def pool_used_def)
qed

lemma pool_deallocate_used:
  assumes wf: "pool_wf p" and used: "idx \<in> pool_used p"
  shows "fst (pool_deallocate idx p) = Ok ()"
    and "pool_slots (snd (pool_deallocate idx p)) = (pool_slots p)[idx := None]"
    and "pool_capacity (snd (pool_deallocate idx p)) = pool_capacity p"
    and "pool_used (snd (pool_deallocate idx p)) = pool_used p - {idx}"
    and "pool_wf (snd (pool_deallocate idx p))"
proof -
  have idx: "idx < pool_capacity p" "pool_slots p ! idx \<noteq> None"
    and len: "length (pool_slots p) = pool_capacity p"
    using wf used by (auto simp: pool_used_def pool_wf_def)
  then show "fst (pool_deallocate idx p) = Ok ()"
    and "pool_slots (snd (pool_deallocate idx p)) = (pool_slots p)[idx := None]"
    and "pool_capacity (snd (pool_deallocate idx p)) = pool_capacity p"
    by (simp_all add: pool_deallocate_def)
  show "pool_used (snd (pool_deallocate idx p)) = pool_used p - {idx}"
    using idx len
    by (auto simp: pool_deallocate_def pool_used_def nth_list_update split: if_splits)
  have "{i. i < pool_capacity p \<and> (pool_slots p)[idx := None] ! i = None} =
      insert idx {i. i < pool_capacity p \<and> pool_slots p ! i = None}"
    using len idx by (auto simp: nth_list_update split: if_splits)
  with wf idx show "pool_wf (snd (pool_deallocate idx p))"
    by (simp add: pool_deallocate_def pool_wf_def)
qed

lemma pool_get_mut_assign_used:
  assumes wf: "pool_wf p" and used: "idx \<in> pool_used p"
  shows "pool_get_mut_assign idx v p = (True, p\<lparr>pool_slots := (pool_slots p)[idx := Some v]\<rparr>)"
    and "pool_wf (p\<lparr>pool_slots := (pool_slots p)[idx := Some v]\<rparr>)"
    and "pool_used (p\<lparr>pool_slots := (pool_slots p)[idx := Some v]\<rparr>) = pool_used p"
proof -
  have idx: "idx < pool_capacity p" "\<exists>x. pool_slots p ! idx = Some x"
    and len: "length (pool_slots p) = pool_capacity p"
    using wf used by (auto simp: pool_used_def pool_wf_def)
  then show "pool_get_mut_assign idx v p = (True, p\<lparr>pool_slots := (pool_slots p)[idx := Some v]\<rparr>)"
    by (auto simp: pool_get_mut_assign_def)
  have eq: "(pool_slots p)[idx := Some v] ! i = None \<longleftrightarrow> pool_slots p ! i = None"
    if "i < pool_capacity p" for i
    using idx len that by (auto simp: nth_list_update)
  then have "{i. i < pool_capacity p \<and> (pool_slots p)[idx := Some v] ! i = None} =
      {i. i < pool_capacity p \<and> pool_slots p ! i = None}"
    by blast
  with wf show "pool_wf (p\<lparr>pool_slots := (pool_slots p)[idx := Some v]\<rparr>)"
    by (simp add: pool_wf_def)
  show "pool_used (p\<lparr>pool_slots := (pool_slots p)[idx := Some v]\<rparr>) = pool_used p"
    using eq by (simp add: pool_used_def cong: conj_cong)
qed

lemma pool_get_used: "idx \<in> pool_used p \<Longrightarrow> pool_get p idx = pool_slots p ! idx"
  by (simp add: pool_get_def pool_used_def)

end
