(* ===== verification/Store_Interface.thy ===== *)
theory Store_Interface
  imports Errors
begin

section \<open>The interface of a value store\<close>

text \<open>
  What the rungs promise of the storage they are built on, as a locale: an invariant that
  the operations keep, a read after a successful write, a failed write that leaves no trace,
  and removals and reads that are invisible to keys of another identity. The slot table
  (\<open>Fixed_Tier\<close>) and its sharded version (\<open>Sharded_Tier\<close>) interpret it; the client lemma on
  interleaved operations is proved once, here.
\<close>

text \<open>When a value stored at \<open>now\<close> with \<open>ttl\<close> is still live at \<open>now'\<close>.\<close>

definition unexpired :: "duration option \<Rightarrow> instant \<Rightarrow> instant \<Rightarrow> bool" where
  "unexpired ttl now now' = (case ttl of Some d \<Rightarrow> \<not> elapsed_ge now' now d | None \<Rightarrow> True)"

datatype store_call = CallGet instant bytes | CallRemove instant bytes

text \<open>A call that cannot touch the entry of key \<open>k\<close>: a read, or the removal of another identity.\<close>

fun harmless :: "(bytes \<Rightarrow> 'a) \<Rightarrow> bytes \<Rightarrow> store_call \<Rightarrow> bool" where
  "harmless addr k (CallGet now k') = True"
| "harmless addr k (CallRemove now k') = (addr k' \<noteq> addr k)"

text \<open>A run of calls against a store given by its read and its removal.\<close>

fun run_calls ::
  "(instant \<Rightarrow> bytes \<Rightarrow> 'st \<Rightarrow> 'v option result \<times> 'st) \<Rightarrow>
   (instant \<Rightarrow> bytes \<Rightarrow> 'st \<Rightarrow> unit result \<times> 'st) \<Rightarrow> store_call list \<Rightarrow> 'st \<Rightarrow> 'st"
where
  "run_calls get remove [] s = s"
| "run_calls get remove (CallGet now k # cs) s = run_calls get remove cs (snd (get now k s))"
| "run_calls get remove (CallRemove now k # cs) s = run_calls get remove cs (snd (remove now k s))"

locale value_store =
  fixes inv :: "'st \<Rightarrow> bool"
    and addr :: "'st \<Rightarrow> bytes \<Rightarrow> 'a"
    and get :: "instant \<Rightarrow> bytes \<Rightarrow> 'st \<Rightarrow> 'v option result \<times> 'st"
    and set :: "instant \<Rightarrow> bytes \<Rightarrow> 'v \<Rightarrow> duration option \<Rightarrow> 'st \<Rightarrow> unit result \<times> 'st"
    and remove :: "instant \<Rightarrow> bytes \<Rightarrow> 'st \<Rightarrow> unit result \<times> 'st"
  assumes inv_get: "inv s \<Longrightarrow> inv (snd (get now k s))"
    and inv_set: "inv s \<Longrightarrow> inv (snd (set now k v ttl s))"
    and inv_remove: "inv s \<Longrightarrow> inv (snd (remove now k s))"
    and addr_get: "addr (snd (get now k s)) = addr s"
    and addr_set: "addr (snd (set now k v ttl s)) = addr s"
    and addr_remove: "addr (snd (remove now k s)) = addr s"
    and get_after_set: "inv s \<Longrightarrow> set now k v ttl s = (Ok (), s') \<Longrightarrow>
      fst (get now' k s') = Ok (if unexpired ttl now now' then Some v else None)"
    and set_error: "inv s \<Longrightarrow> fst (set now k v ttl s) = Err e \<Longrightarrow> snd (set now k v ttl s) = s"
    and get_after_get: "fst (get now' k' (snd (get now k s))) = fst (get now' k' s)"
    and get_after_remove: "inv s \<Longrightarrow> addr s k \<noteq> addr s k' \<Longrightarrow>
      fst (get now' k' (snd (remove now k s))) = fst (get now' k' s)"
begin

lemma get_after_calls:
  assumes "inv s" and "list_all (harmless (addr s) k) cs"
  shows "fst (get now k (run_calls get remove cs s)) = fst (get now k s)"
  using assms
proof (induction cs arbitrary: s)
  case (Cons c cs)
  show ?case
  proof (cases c)
    case (CallGet now' k')
    with Cons.IH [of "snd (get now' k' s)"] Cons.prems show ?thesis
      by (simp add: inv_get addr_get get_after_get)
  next
    case (CallRemove now' k')
    with Cons.IH [of "snd (remove now' k' s)"] Cons.prems show ?thesis
      by (simp add: inv_remove addr_remove get_after_remove)
  qed
qed simp

text \<open>A stored value is read back through any run of reads and foreign removals.\<close>

lemma read_your_write:
  assumes "inv s" "set now k v ttl s = (Ok (), s')" "unexpired ttl now now'"
    and "list_all (harmless (addr s) k) cs"
  shows "fst (get now' k (run_calls get remove cs s')) = Ok (Some v)"
proof -
  have "inv s'" "addr s' = addr s"
    using inv_set [OF assms(1), of now k v ttl] addr_set [of now k v ttl s] assms(2) by simp_all
  with assms(4) have "fst (get now' k (run_calls get remove cs s')) = fst (get now' k s')"
    by (intro get_after_calls) simp_all
  with get_after_set [OF assms(1,2)] assms(3) show ?thesis by simp
qed

text \<open>A write that fails changes no read.\<close>

lemma failed_write_invisible:
  assumes "inv s" "fst (set now k v ttl s) = Err e"
  shows "fst (get now' k' (snd (set now k v ttl s))) = fst (get now' k' s)"
  by (simp add: set_error [OF assms])

end

end
