(* ===== verification/Fixed_Tier.thy ===== *)
theory Fixed_Tier
  imports Integrity Pool Store_Interface
begin

section \<open>The fixed-capacity slot table of a rung (\<open>src/tier/fixed_tier_stub.rs\<close>)\<close>

text \<open>
  \<open>FixedTierStub\<close>: a value pool and an open-addressed index whose slots carry the key's
  fingerprint, the digest of the value, an expiry and the control-plane address. The value
  type's \<open>IntegrityCheck::content_digest\<close> is the parameter \<open>dg\<close>. An operation reads the clock
  through its argument \<open>now\<close>; the atomics of the source (the corruption counter and the
  eviction cursor) are fields that an operation returns updated.

  The lemmas show: the invariant \<open>fixed_wf\<close> (every occupied slot owns its own pool entry and
  no pool entry is leaked) is kept by every operation; a value is found again after it is
  set, and is refused when its digest no longer matches; removing a key frames every other
  key; a write fails exactly when the table is full of live entries of other keys. Without
  duplicate slots a removed key is gone; the last section shows that the table can hold two
  slots for one key, and what that does.
\<close>

record fixed_slot =
  sl_placement :: u64
  sl_fingerprint :: key_fingerprint
  sl_digest :: content_digest
  sl_pool_idx :: nat
  sl_expiry :: "(instant \<times> duration) option"
  sl_address :: key_address

definition slot_is_expired :: "instant \<Rightarrow> fixed_slot \<Rightarrow> bool" where
  "slot_is_expired now s =
     (case sl_expiry s of Some (armed, ttl) \<Rightarrow> elapsed_ge now armed ttl | None \<Rightarrow> False)"

record 'v fixed_tier =
  ft_pool :: "'v memory_pool"
  ft_slots :: "fixed_slot option list"
  ft_placement :: placement
  ft_corruptions :: u64
  ft_cursor :: u64

definition DEFAULT_CAPACITY :: nat where
  "DEFAULT_CAPACITY = 1024"

definition fixed_with_capacity :: "nat \<Rightarrow> 'v fixed_tier result" where
  "fixed_with_capacity capacity =
     (if capacity = 0 then Err ConfigurationError
      else try_then (pool_new capacity) (\<lambda>pool.
        Ok \<lparr>ft_pool = pool, ft_slots = replicate capacity None, ft_placement = PlaceDefault,
            ft_corruptions = 0, ft_cursor = 0\<rparr>))"

definition fixed_with_placement :: "placement \<Rightarrow> 'v fixed_tier \<Rightarrow> 'v fixed_tier" where
  "fixed_with_placement p t = t\<lparr>ft_placement := p\<rparr>"

definition fixed_capacity :: "'v fixed_tier \<Rightarrow> nat" where
  "fixed_capacity t = length (ft_slots t)"

definition slot_matches :: "u64 \<Rightarrow> key_fingerprint \<Rightarrow> fixed_slot \<Rightarrow> bool" where
  "slot_matches p fp s \<longleftrightarrow> sl_placement s = p \<and> sl_fingerprint s = fp"

text \<open>One iteration of each search loop: the slot it looks at decides whether it goes on.\<close>

definition find_slot_step ::
  "instant \<Rightarrow> u64 \<Rightarrow> key_fingerprint \<Rightarrow> nat \<Rightarrow> fixed_slot option \<Rightarrow> nat option probe_step"
where
  "find_slot_step now p fp idx slot =
     (case slot of
        Some s \<Rightarrow>
          if slot_matches p fp s
          then (if slot_is_expired now s then Stop None else Stop (Some idx))
          else Next
      | None \<Rightarrow> Next)"

definition find_slot :: "instant \<Rightarrow> 'v fixed_tier \<Rightarrow> u64 \<Rightarrow> key_fingerprint \<Rightarrow> nat option" where
  "find_slot now t p fp = probe (find_slot_step now p fp) (ft_slots t) p"

definition find_empty_step ::
  "instant \<Rightarrow> u64 \<Rightarrow> key_fingerprint \<Rightarrow> nat \<Rightarrow> fixed_slot option \<Rightarrow> nat option probe_step"
where
  "find_empty_step now p fp idx slot =
     (case slot of
        None \<Rightarrow> Stop (Some idx)
      | Some s \<Rightarrow>
          if slot_matches p fp s then Stop (Some idx)
          else if slot_is_expired now s then Stop (Some idx)
          else Next)"

definition find_empty :: "instant \<Rightarrow> 'v fixed_tier \<Rightarrow> u64 \<Rightarrow> key_fingerprint \<Rightarrow> nat option" where
  "find_empty now t p fp = probe (find_empty_step now p fp) (ft_slots t) p"

definition key_slot :: "instant \<Rightarrow> 'v fixed_tier \<Rightarrow> bytes \<Rightarrow> nat option" where
  "key_slot now t key = find_slot now t (placement_hash (ft_placement t) key) (fingerprint_of key)"

definition fixed_get ::
  "('v \<Rightarrow> content_digest) \<Rightarrow> instant \<Rightarrow> bytes \<Rightarrow> 'v fixed_tier \<Rightarrow> 'v option result \<times> 'v fixed_tier"
where
  "fixed_get dg now key t =
     (case key_slot now t key of
        None \<Rightarrow> (Ok None, t)
      | Some idx \<Rightarrow>
          (case ft_slots t ! idx of
             None \<Rightarrow> (Ok None, t)
           | Some slot \<Rightarrow>
               (case pool_get (ft_pool t) (sl_pool_idx slot) of
                  None \<Rightarrow> (Ok None, t)
                | Some value \<Rightarrow>
                    if dg value \<noteq> sl_digest slot
                    then (Err Corrupted, t\<lparr>ft_corruptions := ft_corruptions t + 1\<rparr>)
                    else (Ok (Some value), t))))"

definition fixed_set ::
  "('v \<Rightarrow> content_digest) \<Rightarrow> instant \<Rightarrow> bytes \<Rightarrow> 'v \<Rightarrow> duration option \<Rightarrow> 'v fixed_tier
     \<Rightarrow> unit result \<times> 'v fixed_tier"
where
  "fixed_set dg now key value ttl t =
     (let placement = placement_hash (ft_placement t) key; fingerprint = fingerprint_of key in
      case find_empty now t placement fingerprint of
        None \<Rightarrow> (Err CapacityExhausted, t)
      | Some idx \<Rightarrow>
          (let (r, pool) =
             (case ft_slots t ! idx of
                Some old \<Rightarrow>
                  (case pool_get_mut_assign (sl_pool_idx old) value (ft_pool t) of
                     (True, pool) \<Rightarrow> (Ok (sl_pool_idx old), pool)
                   | (False, _) \<Rightarrow> pool_allocate value (ft_pool t))
              | None \<Rightarrow> pool_allocate value (ft_pool t))
           in case r of
                Inl e \<Rightarrow> (Err e, t\<lparr>ft_pool := pool\<rparr>)
              | Inr pool_idx \<Rightarrow>
                  (Ok (), t\<lparr>ft_pool := pool,
                     ft_slots := (ft_slots t)[idx := Some
                       \<lparr>sl_placement = placement, sl_fingerprint = fingerprint,
                        sl_digest = dg value, sl_pool_idx = pool_idx,
                        sl_expiry = map_option (\<lambda>d. (now, d)) ttl,
                        sl_address = address_of (ft_placement t) key\<rparr>]\<rparr>)))"

text \<open>\<open>self.slots[idx].take()\<close> followed by the deallocation of the pool entry it named.\<close>

definition take_slot :: "nat \<Rightarrow> 'v fixed_tier \<Rightarrow> 'v fixed_tier" where
  "take_slot idx t =
     (case ft_slots t ! idx of
        None \<Rightarrow> t
      | Some slot \<Rightarrow>
          t\<lparr>ft_slots := (ft_slots t)[idx := None],
            ft_pool := snd (pool_deallocate (sl_pool_idx slot) (ft_pool t))\<rparr>)"

definition fixed_remove :: "instant \<Rightarrow> bytes \<Rightarrow> 'v fixed_tier \<Rightarrow> unit result \<times> 'v fixed_tier" where
  "fixed_remove now key t =
     (Ok (), case key_slot now t key of None \<Rightarrow> t | Some idx \<Rightarrow> take_slot idx t)"

definition fixed_contains :: "instant \<Rightarrow> bytes \<Rightarrow> 'v fixed_tier \<Rightarrow> bool result" where
  "fixed_contains now key t = Ok (key_slot now t key \<noteq> None)"

definition fixed_corrupt :: "instant \<Rightarrow> bytes \<Rightarrow> 'v \<Rightarrow> 'v fixed_tier \<Rightarrow> bool result \<times> 'v fixed_tier" where
  "fixed_corrupt now key replacement t =
     (case key_slot now t key of
        None \<Rightarrow> (Ok False, t)
      | Some idx \<Rightarrow>
          (case ft_slots t ! idx of
             None \<Rightarrow> (Ok False, t)
           | Some slot \<Rightarrow>
               (Ok True,
                t\<lparr>ft_pool := snd (pool_get_mut_assign (sl_pool_idx slot) replacement (ft_pool t))\<rparr>)))"

text \<open>
  The eviction scan: a \<open>for\<close> loop over the offsets from the rotating cursor. The cursor is a
  \<open>usize\<close>; \<open>fetch_add\<close> wraps and returns the old value.
\<close>

definition live_address :: "instant \<Rightarrow> fixed_slot option \<Rightarrow> key_address option" where
  "live_address now slot =
     (case slot of Some s \<Rightarrow> if slot_is_expired now s then None else Some (sl_address s)
      | None \<Rightarrow> None)"

definition fixed_eviction_candidate ::
  "instant \<Rightarrow> 'v fixed_tier \<Rightarrow> key_address option \<times> 'v fixed_tier"
where
  "fixed_eviction_candidate now t =
     (let n = length (ft_slots t) in
      if n = 0 then (None, t)
      else
        (let start = unat (ft_cursor t) mod n; t1 = t\<lparr>ft_cursor := ft_cursor t + 1\<rparr> in
         case scan (\<lambda>idx slot. case live_address now slot of
                      Some a \<Rightarrow> Stop (Some (idx, a)) | None \<Rightarrow> Next)
                (ft_slots t) (probe_order n start) of
           Some (idx, a) \<Rightarrow> (Some a, t1\<lparr>ft_cursor := of_nat (idx + 1)\<rparr>)
         | None \<Rightarrow>
             ((case List.map_filter id (ft_slots t) of [] \<Rightarrow> None | s # _ \<Rightarrow> Some (sl_address s)),
              t1)))"

definition fixed_remove_if_address ::
  "key_address \<Rightarrow> 'v fixed_tier \<Rightarrow> bool result \<times> 'v fixed_tier"
where
  "fixed_remove_if_address address t =
     (case scan (\<lambda>idx slot. case slot of
                   Some s \<Rightarrow> if sl_address s = address then Stop (Some idx) else Next
                 | None \<Rightarrow> Next)
             (ft_slots t) [0..<length (ft_slots t)] of
        Some idx \<Rightarrow> (Ok True, take_slot idx t)
      | None \<Rightarrow> (Ok False, t))"

subsection \<open>The invariant\<close>

text \<open>
  \<open>slot_at t i s\<close>: index \<open>i\<close> holds \<open>s\<close>. The invariant ties the index to the pool: the occupied
  slots name distinct pool entries, and exactly those in use.
\<close>

definition slot_at :: "'v fixed_tier \<Rightarrow> nat \<Rightarrow> fixed_slot \<Rightarrow> bool" where
  "slot_at t i s \<longleftrightarrow> i < length (ft_slots t) \<and> ft_slots t ! i = Some s"

definition fixed_wf :: "'v fixed_tier \<Rightarrow> bool" where
  "fixed_wf t \<longleftrightarrow>
     pool_wf (ft_pool t) \<and> length (ft_slots t) = pool_capacity (ft_pool t) \<and> ft_slots t \<noteq> [] \<and>
     (\<forall>i s. slot_at t i s \<longrightarrow> sl_pool_idx s \<in> pool_used (ft_pool t) \<and>
        sl_address s = \<lparr>ka_fingerprint = sl_fingerprint s, ka_placement = sl_placement s\<rparr>) \<and>
     (\<forall>i j s s'. slot_at t i s \<and> slot_at t j s' \<and> sl_pool_idx s = sl_pool_idx s' \<longrightarrow> i = j) \<and>
     (\<forall>k \<in> pool_used (ft_pool t). \<exists>i s. slot_at t i s \<and> sl_pool_idx s = k)"

text \<open>No key has two slots.\<close>

definition fixed_unique :: "'v fixed_tier \<Rightarrow> bool" where
  "fixed_unique t \<longleftrightarrow>
     (\<forall>i j s s'. slot_at t i s \<and> slot_at t j s' \<and> sl_address s = sl_address s' \<longrightarrow> i = j)"


text \<open>The tables that calls can produce, the one that damages a value behind its digest included.\<close>

inductive fixed_reachable :: "('v \<Rightarrow> content_digest) \<Rightarrow> 'v fixed_tier \<Rightarrow> bool" for dg where
  new: "fixed_with_capacity n = Ok t \<Longrightarrow> fixed_reachable dg t"
| place: "fixed_reachable dg t \<Longrightarrow> fixed_reachable dg (fixed_with_placement p t)"
| get: "fixed_reachable dg t \<Longrightarrow> fixed_reachable dg (snd (fixed_get dg now key t))"
| set: "fixed_reachable dg t \<Longrightarrow> fixed_reachable dg (snd (fixed_set dg now key v ttl t))"
| remove: "fixed_reachable dg t \<Longrightarrow> fixed_reachable dg (snd (fixed_remove now key t))"
| corrupt: "fixed_reachable dg t \<Longrightarrow> fixed_reachable dg (snd (fixed_corrupt now key v t))"
| nominate: "fixed_reachable dg t \<Longrightarrow> fixed_reachable dg (snd (fixed_eviction_candidate now t))"
| evict: "fixed_reachable dg t \<Longrightarrow> fixed_reachable dg (snd (fixed_remove_if_address a t))"

definition occupied :: "'v fixed_tier \<Rightarrow> nat set" where
  "occupied t = {i. \<exists>s. slot_at t i s}"

subsection \<open>What the two searches return\<close>

lemma slot_at_inj: "slot_at t i s \<Longrightarrow> slot_at t i s' \<Longrightarrow> s = s'"
  by (simp add: slot_at_def)

lemma probe_order_index:
  "probe_order n s = pre @ i # post \<Longrightarrow> i < n"
  by (metis in_set_conv_decomp lessThan_iff probe_order_set)

lemma find_slot_step_simps [simp]:
  "find_slot_step now p fp i x = Next \<longleftrightarrow> (\<forall>s. x = Some s \<longrightarrow> \<not> slot_matches p fp s)"
  "find_slot_step now p fp i x = Stop (Some j) \<longleftrightarrow>
     j = i \<and> (\<exists>s. x = Some s \<and> slot_matches p fp s \<and> \<not> slot_is_expired now s)"
  by (auto simp: find_slot_step_def split: option.split)

lemma find_empty_step_simps [simp]:
  "find_empty_step now p fp i x = Next \<longleftrightarrow>
     (\<exists>s. x = Some s \<and> \<not> slot_matches p fp s \<and> \<not> slot_is_expired now s)"
  "find_empty_step now p fp i x = Stop (Some j) \<longleftrightarrow>
     j = i \<and> (\<forall>s. x = Some s \<longrightarrow> slot_matches p fp s \<or> slot_is_expired now s)"
  "find_empty_step now p fp i x \<noteq> Stop None"
  by (auto simp: find_empty_step_def split: option.split)

lemma find_slot_hit:
  assumes "probe_order (length (ft_slots t)) (unat p) = pre @ i # post"
    and "\<And>j s. j \<in> set pre \<Longrightarrow> ft_slots t ! j = Some s \<Longrightarrow> \<not> slot_matches p fp s"
    and "ft_slots t ! i = Some s" "slot_matches p fp s"
  shows "find_slot now t p fp = (if slot_is_expired now s then None else Some i)"
  unfolding find_slot_def probe_eq_scan
  by (rule scan_hit [OF assms(1)]) (use assms in simp, simp add: find_slot_step_def assms)

lemma find_slot_SomeD:
  assumes "find_slot now t p fp = Some i"
  obtains s pre post where "slot_at t i s" "slot_matches p fp s" "\<not> slot_is_expired now s"
    and "probe_order (length (ft_slots t)) (unat p) = pre @ i # post"
    and "\<And>j s. j \<in> set pre \<Longrightarrow> ft_slots t ! j = Some s \<Longrightarrow> \<not> slot_matches p fp s"
proof -
  from assms obtain pre k post where po: "probe_order (length (ft_slots t)) (unat p) = pre @ k # post"
    and pre: "\<And>j. j \<in> set pre \<Longrightarrow> find_slot_step now p fp j (ft_slots t ! j) = Next"
    and k: "find_slot_step now p fp k (ft_slots t ! k) = Stop (Some i)"
    unfolding find_slot_def probe_eq_scan by (elim scan_SomeD) blast
  with probe_order_index [OF po] show ?thesis
    by (auto simp: slot_at_def intro!: that)
qed

lemma find_slot_none:
  "(\<And>i s. slot_at t i s \<Longrightarrow> \<not> slot_matches p fp s) \<Longrightarrow> find_slot now t p fp = None"
  unfolding find_slot_def probe_eq_scan
  by (rule scan_all_next) (simp add: slot_at_def)

lemma find_empty_SomeD:
  assumes "find_empty now t p fp = Some i"
  obtains pre post where "i < length (ft_slots t)"
    and "probe_order (length (ft_slots t)) (unat p) = pre @ i # post"
    and "\<And>j. j \<in> set pre \<Longrightarrow> \<exists>s. ft_slots t ! j = Some s \<and> \<not> slot_matches p fp s \<and>
           \<not> slot_is_expired now s"
    and "\<And>s. ft_slots t ! i = Some s \<Longrightarrow> slot_matches p fp s \<or> slot_is_expired now s"
proof -
  from assms obtain pre k post where po: "probe_order (length (ft_slots t)) (unat p) = pre @ k # post"
    and pre: "\<And>j. j \<in> set pre \<Longrightarrow> find_empty_step now p fp j (ft_slots t ! j) = Next"
    and k: "find_empty_step now p fp k (ft_slots t ! k) = Stop (Some i)"
    unfolding find_empty_def probe_eq_scan by (elim scan_SomeD) blast
  with probe_order_index [OF po] show ?thesis
    by (intro that [of pre post]) simp_all
qed

lemma find_empty_None_iff:
  "find_empty now t p fp = None \<longleftrightarrow>
     (\<forall>i < length (ft_slots t). \<exists>s. ft_slots t ! i = Some s \<and> \<not> slot_matches p fp s \<and>
        \<not> slot_is_expired now s)"
  (is "?l = ?r")
proof
  assume ?l
  then show ?r unfolding find_empty_def probe_eq_scan
    by (elim scan_NoneD [THEN disjE]) auto
next
  assume ?r
  then show ?l unfolding find_empty_def probe_eq_scan
    by (intro scan_all_next) simp
qed

lemma find_slot_cong:
  assumes "length (ft_slots t') = length (ft_slots t)"
    and "\<And>i. i < length (ft_slots t) \<Longrightarrow> ft_slots t' ! i \<noteq> ft_slots t ! i \<Longrightarrow>
      (\<forall>s. ft_slots t ! i = Some s \<longrightarrow> \<not> slot_matches p fp s) \<and>
      (\<forall>s. ft_slots t' ! i = Some s \<longrightarrow> \<not> slot_matches p fp s)"
  shows "find_slot now t' p fp = find_slot now t p fp"
  unfolding find_slot_def probe_eq_scan assms(1)
proof (rule scan_cong)
  fix i assume "i \<in> set (probe_order (length (ft_slots t)) (unat p))"
  then have "i < length (ft_slots t)" by simp
  with assms(2) [of i] show
    "find_slot_step now p fp i (ft_slots t' ! i) = find_slot_step now p fp i (ft_slots t ! i)"
    by (metis find_slot_step_simps(1))
qed


subsection \<open>Updating the table\<close>

lemma slot_at_update [simp]:
  "slot_at (t\<lparr>ft_pool := q, ft_slots := (ft_slots t)[i := x]\<rparr>) j s \<longleftrightarrow>
     (if j = i then i < length (ft_slots t) \<and> x = Some s else slot_at t j s)"
  by (auto simp: slot_at_def nth_list_update)

lemma slot_at_frame [simp]:
  "slot_at (t\<lparr>ft_pool := q\<rparr>) = slot_at t" "slot_at (t\<lparr>ft_corruptions := c\<rparr>) = slot_at t"
  "slot_at (t\<lparr>ft_cursor := u\<rparr>) = slot_at t" "slot_at (t\<lparr>ft_placement := p\<rparr>) = slot_at t"
  by (simp_all add: slot_at_def fun_eq_iff)

lemma find_slot_frame [simp]:
  "find_slot now (t\<lparr>ft_pool := q\<rparr>) = find_slot now t"
  "find_slot now (t\<lparr>ft_corruptions := c\<rparr>) = find_slot now t"
  "find_slot now (t\<lparr>ft_cursor := u\<rparr>) = find_slot now t"
  by (simp_all add: find_slot_def fun_eq_iff)

lemma fixed_wfD:
  assumes "fixed_wf t"
  shows "pool_wf (ft_pool t)" "length (ft_slots t) = pool_capacity (ft_pool t)" "ft_slots t \<noteq> []"
    and "slot_at t i s \<Longrightarrow> sl_pool_idx s \<in> pool_used (ft_pool t)"
    and "slot_at t i s \<Longrightarrow>
      sl_address s = \<lparr>ka_fingerprint = sl_fingerprint s, ka_placement = sl_placement s\<rparr>"
    and "slot_at t i s \<Longrightarrow> slot_at t j s' \<Longrightarrow> sl_pool_idx s = sl_pool_idx s' \<Longrightarrow> i = j"
    and "k \<in> pool_used (ft_pool t) \<Longrightarrow> \<exists>i s. slot_at t i s \<and> sl_pool_idx s = k"
  using assms unfolding fixed_wf_def by blast+

lemma fixed_wfI:
  assumes "pool_wf (ft_pool t)" "length (ft_slots t) = pool_capacity (ft_pool t)" "ft_slots t \<noteq> []"
    and "\<And>i s. slot_at t i s \<Longrightarrow> sl_pool_idx s \<in> pool_used (ft_pool t)"
    and "\<And>i s. slot_at t i s \<Longrightarrow>
      sl_address s = \<lparr>ka_fingerprint = sl_fingerprint s, ka_placement = sl_placement s\<rparr>"
    and "\<And>i j s s'. slot_at t i s \<Longrightarrow> slot_at t j s' \<Longrightarrow> sl_pool_idx s = sl_pool_idx s' \<Longrightarrow> i = j"
    and "\<And>k. k \<in> pool_used (ft_pool t) \<Longrightarrow> \<exists>i s. slot_at t i s \<and> sl_pool_idx s = k"
  shows "fixed_wf t"
  unfolding fixed_wf_def using assms by (intro conjI allI impI ballI) blast+

lemma fixed_wf_pool_full:
  assumes wf: "fixed_wf t" and full: "pool_used (ft_pool t) = {..<pool_capacity (ft_pool t)}"
    and i: "i < length (ft_slots t)"
  shows "ft_slots t ! i \<noteq> None"
proof
  assume none: "ft_slots t ! i = None"
  define D where "D = {j. \<exists>s. slot_at t j s}"
  define pidx where "pidx j = sl_pool_idx (the (ft_slots t ! j))" for j
  have "pool_used (ft_pool t) \<subseteq> pidx ` D"
    using fixed_wfD(7) [OF wf] by (force simp: D_def pidx_def slot_at_def)
  then have "card (pool_used (ft_pool t)) \<le> card D"
    by (rule surj_card_le [rotated]) (auto simp: D_def slot_at_def)
  also have "D \<subseteq> {..<length (ft_slots t)} - {i}"
    using none by (auto simp: D_def slot_at_def)
  then have "card D \<le> card ({..<length (ft_slots t)} - {i})"
    by (intro card_mono) auto
  also have "\<dots> < length (ft_slots t)" using i by simp
  finally show False using full fixed_wfD(2) [OF wf] by simp
qed

text \<open>The three outcomes of a write: full, overwrite in place, allocate into an empty slot.\<close>

lemma fixed_set_cases:
  assumes wf: "fixed_wf t"
  obtains (full) "find_empty now t (placement_hash (ft_placement t) key) (fingerprint_of key) = None"
      "fixed_set dg now key v ttl t = (Err CapacityExhausted, t)"
  | (stored) idx k q where
      "find_empty now t (placement_hash (ft_placement t) key) (fingerprint_of key) = Some idx"
      "idx < length (ft_slots t)"
      "fixed_set dg now key v ttl t =
         (Ok (), t\<lparr>ft_pool := q, ft_slots := (ft_slots t)[idx := Some
            \<lparr>sl_placement = placement_hash (ft_placement t) key, sl_fingerprint = fingerprint_of key,
             sl_digest = dg v, sl_pool_idx = k, sl_expiry = map_option (\<lambda>d. (now, d)) ttl,
             sl_address = address_of (ft_placement t) key\<rparr>]\<rparr>)"
      "pool_wf q" "pool_capacity q = pool_capacity (ft_pool t)" "k < pool_capacity (ft_pool t)"
      "pool_slots q = (pool_slots (ft_pool t))[k := Some v]"
      "pool_used q = insert k (pool_used (ft_pool t))"
      "(\<exists>old. slot_at t idx old \<and> sl_pool_idx old = k) \<or>
       ft_slots t ! idx = None \<and> k \<notin> pool_used (ft_pool t)"
proof (cases "find_empty now t (placement_hash (ft_placement t) key) (fingerprint_of key)")
  case None
  then show ?thesis by (intro full) (simp_all add: fixed_set_def)
next
  case (Some idx)
  then have idx: "idx < length (ft_slots t)" by (rule find_empty_SomeD)
  note pwf = fixed_wfD(1) [OF wf]
  show ?thesis
  proof (cases "ft_slots t ! idx")
    case None
    from pwf show ?thesis
    proof (cases rule: pool_allocate_cases [of _ v])
      case 1
      with fixed_wf_pool_full [OF wf 1(2) idx] None show ?thesis by simp
    next
      case (2 k q)
      with Some None idx show ?thesis
        by (intro stored [of idx k q]) (simp_all add: fixed_set_def)
    qed
  next
    case old: (Some old)
    then have at: "slot_at t idx old" using idx by (simp add: slot_at_def)
    with fixed_wfD(4) [OF wf] have used: "sl_pool_idx old \<in> pool_used (ft_pool t)" by blast
    then have "sl_pool_idx old < pool_capacity (ft_pool t)" by (simp add: pool_used_def)
    with Some old at used idx pool_get_mut_assign_used [OF pwf used] show ?thesis
      by (intro stored [of idx "sl_pool_idx old" "(ft_pool t)\<lparr>pool_slots :=
             (pool_slots (ft_pool t))[sl_pool_idx old := Some v]\<rparr>"])
         (auto simp: fixed_set_def)
  qed
qed

lemma fixed_wf_with_capacity: "fixed_with_capacity n = Ok t \<Longrightarrow> fixed_wf t"
  by (auto simp: fixed_with_capacity_def fixed_wf_def slot_at_def pool_new_def pool_used_def
      try_then_def pool_wf_def split: if_splits sum.splits)

lemma fixed_wf_put:
  assumes wf: "fixed_wf t" and idx: "idx < length (ft_slots t)"
    and q: "pool_wf q" "pool_capacity q = pool_capacity (ft_pool t)"
      "pool_used q = insert (sl_pool_idx n) (pool_used (ft_pool t))"
    and addr: "sl_address n = \<lparr>ka_fingerprint = sl_fingerprint n, ka_placement = sl_placement n\<rparr>"
    and fresh: "(\<exists>old. slot_at t idx old \<and> sl_pool_idx old = sl_pool_idx n) \<or>
       ft_slots t ! idx = None \<and> sl_pool_idx n \<notin> pool_used (ft_pool t)"
  shows "fixed_wf (t\<lparr>ft_pool := q, ft_slots := (ft_slots t)[idx := Some n]\<rparr>)" (is "fixed_wf ?t")
proof -
  note wfs = fixed_wfD [OF wf]
  have other: "sl_pool_idx s \<noteq> sl_pool_idx n" if "slot_at t j s" "j \<noteq> idx" for j s
    using fresh wfs(4,6) that by metis
  have cover: "\<exists>i s. slot_at ?t i s \<and> sl_pool_idx s = u" if u: "u \<in> pool_used q" for u
  proof (cases "u = sl_pool_idx n")
    case True
    then show ?thesis using idx by (intro exI [of _ idx] exI [of _ n]) simp
  next
    case False
    with u q wfs(7) obtain j s where "slot_at t j s" "sl_pool_idx s = u" by blast
    moreover with fresh False have "j \<noteq> idx"
      by (metis option.distinct(1) slot_at_def slot_at_inj)
    ultimately show ?thesis by (intro exI [of _ j] exI [of _ s]) simp
  qed
  show ?thesis
  proof (rule fixed_wfI)
    fix i j s s'
    show "i = j" if "slot_at ?t i s" "slot_at ?t j s'" "sl_pool_idx s = sl_pool_idx s'"
      using that other wfs(6) by (auto split: if_splits)
    show "sl_address s = \<lparr>ka_fingerprint = sl_fingerprint s, ka_placement = sl_placement s\<rparr>"
      if "slot_at ?t i s"
      using that wfs(5) addr by (auto split: if_splits)
    show "sl_pool_idx s \<in> pool_used (ft_pool ?t)" if "slot_at ?t i s"
      using that wfs(4) q by (auto split: if_splits)
  qed (use cover wfs(2,3) q(1,2) in simp_all)
qed

lemma fixed_wf_set:
  assumes wf: "fixed_wf t"
  shows "fixed_wf (snd (fixed_set dg now key v ttl t))"
  using wf
proof (cases rule: fixed_set_cases [of _ now key dg v ttl])
  case (stored idx k q)
  then show ?thesis using wf by (simp add: fixed_wf_put address_of_def)
qed (simp add: wf)

lemma fixed_wf_take_slot:
  assumes wf: "fixed_wf t" and at: "slot_at t idx s"
  shows "fixed_wf (take_slot idx t)"
proof -
  let ?q = "snd (pool_deallocate (sl_pool_idx s) (ft_pool t))"
  have take: "take_slot idx t = t\<lparr>ft_pool := ?q, ft_slots := (ft_slots t)[idx := None]\<rparr>"
    using at by (simp add: take_slot_def slot_at_def)
  note wfs = fixed_wfD [OF wf]
  note q = pool_deallocate_used [OF wfs(1) wfs(4) [OF at]]
  have other: "sl_pool_idx s' \<noteq> sl_pool_idx s" if "slot_at t j s'" "j \<noteq> idx" for j s'
    using wfs(6) that at by metis
  have cover: "\<exists>i s'. slot_at (take_slot idx t) i s' \<and> sl_pool_idx s' = u" if "u \<in> pool_used ?q" for u
  proof -
    from that q(4) wfs(7) obtain j s' where "slot_at t j s'" "sl_pool_idx s' = u"
      "u \<noteq> sl_pool_idx s"
      by blast
    moreover with at have "j \<noteq> idx" by (metis slot_at_inj)
    ultimately show ?thesis by (intro exI [of _ j] exI [of _ s']) (simp add: take)
  qed
  show ?thesis
  proof (rule fixed_wfI)
    fix i j a b
    show "i = j" if "slot_at (take_slot idx t) i a" "slot_at (take_slot idx t) j b"
      "sl_pool_idx a = sl_pool_idx b"
      using that wfs(6) by (auto simp: take split: if_splits)
    show "sl_pool_idx a \<in> pool_used (ft_pool (take_slot idx t))" if "slot_at (take_slot idx t) i a"
      using that wfs(4) q(4) other by (auto simp: take split: if_splits)
    show "sl_address a = \<lparr>ka_fingerprint = sl_fingerprint a, ka_placement = sl_placement a\<rparr>"
      if "slot_at (take_slot idx t) i a"
      using that wfs(5) by (auto simp: take split: if_splits)
  qed (use cover wfs(2,3) q(3,5) in \<open>simp_all add: take\<close>)
qed

lemma key_slot_at:
  assumes "key_slot now t key = Some idx"
  obtains s where "slot_at t idx s" "\<not> slot_is_expired now s"
    "slot_matches (placement_hash (ft_placement t) key) (fingerprint_of key) s"
  using assms unfolding key_slot_def by (elim find_slot_SomeD) blast

lemma fixed_wf_remove: "fixed_wf t \<Longrightarrow> fixed_wf (snd (fixed_remove now key t))"
  by (auto simp: fixed_remove_def split: option.split elim!: key_slot_at intro: fixed_wf_take_slot)

lemma fixed_wf_frame:
  "fixed_wf (t\<lparr>ft_corruptions := c\<rparr>) = fixed_wf t" "fixed_wf (t\<lparr>ft_cursor := u\<rparr>) = fixed_wf t"
  "fixed_wf (t\<lparr>ft_placement := p\<rparr>) = fixed_wf t"
  by (simp_all add: fixed_wf_def)

lemma fixed_wf_get: "fixed_wf t \<Longrightarrow> fixed_wf (snd (fixed_get dg now key t))"
  by (auto simp: fixed_get_def fixed_wf_frame split: option.split)

lemma fixed_wf_eviction_candidate:
  "fixed_wf t \<Longrightarrow> fixed_wf (snd (fixed_eviction_candidate now t))"
  by (auto simp: fixed_eviction_candidate_def Let_def fixed_wf_frame split: option.split)

lemma remove_if_address_cases:
  obtains (hit) idx s where "slot_at t idx s" "sl_address s = a"
      "fixed_remove_if_address a t = (Ok True, take_slot idx t)"
  | (miss) "\<And>i s. slot_at t i s \<Longrightarrow> sl_address s \<noteq> a" "fixed_remove_if_address a t = (Ok False, t)"
proof -
  let ?body = "\<lambda>idx slot. case slot of
      Some s \<Rightarrow> if sl_address s = a then Stop (Some idx) else Next | None \<Rightarrow> Next"
  let ?r = "scan ?body (ft_slots t) [0..<length (ft_slots t)]"
  show ?thesis
  proof (cases ?r)
    case None
    then have "?body i (ft_slots t ! i) = Next" if "i < length (ft_slots t)" for i
      using scan_NoneD [OF None] that by (auto split: option.splits if_splits)
    then have "sl_address s \<noteq> a" if "slot_at t i s" for i s
      using that by (fastforce simp: slot_at_def)
    with None miss show ?thesis by (simp add: fixed_remove_if_address_def)
  next
    case (Some idx)
    then obtain pre k post where ks: "[0..<length (ft_slots t)] = pre @ k # post"
      and k: "?body k (ft_slots t ! k) = Stop (Some idx)" by (elim scan_SomeD) blast
    have "k < length (ft_slots t)"
      using arg_cong [OF ks, of set] by auto
    with k Some hit [of idx] show ?thesis
      by (auto simp: fixed_remove_if_address_def slot_at_def split: option.splits if_splits)
  qed
qed

lemma fixed_wf_corrupt:
  assumes "fixed_wf t"
  shows "fixed_wf (snd (fixed_corrupt now key v t))"
proof (cases "key_slot now t key")
  case (Some idx)
  then obtain s where at: "slot_at t idx s" by (rule key_slot_at)
  note q = pool_get_mut_assign_used [OF fixed_wfD(1) [OF assms] fixed_wfD(4) [OF assms at], of v]
  have "fixed_wf (t\<lparr>ft_pool := snd (pool_get_mut_assign (sl_pool_idx s) v (ft_pool t))\<rparr>)"
    using assms q by (simp add: fixed_wf_def)
  with Some at show ?thesis by (simp add: fixed_corrupt_def slot_at_def)
qed (simp add: fixed_corrupt_def assms)

lemma fixed_wf_occupied:
  assumes "fixed_wf t"
  shows "length (pool_free (ft_pool t)) + card (occupied t) = fixed_capacity t"
proof -
  have "bij_betw (\<lambda>i. sl_pool_idx (the (ft_slots t ! i))) (occupied t) (pool_used (ft_pool t))"
    unfolding bij_betw_def inj_on_def
    using fixed_wfD(4,6,7) [OF assms]
    by (fastforce simp: occupied_def slot_at_def image_iff)
  then have "card (occupied t) = card (pool_used (ft_pool t))" by (rule bij_betw_same_card)
  with pool_wf_card [OF fixed_wfD(1) [OF assms]] fixed_wfD(2) [OF assms] show ?thesis
    by (simp add: fixed_capacity_def)
qed

lemma fixed_wf_remove_if_address:
  "fixed_wf t \<Longrightarrow> fixed_wf (snd (fixed_remove_if_address a t))"
  by (cases rule: remove_if_address_cases [of t a]) (auto intro: fixed_wf_take_slot)


lemma fixed_wf_reachable: "fixed_reachable dg t \<Longrightarrow> fixed_wf t"
  by (induction rule: fixed_reachable.induct)
     (simp_all add: fixed_wf_with_capacity fixed_wf_get fixed_wf_set fixed_wf_remove fixed_wf_corrupt
        fixed_wf_eviction_candidate fixed_wf_remove_if_address fixed_wf_frame fixed_with_placement_def)

subsection \<open>Reads after writes and removals\<close>

lemma fixed_get_found:
  assumes wf: "fixed_wf t" and slot: "key_slot now t key = Some idx" and at: "slot_at t idx s"
  obtains v where "pool_slots (ft_pool t) ! sl_pool_idx s = Some v"
    "fixed_get dg now key t =
       (if dg v = sl_digest s then (Ok (Some v), t)
        else (Err Corrupted, t\<lparr>ft_corruptions := ft_corruptions t + 1\<rparr>))"
proof -
  have used: "sl_pool_idx s \<in> pool_used (ft_pool t)" by (rule fixed_wfD(4) [OF wf at])
  then obtain v where "pool_slots (ft_pool t) ! sl_pool_idx s = Some v" by (auto simp: pool_used_def)
  moreover with used have "pool_get (ft_pool t) (sl_pool_idx s) = Some v" by (simp add: pool_get_used)
  ultimately show ?thesis using slot at by (intro that) (auto simp: fixed_get_def slot_at_def)
qed

lemma fixed_get_absent: "key_slot now t key = None \<Longrightarrow> fixed_get dg now key t = (Ok None, t)"
  by (simp add: fixed_get_def)

lemma fixed_get_transfer:
  assumes wf: "fixed_wf t" and wf': "fixed_wf t'"
    and ks: "key_slot now t' key = key_slot now t key"
    and same: "\<And>idx s. key_slot now t key = Some idx \<Longrightarrow> slot_at t idx s \<Longrightarrow>
      slot_at t' idx s \<and> pool_slots (ft_pool t') ! sl_pool_idx s = pool_slots (ft_pool t) ! sl_pool_idx s"
  shows "fst (fixed_get dg now key t') = fst (fixed_get dg now key t)"
proof (cases "key_slot now t key")
  case None
  with ks show ?thesis by (simp add: fixed_get_absent)
next
  case (Some idx)
  then obtain s where at: "slot_at t idx s" by (rule key_slot_at)
  from same [OF Some at] have at': "slot_at t' idx s"
    and v: "pool_slots (ft_pool t') ! sl_pool_idx s = pool_slots (ft_pool t) ! sl_pool_idx s" by auto
  have "key_slot now t' key = Some idx" using ks Some by simp
  then show ?thesis
    using fixed_get_found [OF wf Some at, of dg] fixed_get_found [OF wf' _ at', of now key dg] v
    by (smt (verit, ccfv_threshold) fst_conv option.inject)
qed

lemma key_slot_after_set:
  assumes wf: "fixed_wf t" and set: "fixed_set dg now key v ttl t = (Ok (), t')"
  obtains idx k where "slot_at t' idx
      \<lparr>sl_placement = placement_hash (ft_placement t) key, sl_fingerprint = fingerprint_of key,
       sl_digest = dg v, sl_pool_idx = k, sl_expiry = map_option (\<lambda>d. (now, d)) ttl,
       sl_address = address_of (ft_placement t) key\<rparr>"
    "pool_slots (ft_pool t') ! k = Some v"
    "key_slot now' t' key =
       (case ttl of Some d \<Rightarrow> if elapsed_ge now' now d then None else Some idx | None \<Rightarrow> Some idx)"
  using wf
proof (cases rule: fixed_set_cases [of _ now key dg v ttl])
  case full
  with set show ?thesis by simp
next
  case (stored idx k q)
  let ?n = "\<lparr>sl_placement = placement_hash (ft_placement t) key, sl_fingerprint = fingerprint_of key,
       sl_digest = dg v, sl_pool_idx = k, sl_expiry = map_option (\<lambda>d. (now, d)) ttl,
       sl_address = address_of (ft_placement t) key\<rparr>"
  have t': "t' = t\<lparr>ft_pool := q, ft_slots := (ft_slots t)[idx := Some ?n]\<rparr>"
    using set stored(3) by simp
  from stored(1) obtain pre post where
    po: "probe_order (length (ft_slots t)) (unat (placement_hash (ft_placement t) key)) = pre @ idx # post"
    and pre: "\<And>j. j \<in> set pre \<Longrightarrow> \<exists>s. ft_slots t ! j = Some s \<and>
      \<not> slot_matches (placement_hash (ft_placement t) key) (fingerprint_of key) s \<and>
      \<not> slot_is_expired now s"
    by (elim find_empty_SomeD) blast
  have "idx \<notin> set pre" using po by (metis distinct_append not_distinct_conv_prefix probe_order_distinct)
  have "key_slot now' t' key = (if slot_is_expired now' ?n then None else Some idx)"
    unfolding key_slot_def
  proof (rule find_slot_hit)
    show "probe_order (length (ft_slots t')) (unat (placement_hash (ft_placement t') key)) =
        pre @ idx # post"
      using po by (simp add: t')
    show "\<not> slot_matches (placement_hash (ft_placement t') key) (fingerprint_of key) s"
      if "j \<in> set pre" "ft_slots t' ! j = Some s" for j s
    proof -
      have "idx \<noteq> j" using that(1) \<open>idx \<notin> set pre\<close> by blast
      with that pre [OF that(1)] show ?thesis by (auto simp: t')
    qed
    show "ft_slots t' ! idx = Some ?n" using stored(2) by (simp add: t')
  qed (simp add: t' slot_matches_def)
  moreover have "pool_slots (ft_pool t') ! k = Some v"
    using stored(4,6,7,5) fixed_wfD(1) [OF wf] by (simp add: t' pool_wf_def)
  ultimately show ?thesis
    using stored(2) by (intro that [of idx k]) (auto simp: t' slot_is_expired_def split: option.split)
qed

lemma fixed_get_after_set:
  assumes wf: "fixed_wf t" and set: "fixed_set dg now key v ttl t = (Ok (), t')"
  shows "fst (fixed_get dg now' key t') = Ok (if unexpired ttl now now' then Some v else None)"
proof -
  from fixed_wf_set [OF wf, of dg now key v ttl] set have wf': "fixed_wf t'" by simp
  obtain idx k where at: "slot_at t' idx
      \<lparr>sl_placement = placement_hash (ft_placement t) key, sl_fingerprint = fingerprint_of key,
       sl_digest = dg v, sl_pool_idx = k, sl_expiry = map_option (\<lambda>d. (now, d)) ttl,
       sl_address = address_of (ft_placement t) key\<rparr>"
    and v: "pool_slots (ft_pool t') ! k = Some v"
    and ks: "key_slot now' t' key =
       (case ttl of Some d \<Rightarrow> if elapsed_ge now' now d then None else Some idx | None \<Rightarrow> Some idx)"
    by (rule key_slot_after_set [OF wf set])
  show ?thesis
  proof (cases "unexpired ttl now now'")
    case True
    with ks have "key_slot now' t' key = Some idx" by (auto simp: unexpired_def split: option.splits)
    then obtain u where "pool_slots (ft_pool t') ! k = Some u" "fixed_get dg now' key t' =
       (if dg u = dg v then (Ok (Some u), t')
        else (Err Corrupted, t'\<lparr>ft_corruptions := ft_corruptions t' + 1\<rparr>))"
      by (elim fixed_get_found [OF wf' _ at, of now' key dg]) simp
    with v True show ?thesis by simp
  next
    case False
    with ks have "key_slot now' t' key = None"
      by (auto simp: unexpired_def split: option.splits if_splits)
    with False show ?thesis by (simp add: fixed_get_absent)
  qed
qed

lemma address_of_eq_iff:
  "address_of p k = address_of p k' \<longleftrightarrow>
     fingerprint_of k = fingerprint_of k' \<and> placement_hash p k = placement_hash p k'"
  by (simp add: address_of_def)

lemma slot_matches_iff_address:
  assumes "fixed_wf t" "slot_at t i s"
  shows "slot_matches (placement_hash p key) (fingerprint_of key) s \<longleftrightarrow> sl_address s = address_of p key"
  using fixed_wfD(5) [OF assms] by (auto simp: slot_matches_def address_of_def)

lemma take_slot_simps:
  assumes "slot_at t idx s"
  shows "take_slot idx t = t\<lparr>ft_pool := snd (pool_deallocate (sl_pool_idx s) (ft_pool t)),
    ft_slots := (ft_slots t)[idx := None]\<rparr>"
  using assms by (simp add: take_slot_def slot_at_def)

text \<open>Emptying a slot is invisible to every key with another address.\<close>

lemma fixed_get_take_slot_other:
  assumes wf: "fixed_wf t" and at: "slot_at t idx s"
    and foreign: "sl_address s \<noteq> address_of (ft_placement t) key"
  shows "fst (fixed_get dg now key (take_slot idx t)) = fst (fixed_get dg now key t)"
proof (rule fixed_get_transfer [OF wf fixed_wf_take_slot [OF wf at]])
  let ?t = "take_slot idx t"
  have nomatch: "\<not> slot_matches (placement_hash (ft_placement t) key) (fingerprint_of key) s"
    using slot_matches_iff_address [OF wf at] foreign by simp
  show "key_slot now ?t key = key_slot now t key"
    unfolding key_slot_def
    by (simp add: take_slot_simps [OF at], rule find_slot_cong)
       (use nomatch at in \<open>auto simp: nth_list_update slot_at_def split: if_splits\<close>)
  fix j s' assume ks: "key_slot now t key = Some j" and at': "slot_at t j s'"
  from ks have "j \<noteq> idx"
    by (rule key_slot_at) (use nomatch at in \<open>auto dest: slot_at_inj\<close>)
  moreover from this at at' have "sl_pool_idx s' \<noteq> sl_pool_idx s" using fixed_wfD(6) [OF wf] by metis
  ultimately show "slot_at ?t j s' \<and>
      pool_slots (ft_pool ?t) ! sl_pool_idx s' = pool_slots (ft_pool t) ! sl_pool_idx s'"
    using at' pool_deallocate_used(2) [OF fixed_wfD(1,4) [OF wf]] wf at
    by (simp add: take_slot_simps [OF at] pool_deallocate_used(2) [OF fixed_wfD(1) [OF wf] fixed_wfD(4) [OF wf at]])
qed

lemma fixed_get_remove_other:
  assumes wf: "fixed_wf t"
    and foreign: "address_of (ft_placement t) key \<noteq> address_of (ft_placement t) key'"
  shows "fst (fixed_get dg now' key' (snd (fixed_remove now key t))) = fst (fixed_get dg now' key' t)"
proof (cases "key_slot now t key")
  case None
  then show ?thesis by (simp add: fixed_remove_def)
next
  case (Some idx)
  then obtain s where at: "slot_at t idx s"
    and "slot_matches (placement_hash (ft_placement t) key) (fingerprint_of key) s"
    by (rule key_slot_at)
  then have "sl_address s = address_of (ft_placement t) key"
    using slot_matches_iff_address [OF wf at] by blast
  with Some fixed_get_take_slot_other [OF wf at] foreign show ?thesis by (simp add: fixed_remove_def)
qed


lemma fixed_uniqueD:
  "fixed_unique t \<Longrightarrow> slot_at t i s \<Longrightarrow> slot_at t j s' \<Longrightarrow> sl_address s = sl_address s' \<Longrightarrow> i = j"
  unfolding fixed_unique_def by blast

lemma slot_is_expired_mono: "slot_is_expired now s \<Longrightarrow> now \<le> now' \<Longrightarrow> slot_is_expired now' s"
  by (auto simp: slot_is_expired_def elapsed_ge_def split: option.splits)

lemma fixed_get_remove_same:
  assumes wf: "fixed_wf t" and un: "fixed_unique t" and later: "now \<le> now'"
  shows "fst (fixed_get dg now' key (snd (fixed_remove now key t))) = Ok None"
proof -
  let ?a = "address_of (ft_placement t) key"
  have "key_slot now' (snd (fixed_remove now key t)) key = None"
  proof (cases "key_slot now t key")
    case None
    have "key_slot now' t key = None"
    proof (rule ccontr)
      assume "key_slot now' t key \<noteq> None"
      then obtain i where i: "key_slot now' t key = Some i" by blast
      then obtain s pre post where "slot_at t i s"
        "slot_matches (placement_hash (ft_placement t) key) (fingerprint_of key) s"
        "\<not> slot_is_expired now' s"
        and "probe_order (length (ft_slots t)) (unat (placement_hash (ft_placement t) key)) = pre @ i # post"
        and "\<And>j s. j \<in> set pre \<Longrightarrow> ft_slots t ! j = Some s \<Longrightarrow>
          \<not> slot_matches (placement_hash (ft_placement t) key) (fingerprint_of key) s"
        unfolding key_slot_def by (elim find_slot_SomeD) blast
      then have "key_slot now t key = (if slot_is_expired now s then None else Some i)"
        unfolding key_slot_def by (intro find_slot_hit) (auto simp: slot_at_def)
      with None \<open>\<not> slot_is_expired now' s\<close> later show False
        by (auto dest: slot_is_expired_mono split: if_splits)
    qed
    with None show ?thesis by (simp add: fixed_remove_def)
  next
    case (Some idx)
    then obtain s where at: "slot_at t idx s"
      and m: "slot_matches (placement_hash (ft_placement t) key) (fingerprint_of key) s"
      by (rule key_slot_at)
    have "\<not> slot_matches (placement_hash (ft_placement t) key) (fingerprint_of key) s'"
      if "slot_at (take_slot idx t) i s'" for i s'
    proof
      assume m': "slot_matches (placement_hash (ft_placement t) key) (fingerprint_of key) s'"
      have "i \<noteq> idx" "slot_at t i s'" using that by (auto simp: take_slot_simps [OF at] split: if_splits)
      with un at m m' show False
        using slot_matches_iff_address [OF wf] fixed_uniqueD by metis
    qed
    then have "find_slot now' (take_slot idx t) (placement_hash (ft_placement t) key)
        (fingerprint_of key) = None"
      by (rule find_slot_none)
    moreover have "snd (fixed_remove now key t) = take_slot idx t"
      by (simp add: fixed_remove_def Some)
    ultimately show ?thesis by (simp add: key_slot_def take_slot_simps [OF at])
  qed
  then show ?thesis by (simp add: fixed_get_absent)
qed

text \<open>Without duplicates, a write is invisible to every other key.\<close>

lemma fixed_get_set_other:
  assumes wf: "fixed_wf t" and un: "fixed_unique t" and later: "now \<le> now'"
    and foreign: "address_of (ft_placement t) key \<noteq> address_of (ft_placement t) key'"
  shows "fst (fixed_get dg now' key' (snd (fixed_set dg now key v ttl t))) = fst (fixed_get dg now' key' t)"
  using wf
proof (cases rule: fixed_set_cases [of _ now key dg v ttl])
  case (stored idx k q)
  let ?p = "placement_hash (ft_placement t) key'" and ?f = "fingerprint_of key'"
  define n where "n = \<lparr>sl_placement = placement_hash (ft_placement t) key,
    sl_fingerprint = fingerprint_of key, sl_digest = dg v, sl_pool_idx = k,
    sl_expiry = map_option (\<lambda>d. (now, d)) ttl, sl_address = address_of (ft_placement t) key\<rparr>"
  define t' where "t' = t\<lparr>ft_pool := q, ft_slots := (ft_slots t)[idx := Some n]\<rparr>"
  have t'_eq: "snd (fixed_set dg now key v ttl t) = t'" by (simp add: stored(3) t'_def n_def)
  have wf': "fixed_wf t'" using fixed_wf_set [OF wf, of dg now key v ttl] by (simp add: t'_eq)
  have n_no: "\<not> slot_matches ?p ?f n"
    using foreign by (auto simp: n_def slot_matches_def address_of_eq_iff)
  show ?thesis
  proof (cases "\<exists>old. slot_at t idx old \<and> slot_matches ?p ?f old")
    case True
    then obtain old where at: "slot_at t idx old" and m: "slot_matches ?p ?f old" by blast
    have uniq: "i = idx" if "slot_at t i s" "slot_matches ?p ?f s" for i s
      using slot_matches_iff_address [OF wf] at m that fixed_uniqueD [OF un] by metis
    have "\<not> slot_matches (placement_hash (ft_placement t) key) (fingerprint_of key) old"
      using m foreign by (auto simp: slot_matches_def address_of_eq_iff)
    then have "slot_is_expired now old"
      using stored(1) at by (elim find_empty_SomeD) (auto simp: slot_at_def)
    then have exp: "slot_is_expired now' old" using later by (rule slot_is_expired_mono)
    have "key_slot now' t key' = None"
    proof (rule ccontr)
      assume "key_slot now' t key' \<noteq> None"
      then obtain i where "key_slot now' t key' = Some i" by blast
      then show False by (rule key_slot_at) (use uniq at exp slot_at_inj in metis)
    qed
    moreover have "key_slot now' t' key' = None" unfolding key_slot_def
      by (simp add: t'_def, rule find_slot_none)
         (use uniq n_no in \<open>auto split: if_splits\<close>)
    ultimately show ?thesis by (simp add: t'_eq fixed_get_absent)
  next
    case False
    have "key_slot now' t' key' = key_slot now' t key'" unfolding key_slot_def
      by (simp add: t'_def, rule find_slot_cong)
         (use False n_no stored(2) in \<open>auto simp: nth_list_update slot_at_def split: if_splits\<close>)
    then show ?thesis unfolding t'_eq
    proof (rule fixed_get_transfer [OF wf wf'])
      fix j s assume ks: "key_slot now' t key' = Some j" and at: "slot_at t j s"
      from ks have "j \<noteq> idx" by (rule key_slot_at) (use False in blast)
      moreover from this have "sl_pool_idx s \<noteq> k"
        using stored(9) at fixed_wfD(4,6) [OF wf] by metis
      ultimately show "slot_at t' j s \<and>
          pool_slots (ft_pool t') ! sl_pool_idx s = pool_slots (ft_pool t) ! sl_pool_idx s"
        using at stored(7) by (simp add: t'_def)
    qed
  qed
qed simp

lemma fixed_set_fails_iff:
  assumes "fixed_wf t"
  shows "fst (fixed_set dg now key v ttl t) \<noteq> Ok () \<longleftrightarrow>
    (\<forall>i < length (ft_slots t). \<exists>s. ft_slots t ! i = Some s \<and> \<not> slot_is_expired now s \<and>
       sl_address s \<noteq> address_of (ft_placement t) key)"
proof -
  have "(\<exists>s. ft_slots t ! i = Some s \<and> \<not> slot_matches (placement_hash (ft_placement t) key)
        (fingerprint_of key) s \<and> \<not> slot_is_expired now s) \<longleftrightarrow>
     (\<exists>s. ft_slots t ! i = Some s \<and> \<not> slot_is_expired now s \<and>
       sl_address s \<noteq> address_of (ft_placement t) key)" if "i < length (ft_slots t)" for i
    using slot_matches_iff_address [OF assms, of i] that by (auto simp: slot_at_def)
  then have eq: "find_empty now t (placement_hash (ft_placement t) key) (fingerprint_of key) = None \<longleftrightarrow>
    (\<forall>i < length (ft_slots t). \<exists>s. ft_slots t ! i = Some s \<and> \<not> slot_is_expired now s \<and>
       sl_address s \<noteq> address_of (ft_placement t) key)"
    by (simp add: find_empty_None_iff)
  from assms show ?thesis
    by (cases rule: fixed_set_cases [of _ now key dg v ttl]) (simp_all add: eq [symmetric])
qed

lemma fixed_set_error:
  assumes "fixed_wf t" "fst (fixed_set dg now key v ttl t) = Err e"
  shows "e = CapacityExhausted" "snd (fixed_set dg now key v ttl t) = t"
  using assms by (cases rule: fixed_set_cases [of t now key dg v ttl]; simp)+

lemma fixed_get_after_corrupt:
  assumes wf: "fixed_wf t" and get: "fixed_get dg now key t = (Ok (Some v), t)"
    and diff: "dg w \<noteq> dg v"
  shows "fixed_corrupt now key w t = (Ok True, snd (fixed_corrupt now key w t))"
    and "fst (fixed_get dg now key (snd (fixed_corrupt now key w t))) = Err Corrupted"
    and "ft_corruptions (snd (fixed_get dg now key (snd (fixed_corrupt now key w t)))) =
      ft_corruptions t + 1"
proof -
  from get obtain idx where ks: "key_slot now t key = Some idx"
    by (cases "key_slot now t key") (auto simp: fixed_get_absent)
  then obtain s where at: "slot_at t idx s" by (rule key_slot_at)
  from fixed_get_found [OF wf ks at, of dg] get have dig: "dg v = sl_digest s"
    by (metis Inl_Inr_False Inr_inject fst_conv option.inject)
  have used: "sl_pool_idx s \<in> pool_used (ft_pool t)" by (rule fixed_wfD(4) [OF wf at])
  note pm = pool_get_mut_assign_used [OF fixed_wfD(1) [OF wf] used, of w]
  have slot: "ft_slots t ! idx = Some s" using at by (simp add: slot_at_def)
  have c: "fixed_corrupt now key w t = (Ok True, t\<lparr>ft_pool := (ft_pool t)\<lparr>pool_slots :=
      (pool_slots (ft_pool t))[sl_pool_idx s := Some w]\<rparr>\<rparr>)"
    by (simp add: fixed_corrupt_def ks slot pm)
  then show "fixed_corrupt now key w t = (Ok True, snd (fixed_corrupt now key w t))" by simp
  have "sl_pool_idx s < pool_capacity (ft_pool t)"
    "sl_pool_idx s < length (pool_slots (ft_pool t))"
    using used fixed_wfD(1) [OF wf] by (simp_all add: pool_used_def pool_wf_def)
  then have "fixed_get dg now key (snd (fixed_corrupt now key w t)) =
     (Err Corrupted, (snd (fixed_corrupt now key w t))\<lparr>ft_corruptions := ft_corruptions t + 1\<rparr>)"
    using ks slot diff dig by (simp add: c fixed_get_def key_slot_def pool_get_def)
  then show "fst (fixed_get dg now key (snd (fixed_corrupt now key w t))) = Err Corrupted"
    and "ft_corruptions (snd (fixed_get dg now key (snd (fixed_corrupt now key w t)))) =
      ft_corruptions t + 1"
    by simp_all
qed


subsection \<open>Eviction\<close>

lemma live_address_SomeD:
  "live_address now x = Some a \<longleftrightarrow> (\<exists>s. x = Some s \<and> \<not> slot_is_expired now s \<and> sl_address s = a)"
  by (auto simp: live_address_def split: option.splits)

lemma eviction_candidate_live:
  assumes live: "slot_at t i s" "\<not> slot_is_expired now s"
  obtains j s' where "slot_at t j s'" "\<not> slot_is_expired now s'"
    "fixed_eviction_candidate now t = (Some (sl_address s'), t\<lparr>ft_cursor := of_nat (j + 1)\<rparr>)"
proof -
  let ?n = "length (ft_slots t)"
  let ?body = "\<lambda>idx slot. case live_address now slot of Some a \<Rightarrow> Stop (Some (idx, a)) | None \<Rightarrow> Next"
  let ?ks = "probe_order ?n (unat (ft_cursor t) mod ?n)"
  have "?n \<noteq> 0" "i \<in> set ?ks" using live(1) by (auto simp: slot_at_def)
  have ni: "?body i (ft_slots t ! i) = Stop (Some (i, sl_address s))"
    using live by (simp add: slot_at_def live_address_def)
  have "scan ?body (ft_slots t) ?ks \<noteq> None"
  proof
    assume "scan ?body (ft_slots t) ?ks = None"
    from scan_NoneD [OF this] \<open>i \<in> set ?ks\<close> ni show False by (auto split: option.splits)
  qed
  then obtain j a where r: "scan ?body (ft_slots t) ?ks = Some (j, a)" by auto
  then obtain pre k post where ks: "?ks = pre @ k # post"
    and k: "?body k (ft_slots t ! k) = Stop (Some (j, a))" by (elim scan_SomeD) blast
  from k obtain s' where "k = j" "ft_slots t ! j = Some s'" "\<not> slot_is_expired now s'"
    "sl_address s' = a"
    by (auto simp: live_address_SomeD split: option.splits)
  moreover have "k < ?n" using ks by (rule probe_order_index)
  ultimately show ?thesis
    using r \<open>?n \<noteq> 0\<close> by (intro that [of j s']) (auto simp: fixed_eviction_candidate_def Let_def slot_at_def)
qed

lemma eviction_candidate_full:
  assumes full: "\<And>i. i < length (ft_slots t) \<Longrightarrow>
      \<exists>s. ft_slots t ! i = Some s \<and> \<not> slot_is_expired now s"
    and ne: "ft_slots t \<noteq> []"
  shows "fixed_eviction_candidate now t =
    (Some (sl_address (the (ft_slots t ! (unat (ft_cursor t) mod length (ft_slots t))))),
     t\<lparr>ft_cursor := of_nat (unat (ft_cursor t) mod length (ft_slots t) + 1)\<rparr>)"
proof -
  let ?n = "length (ft_slots t)"
  let ?i = "unat (ft_cursor t) mod ?n"
  have i: "?i < ?n" using ne by simp
  then obtain s where s: "ft_slots t ! ?i = Some s" "\<not> slot_is_expired now s" using full by blast
  have "probe_order ?n ?i = ?i # map (\<lambda>j. (?i + j) mod ?n) [Suc 0..<?n]"
    using ne i by (simp add: probe_order_def upt_conv_Cons)
  with s ne show ?thesis
    by (simp add: fixed_eviction_candidate_def Let_def live_address_def)
qed

fun eviction_round :: "instant \<Rightarrow> nat \<Rightarrow> 'v fixed_tier \<Rightarrow> key_address option list" where
  "eviction_round now 0 t = []"
| "eviction_round now (Suc k) t =
     (let (c, t') = fixed_eviction_candidate now t in c # eviction_round now k t')"

lemma eviction_round_full:
  assumes full: "\<And>i. i < length (ft_slots t) \<Longrightarrow>
      \<exists>s. ft_slots t ! i = Some s \<and> \<not> slot_is_expired now s"
    and ne: "ft_slots t \<noteq> []" and small: "length (ft_slots t) < 2 ^ 64"
  shows "eviction_round now k t =
    map (\<lambda>j. Some (sl_address (the (ft_slots t ! ((unat (ft_cursor t) + j) mod length (ft_slots t))))))
      [0..<k]"
proof -
  have "eviction_round now k (t\<lparr>ft_cursor := c\<rparr>) =
    map (\<lambda>j. Some (sl_address (the (ft_slots t ! ((unat c + j) mod length (ft_slots t)))))) [0..<k]"
    for c
  proof (induction k arbitrary: c)
    case (Suc k)
    let ?n = "length (ft_slots t)"
    let ?i = "unat c mod ?n"
    have "?i < ?n" using ne by simp
    then have "?i + 1 < 2 ^ 64" using small by linarith
    then have u: "unat (of_nat (?i + 1) :: u64) = ?i + 1"
      by (rule unat_of_nat_u64)
    have "(?i + 1 + j) mod ?n = (unat c + Suc j) mod ?n" for j
      by (metis add_Suc_right add.commute add.left_commute mod_add_left_eq plus_1_eq_Suc)
    then show ?case
      using eviction_candidate_full [of "t\<lparr>ft_cursor := c\<rparr>" now] full ne
        Suc.IH [of "of_nat (?i + 1)"] u
      by (simp add: map_upt_Suc del: upt_Suc of_nat_add of_nat_Suc)
  qed simp
  from this [of "ft_cursor t"] show ?thesis by simp
qed


subsection \<open>The table as a value store\<close>

lemma fixed_frame_placement [simp]:
  "ft_placement (snd (fixed_get dg now key t)) = ft_placement t"
  "ft_placement (snd (fixed_remove now key t)) = ft_placement t"
  by (auto simp: fixed_get_def fixed_remove_def take_slot_def split: option.split)

lemma fixed_set_placement [simp]:
  "ft_placement (snd (fixed_set dg now key v ttl t)) = ft_placement t"
  by (auto simp: fixed_set_def Let_def split: option.split sum.split prod.split)

lemma fixed_get_after_get:
  "fst (fixed_get dg now' key' (snd (fixed_get dg now key t))) = fst (fixed_get dg now' key' t)"
proof -
  have "snd (fixed_get dg now key t) = t \<or>
      snd (fixed_get dg now key t) = t\<lparr>ft_corruptions := ft_corruptions t + 1\<rparr>"
    by (auto simp: fixed_get_def split: option.split)
  moreover have "fst (fixed_get dg now' key' (t\<lparr>ft_corruptions := c\<rparr>)) = fst (fixed_get dg now' key' t)"
    for c
    by (auto simp: fixed_get_def key_slot_def split: option.split)
  ultimately show ?thesis by auto
qed

interpretation fixed_store: value_store fixed_wf "\<lambda>t. address_of (ft_placement t)"
  "fixed_get dg" "fixed_set dg" fixed_remove
  for dg :: "'v \<Rightarrow> content_digest"
  by unfold_locales
     (simp_all add: fixed_wf_get fixed_wf_set fixed_wf_remove fixed_get_after_set fixed_set_error
        fixed_get_after_get fixed_get_remove_other)


lemma take_slot_frees:
  assumes "slot_at t idx s"
  shows "ft_slots (take_slot idx t) ! idx = None" "length (ft_slots (take_slot idx t)) = length (ft_slots t)"
  using assms by (simp_all add: take_slot_simps [OF assms]) (simp add: slot_at_def)

lemma evict_then_set:
  assumes wf: "fixed_wf t" and fails: "fst (fixed_set dg now key v ttl t) \<noteq> Ok ()"
  obtains a t1 where "fixed_eviction_candidate now t = (Some a, t1)"
    "fst (fixed_remove_if_address a t1) = Ok True"
    "fst (fixed_set dg now' key v ttl (snd (fixed_remove_if_address a t1))) = Ok ()"
proof -
  have "0 < length (ft_slots t)" using fixed_wfD(3) [OF wf] by simp
  with fixed_set_fails_iff [OF wf] fails obtain s where "slot_at t 0 s" "\<not> slot_is_expired now s"
    by (auto simp: slot_at_def)
  then obtain j s' where at: "slot_at t j s'" and
    c: "fixed_eviction_candidate now t = (Some (sl_address s'), t\<lparr>ft_cursor := of_nat (j + 1)\<rparr>)"
    by (rule eviction_candidate_live)
  let ?t1 = "t\<lparr>ft_cursor := of_nat (j + 1)\<rparr>"
  have wf1: "fixed_wf ?t1" using wf by (simp only: fixed_wf_frame)
  show ?thesis
  proof (cases rule: remove_if_address_cases [of ?t1 "sl_address s'"])
    case (hit i u)
    have "fst (fixed_set dg now' key v ttl (take_slot i ?t1)) = Ok ()"
      using fixed_set_fails_iff [OF fixed_wf_take_slot [OF wf1 hit(1)], of dg now' key v ttl]
        take_slot_frees [OF hit(1)] hit(1)
      by (metis option.distinct(1) slot_at_def)
    with c hit(3) show ?thesis by (intro that [of "sl_address s'" ?t1]) simp_all
  next
    case miss
    from at have "slot_at ?t1 j s'" by (simp only: slot_at_frame)
    with miss(1) show ?thesis by blast
  qed
qed


subsection \<open>Properties\<close>

text \<open>A small table for the worked instances: every key is placed at slot 0.\<close>

definition demo_table :: "nat \<Rightarrow> bytes fixed_tier" where
  "demo_table n = \<lparr>ft_pool = \<lparr>pool_slots = replicate n None, pool_free = [0..<n], pool_capacity = n\<rparr>,
     ft_slots = replicate n None, ft_placement = AllToZero, ft_corruptions = 0, ft_cursor = 0\<rparr>"

lemma demo_table_reachable: "0 < n \<Longrightarrow> fixed_reachable dg (demo_table n)"
proof -
  assume "0 < n"
  then have "fixed_with_capacity n = Ok ((demo_table n)\<lparr>ft_placement := PlaceDefault\<rparr>)"
    by (simp add: fixed_with_capacity_def pool_new_def demo_table_def)
  then have "fixed_reachable dg (fixed_with_placement AllToZero
      ((demo_table n)\<lparr>ft_placement := PlaceDefault\<rparr>))"
    by (intro fixed_reachable.place) (rule fixed_reachable.new)
  then show ?thesis by (simp add: fixed_with_placement_def demo_table_def)
qed

lemma demo_table_wf: "0 < n \<Longrightarrow> fixed_wf (demo_table n)"
  by (rule fixed_wf_reachable [OF demo_table_reachable])

text \<open>
  C18: read your write. On a well-formed slot table, after a write that succeeded, a read of the
  same key returns the value as long as its TTL has not run out, whatever reads of any key and
  removals of other keys happen in between.
\<close>

theorem fixed_read_your_write:
  assumes "fixed_wf t" and "fixed_set dg now key v ttl t = (Ok (), t')"
    and "unexpired ttl now now'"
    and "list_all (harmless (address_of (ft_placement t)) key) calls"
  shows "fst (fixed_get dg now' key (run_calls (fixed_get dg) fixed_remove calls t')) = Ok (Some v)"
  using assms by (rule fixed_store.read_your_write)

theorem fixed_read_your_write_witness:
  "fst (fixed_get digest_of_bytes 14 [1]
     (run_calls (fixed_get digest_of_bytes) fixed_remove [CallGet 11 [1], CallRemove 12 [2]]
       (snd (fixed_set digest_of_bytes 10 [1] [7, 8] (Some 5) (demo_table 2))))) = Ok (Some [7, 8])"
proof (rule fixed_read_your_write [OF demo_table_wf])
  show "fixed_set digest_of_bytes 10 [1] [7, 8] (Some 5) (demo_table 2) =
      (Ok (), snd (fixed_set digest_of_bytes 10 [1] [7, 8] (Some 5) (demo_table 2)))"
    (is "?r = _")
  proof -
    have "fst ?r = Ok ()" by code_simp
    then show ?thesis by (simp add: prod_eq_iff)
  qed
  show "list_all (harmless (address_of (ft_placement (demo_table 2))) [1])
      [CallGet 11 [1], CallRemove 12 [2]]"
    by code_simp
qed (simp_all add: unexpired_def elapsed_ge_def)

text \<open>
  C19: the pool never leaks. In every table that calls of the interface can produce, each occupied
  slot owns its own pool entry, and the free entries and the occupied slots together are exactly
  the capacity.
\<close>

theorem fixed_no_leak:
  assumes "fixed_reachable dg t"
  shows "fixed_wf t \<and> length (pool_free (ft_pool t)) + card (occupied t) = fixed_capacity t"
  using fixed_wf_reachable [OF assms] fixed_wf_occupied by blast

theorem fixed_no_leak_witness:
  "length (pool_free (ft_pool (snd (fixed_set digest_of_bytes 10 [1] [7] None (demo_table 2))))) +
   card (occupied (snd (fixed_set digest_of_bytes 10 [1] [7] None (demo_table 2)))) =
   fixed_capacity (snd (fixed_set digest_of_bytes 10 [1] [7] None (demo_table 2)))"
  using fixed_no_leak [OF fixed_reachable.set [OF demo_table_reachable, of 2]] by simp

text \<open>
  When a write fails. A write to a well-formed table fails exactly when every slot holds a
  live entry of another key; the error is then \<open>CapacityExhausted\<close> and the table is unchanged.
\<close>

theorem fixed_set_full:
  assumes "fixed_wf t"
  shows "(case fixed_set dg now key v ttl t of
            (Inr _, _) \<Rightarrow> \<exists>i < fixed_capacity t. \<forall>s. ft_slots t ! i = Some s \<longrightarrow>
              slot_is_expired now s \<or> sl_address s = address_of (ft_placement t) key
          | (Inl e, t') \<Rightarrow> e = CapacityExhausted \<and> t' = t \<and>
              (\<forall>i < fixed_capacity t. \<exists>s. ft_slots t ! i = Some s \<and> \<not> slot_is_expired now s \<and>
                 sl_address s \<noteq> address_of (ft_placement t) key))"
  using fixed_set_fails_iff [OF assms, of dg now key v ttl]
    fixed_set_error [OF assms, of dg now key v ttl]
  by (cases "fixed_set dg now key v ttl t") (auto simp: fixed_capacity_def split: sum.split)

theorem fixed_set_full_witness:
  "fst (fixed_set digest_of_bytes 11 [2] [9] None
     (snd (fixed_set digest_of_bytes 10 [1] [7] None (demo_table 1)))) = Err CapacityExhausted"
proof -
  let ?t = "snd (fixed_set digest_of_bytes 10 [1] [7] None (demo_table 1))"
  have "fixed_wf ?t" by (rule fixed_wf_set [OF demo_table_wf]) simp
  note full = fixed_set_full [OF this, where dg = digest_of_bytes and now = 11 and key = "[2]"
      and v = "[9]" and ttl = None]
  have "\<not> is_ok (fst (fixed_set digest_of_bytes 11 [2] [9] None ?t))" by code_simp
  with full show ?thesis by (simp add: split_beta is_ok_def split: sum.splits)
qed

text \<open>
  A damaged value is never served. If the stored bytes of a readable entry change behind the
  table's back into bytes with another digest, the next read reports \<open>Corrupted\<close> and counts it.
\<close>

theorem fixed_corruption_detected:
  assumes "fixed_wf t" and "fixed_get dg now key t = (Ok (Some v), t)" and "dg w \<noteq> dg v"
  shows "fst (fixed_corrupt now key w t) = Ok True \<and>
    fst (fixed_get dg now key (snd (fixed_corrupt now key w t))) = Err Corrupted \<and>
    ft_corruptions (snd (fixed_get dg now key (snd (fixed_corrupt now key w t)))) = ft_corruptions t + 1"
  using fixed_get_after_corrupt [OF assms] by (metis fst_conv)

theorem fixed_corruption_detected_witness:
  "fst (fixed_get digest_of_bytes 11 [1] (snd (fixed_corrupt 11 [1] [7, 9]
     (snd (fixed_set digest_of_bytes 10 [1] [7, 8] None (demo_table 2)))))) = Err Corrupted"
proof -
  let ?t = "snd (fixed_set digest_of_bytes 10 [1] [7, 8] None (demo_table 2))"
  have "fixed_wf ?t" by (rule fixed_wf_set [OF demo_table_wf]) simp
  moreover have "fixed_get digest_of_bytes 11 [1] ?t = (Ok (Some [7, 8]), ?t)" by code_simp
  moreover have "digest_of_bytes [7, 9] \<noteq> digest_of_bytes [7, 8]" by code_simp
  ultimately show ?thesis by (rule fixed_corruption_detected [THEN conjunct2, THEN conjunct1])
qed

text \<open>
  C31: colliding keys do not alias. In a table without duplicate slots, writing one key changes no
  read of a key with another address, even when both probe from the same slot, and removing a key
  makes it unreadable.
\<close>

theorem fixed_no_alias:
  assumes "fixed_wf t" and "fixed_unique t" and "now \<le> now'"
    and "address_of (ft_placement t) key \<noteq> address_of (ft_placement t) key'"
  shows "fst (fixed_get dg now' key' (snd (fixed_set dg now key v ttl t))) = fst (fixed_get dg now' key' t) \<and>
    fst (fixed_get dg now' key' (snd (fixed_remove now key t))) = fst (fixed_get dg now' key' t) \<and>
    fst (fixed_get dg now' key (snd (fixed_remove now key t))) = Ok None"
  using fixed_get_set_other [OF assms] fixed_get_remove_other [OF assms(1,4)]
    fixed_get_remove_same [OF assms(1-3)]
  by blast

theorem fixed_no_alias_witness:
  "fst (fixed_get digest_of_bytes 11 [2] (snd (fixed_set digest_of_bytes 10 [1] [7] None (demo_table 2)))) =
   Ok None"
proof -
  have "fst (fixed_get digest_of_bytes 11 [2] (snd (fixed_set digest_of_bytes 10 [1] [7] None (demo_table 2))))
    = fst (fixed_get digest_of_bytes 11 [2] (demo_table 2))"
  proof (rule fixed_no_alias [OF demo_table_wf, THEN conjunct1])
    show "fixed_unique (demo_table 2)"
      by (auto simp: fixed_unique_def slot_at_def demo_table_def)
    show "address_of (ft_placement (demo_table 2)) [1] \<noteq> address_of (ft_placement (demo_table 2)) [2]"
      by code_simp
  qed simp_all
  also have "\<dots> = Ok None" by code_simp
  finally show ?thesis .
qed

text \<open>
  C32: eviction makes room. When a write fails because the table is full, the nomination names an
  entry, the conditional removal of that address succeeds, and the same write then succeeds.
\<close>

theorem fixed_evict_then_set:
  assumes "fixed_wf t" and "fst (fixed_set dg now key v ttl t) \<noteq> Ok ()"
  shows "(case fixed_eviction_candidate now t of
            (None, _) \<Rightarrow> False
          | (Some a, t1) \<Rightarrow>
              (case fixed_remove_if_address a t1 of (r, t2) \<Rightarrow>
                 r = Ok True \<and> fst (fixed_set dg now key v ttl t2) = Ok ()))"
proof -
  obtain a t1 where "fixed_eviction_candidate now t = (Some a, t1)"
    "fst (fixed_remove_if_address a t1) = Ok True"
    "fst (fixed_set dg now key v ttl (snd (fixed_remove_if_address a t1))) = Ok ()"
    by (rule evict_then_set [OF assms])
  then show ?thesis by (simp add: split_beta)
qed

theorem fixed_evict_then_set_witness:
  "case fixed_eviction_candidate 11 (snd (fixed_set digest_of_bytes 10 [1] [7] None (demo_table 1))) of
     (None, _) \<Rightarrow> False
   | (Some a, t1) \<Rightarrow>
       (case fixed_remove_if_address a t1 of (r, t2) \<Rightarrow>
          r = Ok True \<and> fst (fixed_set digest_of_bytes 11 [2] [9] None t2) = Ok ())"
proof (rule fixed_evict_then_set)
  show "fixed_wf (snd (fixed_set digest_of_bytes 10 [1] [7] None (demo_table 1)))"
    by (rule fixed_wf_set [OF demo_table_wf]) simp
  show "fst (fixed_set digest_of_bytes 11 [2] [9] None
      (snd (fixed_set digest_of_bytes 10 [1] [7] None (demo_table 1)))) \<noteq> Ok ()"
    by code_simp
qed

text \<open>
  Eviction is round robin. On a table full of live entries, \<open>k\<close> nominations in a row walk the
  slots in order from the cursor, wrapping around, so that as many nominations as there are slots
  name every slot once.
\<close>

theorem fixed_eviction_round_robin:
  assumes "\<And>i. i < fixed_capacity t \<Longrightarrow> \<exists>s. ft_slots t ! i = Some s \<and> \<not> slot_is_expired now s"
    and "0 < fixed_capacity t" and "fixed_capacity t < 2 ^ 64"
  shows "eviction_round now k t =
    map (\<lambda>j. Some (sl_address (the (ft_slots t ! ((unat (ft_cursor t) + j) mod fixed_capacity t))))) [0..<k]"
  using eviction_round_full [of t now k] assms by (simp add: fixed_capacity_def)

theorem fixed_eviction_round_robin_witness:
  "eviction_round 11 3 (snd (fixed_set digest_of_bytes 10 [2] [8] None
       (snd (fixed_set digest_of_bytes 10 [1] [7] None (demo_table 2))))) =
   [Some (address_of AllToZero [1]), Some (address_of AllToZero [2]), Some (address_of AllToZero [1])]"
proof -
  let ?t = "snd (fixed_set digest_of_bytes 10 [2] [8] None
       (snd (fixed_set digest_of_bytes 10 [1] [7] None (demo_table 2))))"
  have cap: "fixed_capacity ?t = 2" by code_simp
  have live: "\<forall>i \<in> set [0, 1]. map_option (slot_is_expired 11) (ft_slots ?t ! i) = Some False"
    by code_simp
  have "eviction_round 11 3 ?t =
    map (\<lambda>j. Some (sl_address (the (ft_slots ?t ! ((unat (ft_cursor ?t) + j) mod fixed_capacity ?t))))) [0..<3]"
  proof (rule fixed_eviction_round_robin)
    fix i assume "i < fixed_capacity ?t"
    then have "i \<in> set [0, 1]" using cap by (simp only: cap) auto
    with live have "map_option (slot_is_expired 11) (ft_slots ?t ! i) = Some False" by (rule bspec)
    then show "\<exists>s. ft_slots ?t ! i = Some s \<and> \<not> slot_is_expired 11 s"
      by (elim map_option_eq_Some [THEN iffD1, elim_format]) blast
  qed (simp_all only: cap, simp_all)
  also have "\<dots> = [Some (address_of AllToZero [1]), Some (address_of AllToZero [2]),
      Some (address_of AllToZero [1])]"
    by code_simp
  finally show ?thesis .
qed

text \<open>
  A removed key can come back. \<open>find_empty\<close> stops at the first hole, so a write after a
  removal can store a second slot for a key that is still in the table further on; removing that
  key then takes the newer slot only, and the next read returns the overwritten value. With two
  slots and both keys placed at slot 0: write A, write B, remove A, overwrite B, remove B.
\<close>

theorem fixed_duplicate_resurrects:
  "let dg = digest_of_bytes;
       t1 = snd (fixed_set dg 1 [1] [7] None (demo_table 2));
       t2 = snd (fixed_set dg 2 [2] [8] None t1);
       t3 = snd (fixed_remove 3 [1] t2);
       t4 = snd (fixed_set dg 4 [2] [9] None t3);
       t5 = snd (fixed_remove 5 [2] t4)
   in map (map_option sl_address) (ft_slots t4) =
        [Some (address_of AllToZero [2]), Some (address_of AllToZero [2])] \<and>
      fst (fixed_get dg 4 [2] t4) = Ok (Some [9]) \<and> fst (fixed_get dg 6 [2] t5) = Ok (Some [8])"
  by code_simp

end
