(* ===== verification/Sharded_Tier.thy ===== *)
theory Sharded_Tier
  imports Fixed_Tier
begin

section \<open>The sharded slot table (\<open>src/tier/sharded_stub.rs\<close>)\<close>

text \<open>
  \<open>ShardedTierStub\<close>: a power of two of independently locked slot tables, selected by the low
  bits of the key's \<open>DefaultHasher\<close> value. The standard library leaves that hash unspecified, so
  it is the parameter \<open>hasher\<close> and nothing is assumed of it. A poisoned shard mutex makes the
  operations on that shard fail and the scans skip it. The process-wide \<open>static CURSOR\<close> of the
  eviction scan is passed in and returned.

  The lemmas show that the shard selection always lands in the table and reaches every shard,
  and that the sharded table is a value store in the sense of \<open>Store_Interface\<close>, because each of
  its shards is one.
\<close>

record 'v sharded_tier =
  st_shards :: "'v fixed_tier lock list"
  st_mask :: u64

definition DEFAULT_SHARDS :: nat where
  "DEFAULT_SHARDS = 4"

definition DEFAULT_CAPACITY_PER_SHARD :: nat where
  "DEFAULT_CAPACITY_PER_SHARD = 256"

text \<open>\<open>usize::next_power_of_two\<close>.\<close>

fun next_power_of_two :: "nat \<Rightarrow> nat" where
  "next_power_of_two n = (if n \<le> 1 then 1 else 2 * next_power_of_two ((n + 1) div 2))"

fun build_shards :: "nat \<Rightarrow> nat \<Rightarrow> 'v fixed_tier lock list result" where
  "build_shards 0 capacity = Ok []"
| "build_shards (Suc n) capacity =
     try_then (fixed_with_capacity capacity) (\<lambda>t.
       try_then (build_shards n capacity) (\<lambda>ts. Ok (new_lock t # ts)))"

definition sharded_with_shards :: "nat \<Rightarrow> nat \<Rightarrow> 'v sharded_tier result" where
  "sharded_with_shards shards capacity_per_shard =
     (let requested = max shards 1; n = next_power_of_two requested in
      try_then (build_shards n capacity_per_shard) (\<lambda>built.
        Ok \<lparr>st_shards = built, st_mask = of_nat (n - 1)\<rparr>))"

definition sharded_shard_count :: "'v sharded_tier \<Rightarrow> nat" where
  "sharded_shard_count t = length (st_shards t)"

definition sharded_capacity :: "'v sharded_tier \<Rightarrow> nat" where
  "sharded_capacity t =
     sum_list (map (\<lambda>l. if lk_poisoned l then 0 else fixed_capacity (lk_value l)) (st_shards t))"

definition shard_for :: "(bytes \<Rightarrow> u64) \<Rightarrow> 'v sharded_tier \<Rightarrow> bytes \<Rightarrow> nat" where
  "shard_for hasher t key = unat (hasher key AND st_mask t)"

text \<open>\<open>self.shard_for(key).lock().map_err(poisoned)?\<close> and a call on the guarded table.\<close>

definition on_shard ::
  "nat \<Rightarrow> ('v fixed_tier \<Rightarrow> 'r result \<times> 'v fixed_tier) \<Rightarrow> 'v sharded_tier \<Rightarrow> 'r result \<times> 'v sharded_tier"
where
  "on_shard i call t =
     (let l = st_shards t ! i in
      if lk_poisoned l then (Err ConfigurationError, t)
      else case call (lk_value l) of
        (r, s) \<Rightarrow> (r, t\<lparr>st_shards := (st_shards t)[i := l\<lparr>lk_value := s\<rparr>]\<rparr>))"

definition sharded_get ::
  "(bytes \<Rightarrow> u64) \<Rightarrow> ('v \<Rightarrow> content_digest) \<Rightarrow> instant \<Rightarrow> bytes \<Rightarrow> 'v sharded_tier
     \<Rightarrow> 'v option result \<times> 'v sharded_tier"
where
  "sharded_get hasher dg now key t = on_shard (shard_for hasher t key) (fixed_get dg now key) t"

definition sharded_set ::
  "(bytes \<Rightarrow> u64) \<Rightarrow> ('v \<Rightarrow> content_digest) \<Rightarrow> instant \<Rightarrow> bytes \<Rightarrow> 'v \<Rightarrow> duration option
     \<Rightarrow> 'v sharded_tier \<Rightarrow> unit result \<times> 'v sharded_tier"
where
  "sharded_set hasher dg now key value ttl t =
     on_shard (shard_for hasher t key) (fixed_set dg now key value ttl) t"

definition sharded_remove ::
  "(bytes \<Rightarrow> u64) \<Rightarrow> instant \<Rightarrow> bytes \<Rightarrow> 'v sharded_tier \<Rightarrow> unit result \<times> 'v sharded_tier"
where
  "sharded_remove hasher now key t = on_shard (shard_for hasher t key) (fixed_remove now key) t"

definition sharded_contains ::
  "(bytes \<Rightarrow> u64) \<Rightarrow> instant \<Rightarrow> bytes \<Rightarrow> 'v sharded_tier \<Rightarrow> bool result"
where
  "sharded_contains hasher now key t =
     (let l = st_shards t ! shard_for hasher t key in
      if lk_poisoned l then Err ConfigurationError else fixed_contains now key (lk_value l))"

text \<open>
  The eviction scan visits the shards from a rotating start. A shard that nominates nothing has
  still advanced its own cursor; a poisoned one is skipped.
\<close>

fun nominate_from ::
  "instant \<Rightarrow> nat list \<Rightarrow> 'v fixed_tier lock list \<Rightarrow> key_address option \<times> 'v fixed_tier lock list"
where
  "nominate_from now [] ls = (None, ls)"
| "nominate_from now (i # ks) ls =
     (let l = ls ! i in
      if lk_poisoned l then nominate_from now ks ls
      else case fixed_eviction_candidate now (lk_value l) of
        (Some a, s) \<Rightarrow> (Some a, ls[i := l\<lparr>lk_value := s\<rparr>])
      | (None, s) \<Rightarrow> nominate_from now ks (ls[i := l\<lparr>lk_value := s\<rparr>]))"

definition sharded_eviction_candidate ::
  "instant \<Rightarrow> u64 \<Rightarrow> 'v sharded_tier \<Rightarrow> key_address option \<times> u64 \<times> 'v sharded_tier"
where
  "sharded_eviction_candidate now cursor t =
     (let n = length (st_shards t) in
      if n = 0 then (None, cursor, t)
      else case nominate_from now (probe_order n (unat cursor mod n)) (st_shards t) of
        (c, ls) \<Rightarrow> (c, cursor + 1, t\<lparr>st_shards := ls\<rparr>))"

fun remove_address_from ::
  "key_address \<Rightarrow> 'v fixed_tier lock list \<Rightarrow> bool result \<times> 'v fixed_tier lock list"
where
  "remove_address_from a [] = (Ok False, [])"
| "remove_address_from a (l # ls) =
     (if lk_poisoned l then (case remove_address_from a ls of (r, ls') \<Rightarrow> (r, l # ls'))
      else case fixed_remove_if_address a (lk_value l) of
        (Inl e, s) \<Rightarrow> (Err e, l\<lparr>lk_value := s\<rparr> # ls)
      | (Inr True, s) \<Rightarrow> (Ok True, l\<lparr>lk_value := s\<rparr> # ls)
      | (Inr False, s) \<Rightarrow>
          (case remove_address_from a ls of (r, ls') \<Rightarrow> (r, l\<lparr>lk_value := s\<rparr> # ls')))"

definition sharded_remove_if_address ::
  "key_address \<Rightarrow> 'v sharded_tier \<Rightarrow> bool result \<times> 'v sharded_tier"
where
  "sharded_remove_if_address address t =
     (case remove_address_from address (st_shards t) of (r, ls) \<Rightarrow> (r, t\<lparr>st_shards := ls\<rparr>))"

text \<open>
  The invariant: a power of two of shards that the mask spans, and every shard that can still be
  locked is a well-formed table with the default placement. The tables behind poisoned locks are
  never reached, so nothing is asked of them.
\<close>

definition sharded_wf :: "'v sharded_tier \<Rightarrow> bool" where
  "sharded_wf t \<longleftrightarrow>
     (\<exists>k < 64. length (st_shards t) = 2 ^ k \<and> st_mask t = of_nat (2 ^ k - 1)) \<and>
     (\<forall>l \<in> set (st_shards t). \<not> lk_poisoned l \<longrightarrow>
        fixed_wf (lk_value l) \<and> ft_placement (lk_value l) = PlaceDefault)"

declare next_power_of_two.simps [simp del]

subsection \<open>Building and selecting shards\<close>

lemma next_power_of_two_power: "\<exists>k. next_power_of_two n = 2 ^ k"
proof (induction n rule: next_power_of_two.induct)
  case (1 n)
  show ?case
  proof (cases "n \<le> 1")
    case False
    with 1 obtain k where "next_power_of_two ((n + 1) div 2) = 2 ^ k" by blast
    with False have "next_power_of_two n = 2 ^ Suc k" by (simp add: next_power_of_two.simps [of n])
    then show ?thesis by blast
  qed (auto simp: next_power_of_two.simps [of n] intro: exI [of _ 0])
qed

lemma next_power_of_two_bounds:
  "n \<le> next_power_of_two n \<and> (1 \<le> n \<longrightarrow> next_power_of_two n < 2 * n)"
proof (induction n rule: next_power_of_two.induct)
  case (1 n)
  let ?m = "(n + 1) div 2"
  show ?case
  proof (cases "n \<le> 1")
    case False
    with 1 have IH: "?m \<le> next_power_of_two ?m" "next_power_of_two ?m < 2 * ?m" by auto
    have "next_power_of_two ?m < n"
    proof (cases "?m \<le> 1 \<or> even n")
      case True
      with IH False show ?thesis by (auto elim!: evenE)
    next
      case odd: False
      then have "even (next_power_of_two ?m)" 
        by (subst next_power_of_two.simps) (auto elim!: oddE)
      with odd IH show ?thesis by (auto elim!: oddE) presburger
    qed
    with IH False show ?thesis by (simp add: next_power_of_two.simps [of n])
  qed (simp add: next_power_of_two.simps [of n])
qed

lemma and_mask_mod:
  assumes "k < 64"
  shows "unat (h AND (of_nat (2 ^ k - 1) :: u64)) = unat h mod 2 ^ k"
proof -
  have "(of_nat (2 ^ k - 1) :: u64) = mask k"
    by (simp add: mask_eq_exp_minus_1 of_nat_diff)
  then have "h AND of_nat (2 ^ k - 1) = take_bit k h" by (simp add: take_bit_eq_mask)
  moreover have "unat (take_bit k h) = unat h mod 2 ^ k"
    by (rule trans [OF unsigned_take_bit_eq take_bit_eq_mod])
  ultimately show ?thesis by simp
qed

lemma shard_for_mod:
  assumes "sharded_wf t"
  shows "shard_for hasher t key = unat (hasher key) mod sharded_shard_count t"
  using assms and_mask_mod unfolding sharded_wf_def shard_for_def sharded_shard_count_def by metis

lemma shard_for_less: "sharded_wf t \<Longrightarrow> shard_for hasher t key < length (st_shards t)"
  by (auto simp: shard_for_mod sharded_shard_count_def sharded_wf_def intro!: mod_less_divisor)

lemma build_shards_Ok:
  "build_shards n c = Ok ls \<Longrightarrow> length ls = n \<and>
     (\<forall>l \<in> set ls. \<not> lk_poisoned l \<and> fixed_wf (lk_value l) \<and> ft_placement (lk_value l) = PlaceDefault \<and>
        fixed_capacity (lk_value l) = c)"
proof (induction n arbitrary: ls)
  case (Suc n)
  then obtain t ts where t: "fixed_with_capacity c = Ok t" and ts: "build_shards n c = Ok ts"
    and ls: "ls = new_lock t # ts"
    by (auto simp: try_then_def split: sum.splits)
  have "ft_placement t = PlaceDefault" "fixed_capacity t = c"
    using t by (auto simp: fixed_with_capacity_def try_then_def pool_new_def fixed_capacity_def
        split: if_splits)
  with Suc.IH [OF ts] fixed_wf_with_capacity [OF t] show ?case by (simp add: ls new_lock_def)
qed simp

lemma build_shards_fails: "build_shards n 0 = (if n = 0 then Ok [] else Err ConfigurationError)"
  by (cases n) (simp_all add: fixed_with_capacity_def)

lemma build_shards_total: "0 < c \<Longrightarrow> \<exists>ls. build_shards n c = Ok ls"
  by (induction n) (auto simp: fixed_with_capacity_def pool_new_def)

lemma sharded_wf_with_shards:
  assumes "sharded_with_shards n c = Ok t" and "n \<le> 2 ^ 62"
  shows "sharded_wf t"
proof -
  let ?n = "next_power_of_two (max n 1)"
  obtain k where k: "?n = 2 ^ k" using next_power_of_two_power by blast
  have "?n < 2 * max n 1" using next_power_of_two_bounds [of "max n 1"] by simp
  also have "\<dots> \<le> 2 ^ 63" using assms(2) by simp
  finally have "k < 63" unfolding k by (rule power_less_imp_less_exp [rotated]) simp
  then show ?thesis
    using assms(1) build_shards_Ok [of ?n c "st_shards t"] k
    by (auto simp: sharded_with_shards_def sharded_wf_def try_then_def Let_def
        intro!: exI [of _ k] split: sum.splits)
qed

subsection \<open>A call on one shard\<close>

lemma on_shard_wf:
  assumes wf: "sharded_wf t"
    and call: "\<And>s. fixed_wf s \<Longrightarrow> fixed_wf (snd (call s)) \<and> ft_placement (snd (call s)) = ft_placement s"
  shows "sharded_wf (snd (on_shard i call t))"
proof (cases "i < length (st_shards t) \<and> \<not> lk_poisoned (st_shards t ! i)")
  case True
  then have "fixed_wf (lk_value (st_shards t ! i))" "ft_placement (lk_value (st_shards t ! i)) = PlaceDefault"
    using wf by (auto simp: sharded_wf_def)
  with call wf show ?thesis
    by (auto simp: on_shard_def Let_def split_beta sharded_wf_def dest!: set_update_subset_insert [THEN subsetD])
next
  case False
  with wf show ?thesis
    by (auto simp: on_shard_def Let_def split_beta list_update_beyond sharded_wf_def)
qed

lemma on_shard_mask [simp]:
  "st_mask (snd (on_shard i call t)) = st_mask t"
  "shard_for hasher (snd (on_shard i call t)) = shard_for hasher t"
  by (simp_all add: on_shard_def Let_def split_beta shard_for_def fun_eq_iff)

lemma on_shard_other:
  assumes "i \<noteq> j"
  shows "fst (on_shard j call' (snd (on_shard i call t))) = fst (on_shard j call' t)"
  using assms by (simp add: on_shard_def Let_def split_beta)

lemma on_shard_same:
  assumes "i < length (st_shards t)" "\<not> lk_poisoned (st_shards t ! i)"
  shows "fst (on_shard i call' (snd (on_shard i call t))) =
      fst (call' (snd (call (lk_value (st_shards t ! i)))))"
    and "fst (on_shard i call t) = fst (call (lk_value (st_shards t ! i)))"
  using assms by (simp_all add: on_shard_def Let_def split_beta)

lemma on_shard_poisoned:
  "lk_poisoned (st_shards t ! i) \<Longrightarrow> on_shard i call t = (Err ConfigurationError, t)"
  by (simp add: on_shard_def)

lemma sharded_wf_shard:
  assumes "sharded_wf t" "i < length (st_shards t)" "\<not> lk_poisoned (st_shards t ! i)"
  shows "fixed_wf (lk_value (st_shards t ! i))" "ft_placement (lk_value (st_shards t ! i)) = PlaceDefault"
  using assms by (auto simp: sharded_wf_def)


subsection \<open>The sharded table as a value store\<close>

lemma sharded_get_after_set:
  assumes wf: "sharded_wf t" and set: "sharded_set hasher dg now key v ttl t = (Ok (), t')"
  shows "fst (sharded_get hasher dg now' key t') = Ok (if unexpired ttl now now' then Some v else None)"
proof -
  let ?i = "shard_for hasher t key"
  let ?s = "lk_value (st_shards t ! ?i)"
  have i: "?i < length (st_shards t)" by (rule shard_for_less [OF wf])
  have t': "t' = snd (on_shard ?i (fixed_set dg now key v ttl) t)"
    using set by (simp add: sharded_set_def)
  have np: "\<not> lk_poisoned (st_shards t ! ?i)"
    using set by (auto simp: sharded_set_def on_shard_poisoned)
  have "fixed_set dg now key v ttl ?s = (Ok (), snd (fixed_set dg now key v ttl ?s))"
    using set on_shard_same(2) [OF i np, of "fixed_set dg now key v ttl"]
    by (simp add: sharded_set_def prod_eq_iff)
  with fixed_get_after_set [OF sharded_wf_shard(1) [OF wf i np]]
  show ?thesis by (simp add: sharded_get_def t' on_shard_same(1) [OF i np])
qed

lemma sharded_set_error:
  assumes wf: "sharded_wf t" and err: "fst (sharded_set hasher dg now key v ttl t) = Err e"
  shows "snd (sharded_set hasher dg now key v ttl t) = t"
proof (cases "lk_poisoned (st_shards t ! shard_for hasher t key)")
  case False
  let ?i = "shard_for hasher t key"
  have i: "?i < length (st_shards t)" by (rule shard_for_less [OF wf])
  have "fst (fixed_set dg now key v ttl (lk_value (st_shards t ! ?i))) = Err e"
    using err on_shard_same(2) [OF i False, of "fixed_set dg now key v ttl"]
    by (simp add: sharded_set_def)
  from fixed_set_error(2) [OF sharded_wf_shard(1) [OF wf i False] this] False
  show ?thesis by (simp add: sharded_set_def on_shard_def Let_def split_beta)
qed (simp add: sharded_set_def on_shard_poisoned)

lemma sharded_get_remove_other:
  assumes wf: "sharded_wf t" and foreign: "address_of PlaceDefault key \<noteq> address_of PlaceDefault key'"
  shows "fst (sharded_get hasher dg now' key' (snd (sharded_remove hasher now key t))) =
    fst (sharded_get hasher dg now' key' t)"
proof -
  let ?i = "shard_for hasher t key" and ?j = "shard_for hasher t key'"
  consider "?i \<noteq> ?j" | "?i = ?j" "lk_poisoned (st_shards t ! ?i)"
    | "?i = ?j" "\<not> lk_poisoned (st_shards t ! ?i)" by blast
  then show ?thesis
  proof cases
    case 1
    then show ?thesis by (simp add: sharded_get_def sharded_remove_def on_shard_other)
  next
    case 2
    then show ?thesis by (simp add: sharded_get_def sharded_remove_def on_shard_poisoned)
  next
    case 3
    have i: "?i < length (st_shards t)" by (rule shard_for_less [OF wf])
    note s = sharded_wf_shard [OF wf i 3(2)]
    have "fst (fixed_get dg now' key' (snd (fixed_remove now key (lk_value (st_shards t ! ?i))))) =
        fst (fixed_get dg now' key' (lk_value (st_shards t ! ?i)))"
      by (rule fixed_get_remove_other [OF s(1)]) (simp add: s foreign)
    with 3 i show ?thesis
      by (simp add: sharded_get_def sharded_remove_def on_shard_same [of ?j])
  qed
qed

lemma sharded_get_after_get:
  "fst (sharded_get hasher dg now' key' (snd (sharded_get hasher dg now key t))) =
   fst (sharded_get hasher dg now' key' t)"
proof -
  let ?i = "shard_for hasher t key" and ?j = "shard_for hasher t key'"
  show ?thesis
  proof (cases "?i = ?j \<and> \<not> lk_poisoned (st_shards t ! ?i)")
    case True
    then show ?thesis
      by (cases "?j < length (st_shards t)")
         (auto simp: sharded_get_def on_shard_same fixed_get_after_get,
          simp add: on_shard_def Let_def split_beta list_update_beyond)
  next
    case False
    then show ?thesis
      by (cases "?i = ?j") (simp_all add: sharded_get_def on_shard_other on_shard_poisoned)
  qed
qed

interpretation sharded_store: value_store sharded_wf "\<lambda>t. address_of PlaceDefault"
  "sharded_get hasher dg" "sharded_set hasher dg" "sharded_remove hasher"
  for hasher :: "bytes \<Rightarrow> u64" and dg :: "'v \<Rightarrow> content_digest"
proof
  fix t :: "'v sharded_tier" and now now' k k' v ttl t' e
  assume wf: "sharded_wf t"
  show "sharded_wf (snd (sharded_get hasher dg now k t))"
    unfolding sharded_get_def by (rule on_shard_wf [OF wf]) (simp add: fixed_wf_get)
  show "sharded_wf (snd (sharded_set hasher dg now k v ttl t))"
    unfolding sharded_set_def by (rule on_shard_wf [OF wf]) (simp add: fixed_wf_set)
  show "sharded_wf (snd (sharded_remove hasher now k t))"
    unfolding sharded_remove_def by (rule on_shard_wf [OF wf]) (simp add: fixed_wf_remove)
qed (simp_all add: sharded_get_after_set sharded_set_error sharded_get_after_get sharded_get_remove_other)


text \<open>Nominating a victim and removing an address keep every shard sound.\<close>

definition shard_sound :: "'v fixed_tier lock \<Rightarrow> bool" where
  "shard_sound l \<longleftrightarrow> lk_poisoned l \<or> fixed_wf (lk_value l) \<and> ft_placement (lk_value l) = PlaceDefault"

lemma sharded_wf_shards:
  "sharded_wf t \<longleftrightarrow> (\<exists>k < 64. length (st_shards t) = 2 ^ k \<and> st_mask t = of_nat (2 ^ k - 1)) \<and>
     list_all shard_sound (st_shards t)"
  by (auto simp: sharded_wf_def shard_sound_def list_all_iff)

lemma fixed_placement_eviction [simp]:
  "ft_placement (snd (fixed_eviction_candidate now t)) = ft_placement t"
  "ft_placement (snd (fixed_remove_if_address a t)) = ft_placement t"
  by (auto simp: fixed_eviction_candidate_def Let_def split: option.split,
      cases rule: remove_if_address_cases [of t a]) (auto simp: take_slot_def split: option.split)

lemma nominate_from_sound:
  assumes "list_all shard_sound ls" "\<forall>i\<in>set ks. i < length ls"
  shows "list_all shard_sound (snd (nominate_from now ks ls)) \<and> length (snd (nominate_from now ks ls)) = length ls"
  using assms
proof (induction now ks ls rule: nominate_from.induct)
  case (2 now i ks ls)
  obtain c s where c: "fixed_eviction_candidate now (lk_value (ls ! i)) = (c, s)" by force
  have "shard_sound (ls ! i)" using 2(3,4) by (simp add: list_all_length)
  then have l: "shard_sound ((ls ! i)\<lparr>lk_value := s\<rparr>)" if "\<not> lk_poisoned (ls ! i)"
    using that c fixed_wf_eviction_candidate [of "lk_value (ls ! i)" now] fixed_placement_eviction(1) [of now "lk_value (ls ! i)"]
    by (simp add: shard_sound_def)
  then have u: "list_all shard_sound (ls[i := (ls ! i)\<lparr>lk_value := s\<rparr>])" if "\<not> lk_poisoned (ls ! i)"
    using that 2(3,4) by (auto simp: list_all_length nth_list_update)
  show ?case
    using 2 c u by (cases c) (auto simp: Let_def)
qed simp

lemma remove_address_from_sound:
  "list_all shard_sound ls \<Longrightarrow> list_all shard_sound (snd (remove_address_from a ls)) \<and>
     length (snd (remove_address_from a ls)) = length ls"
proof (induction ls)
  case (Cons l ls)
  obtain c s where c: "fixed_remove_if_address a (lk_value l) = (c, s)" by force
  have l: "shard_sound (l\<lparr>lk_value := s\<rparr>)" if "\<not> lk_poisoned l"
    using that c Cons(2) fixed_wf_remove_if_address [of "lk_value l" a] fixed_placement_eviction(2) [of a "lk_value l"]
    by (simp add: shard_sound_def)
  show ?case
    using Cons c l by (auto split: sum.split bool.split prod.split)
qed simp

lemma sharded_wf_eviction:
  assumes "sharded_wf t"
  shows "sharded_wf (snd (snd (sharded_eviction_candidate now c t)))" "sharded_wf (snd (sharded_remove_if_address a t))"
  using assms nominate_from_sound [of "st_shards t" "probe_order n m" for n m] remove_address_from_sound [of "st_shards t" a]
  by (auto simp: sharded_wf_shards sharded_eviction_candidate_def sharded_remove_if_address_def Let_def
      case_prod_unfold probe_order_def)

subsection \<open>Properties\<close>

text \<open>
  Every shard is reachable. A sharded table built for \<open>n\<close> shards has at least \<open>n\<close> and fewer
  than twice as many, its total capacity is that many times the capacity of one shard, and masking
  the key's hash selects exactly the indices of the shards: never one outside, and none is stranded.
\<close>

theorem sharded_all_shards_reachable:
  assumes built: "sharded_with_shards n c = Ok t" and "n \<le> 2 ^ 62"
  shows "(\<lambda>h. unat (h AND st_mask t)) ` UNIV = {..<sharded_shard_count t} \<and>
    max n 1 \<le> sharded_shard_count t \<and> sharded_shard_count t < 2 * max n 1 \<and>
    sharded_capacity t = sharded_shard_count t * c"
proof -
  let ?n = "next_power_of_two (max n 1)"
  have wf: "sharded_wf t" by (rule sharded_wf_with_shards [OF assms])
  have ls: "build_shards ?n c = Ok (st_shards t)"
    using built by (auto simp: sharded_with_shards_def Let_def try_then_def split: sum.splits)
  then have count: "sharded_shard_count t = ?n" by (simp add: sharded_shard_count_def build_shards_Ok)
  have sel: "unat (h AND st_mask t) = unat h mod ?n" for h
    using shard_for_mod [OF wf, of "\<lambda>_. h"] by (simp add: shard_for_def count)
  have small: "?n < 2 ^ 64" using next_power_of_two_bounds [of "max n 1"] assms(2)
    by (cases "n \<le> 1") (auto simp: max_def split: if_splits)
  have "(\<lambda>h. unat (h AND st_mask t)) ` UNIV = {..<?n}"
  proof
    show "(\<lambda>h. unat (h AND st_mask t)) ` UNIV \<subseteq> {..<?n}"
      using next_power_of_two_bounds [of "max n 1"] by (auto simp: sel)
    show "{..<?n} \<subseteq> (\<lambda>h. unat (h AND st_mask t)) ` UNIV"
    proof
      fix i assume "i \<in> {..<?n}"
      with small have "unat (of_nat i :: u64) = i" by (intro unat_of_nat_u64) simp
      with \<open>i \<in> {..<?n}\<close> have "i = unat (of_nat i AND st_mask t)" by (simp add: sel)
      then show "i \<in> (\<lambda>h. unat (h AND st_mask t)) ` UNIV" by blast
    qed
  qed
  moreover have "sharded_capacity t = ?n * c"
  proof -
    have "map (\<lambda>l. if lk_poisoned l then 0 else fixed_capacity (lk_value l)) (st_shards t) =
        map (\<lambda>_. c) (st_shards t)"
      using build_shards_Ok [OF ls] by simp
    then have "sharded_capacity t = sum_list (map (\<lambda>_. c) (st_shards t))"
      by (simp only: sharded_capacity_def)
    with build_shards_Ok [OF ls] show ?thesis by (simp add: sum_list_triv)
  qed
  ultimately show ?thesis using next_power_of_two_bounds [of "max n 1"] by (simp add: count)
qed

definition demo_sharded :: "bytes sharded_tier" where
  "demo_sharded = \<lparr>st_shards = replicate 4 (new_lock ((demo_table 1)\<lparr>ft_placement := PlaceDefault\<rparr>)),
     st_mask = 3\<rparr>"

lemma demo_sharded_built: "sharded_with_shards 3 1 = Ok demo_sharded"
  by code_simp

lemma demo_sharded_wf: "sharded_wf demo_sharded"
  by (rule sharded_wf_with_shards [OF demo_sharded_built]) simp

theorem sharded_all_shards_reachable_witness:
  "(\<lambda>h. unat (h AND st_mask demo_sharded)) ` UNIV = {..<sharded_shard_count demo_sharded}"
  using sharded_all_shards_reachable [OF demo_sharded_built] by simp

text \<open>
  Read your write, sharded. Whatever the shard hash is, after a write that succeeded a read of
  the same key returns the value while its TTL lasts, through any reads and any removals of other
  keys, on the same shard or elsewhere.
\<close>

theorem sharded_read_your_write:
  assumes "sharded_wf t" and "sharded_set hasher dg now key v ttl t = (Ok (), t')"
    and "unexpired ttl now now'"
    and "list_all (harmless (address_of PlaceDefault) key) calls"
  shows "fst (sharded_get hasher dg now' key
      (run_calls (sharded_get hasher dg) (sharded_remove hasher) calls t')) = Ok (Some v)"
  using assms by (rule sharded_store.read_your_write)

lemma demo_sharded_set: "fst (sharded_set hasher dg now key v ttl demo_sharded) = Ok ()"
proof -
  let ?i = "shard_for hasher demo_sharded key"
  have "?i < length (st_shards demo_sharded)" by (rule shard_for_less [OF demo_sharded_wf])
  then have i: "?i < 4" by (simp add: demo_sharded_def)
  have "fst (fixed_set dg now key v ttl (lk_value (st_shards demo_sharded ! ?i))) = Ok ()"
  proof (rule ccontr)
    assume "fst (fixed_set dg now key v ttl (lk_value (st_shards demo_sharded ! ?i))) \<noteq> Ok ()"
    with fixed_set_fails_iff [OF sharded_wf_shard(1) [OF demo_sharded_wf, of ?i]] i
    show False by (auto simp: demo_sharded_def new_lock_def demo_table_def dest: spec [of _ 0])
  qed
  with i show ?thesis
    by (simp add: sharded_set_def on_shard_same(2) demo_sharded_def new_lock_def)
qed

theorem sharded_read_your_write_witness:
  "fst (sharded_get (\<lambda>k. of_nat (length k)) digest_of_bytes 14 [1]
     (run_calls (sharded_get (\<lambda>k. of_nat (length k)) digest_of_bytes)
       (sharded_remove (\<lambda>k. of_nat (length k))) [CallRemove 12 [2]]
       (snd (sharded_set (\<lambda>k. of_nat (length k)) digest_of_bytes 10 [1] [7, 8] (Some 5) demo_sharded)))) =
   Ok (Some [7, 8])"
proof (rule sharded_read_your_write)
  show "sharded_wf demo_sharded" by (rule demo_sharded_wf)
  show "sharded_set (\<lambda>k. of_nat (length k)) digest_of_bytes 10 [1] [7, 8] (Some 5) demo_sharded =
    (Ok (), snd (sharded_set (\<lambda>k. of_nat (length k)) digest_of_bytes 10 [1] [7, 8] (Some 5) demo_sharded))"
    using demo_sharded_set by (simp add: prod_eq_iff)
  show "list_all (harmless (address_of PlaceDefault) [1]) [CallRemove 12 [2]]" by code_simp
qed (simp_all add: unexpired_def elapsed_ge_def)

text \<open>A request for no shards is not refused: it gives one shard.\<close>

lemma zero_shards_accepted:
  assumes "0 < capacity"
  shows "\<exists>t :: 'v sharded_tier. sharded_with_shards 0 capacity = Ok t \<and> sharded_shard_count t = 1"
proof -
  have n: "next_power_of_two 1 = 1" by (simp add: next_power_of_two.simps)
  obtain ls :: "'v fixed_tier lock list" where ls: "build_shards 1 capacity = Ok ls"
    using build_shards_total [OF assms] by blast
  from build_shards_Ok [OF ls] have "length ls = 1" by simp
  then show ?thesis
    unfolding sharded_with_shards_def Let_def max_0L n ls by (simp add: sharded_shard_count_def)
qed

end
