(* ===== verification/Table_Interface.thy ===== *)
theory Table_Interface
  imports Prelude
begin

section \<open>The interface of an entry table\<close>

text \<open>
  What the users of the control plane rely on: a step of the plane acts on the entry at an
  address as a function of that entry alone, and an entry that exists stays. The client lemmas
  project a run of steps, interleaved in any order, to the steps that reach one entry, and lift
  an invariant of single entries to every entry of every state a run passes through.
\<close>

locale entry_table =
  fixes inv :: "'st \<Rightarrow> bool"
    and lookup :: "'st \<Rightarrow> 'a \<Rightarrow> 'e option"
    and exec :: "'op \<Rightarrow> 'st \<Rightarrow> 'st"
    and act :: "'a \<Rightarrow> 'op \<Rightarrow> 'e \<Rightarrow> 'e"
    and fresh :: "'a \<Rightarrow> 'e"
  assumes inv_exec: "inv s \<Longrightarrow> inv (exec op s)"
    and lookup_exec: "inv s \<Longrightarrow> lookup s a = Some e \<Longrightarrow> lookup (exec op s) a = Some (act a op e)"
    and lookup_create: "inv s \<Longrightarrow> lookup s a = None \<Longrightarrow>
      lookup (exec op s) a = None \<or> lookup (exec op s) a = Some (act a op (fresh a))"
begin

lemma inv_run: "inv s \<Longrightarrow> inv (fold exec ops s)"
  by (induction ops arbitrary: s) (simp_all add: inv_exec)

text \<open>The projection of an interleaved run to one entry.\<close>

lemma lookup_run:
  "inv s \<Longrightarrow> lookup s a = Some e \<Longrightarrow> lookup (fold exec ops s) a = Some (fold (act a) ops e)"
  by (induction ops arbitrary: s e) (simp_all add: inv_exec lookup_exec)

text \<open>An invariant of single entries holds of every entry in every state of a run.\<close>

lemma entry_invariant:
  assumes "inv s" and "\<And>a e. lookup s a = Some e \<Longrightarrow> P a e"
    and fresh: "\<And>a. P a (fresh a)"
    and act: "\<And>a op e. op \<in> set ops \<Longrightarrow> P a e \<Longrightarrow> P a (act a op e)"
    and "lookup (fold exec ops s) a = Some e"
  shows "P a e"
  using assms(1,2,4,5)
proof (induction ops arbitrary: s)
  case (Cons op ops)
  have "P b x" if "lookup (exec op s) b = Some x" for b x
  proof (cases "lookup s b")
    case None
    with lookup_create [OF Cons.prems(1) None, of op] that Cons.prems(3) fresh show ?thesis by simp
  next
    case (Some y)
    with lookup_exec [OF Cons.prems(1) Some, of op] that Cons.prems(2,3) show ?thesis by simp
  qed
  then show ?case
    using Cons.IH [of "exec op s"] Cons.prems inv_exec by simp
qed simp

end

end
