(* ===== verification/Control_Entry.thy ===== *)
theory Control_Entry
  imports Integrity Tier_Id
begin

section \<open>Entries of the control plane (\<open>src/entry.rs\<close>, \<open>src/control/cachelito.rs\<close>)\<close>

text \<open>
  The vocabulary of the two-phase commit (states, generations, intents, tokens) and
  \<open>ControlEntry\<close>, the record of atomics behind one key. The fields are kept as the words the
  source stores, with the source's encodings around them: a state is a byte, a TTL a count of
  nanoseconds in 64 bits of which 0 means none, a terminal error a byte.

  The entry carries a \<open>Notify\<close>; the model counts the calls of \<open>notify_waiters\<close>, which is what a
  waiter registered before the call can observe.

  After the setters come the transitions of \<open>Cachelito\<close> on one entry, each the part of the
  method between taking the shard guard and returning: the result and the entry left behind.
\<close>

type_synonym generation = u64

definition generation_is_stale :: "generation \<Rightarrow> generation \<Rightarrow> bool" where
  "generation_is_stale g current \<longleftrightarrow> g < current"

datatype entry_state = Absent | Ready | Stale | InFlight | Prepared | Failed

fun is_readable :: "entry_state \<Rightarrow> bool" where
  "is_readable Ready = True"
| "is_readable Stale = True"
| "is_readable _ = False"

fun is_claimable :: "entry_state \<Rightarrow> bool" where
  "is_claimable Absent = True"
| "is_claimable Failed = True"
| "is_claimable Stale = True"
| "is_claimable _ = False"

datatype intent_kind = IK_Write | IK_Move

fun intent_kind_as_u8 :: "intent_kind \<Rightarrow> u8" where
  "intent_kind_as_u8 IK_Write = 1"
| "intent_kind_as_u8 IK_Move = 2"

definition intent_kind_from_u8 :: "u8 \<Rightarrow> intent_kind option" where
  "intent_kind_from_u8 v = (if v = 1 then Some IK_Write else if v = 2 then Some IK_Move else None)"

type_synonym tier_id_lite = u8

record commit_intent =
  ci_kind :: intent_kind
  ci_target_tier :: tier_id_lite
  ci_generation :: generation
  ci_started_nanos :: u64

record commit_token =
  ct_address :: key_address
  ct_generation :: generation
  ct_kind :: intent_kind
  ct_target_tier :: tier_id_lite

definition token_expired_by :: "commit_token \<Rightarrow> generation \<Rightarrow> bool" where
  "token_expired_by token current \<longleftrightarrow> current \<noteq> ct_generation token"

record 'v cache_entry =
  ent_value :: 'v
  ent_generation :: generation
  ent_expiration :: "duration option"

text \<open>\<open>EntryStateAtomic\<close>: the discriminants, and the checked conversion back.\<close>

fun state_to_u8 :: "entry_state \<Rightarrow> u8" where
  "state_to_u8 Absent = 0"
| "state_to_u8 Ready = 1"
| "state_to_u8 Stale = 2"
| "state_to_u8 InFlight = 3"
| "state_to_u8 Failed = 4"
| "state_to_u8 Prepared = 5"

definition state_try_from :: "u8 \<Rightarrow> entry_state option" where
  "state_try_from v =
     (if v = 0 then Some Absent
      else if v = 1 then Some Ready
      else if v = 2 then Some Stale
      else if v = 3 then Some InFlight
      else if v = 4 then Some Failed
      else if v = 5 then Some Prepared
      else None)"

definition state_of_u8 :: "u8 \<Rightarrow> entry_state" where
  "state_of_u8 v = (case state_try_from v of Some s \<Rightarrow> s | None \<Rightarrow> Absent)"

subsection \<open>The entry record\<close>

record control_entry =
  ce_state :: u8
  ce_generation :: u64
  ce_tier :: u8
  ce_population_owner :: bool
  ce_population_timestamp :: u64
  ce_expiration_nanos :: u64
  ce_last_error :: u8
  ce_intent_present :: bool
  ce_intent_generation :: u64
  ce_intent_kind :: u8
  ce_intent_tier :: u8
  ce_intent_since_nanos :: u64
  ce_intent_prev_state :: u8
  ce_address :: key_address
  ce_notify :: nat

definition entry_new :: "key_address \<Rightarrow> control_entry" where
  "entry_new address =
     \<lparr>ce_state = state_to_u8 Absent, ce_generation = 0, ce_tier = as_u8 L0,
      ce_population_owner = False, ce_population_timestamp = 0, ce_expiration_nanos = 0,
      ce_last_error = 0, ce_intent_present = False, ce_intent_generation = 0,
      ce_intent_kind = 0, ce_intent_tier = 0, ce_intent_since_nanos = 0,
      ce_intent_prev_state = state_to_u8 Absent, ce_address = address, ce_notify = 0\<rparr>"

definition e_state :: "control_entry \<Rightarrow> entry_state" where
  "e_state e = state_of_u8 (ce_state e)"

definition e_set_state :: "entry_state \<Rightarrow> control_entry \<Rightarrow> control_entry" where
  "e_set_state s e = e\<lparr>ce_state := state_to_u8 s\<rparr>"

definition e_set_generation :: "generation \<Rightarrow> control_entry \<Rightarrow> control_entry" where
  "e_set_generation g e = e\<lparr>ce_generation := g\<rparr>"

text \<open>\<open>fetch_add\<close> wraps; the new generation is what the callers use.\<close>

definition e_increment_generation :: "control_entry \<Rightarrow> control_entry" where
  "e_increment_generation e = e\<lparr>ce_generation := ce_generation e + 1\<rparr>"

definition e_tier :: "control_entry \<Rightarrow> tier_id" where
  "e_tier e = (case from_usize (unat (ce_tier e)) of Some t \<Rightarrow> t | None \<Rightarrow> L0)"

definition e_set_tier :: "tier_id \<Rightarrow> control_entry \<Rightarrow> control_entry" where
  "e_set_tier t e = e\<lparr>ce_tier := of_nat (as_usize t)\<rparr>"

definition e_set_population_owner :: "bool \<Rightarrow> control_entry \<Rightarrow> control_entry" where
  "e_set_population_owner b e = e\<lparr>ce_population_owner := b\<rparr>"

text \<open>Instants count from the boot anchor, so one is never before it.\<close>

definition instant_to_nanos :: "instant \<Rightarrow> u64" where
  "instant_to_nanos t = saturate_u64 t"

definition nanos_to_instant :: "u64 \<Rightarrow> instant option" where
  "nanos_to_instant nanos = (if nanos = 0 then None else Some (unat nanos))"

definition e_population_timestamp :: "control_entry \<Rightarrow> instant option" where
  "e_population_timestamp e = nanos_to_instant (ce_population_timestamp e)"

definition e_set_population_timestamp :: "instant option \<Rightarrow> control_entry \<Rightarrow> control_entry" where
  "e_set_population_timestamp ts e =
     e\<lparr>ce_population_timestamp := (case ts of None \<Rightarrow> 0 | Some t \<Rightarrow> instant_to_nanos t)\<rparr>"

definition e_notify :: "control_entry \<Rightarrow> control_entry" where
  "e_notify e = e\<lparr>ce_notify := ce_notify e + 1\<rparr>"

definition e_intent_prev_state :: "control_entry \<Rightarrow> entry_state" where
  "e_intent_prev_state e = state_of_u8 (ce_intent_prev_state e)"

definition e_set_intent_prev_state :: "entry_state \<Rightarrow> control_entry \<Rightarrow> control_entry" where
  "e_set_intent_prev_state s e = e\<lparr>ce_intent_prev_state := state_to_u8 s\<rparr>"

definition e_set_intent :: "commit_intent \<Rightarrow> control_entry \<Rightarrow> control_entry" where
  "e_set_intent i e =
     e\<lparr>ce_intent_present := True, ce_intent_generation := ci_generation i,
       ce_intent_kind := intent_kind_as_u8 (ci_kind i), ce_intent_tier := ci_target_tier i,
       ce_intent_since_nanos := ci_started_nanos i\<rparr>"

definition e_intent :: "control_entry \<Rightarrow> commit_intent option" where
  "e_intent e =
     (if \<not> ce_intent_present e then None
      else case intent_kind_from_u8 (ce_intent_kind e) of
        None \<Rightarrow> None
      | Some kind \<Rightarrow>
          Some \<lparr>ci_kind = kind, ci_target_tier = ce_intent_tier e,
                ci_generation = ce_intent_generation e,
                ci_started_nanos = ce_intent_since_nanos e\<rparr>)"

definition e_clear_intent :: "control_entry \<Rightarrow> control_entry" where
  "e_clear_intent e =
     e\<lparr>ce_intent_present := False, ce_intent_kind := 0, ce_intent_generation := 0,
       ce_intent_since_nanos := 0\<rparr>"

text \<open>\<open>d.as_nanos() as u64\<close> keeps the low 64 bits.\<close>

definition e_set_ttl :: "duration option \<Rightarrow> control_entry \<Rightarrow> control_entry" where
  "e_set_ttl ttl e = e\<lparr>ce_expiration_nanos := (case ttl of None \<Rightarrow> 0 | Some d \<Rightarrow> of_nat d)\<rparr>"

definition e_ttl :: "control_entry \<Rightarrow> duration option" where
  "e_ttl e = (if ce_expiration_nanos e = 0 then None else Some (unat (ce_expiration_nanos e)))"

definition e_is_expired :: "instant \<Rightarrow> control_entry \<Rightarrow> bool" where
  "e_is_expired now e =
     (case (e_ttl e, e_population_timestamp e) of
        (Some ttl, Some populated_at) \<Rightarrow> elapsed_ge now populated_at ttl
      | _ \<Rightarrow> False)"

fun encode_error :: "cache_error option \<Rightarrow> u8" where
  "encode_error None = 0"
| "encode_error (Some Timeout) = 1"
| "encode_error (Some PopulationFailed) = 2"
| "encode_error (Some TierUnavailable) = 3"
| "encode_error (Some Cancelled) = 4"
| "encode_error (Some _) = 2"

definition decode_error :: "u8 \<Rightarrow> cache_error option" where
  "decode_error code =
     (if code = 1 then Some Timeout
      else if code = 2 then Some PopulationFailed
      else if code = 3 then Some TierUnavailable
      else if code = 4 then Some Cancelled
      else None)"

definition e_set_last_error :: "cache_error option \<Rightarrow> control_entry \<Rightarrow> control_entry" where
  "e_set_last_error err e = e\<lparr>ce_last_error := encode_error err\<rparr>"

definition e_last_error :: "control_entry \<Rightarrow> cache_error option" where
  "e_last_error e = decode_error (ce_last_error e)"

record control_snapshot =
  cs_state :: entry_state
  cs_generation :: generation
  cs_tier :: tier_id
  cs_population_owner :: bool
  cs_population_timestamp :: "instant option"
  cs_ttl :: "duration option"
  cs_expired :: bool
  cs_last_error :: "cache_error option"
  cs_intent :: "commit_intent option"
  cs_notify :: nat

definition snapshot_of ::
  "instant \<Rightarrow> control_entry \<Rightarrow> entry_state \<Rightarrow> generation \<Rightarrow> tier_id \<Rightarrow> bool \<Rightarrow> instant option
     \<Rightarrow> control_snapshot"
where
  "snapshot_of now e state generation tier population_owner population_timestamp =
     \<lparr>cs_state = state, cs_generation = generation, cs_tier = tier,
      cs_population_owner = population_owner, cs_population_timestamp = population_timestamp,
      cs_ttl = e_ttl e, cs_expired = e_is_expired now e, cs_last_error = e_last_error e,
      cs_intent = e_intent e, cs_notify = ce_notify e\<rparr>"

definition absent_snapshot :: control_snapshot where
  "absent_snapshot =
     \<lparr>cs_state = Absent, cs_generation = 0, cs_tier = L0, cs_population_owner = False,
      cs_population_timestamp = None, cs_ttl = None, cs_expired = False, cs_last_error = None,
      cs_intent = None, cs_notify = 0\<rparr>"

subsection \<open>The transitions on one entry\<close>

text \<open>\<open>self.state.compare_exchange(expected, new)\<close>: whether it succeeded, and the entry.\<close>

definition e_compare_exchange_state :: "u8 \<Rightarrow> u8 \<Rightarrow> control_entry \<Rightarrow> bool \<times> control_entry" where
  "e_compare_exchange_state expected new e =
     (if ce_state e = expected then (True, e\<lparr>ce_state := new\<rparr>) else (False, e))"

definition entry_acquire ::
  "instant \<Rightarrow> tier_id \<Rightarrow> control_entry \<Rightarrow> control_snapshot result \<times> control_entry"
where
  "entry_acquire now tier e =
     (let current_state = e_state e; current_gen = ce_generation e; current_tier = e_tier e in
      if current_state \<in> {Absent, Failed, Stale}
      then
        (case e_compare_exchange_state (state_to_u8 current_state) (state_to_u8 InFlight) e of
           (True, e1) \<Rightarrow>
             (let new_gen = current_gen + 1;
                  e2 = e_set_population_timestamp (Some now) (e_set_last_error None
                    (e_set_tier tier (e_set_generation new_gen (e_set_population_owner True e1))))
              in (Ok (snapshot_of now e2 InFlight new_gen tier True (Some now)), e2))
         | (False, e1) \<Rightarrow>
             (Ok (snapshot_of now e1 (e_state e1) (ce_generation e1) (e_tier e1)
                    (ce_population_owner e1) None), e1))
      else (Ok (snapshot_of now e current_state current_gen current_tier False None), e))"

definition entry_publish ::
  "instant \<Rightarrow> generation \<Rightarrow> tier_id \<Rightarrow> duration option \<Rightarrow> control_entry \<Rightarrow> unit result \<times> control_entry"
where
  "entry_publish now expected tier ttl e =
     (let current_gen = ce_generation e in
      if generation_is_stale expected current_gen \<or> expected \<noteq> current_gen
      then (Err StaleGeneration, e)
      else (Ok (), e_notify (e_set_population_timestamp (Some now) (e_set_population_owner False
             (e_set_last_error None (e_set_ttl ttl (e_set_tier tier (e_set_state Ready e))))))))"

definition entry_fail :: "cache_error \<Rightarrow> control_entry \<Rightarrow> unit result \<times> control_entry" where
  "entry_fail error e =
     (Ok (), e_notify (e_set_population_timestamp None (e_set_population_owner False
        (e_set_last_error (Some error) (e_set_state Failed e)))))"

text \<open>\<open>release\<close> and \<open>invalidate\<close> have the same body.\<close>

definition entry_invalidate :: "control_entry \<Rightarrow> unit result \<times> control_entry" where
  "entry_invalidate e =
     (Ok (), e_notify (e_set_last_error None (e_set_ttl None (e_set_population_timestamp None
        (e_set_population_owner False (e_set_state Absent (e_increment_generation e)))))))"

definition entry_bump_generation :: "control_entry \<Rightarrow> generation result \<times> control_entry" where
  "entry_bump_generation e =
     (let e' = e_increment_generation e in (Ok (ce_generation e'), e_notify e'))"

definition entry_release_population_claim :: "control_entry \<Rightarrow> bool result \<times> control_entry" where
  "entry_release_population_claim e =
     (if e_state e \<noteq> Prepared \<or> \<not> ce_population_owner e then (Ok False, e)
      else (Ok True, e_notify (e_set_population_owner False (e_increment_generation
             (e_set_state Failed e)))))"

definition entry_reserve_eviction :: "control_entry \<Rightarrow> bool result \<times> control_entry" where
  "entry_reserve_eviction e =
     (if e_state e \<noteq> Ready \<or> ce_population_owner e then (Ok False, e)
      else if e_intent e \<noteq> None then (Ok False, e)
      else (Ok True, e_notify (e_set_state Stale (e_increment_generation e))))"

definition entry_prepare ::
  "instant \<Rightarrow> generation option \<Rightarrow> tier_id \<Rightarrow> intent_kind \<Rightarrow> control_entry
     \<Rightarrow> commit_token result \<times> control_entry"
where
  "entry_prepare now expected target kind e =
     (let current = ce_generation e in
      if (case expected of Some g \<Rightarrow> g \<noteq> current | None \<Rightarrow> False) then (Err StaleGeneration, e)
      else
        (let intent = \<lparr>ci_kind = kind, ci_target_tier = as_u8 target, ci_generation = current,
                       ci_started_nanos = instant_to_nanos now\<rparr>;
             e' = e_set_population_owner True (e_set_state Prepared (e_set_intent intent
                    (e_set_intent_prev_state (e_state e) e)))
         in (Ok \<lparr>ct_address = ce_address e, ct_generation = current, ct_kind = kind,
                 ct_target_tier = ci_target_tier intent\<rparr>, e')))"

definition entry_commit ::
  "instant \<Rightarrow> commit_token \<Rightarrow> duration option \<Rightarrow> control_entry \<Rightarrow> unit result \<times> control_entry"
where
  "entry_commit now token ttl e =
     (if token_expired_by token (ce_generation e) \<or> e_state e \<noteq> Prepared
      then (Err StaleGeneration, e)
      else
        (let e1 = e_set_state Ready e;
             e2 = (case from_index (ct_target_tier token) of Some t \<Rightarrow> e_set_tier t e1 | None \<Rightarrow> e1)
         in (Ok (), e_notify (e_set_last_error None (e_set_population_timestamp (Some now)
               (e_clear_intent (e_set_population_owner False (e_set_intent_prev_state Ready
                 (e_set_ttl ttl e2)))))))))"

definition entry_abort_inner :: "cache_error \<Rightarrow> bool \<Rightarrow> control_entry \<Rightarrow> unit result \<times> control_entry" where
  "entry_abort_inner error proven_clean e =
     (if e_state e \<noteq> Prepared then (Ok (), e)
      else
        (let e1 = (if proven_clean then e_set_state (e_intent_prev_state e) e
                   else e_increment_generation (e_set_state Failed e))
         in (Ok (), e_notify (e_set_last_error (Some error) (e_clear_intent
               (e_set_population_owner False e1))))))"

definition entry_abort_intent :: "cache_error \<Rightarrow> control_entry \<Rightarrow> bool result \<times> control_entry" where
  "entry_abort_intent error e =
     (if e_intent e = None then (Ok False, e)
      else if e_state e \<noteq> Prepared then (Ok False, e)
      else (Ok True, e_notify (e_set_last_error (Some error) (e_clear_intent
             (e_set_population_owner False (e_increment_generation (e_set_state Failed e)))))))"

definition entry_expire :: "instant \<Rightarrow> control_entry \<Rightarrow> bool \<times> control_entry" where
  "entry_expire now e =
     (if is_authority_rung (e_tier e) then (False, e)
      else if e_state e = Ready \<and> e_is_expired now e then (True, e_notify (e_set_state Stale e))
      else (False, e))"

declare entry_acquire_def [step_defs] entry_publish_def [step_defs] entry_fail_def [step_defs]
  entry_invalidate_def [step_defs] entry_bump_generation_def [step_defs]
  entry_release_population_claim_def [step_defs] entry_reserve_eviction_def [step_defs]
  entry_prepare_def [step_defs] entry_commit_def [step_defs] entry_abort_inner_def [step_defs]
  entry_abort_intent_def [step_defs] entry_expire_def [step_defs]


subsection \<open>Reading back what was stored\<close>

lemma state_of_to_u8 [simp]: "state_of_u8 (state_to_u8 s) = s"
  by (cases s) (simp_all add: state_of_u8_def state_try_from_def)

lemma state_to_u8_inject [simp]: "state_to_u8 s = state_to_u8 s' \<longleftrightarrow> s = s'"
  by (metis state_of_to_u8)

lemma intent_kind_roundtrip [simp]: "intent_kind_from_u8 (intent_kind_as_u8 k) = Some k"
  by (cases k) (simp_all add: intent_kind_from_u8_def)

lemma tier_u8_roundtrip [simp]:
  "from_usize (unat (of_nat (as_usize t) :: u8)) = Some t" "from_index (as_u8 t) = Some t"
  by (cases t; simp add: from_usize_def from_index_def as_u8_def)+

lemma e_state_simps [simp]:
  "e_state (e_set_state s e) = s"
  "e_state (e_set_generation g e) = e_state e"
  "e_state (e_increment_generation e) = e_state e"
  "e_state (e_set_tier t e) = e_state e"
  "e_state (e_set_population_owner b e) = e_state e"
  "e_state (e_set_population_timestamp ts e) = e_state e"
  "e_state (e_notify e) = e_state e"
  "e_state (e_set_intent_prev_state s e) = e_state e"
  "e_state (e_set_intent i e) = e_state e"
  "e_state (e_clear_intent e) = e_state e"
  "e_state (e_set_ttl ttl e) = e_state e"
  "e_state (e_set_last_error err e) = e_state e"
  by (simp_all add: e_state_def e_set_state_def e_set_generation_def e_increment_generation_def
      e_set_tier_def e_set_population_owner_def e_set_population_timestamp_def e_notify_def
      e_set_intent_prev_state_def e_set_intent_def e_clear_intent_def e_set_ttl_def
      e_set_last_error_def)

lemmas e_setters = e_set_state_def e_set_generation_def e_increment_generation_def e_set_tier_def
  e_set_population_owner_def e_set_population_timestamp_def e_notify_def
  e_set_intent_prev_state_def e_set_intent_def e_clear_intent_def e_set_ttl_def e_set_last_error_def

lemma e_generation_simps [simp]:
  "ce_generation (e_set_state s e) = ce_generation e"
  "ce_generation (e_set_generation g e) = g"
  "ce_generation (e_increment_generation e) = ce_generation e + 1"
  "ce_generation (e_set_tier t e) = ce_generation e"
  "ce_generation (e_set_population_owner b e) = ce_generation e"
  "ce_generation (e_set_population_timestamp ts e) = ce_generation e"
  "ce_generation (e_notify e) = ce_generation e"
  "ce_generation (e_set_intent_prev_state s e) = ce_generation e"
  "ce_generation (e_set_intent i e) = ce_generation e"
  "ce_generation (e_clear_intent e) = ce_generation e"
  "ce_generation (e_set_ttl ttl e) = ce_generation e"
  "ce_generation (e_set_last_error err e) = ce_generation e"
  by (simp_all add: e_setters)

lemma e_address_simps [simp]:
  "ce_address (e_set_state s e) = ce_address e"
  "ce_address (e_set_generation g e) = ce_address e"
  "ce_address (e_increment_generation e) = ce_address e"
  "ce_address (e_set_tier t e) = ce_address e"
  "ce_address (e_set_population_owner b e) = ce_address e"
  "ce_address (e_set_population_timestamp ts e) = ce_address e"
  "ce_address (e_notify e) = ce_address e"
  "ce_address (e_set_intent_prev_state s e) = ce_address e"
  "ce_address (e_set_intent i e) = ce_address e"
  "ce_address (e_clear_intent e) = ce_address e"
  "ce_address (e_set_ttl ttl e) = ce_address e"
  "ce_address (e_set_last_error err e) = ce_address e"
  "ce_address (entry_new a) = a"
  by (simp_all add: e_setters entry_new_def)

lemma e_owner_simps [simp]:
  "ce_population_owner (e_set_state s e) = ce_population_owner e"
  "ce_population_owner (e_set_generation g e) = ce_population_owner e"
  "ce_population_owner (e_increment_generation e) = ce_population_owner e"
  "ce_population_owner (e_set_tier t e) = ce_population_owner e"
  "ce_population_owner (e_set_population_owner b e) = b"
  "ce_population_owner (e_set_population_timestamp ts e) = ce_population_owner e"
  "ce_population_owner (e_notify e) = ce_population_owner e"
  "ce_population_owner (e_set_intent_prev_state s e) = ce_population_owner e"
  "ce_population_owner (e_set_intent i e) = ce_population_owner e"
  "ce_population_owner (e_clear_intent e) = ce_population_owner e"
  "ce_population_owner (e_set_ttl ttl e) = ce_population_owner e"
  "ce_population_owner (e_set_last_error err e) = ce_population_owner e"
  by (simp_all add: e_setters)

lemma e_intent_simps [simp]:
  "e_intent (e_set_state s e) = e_intent e"
  "e_intent (e_set_generation g e) = e_intent e"
  "e_intent (e_increment_generation e) = e_intent e"
  "e_intent (e_set_tier t e) = e_intent e"
  "e_intent (e_set_population_owner b e) = e_intent e"
  "e_intent (e_set_population_timestamp ts e) = e_intent e"
  "e_intent (e_notify e) = e_intent e"
  "e_intent (e_set_intent_prev_state s e) = e_intent e"
  "e_intent (e_set_intent i e) = Some i"
  "e_intent (e_clear_intent e) = None"
  "e_intent (e_set_ttl ttl e) = e_intent e"
  "e_intent (e_set_last_error err e) = e_intent e"
  by (simp_all add: e_intent_def e_setters split: option.split)

lemma e_prev_state_simps [simp]:
  "e_intent_prev_state (e_set_state s e) = e_intent_prev_state e"
  "e_intent_prev_state (e_set_generation g e) = e_intent_prev_state e"
  "e_intent_prev_state (e_increment_generation e) = e_intent_prev_state e"
  "e_intent_prev_state (e_set_tier t e) = e_intent_prev_state e"
  "e_intent_prev_state (e_set_population_owner b e) = e_intent_prev_state e"
  "e_intent_prev_state (e_set_population_timestamp ts e) = e_intent_prev_state e"
  "e_intent_prev_state (e_notify e) = e_intent_prev_state e"
  "e_intent_prev_state (e_set_intent_prev_state s e) = s"
  "e_intent_prev_state (e_set_intent i e) = e_intent_prev_state e"
  "e_intent_prev_state (e_clear_intent e) = e_intent_prev_state e"
  "e_intent_prev_state (e_set_ttl ttl e) = e_intent_prev_state e"
  "e_intent_prev_state (e_set_last_error err e) = e_intent_prev_state e"
  by (simp_all add: e_intent_prev_state_def e_setters)

lemma e_tier_set_tier [simp]:
  "e_tier (e_set_tier t e) = t" "e_tier (e_set_state s e) = e_tier e" "e_tier (e_notify e) = e_tier e"
  "e_tier (e_set_ttl ttl e) = e_tier e" "e_tier (e_set_intent_prev_state s e) = e_tier e"
  "e_tier (e_set_population_owner b e) = e_tier e" "e_tier (e_clear_intent e) = e_tier e"
  "e_tier (e_set_population_timestamp ts e) = e_tier e" "e_tier (e_set_last_error err e) = e_tier e"
  "e_tier (e_set_intent i e) = e_tier e" "e_tier (e_increment_generation e) = e_tier e"
  by (simp_all add: e_tier_def e_setters)

lemma e_expiration_simps [simp]:
  "ce_expiration_nanos (e_set_state s e) = ce_expiration_nanos e"
  "ce_expiration_nanos (e_set_generation g e) = ce_expiration_nanos e"
  "ce_expiration_nanos (e_increment_generation e) = ce_expiration_nanos e"
  "ce_expiration_nanos (e_set_tier t e) = ce_expiration_nanos e"
  "ce_expiration_nanos (e_set_population_owner b e) = ce_expiration_nanos e"
  "ce_expiration_nanos (e_set_population_timestamp ts e) = ce_expiration_nanos e"
  "ce_expiration_nanos (e_notify e) = ce_expiration_nanos e"
  "ce_expiration_nanos (e_set_intent_prev_state s e) = ce_expiration_nanos e"
  "ce_expiration_nanos (e_set_intent i e) = ce_expiration_nanos e"
  "ce_expiration_nanos (e_clear_intent e) = ce_expiration_nanos e"
  "ce_expiration_nanos (e_set_ttl ttl e) = (case ttl of None \<Rightarrow> 0 | Some d \<Rightarrow> of_nat d)"
  "ce_expiration_nanos (e_set_last_error err e) = ce_expiration_nanos e"
  by (simp_all add: e_setters)

lemma e_timestamp_simps [simp]:
  "ce_population_timestamp (e_set_state s e) = ce_population_timestamp e"
  "ce_population_timestamp (e_set_generation g e) = ce_population_timestamp e"
  "ce_population_timestamp (e_increment_generation e) = ce_population_timestamp e"
  "ce_population_timestamp (e_set_tier t e) = ce_population_timestamp e"
  "ce_population_timestamp (e_set_population_owner b e) = ce_population_timestamp e"
  "ce_population_timestamp (e_set_population_timestamp ts e) = (case ts of None \<Rightarrow> 0 | Some t \<Rightarrow> instant_to_nanos t)"
  "ce_population_timestamp (e_notify e) = ce_population_timestamp e"
  "ce_population_timestamp (e_set_intent_prev_state s e) = ce_population_timestamp e"
  "ce_population_timestamp (e_set_intent i e) = ce_population_timestamp e"
  "ce_population_timestamp (e_clear_intent e) = ce_population_timestamp e"
  "ce_population_timestamp (e_set_ttl ttl e) = ce_population_timestamp e"
  "ce_population_timestamp (e_set_last_error err e) = ce_population_timestamp e"
  by (simp_all add: e_setters)

lemma e_compare_exchange_def:
  "e_compare_exchange_state c (state_to_u8 s) e =
     (if ce_state e = c then (True, e_set_state s e) else (False, e))"
  by (simp add: e_compare_exchange_state_def e_set_state_def)

text \<open>Every stored byte is one the encodings produce.\<close>

definition entry_wf :: "control_entry \<Rightarrow> bool" where
  "entry_wf e \<longleftrightarrow>
     ce_state e = state_to_u8 (e_state e) \<and>
     ce_intent_prev_state e = state_to_u8 (e_intent_prev_state e) \<and>
     ce_tier e = as_u8 (e_tier e) \<and>
     (ce_intent_present e \<longrightarrow> intent_kind_from_u8 (ce_intent_kind e) \<noteq> None)"

lemma entry_wf_new [simp]: "entry_wf (entry_new a)"
  by (simp add: entry_wf_def entry_new_def e_state_def e_intent_prev_state_def e_tier_def as_u8_def
      state_of_u8_def state_try_from_def from_usize_def)

lemma entry_wf_setters [simp]:
  assumes "entry_wf e"
  shows "entry_wf (e_set_state s e)" "entry_wf (e_set_generation g e)"
    "entry_wf (e_increment_generation e)" "entry_wf (e_set_tier t e)"
    "entry_wf (e_set_population_owner b e)" "entry_wf (e_set_population_timestamp ts e)"
    "entry_wf (e_notify e)" "entry_wf (e_set_intent_prev_state s e)" "entry_wf (e_set_intent i e)"
    "entry_wf (e_clear_intent e)" "entry_wf (e_set_ttl ttl e)" "entry_wf (e_set_last_error err e)"
  using assms
  by (simp_all add: entry_wf_def e_setters e_state_def e_intent_prev_state_def e_tier_def as_u8_def)


subsection \<open>Claiming an entry\<close>

lemma is_claimable_iff: "is_claimable s \<longleftrightarrow> s \<in> {Absent, Failed, Stale}"
  by (cases s) simp_all

lemma entry_acquire_claim:
  assumes "entry_wf e" "is_claimable (e_state e)"
  obtains e' where "entry_acquire now tier e =
      (Ok (snapshot_of now e' InFlight (ce_generation e + 1) tier True (Some now)), e')"
    "e_state e' = InFlight" "ce_generation e' = ce_generation e + 1" "ce_population_owner e'"
    "e_tier e' = tier" "e_intent e' = e_intent e"
  using assms
  by (intro that [of "e_set_population_timestamp (Some now) (e_set_last_error None (e_set_tier tier
        (e_set_generation (ce_generation e + 1) (e_set_population_owner True (e_set_state InFlight e)))))"])
     (auto simp: entry_acquire_def e_compare_exchange_def is_claimable_iff entry_wf_def Let_def
        simp del: state_to_u8.simps)

lemma entry_acquire_busy:
  assumes "\<not> is_claimable (e_state e)"
  shows "entry_acquire now tier e =
    (Ok (snapshot_of now e (e_state e) (ce_generation e) (e_tier e) False None), e)"
  using assms by (auto simp: entry_acquire_def is_claimable_iff Let_def)

end
