(* ===== verification/Continuity.thy ===== *)
theory Continuity
  imports Control_Entry
begin

section \<open>Continuity and the directions of recovery (\<open>src/continuity.rs\<close>)\<close>

text \<open>
  The observable condition of a rung, the direction in which an outstanding intent is resolved,
  what a recovery sweep reports, and the per-rung report. A \<open>BTreeMap\<close> over the rungs is an
  association list in rung order.
\<close>

datatype continuity_state = CS_Healthy | CS_Degraded | CS_Unavailable | CS_Recovering | CS_Reconciling

definition continuity_ALL :: "continuity_state list" where
  "continuity_ALL = [CS_Healthy, CS_Degraded, CS_Unavailable, CS_Recovering, CS_Reconciling]"

fun continuity_name :: "continuity_state \<Rightarrow> string" where
  "continuity_name CS_Healthy = ''healthy''"
| "continuity_name CS_Degraded = ''degraded''"
| "continuity_name CS_Unavailable = ''unavailable''"
| "continuity_name CS_Recovering = ''recovering''"
| "continuity_name CS_Reconciling = ''reconciling''"

fun is_serving :: "continuity_state \<Rightarrow> bool" where
  "is_serving CS_Healthy = True"
| "is_serving CS_Degraded = True"
| "is_serving _ = False"

fun accepts_writes :: "continuity_state \<Rightarrow> bool" where
  "accepts_writes CS_Healthy = True"
| "accepts_writes CS_Reconciling = True"
| "accepts_writes _ = False"

definition continuity_parse :: "string \<Rightarrow> continuity_state option" where
  "continuity_parse s = find (\<lambda>st. continuity_name st = s) continuity_ALL"

datatype recovery_direction = RD_Abort | RD_CompleteForward | RD_ExternalReconciliation

fun direction_for_kind :: "intent_kind \<Rightarrow> recovery_direction" where
  "direction_for_kind IK_Write = RD_Abort"
| "direction_for_kind IK_Move = RD_ExternalReconciliation"

definition is_executable_here :: "recovery_direction \<Rightarrow> bool" where
  "is_executable_here d \<longleftrightarrow> d = RD_Abort"

definition is_success_without_the_key :: "recovery_direction \<Rightarrow> bool" where
  "is_success_without_the_key d \<longleftrightarrow> d = RD_CompleteForward"

record recovery_report =
  rr_recovered :: nat
  rr_failed :: nat
  rr_needs_reconciliation :: nat
  rr_released_for_reconciliation :: nat

definition empty_recovery_report :: recovery_report where
  "empty_recovery_report =
     \<lparr>rr_recovered = 0, rr_failed = 0, rr_needs_reconciliation = 0, rr_released_for_reconciliation = 0\<rparr>"

datatype recovery_outcome = RO_Aborted intent_kind | RO_Completed intent_kind | RO_Failed intent_kind

fun outcome_kind :: "recovery_outcome \<Rightarrow> intent_kind" where
  "outcome_kind (RO_Aborted k) = k"
| "outcome_kind (RO_Completed k) = k"
| "outcome_kind (RO_Failed k) = k"

fun outcome_is_success :: "recovery_outcome \<Rightarrow> bool" where
  "outcome_is_success (RO_Failed k) = False"
| "outcome_is_success _ = True"

fun outcome_is_committed :: "recovery_outcome \<Rightarrow> bool" where
  "outcome_is_committed (RO_Completed k) = True"
| "outcome_is_committed _ = False"

type_synonym continuity_report = "(tier_id \<times> continuity_state) list"

definition report_state :: "continuity_report \<Rightarrow> tier_id \<Rightarrow> continuity_state" where
  "report_state r tier = (case map_of r tier of Some s \<Rightarrow> s | None \<Rightarrow> CS_Unavailable)"

definition report_serving :: "continuity_report \<Rightarrow> tier_id list" where
  "report_serving r = map fst (filter (\<lambda>(_, s). is_serving s) r)"

definition report_all_healthy :: "continuity_report \<Rightarrow> bool" where
  "report_all_healthy r \<longleftrightarrow> r \<noteq> [] \<and> list_all (\<lambda>(_, s). s = CS_Healthy) r"

definition report_summary :: "continuity_report \<Rightarrow> string" where
  "report_summary r =
     (case map (\<lambda>(t, s). tier_display t @ ''='' @ continuity_name s) r of
        [] \<Rightarrow> []
      | x # xs \<Rightarrow> x @ concat (map (\<lambda>y. '' '' @ y) xs))"

definition FAILURE_THRESHOLD :: u64 where
  "FAILURE_THRESHOLD = 5"

text \<open>Five seconds, in nanoseconds.\<close>

definition INTENT_RECOVERY_AGE :: duration where
  "INTENT_RECOVERY_AGE = 5000000000"

lemma continuity_parse_name: "continuity_parse (continuity_name s) = Some s"
  by (cases s) (simp_all add: continuity_parse_def continuity_ALL_def)

lemma continuity_parse_SomeD: "continuity_parse x = Some s \<Longrightarrow> x = continuity_name s"
  by (auto simp: continuity_parse_def find_Some_iff)

end
