(* ===== verification/Control_Plane.thy ===== *)
theory Control_Plane
  imports Continuity Table_Interface
begin

section \<open>The control plane (\<open>src/control/cachelito.rs\<close>)\<close>

text \<open>
  \<open>Cachelito\<close>: mutex-guarded shards, each a fixed open-addressed table of entries that are
  created on demand and never removed. Every method takes the guard of one shard, so a method is
  one atomic step; \<open>with_entry\<close> and \<open>with_or_create\<close> are the two ways the methods reach an entry
  under the guard, and \<open>Control_Entry\<close> holds what each does to it.

  The development's view of the plane is the partial map \<open>plane_lookup\<close> from addresses to
  entries. The lemmas show that the open-addressed tables implement that map (an entry is found
  wherever it was probed to, keys never alias, an update touches one address only), and that
  any interleaving of operations acts on each entry as the sequence of the transitions that are
  addressed to it.
\<close>

type_synonym shard = "control_entry option list"

definition shard_new :: "nat \<Rightarrow> shard" where
  "shard_new capacity = replicate capacity None"

definition shard_find_slot_step :: "key_address \<Rightarrow> nat \<Rightarrow> control_entry option \<Rightarrow> nat option probe_step" where
  "shard_find_slot_step a idx slot =
     (case slot of
        Some e \<Rightarrow> if ce_address e = a then Stop (Some idx) else Next
      | None \<Rightarrow> Stop None)"

definition shard_find_slot :: "shard \<Rightarrow> key_address \<Rightarrow> nat option" where
  "shard_find_slot sh a = probe (shard_find_slot_step a) sh (ka_placement a)"

definition shard_find_empty_step :: "key_address \<Rightarrow> nat \<Rightarrow> control_entry option \<Rightarrow> nat option probe_step" where
  "shard_find_empty_step a idx slot =
     (case slot of
        None \<Rightarrow> Stop (Some idx)
      | Some e \<Rightarrow> if ce_address e = a then Stop (Some idx) else Next)"

definition shard_find_empty :: "shard \<Rightarrow> key_address \<Rightarrow> nat option" where
  "shard_find_empty sh a = probe (shard_find_empty_step a) sh (ka_placement a)"

text \<open>The index whose slot the returned reference points into, and the shard with it filled.\<close>

definition find_or_create_entry :: "shard \<Rightarrow> key_address \<Rightarrow> nat result \<times> shard" where
  "find_or_create_entry sh a =
     (case shard_find_slot sh a of
        Some idx \<Rightarrow> (if sh ! idx = None then Err ConfigurationError else Ok idx, sh)
      | None \<Rightarrow>
          (case shard_find_empty sh a of
             Some idx \<Rightarrow> (Ok idx, sh[idx := Some (entry_new a)])
           | None \<Rightarrow> (Err ConfigurationError, sh)))"

definition find_entry :: "shard \<Rightarrow> key_address \<Rightarrow> control_entry option" where
  "find_entry sh a = (case shard_find_slot sh a of None \<Rightarrow> None | Some idx \<Rightarrow> sh ! idx)"

record cachelito =
  cl_shards :: "shard lock list"
  cl_shard_count :: nat
  cl_capacity_per_shard :: nat
  cl_placement :: placement

definition DEFAULT_SHARD_COUNT :: nat where
  "DEFAULT_SHARD_COUNT = 16"

definition CONTROL_CAPACITY_PER_SHARD :: nat where
  "CONTROL_CAPACITY_PER_SHARD = 1024"

text \<open>The constructor of the source fixes the capacity; the model names it.\<close>

definition plane_sized :: "nat \<Rightarrow> nat \<Rightarrow> cachelito" where
  "plane_sized shard_count capacity =
     (let n = max shard_count 1 in
      \<lparr>cl_shards = replicate n (new_lock (shard_new capacity)), cl_shard_count = n,
       cl_capacity_per_shard = capacity, cl_placement = PlaceDefault\<rparr>)"

definition plane_with_shards :: "nat \<Rightarrow> cachelito" where
  "plane_with_shards shard_count = plane_sized shard_count CONTROL_CAPACITY_PER_SHARD"

definition plane_new :: cachelito where
  "plane_new = plane_with_shards DEFAULT_SHARD_COUNT"

definition plane_with_placement :: "placement \<Rightarrow> cachelito \<Rightarrow> cachelito" where
  "plane_with_placement pl p = p\<lparr>cl_placement := pl\<rparr>"

definition plane_address_of :: "cachelito \<Rightarrow> bytes \<Rightarrow> key_address" where
  "plane_address_of p key = address_of (cl_placement p) key"

definition plane_shard_for :: "cachelito \<Rightarrow> key_address \<Rightarrow> nat" where
  "plane_shard_for p a = unat (ka_placement a) mod cl_shard_count p"

text \<open>
  A method that works on an existing entry: lock the shard (a poisoned lock is a configuration
  error), find the entry, give up with \<open>absent\<close> when there is none, otherwise store what the
  transition leaves behind.
\<close>

definition with_entry ::
  "key_address \<Rightarrow> 'r result \<Rightarrow> (control_entry \<Rightarrow> 'r result \<times> control_entry) \<Rightarrow> cachelito
     \<Rightarrow> 'r result \<times> cachelito"
where
  "with_entry a absent f p =
     (let i = plane_shard_for p a; l = cl_shards p ! i in
      if lk_poisoned l then (Err ConfigurationError, p)
      else case shard_find_slot (lk_value l) a of
        None \<Rightarrow> (absent, p)
      | Some idx \<Rightarrow>
          (case lk_value l ! idx of
             None \<Rightarrow> (absent, p)
           | Some e \<Rightarrow>
               (case f e of (r, e') \<Rightarrow>
                  (r, p\<lparr>cl_shards := (cl_shards p)[i := l\<lparr>lk_value := (lk_value l)[idx := Some e']\<rparr>]\<rparr>))))"

text \<open>A method that creates the entry when there is none.\<close>

definition with_or_create ::
  "key_address \<Rightarrow> (control_entry \<Rightarrow> 'r result \<times> control_entry) \<Rightarrow> cachelito \<Rightarrow> 'r result \<times> cachelito"
where
  "with_or_create a f p =
     (let i = plane_shard_for p a; l = cl_shards p ! i in
      if lk_poisoned l then (Err ConfigurationError, p)
      else case find_or_create_entry (lk_value l) a of
        (Inl _, _) \<Rightarrow> (Err ConfigurationError, p)
      | (Inr idx, sh) \<Rightarrow>
          (case sh ! idx of
             None \<Rightarrow> (Err ConfigurationError, p)
           | Some e \<Rightarrow>
               (case f e of (r, e') \<Rightarrow>
                  (r, p\<lparr>cl_shards := (cl_shards p)[i := l\<lparr>lk_value := sh[idx := Some e']\<rparr>]\<rparr>))))"

subsection \<open>The methods\<close>

definition cp_acquire :: "instant \<Rightarrow> bytes \<Rightarrow> tier_id \<Rightarrow> cachelito \<Rightarrow> control_snapshot result \<times> cachelito" where
  "cp_acquire now key tier p = with_or_create (plane_address_of p key) (entry_acquire now tier) p"

definition cp_publish ::
  "instant \<Rightarrow> bytes \<Rightarrow> generation \<Rightarrow> tier_id \<Rightarrow> duration option \<Rightarrow> cachelito \<Rightarrow> unit result \<times> cachelito"
where
  "cp_publish now key expected tier ttl p =
     with_entry (plane_address_of p key) (Err Miss) (entry_publish now expected tier ttl) p"

definition cp_fail_with_error :: "bytes \<Rightarrow> cache_error \<Rightarrow> cachelito \<Rightarrow> unit result \<times> cachelito" where
  "cp_fail_with_error key error p = with_entry (plane_address_of p key) (Err Miss) (entry_fail error) p"

definition cp_fail :: "bytes \<Rightarrow> cachelito \<Rightarrow> unit result \<times> cachelito" where
  "cp_fail key p = cp_fail_with_error key PopulationFailed p"

definition cp_release :: "bytes \<Rightarrow> cachelito \<Rightarrow> unit result \<times> cachelito" where
  "cp_release key p = with_entry (plane_address_of p key) (Ok ()) entry_invalidate p"

definition cp_invalidate :: "bytes \<Rightarrow> cachelito \<Rightarrow> unit result \<times> cachelito" where
  "cp_invalidate key p = with_entry (plane_address_of p key) (Ok ()) entry_invalidate p"

definition cp_health :: "bytes \<Rightarrow> cachelito \<Rightarrow> tier_health result" where
  "cp_health key p = Ok default_health"

definition cp_set_generation :: "bytes \<Rightarrow> generation \<Rightarrow> cachelito \<Rightarrow> unit result \<times> cachelito" where
  "cp_set_generation key g p =
     with_or_create (plane_address_of p key) (\<lambda>e. (Ok (), e_set_generation g e)) p"

definition cp_set_tier :: "bytes \<Rightarrow> tier_id \<Rightarrow> cachelito \<Rightarrow> unit result \<times> cachelito" where
  "cp_set_tier key t p = with_or_create (plane_address_of p key) (\<lambda>e. (Ok (), e_set_tier t e)) p"

definition cp_set_state :: "bytes \<Rightarrow> entry_state \<Rightarrow> cachelito \<Rightarrow> unit result \<times> cachelito" where
  "cp_set_state key s p =
     with_or_create (plane_address_of p key) (\<lambda>e. (Ok (), e_notify (e_set_state s e))) p"

definition cp_peek :: "instant \<Rightarrow> bytes \<Rightarrow> cachelito \<Rightarrow> control_snapshot result" where
  "cp_peek now key p =
     (let a = plane_address_of p key; l = cl_shards p ! plane_shard_for p a in
      if lk_poisoned l then Err ConfigurationError
      else case find_entry (lk_value l) a of
        None \<Rightarrow> Ok absent_snapshot
      | Some e \<Rightarrow>
          Ok (snapshot_of now e (e_state e) (ce_generation e) (e_tier e) (ce_population_owner e)
                (e_population_timestamp e)))"

definition cp_bump_generation :: "bytes \<Rightarrow> cachelito \<Rightarrow> generation result \<times> cachelito" where
  "cp_bump_generation key p = with_or_create (plane_address_of p key) entry_bump_generation p"

definition cp_release_population_claim :: "key_address \<Rightarrow> cachelito \<Rightarrow> bool result \<times> cachelito" where
  "cp_release_population_claim a p = with_entry a (Ok False) entry_release_population_claim p"

definition cp_reserve_eviction :: "key_address \<Rightarrow> cachelito \<Rightarrow> bool result \<times> cachelito" where
  "cp_reserve_eviction a p = with_entry a (Ok False) entry_reserve_eviction p"

definition cp_prepare ::
  "instant \<Rightarrow> bytes \<Rightarrow> generation option \<Rightarrow> tier_id \<Rightarrow> intent_kind \<Rightarrow> cachelito
     \<Rightarrow> commit_token result \<times> cachelito"
where
  "cp_prepare now key expected target kind p =
     with_or_create (plane_address_of p key) (entry_prepare now expected target kind) p"

definition cp_commit :: "instant \<Rightarrow> commit_token \<Rightarrow> duration option \<Rightarrow> cachelito \<Rightarrow> unit result \<times> cachelito" where
  "cp_commit now token ttl p = with_entry (ct_address token) (Err Miss) (entry_commit now token ttl) p"

definition cp_abort :: "commit_token \<Rightarrow> cache_error \<Rightarrow> cachelito \<Rightarrow> unit result \<times> cachelito" where
  "cp_abort token error p = with_entry (ct_address token) (Ok ()) (entry_abort_inner error False) p"

definition cp_abort_proven_clean :: "commit_token \<Rightarrow> cache_error \<Rightarrow> cachelito \<Rightarrow> unit result \<times> cachelito" where
  "cp_abort_proven_clean token error p =
     with_entry (ct_address token) (Ok ()) (entry_abort_inner error True) p"

definition cp_abort_intent_by_address :: "key_address \<Rightarrow> cache_error \<Rightarrow> cachelito \<Rightarrow> bool result \<times> cachelito" where
  "cp_abort_intent_by_address a error p = with_entry a (Ok False) (entry_abort_intent error) p"

definition cp_resolve_intent ::
  "instant \<Rightarrow> bytes \<Rightarrow> commit_intent \<Rightarrow> recovery_direction \<Rightarrow> cachelito
     \<Rightarrow> recovery_outcome result \<times> cachelito"
where
  "cp_resolve_intent now key intent direction p =
     (let token = \<lparr>ct_address = plane_address_of p key, ct_generation = ci_generation intent,
                   ct_kind = ci_kind intent, ct_target_tier = ci_target_tier intent\<rparr>
      in case direction of
           RD_Abort \<Rightarrow>
             (case cp_abort token UncommittedIntent p of
                (r, p') \<Rightarrow> (try_then r (\<lambda>_. Ok (RO_Aborted (ci_kind intent))), p'))
         | RD_CompleteForward \<Rightarrow>
             (case cp_commit now token None p of
                (r, p') \<Rightarrow> (try_then r (\<lambda>_. Ok (RO_Completed (ci_kind intent))), p'))
         | RD_ExternalReconciliation \<Rightarrow> (Err ConfigurationError, p))"

subsection \<open>The passes over the whole plane\<close>

text \<open>
  The entries a pass visits: the occupied slots of the shards that can be locked, in order. A
  pass locks one shard at a time; the model runs it as one step.
\<close>

definition shard_entries :: "shard lock \<Rightarrow> control_entry list" where
  "shard_entries l = (if lk_poisoned l then [] else List.map_filter id (lk_value l))"

definition plane_entries :: "cachelito \<Rightarrow> control_entry list" where
  "plane_entries p = concat (map shard_entries (cl_shards p))"

record plane_stats =
  ps_capacity :: nat
  ps_occupied :: nat
  ps_by_state :: "nat list"
  ps_by_tier :: "nat list"
  ps_population_owned :: nat
  ps_intents_outstanding :: nat
  ps_expired_ready :: nat

definition bump_at :: "nat \<Rightarrow> nat list \<Rightarrow> nat list" where
  "bump_at i ns = (if i < length ns then ns[i := ns ! i + 1] else ns)"

definition stats_add :: "instant \<Rightarrow> control_entry \<Rightarrow> plane_stats \<Rightarrow> plane_stats" where
  "stats_add now e s =
     s\<lparr>ps_occupied := ps_occupied s + 1,
       ps_by_state := bump_at (unat (state_to_u8 (e_state e))) (ps_by_state s),
       ps_by_tier := bump_at (as_usize (e_tier e)) (ps_by_tier s),
       ps_population_owned := ps_population_owned s + (if ce_population_owner e then 1 else 0),
       ps_intents_outstanding := ps_intents_outstanding s + (if e_intent e \<noteq> None then 1 else 0),
       ps_expired_ready := ps_expired_ready s + (if e_ttl e \<noteq> None \<and> e_is_expired now e then 1 else 0)\<rparr>"

definition cp_plane_stats :: "instant \<Rightarrow> cachelito \<Rightarrow> plane_stats" where
  "cp_plane_stats now p =
     fold (stats_add now) (plane_entries p)
       \<lparr>ps_capacity = length (cl_shards p) * cl_capacity_per_shard p, ps_occupied = 0,
        ps_by_state = replicate 6 0, ps_by_tier = replicate 7 0, ps_population_owned = 0,
        ps_intents_outstanding = 0, ps_expired_ready = 0\<rparr>"

definition stats_occupancy :: "plane_stats \<Rightarrow> real" where
  "stats_occupancy s =
     (if ps_capacity s = 0 then 0
      else real (min (ps_occupied s) (2 ^ 32 - 1)) / real (min (ps_capacity s) (2 ^ 32 - 1)))"

definition sweep_slot :: "instant \<Rightarrow> control_entry option \<Rightarrow> nat \<times> control_entry option" where
  "sweep_slot now slot =
     (case slot of
        None \<Rightarrow> (0, None)
      | Some e \<Rightarrow> (case entry_expire now e of (b, e') \<Rightarrow> (if b then 1 else 0, Some e')))"

definition sweep_shard :: "instant \<Rightarrow> shard lock \<Rightarrow> nat \<times> shard lock" where
  "sweep_shard now l =
     (if lk_poisoned l then (0, l)
      else (sum_list (map (fst \<circ> sweep_slot now) (lk_value l)),
            l\<lparr>lk_value := map (snd \<circ> sweep_slot now) (lk_value l)\<rparr>))"

definition cp_sweep_expired :: "instant \<Rightarrow> cachelito \<Rightarrow> nat \<times> cachelito" where
  "cp_sweep_expired now p =
     (sum_list (map (fst \<circ> sweep_shard now) (cl_shards p)),
      p\<lparr>cl_shards := map (snd \<circ> sweep_shard now) (cl_shards p)\<rparr>)"

definition cp_stale_intents :: "instant \<Rightarrow> u64 \<Rightarrow> cachelito \<Rightarrow> (key_address \<times> commit_intent) list" where
  "cp_stale_intents now older_than_nanos p =
     (let cutoff = saturating_sub_u64 (instant_to_nanos now) older_than_nanos in
      List.map_filter
        (\<lambda>e. case e_intent e of
              None \<Rightarrow> None
            | Some intent \<Rightarrow>
                if ci_started_nanos intent \<le> cutoff then Some (ce_address e, intent) else None)
        (plane_entries p))"

subsection \<open>The abstract view and the invariant\<close>

definition plane_lookup :: "cachelito \<Rightarrow> key_address \<Rightarrow> control_entry option" where
  "plane_lookup p a = find_entry (lk_value (cl_shards p ! plane_shard_for p a)) a"

definition plane_unlocked :: "cachelito \<Rightarrow> key_address \<Rightarrow> bool" where
  "plane_unlocked p a \<longleftrightarrow> \<not> lk_poisoned (cl_shards p ! plane_shard_for p a)"

definition entry_at :: "shard \<Rightarrow> nat \<Rightarrow> control_entry \<Rightarrow> bool" where
  "entry_at sh i e \<longleftrightarrow> i < length sh \<and> sh ! i = Some e"

text \<open>Every entry sits where probing from its placement over occupied foreign slots leads.\<close>

definition shard_wf :: "shard \<Rightarrow> bool" where
  "shard_wf sh \<longleftrightarrow>
     (\<forall>i e. entry_at sh i e \<longrightarrow> entry_wf e \<and>
        (\<exists>pre post. probe_order (length sh) (unat (ka_placement (ce_address e))) = pre @ i # post \<and>
           (\<forall>j \<in> set pre. \<exists>e'. entry_at sh j e' \<and> ce_address e' \<noteq> ce_address e)))"

definition plane_wf :: "cachelito \<Rightarrow> bool" where
  "plane_wf p \<longleftrightarrow>
     0 < cl_shard_count p \<and> length (cl_shards p) = cl_shard_count p \<and>
     (\<forall>i < cl_shard_count p. shard_wf (lk_value (cl_shards p ! i)) \<and>
        length (lk_value (cl_shards p ! i)) = cl_capacity_per_shard p \<and>
        (\<forall>k e. entry_at (lk_value (cl_shards p ! i)) k e \<longrightarrow> plane_shard_for p (ce_address e) = i))"


subsection \<open>The open-addressed shard as a map\<close>

lemma shard_find_slot_step_simps [simp]:
  "shard_find_slot_step a i x = Next \<longleftrightarrow> (\<exists>e. x = Some e \<and> ce_address e \<noteq> a)"
  "shard_find_slot_step a i x = Stop (Some j) \<longleftrightarrow> j = i \<and> (\<exists>e. x = Some e \<and> ce_address e = a)"
  "shard_find_slot_step a i x = Stop None \<longleftrightarrow> x = None"
  by (auto simp: shard_find_slot_step_def split: option.split)

lemma shard_find_empty_step_simps [simp]:
  "shard_find_empty_step a i x = Next \<longleftrightarrow> (\<exists>e. x = Some e \<and> ce_address e \<noteq> a)"
  "shard_find_empty_step a i x = Stop (Some j) \<longleftrightarrow>
     j = i \<and> (\<forall>e. x = Some e \<longrightarrow> ce_address e = a)"
  "shard_find_empty_step a i x \<noteq> Stop None"
  by (auto simp: shard_find_empty_step_def split: option.split)

lemma entry_at_inj: "entry_at sh i e \<Longrightarrow> entry_at sh i e' \<Longrightarrow> e = e'"
  by (simp add: entry_at_def)

lemma entry_at_update [simp]:
  "entry_at (sh[i := x]) j e \<longleftrightarrow> (if j = i then i < length sh \<and> x = Some e else entry_at sh j e)"
  by (auto simp: entry_at_def nth_list_update)

lemma probe_order_index_less: "probe_order n s = pre @ i # post \<Longrightarrow> i < n"
  by (metis in_set_conv_decomp lessThan_iff probe_order_set)

lemma shard_find_slot_Some_iff:
  assumes wf: "shard_wf sh"
  shows "shard_find_slot sh a = Some i \<longleftrightarrow> (\<exists>e. entry_at sh i e \<and> ce_address e = a)"
proof
  assume "shard_find_slot sh a = Some i"
  then obtain pre k post where po: "probe_order (length sh) (unat (ka_placement a)) = pre @ k # post"
    and k: "shard_find_slot_step a k (sh ! k) = Stop (Some i)"
    unfolding shard_find_slot_def probe_eq_scan by (elim scan_SomeD) blast
  with probe_order_index_less [OF po] show "\<exists>e. entry_at sh i e \<and> ce_address e = a"
    by (auto simp: entry_at_def)
next
  assume "\<exists>e. entry_at sh i e \<and> ce_address e = a"
  then obtain e where e: "entry_at sh i e" "ce_address e = a" by blast
  with wf obtain pre post where po: "probe_order (length sh) (unat (ka_placement a)) = pre @ i # post"
    and pre: "\<forall>j \<in> set pre. \<exists>e'. entry_at sh j e' \<and> ce_address e' \<noteq> a"
    unfolding shard_wf_def by metis
  show "shard_find_slot sh a = Some i"
    unfolding shard_find_slot_def probe_eq_scan
    by (rule scan_hit [OF po]) (use pre e in \<open>auto simp: entry_at_def\<close>)
qed

lemma shard_find_slot_None_iff:
  assumes "shard_wf sh"
  shows "shard_find_slot sh a = None \<longleftrightarrow> (\<forall>i e. entry_at sh i e \<longrightarrow> ce_address e \<noteq> a)"
  using shard_find_slot_Some_iff [OF assms] by (metis not_None_eq)

lemma find_entry_Some_iff:
  assumes "shard_wf sh"
  shows "find_entry sh a = Some e \<longleftrightarrow> (\<exists>i. entry_at sh i e) \<and> ce_address e = a"
proof (cases "shard_find_slot sh a")
  case None
  with shard_find_slot_None_iff [OF assms, of a] show ?thesis by (auto simp: find_entry_def)
next
  case (Some i)
  then obtain e' where "entry_at sh i e'" "ce_address e' = a"
    using shard_find_slot_Some_iff [OF assms] by blast
  moreover have "j = i" if "entry_at sh j e" "ce_address e = a" for j
    using that Some shard_find_slot_Some_iff [OF assms] by (metis option.inject)
  ultimately show ?thesis using Some by (auto simp: find_entry_def entry_at_def)
qed

lemma shard_unique_entry:
  assumes "shard_wf sh" "entry_at sh i e" "entry_at sh j e'" "ce_address e = ce_address e'"
  shows "i = j"
  using shard_find_slot_Some_iff [OF assms(1)] assms(2-4) by (metis option.inject)

text \<open>Changing an entry without its address keeps every probe path.\<close>

lemma shard_wf_update:
  assumes wf: "shard_wf sh" and at: "entry_at sh i e"
    and e': "ce_address e' = ce_address e" "entry_wf e'"
  shows "shard_wf (sh[i := Some e'])"
  unfolding shard_wf_def
proof (intro allI impI)
  fix k x assume x: "entry_at (sh[i := Some e']) k x"
  then obtain y where y: "entry_at sh k y" "ce_address y = ce_address x" and "entry_wf x"
    using at e' wf unfolding shard_wf_def by (metis entry_at_update option.inject)
  with wf obtain pre post where
    "probe_order (length sh) (unat (ka_placement (ce_address x))) = pre @ k # post"
    and pre: "\<forall>j \<in> set pre. \<exists>z. entry_at sh j z \<and> ce_address z \<noteq> ce_address x"
    unfolding shard_wf_def by metis
  moreover have "\<exists>z. entry_at (sh[i := Some e']) j z \<and> ce_address z \<noteq> ce_address x" if "j \<in> set pre" for j
  proof -
    from pre that obtain z where "entry_at sh j z" "ce_address z \<noteq> ce_address x" by blast
    with at e' show ?thesis
      by (cases "j = i") (auto dest: entry_at_inj simp: entry_at_def)
  qed
  ultimately show "entry_wf x \<and> (\<exists>pre post. probe_order (length (sh[i := Some e']))
      (unat (ka_placement (ce_address x))) = pre @ k # post \<and>
      (\<forall>j \<in> set pre. \<exists>z. entry_at (sh[i := Some e']) j z \<and> ce_address z \<noteq> ce_address x))"
    using \<open>entry_wf x\<close> by (intro conjI exI [of _ pre] exI [of _ post] ballI) simp_all
qed

text \<open>Creating an entry at the first empty slot of its probe path keeps the invariant.\<close>

lemma shard_wf_create:
  assumes wf: "shard_wf sh" and absent: "shard_find_slot sh a = None"
    and empty: "shard_find_empty sh a = Some i"
  shows "i < length sh" "sh ! i = None" "shard_wf (sh[i := Some (entry_new a)])"
proof -
  from empty obtain pre k post where po: "probe_order (length sh) (unat (ka_placement a)) = pre @ k # post"
    and pre: "\<And>j. j \<in> set pre \<Longrightarrow> shard_find_empty_step a j (sh ! j) = Next"
    and k: "shard_find_empty_step a k (sh ! k) = Stop (Some i)"
    unfolding shard_find_empty_def probe_eq_scan by (elim scan_SomeD) blast
  have "k = i" using k by simp
  then show i: "i < length sh" using probe_order_index_less [OF po] by simp
  with k \<open>k = i\<close> absent shard_find_slot_None_iff [OF wf] show none: "sh ! i = None"
    by (auto simp: entry_at_def)
  have mono: "entry_at (sh[i := Some (entry_new a)]) j z" if "entry_at sh j z" for j z
    using that none by (cases "j = i") (auto simp: entry_at_def)
  have pre_len: "j < length sh" if "j \<in> set pre" for j
  proof -
    from that have "j \<in> set (probe_order (length sh) (unat (ka_placement a)))" unfolding po by simp
    then show ?thesis by simp
  qed
  show "shard_wf (sh[i := Some (entry_new a)])"
    unfolding shard_wf_def
  proof (intro allI impI)
    fix m x assume x: "entry_at (sh[i := Some (entry_new a)]) m x"
    show "entry_wf x \<and> (\<exists>pre post. probe_order (length (sh[i := Some (entry_new a)]))
        (unat (ka_placement (ce_address x))) = pre @ m # post \<and>
        (\<forall>j \<in> set pre. \<exists>z. entry_at (sh[i := Some (entry_new a)]) j z \<and> ce_address z \<noteq> ce_address x))"
    proof (cases "m = i")
      case True
      with x have "x = entry_new a" by simp
      moreover have "\<exists>z. entry_at (sh[i := Some (entry_new a)]) j z \<and> ce_address z \<noteq> a" if "j \<in> set pre" for j
        using pre [OF that] pre_len [OF that] mono by (auto simp: entry_at_def)
      ultimately show ?thesis
        using po True \<open>k = i\<close> by (intro conjI exI [of _ pre] exI [of _ post] ballI) simp_all
    next
      case False
      with x have "entry_at sh m x" by simp
      with wf obtain pre' post' where "entry_wf x"
        "probe_order (length sh) (unat (ka_placement (ce_address x))) = pre' @ m # post'"
        "\<forall>j \<in> set pre'. \<exists>z. entry_at sh j z \<and> ce_address z \<noteq> ce_address x"
        unfolding shard_wf_def by metis
      with mono show ?thesis
        by (intro conjI exI [of _ pre'] exI [of _ post'] ballI)
           (simp_all del: entry_at_update, blast)
    qed
  qed
qed

lemma find_entry_update:
  assumes wf: "shard_wf sh" and at: "entry_at sh i e"
    and e': "ce_address e' = ce_address e" "entry_wf e'"
  shows "find_entry (sh[i := Some e']) b = (if b = ce_address e then Some e' else find_entry sh b)"
proof -
  have wf': "shard_wf (sh[i := Some e'])" by (rule shard_wf_update [OF assms])
  have uniq: "j = i" if "entry_at sh j x" "ce_address x = ce_address e" for j x
    using shard_unique_entry [OF wf that(1) at that(2)] .
  show ?thesis
  proof (cases "b = ce_address e")
    case True
    have "entry_at (sh[i := Some e']) i e'" using at by (simp add: entry_at_def)
    with True e' find_entry_Some_iff [OF wf', of b e'] show ?thesis by (simp del: entry_at_update) blast
  next
    case False
    have "find_entry (sh[i := Some e']) b = Some x \<longleftrightarrow> find_entry sh b = Some x" for x
      unfolding find_entry_Some_iff [OF wf'] find_entry_Some_iff [OF wf]
      using False e' at by (metis entry_at_inj entry_at_update option.inject)
    with False show ?thesis by (metis not_None_eq)
  qed
qed

lemma find_entry_create:
  assumes wf: "shard_wf sh" and absent: "shard_find_slot sh a = None"
    and empty: "shard_find_empty sh a = Some i"
  shows "find_entry (sh[i := Some (entry_new a)]) b =
    (if b = a then Some (entry_new a) else find_entry sh b)"
proof -
  note c = shard_wf_create [OF assms]
  show ?thesis
  proof (cases "b = a")
    case True
    have "entry_at (sh[i := Some (entry_new a)]) i (entry_new a)" using c(1) by simp
    with True find_entry_Some_iff [OF c(3), of b "entry_new a"] show ?thesis
      by (simp del: entry_at_update) blast
  next
    case False
    have "entry_at (sh[i := Some (entry_new a)]) j x \<longleftrightarrow> entry_at sh j x" if "ce_address x = b" for j x
      using False c(1,2) that by (cases "j = i") (auto simp: entry_at_def)
    then have "find_entry (sh[i := Some (entry_new a)]) b = Some x \<longleftrightarrow> find_entry sh b = Some x" for x
      unfolding find_entry_Some_iff [OF c(3)] find_entry_Some_iff [OF wf] by blast
    with False show ?thesis by (metis not_None_eq)
  qed
qed


subsection \<open>The plane as a map\<close>

text \<open>A transition that keeps the address and the encodings of its entry.\<close>

definition keeps :: "(control_entry \<Rightarrow> 'r \<times> control_entry) \<Rightarrow> bool" where
  "keeps f \<longleftrightarrow> (\<forall>e. ce_address (snd (f e)) = ce_address e \<and> (entry_wf e \<longrightarrow> entry_wf (snd (f e))))"

lemma keepsD:
  "keeps f \<Longrightarrow> ce_address (snd (f e)) = ce_address e"
  "keeps f \<Longrightarrow> entry_wf e \<Longrightarrow> entry_wf (snd (f e))"
  by (simp_all add: keeps_def)

lemma plane_wfD:
  assumes "plane_wf p" "i < cl_shard_count p"
  shows "shard_wf (lk_value (cl_shards p ! i))"
    "length (lk_value (cl_shards p ! i)) = cl_capacity_per_shard p"
    "entry_at (lk_value (cl_shards p ! i)) k e \<Longrightarrow> plane_shard_for p (ce_address e) = i"
  using assms by (auto simp: plane_wf_def)

lemma plane_shard_for_less: "plane_wf p \<Longrightarrow> plane_shard_for p a < cl_shard_count p"
  by (simp add: plane_wf_def plane_shard_for_def)

lemma plane_shard_for_less_length: "plane_wf p \<Longrightarrow> plane_shard_for p a < length (cl_shards p)"
  by (simp add: plane_wf_def plane_shard_for_def)

lemma plane_lookup_wf:
  assumes "plane_wf p" "plane_lookup p a = Some e"
  shows "ce_address e = a" "entry_wf e"
proof -
  have wf: "shard_wf (lk_value (cl_shards p ! plane_shard_for p a))"
    by (rule plane_wfD(1) [OF assms(1) plane_shard_for_less [OF assms(1)]])
  from assms(2) obtain i where "entry_at (lk_value (cl_shards p ! plane_shard_for p a)) i e"
    and "ce_address e = a"
    unfolding plane_lookup_def find_entry_Some_iff [OF wf] by blast
  with wf show "ce_address e = a" "entry_wf e" unfolding shard_wf_def by blast+
qed

text \<open>Replacing the table of one shard by one that agrees with it except at address \<open>a\<close>.\<close>

definition put_shard :: "nat \<Rightarrow> shard \<Rightarrow> cachelito \<Rightarrow> cachelito" where
  "put_shard i sh p = p\<lparr>cl_shards := (cl_shards p)[i := (cl_shards p ! i)\<lparr>lk_value := sh\<rparr>]\<rparr>"

lemma put_shard_simps [simp]:
  "cl_shard_count (put_shard i sh p) = cl_shard_count p"
  "cl_placement (put_shard i sh p) = cl_placement p"
  "cl_capacity_per_shard (put_shard i sh p) = cl_capacity_per_shard p"
  "plane_shard_for (put_shard i sh p) = plane_shard_for p"
  "plane_address_of (put_shard i sh p) = plane_address_of p"
  by (simp_all add: put_shard_def plane_shard_for_def plane_address_of_def fun_eq_iff)

lemma put_shard_unlocked [simp]: "plane_unlocked (put_shard i sh p) = plane_unlocked p"
  by (cases "i < length (cl_shards p)")
     (auto simp: plane_unlocked_def fun_eq_iff put_shard_def plane_shard_for_def nth_list_update
        list_update_beyond)

lemma plane_wf_put_shard:
  assumes wf: "plane_wf p" and sh: "shard_wf sh" "length sh = cl_capacity_per_shard p"
    and own: "\<And>k e. entry_at sh k e \<Longrightarrow> plane_shard_for p (ce_address e) = i"
    and i: "i < cl_shard_count p"
  shows "plane_wf (put_shard i sh p)"
proof -
  have "lk_value (cl_shards (put_shard i sh p) ! j) = (if j = i then sh else lk_value (cl_shards p ! j))" for j
    using wf i by (simp add: put_shard_def plane_wf_def nth_list_update)
  moreover have "length (cl_shards (put_shard i sh p)) = length (cl_shards p)"
    by (simp add: put_shard_def)
  ultimately show ?thesis using assms by (auto simp: plane_wf_def split: if_splits)
qed

lemma plane_lookup_put_shard:
  assumes wf: "plane_wf p" and i: "i = plane_shard_for p a"
    and sh: "\<And>b. find_entry sh b = (if b = a then y else find_entry (lk_value (cl_shards p ! i)) b)"
  shows "plane_lookup (put_shard i sh p) = (plane_lookup p)(a := y)"
proof
  fix b
  have "i < length (cl_shards p)" using plane_shard_for_less_length [OF wf] i by simp
  then show "plane_lookup (put_shard i sh p) b = ((plane_lookup p)(a := y)) b"
    using i sh by (cases "plane_shard_for p b = i")
      (auto simp: plane_lookup_def put_shard_def nth_list_update plane_shard_for_def)
qed

lemma with_entry_poisoned: "\<not> plane_unlocked p a \<Longrightarrow> with_entry a ab f p = (Err ConfigurationError, p)"
  by (simp add: with_entry_def plane_unlocked_def Let_def)

lemma with_or_create_poisoned:
  "\<not> plane_unlocked p a \<Longrightarrow> with_or_create a f p = (Err ConfigurationError, p)"
  by (simp add: with_or_create_def plane_unlocked_def Let_def)

lemma with_entry_None:
  "plane_unlocked p a \<Longrightarrow> plane_lookup p a = None \<Longrightarrow> with_entry a ab f p = (ab, p)"
  by (auto simp: with_entry_def plane_unlocked_def plane_lookup_def find_entry_def Let_def
      split: option.splits)

lemma with_entry_Some:
  assumes wf: "plane_wf p" and un: "plane_unlocked p a" and e: "plane_lookup p a = Some e"
    and f: "keeps f"
  shows "fst (with_entry a ab f p) = fst (f e)"
    and "plane_wf (snd (with_entry a ab f p))"
    and "plane_lookup (snd (with_entry a ab f p)) = (plane_lookup p)(a \<mapsto> snd (f e))"
    and "plane_unlocked (snd (with_entry a ab f p)) = plane_unlocked p"
    and "cl_placement (snd (with_entry a ab f p)) = cl_placement p"
proof -
  let ?i = "plane_shard_for p a"
  let ?sh = "lk_value (cl_shards p ! ?i)"
  note shw = plane_wfD [OF wf plane_shard_for_less [OF wf]]
  from e obtain idx where idx: "shard_find_slot ?sh a = Some idx" "?sh ! idx = Some e"
    by (auto simp: plane_lookup_def find_entry_def split: option.splits)
  then have at: "entry_at ?sh idx e" and addr: "ce_address e = a"
    using shard_find_slot_Some_iff [OF shw(1)] by (auto simp: entry_at_def)
  have ewf: "entry_wf e" by (rule plane_lookup_wf(2) [OF wf e])
  have we: "with_entry a ab f p = (fst (f e), put_shard ?i (?sh[idx := Some (snd (f e))]) p)"
    using un idx by (simp add: with_entry_def plane_unlocked_def put_shard_def Let_def split_beta)
  then show "fst (with_entry a ab f p) = fst (f e)"
    and "plane_unlocked (snd (with_entry a ab f p)) = plane_unlocked p"
    and "cl_placement (snd (with_entry a ab f p)) = cl_placement p"
    by simp_all
  have "ce_address (snd (f e)) = ce_address e" "entry_wf (snd (f e))"
    using keepsD [OF f] ewf by blast+
  note upd = shard_wf_update [OF shw(1) at this] find_entry_update [OF shw(1) at this]
  show "plane_wf (snd (with_entry a ab f p))"
    unfolding we snd_conv
    by (rule plane_wf_put_shard [OF wf upd(1)])
       (use shw keepsD(1) [OF f] at plane_shard_for_less [OF wf] in \<open>auto split: if_splits\<close>)
  show "plane_lookup (snd (with_entry a ab f p)) = (plane_lookup p)(a \<mapsto> snd (f e))"
    unfolding we snd_conv
    by (rule plane_lookup_put_shard [OF wf refl]) (simp add: upd(2) addr)
qed


text \<open>Whether a creating method finds or makes an entry, and which one it works on.\<close>

definition plane_admits :: "cachelito \<Rightarrow> key_address \<Rightarrow> bool" where
  "plane_admits p a \<longleftrightarrow> plane_lookup p a \<noteq> None \<or>
     shard_find_empty (lk_value (cl_shards p ! plane_shard_for p a)) a \<noteq> None"

definition plane_entry :: "cachelito \<Rightarrow> key_address \<Rightarrow> control_entry" where
  "plane_entry p a = (case plane_lookup p a of Some e \<Rightarrow> e | None \<Rightarrow> entry_new a)"

lemma shard_find_empty_None_iff:
  "shard_find_empty sh a = None \<longleftrightarrow> (\<forall>i < length sh. \<exists>e. sh ! i = Some e \<and> ce_address e \<noteq> a)"
  (is "?l = ?r")
proof
  assume ?l
  then show ?r unfolding shard_find_empty_def probe_eq_scan
    by (elim scan_NoneD [THEN disjE]) auto
next
  assume ?r
  then show ?l unfolding shard_find_empty_def probe_eq_scan
    by (intro scan_all_next) simp
qed

lemma plane_admits_iff:
  assumes "plane_wf p"
  shows "plane_admits p a \<longleftrightarrow> plane_lookup p a \<noteq> None \<or>
    (\<exists>i < cl_capacity_per_shard p. lk_value (cl_shards p ! plane_shard_for p a) ! i = None)"
proof -
  let ?sh = "lk_value (cl_shards p ! plane_shard_for p a)"
  note shw = plane_wfD [OF assms plane_shard_for_less [OF assms]]
  have "ce_address e \<noteq> a" if "plane_lookup p a = None" "entry_at ?sh i e" for i e
    using that find_entry_Some_iff [OF shw(1)] by (metis option.distinct(1) plane_lookup_def)
  then show ?thesis
    unfolding plane_admits_def using shard_find_empty_None_iff [of ?sh a] shw(2)
    by (auto simp: entry_at_def)
qed

lemma with_or_create_full:
  assumes "\<not> plane_admits p a"
  shows "with_or_create a f p = (Err ConfigurationError, p)"
proof -
  let ?sh = "lk_value (cl_shards p ! plane_shard_for p a)"
  have none: "plane_lookup p a = None" "shard_find_empty ?sh a = None"
    using assms by (auto simp: plane_admits_def)
  show ?thesis
  proof (cases "shard_find_slot ?sh a")
    case None
    with none show ?thesis by (simp add: with_or_create_def find_or_create_entry_def Let_def)
  next
    case (Some i)
    with none have "?sh ! i = None" by (simp add: plane_lookup_def find_entry_def)
    with Some show ?thesis by (simp add: with_or_create_def find_or_create_entry_def Let_def)
  qed
qed

lemma with_or_create_admits:
  assumes wf: "plane_wf p" and un: "plane_unlocked p a" and adm: "plane_admits p a"
    and f: "keeps f"
  shows "fst (with_or_create a f p) = fst (f (plane_entry p a))"
    and "plane_wf (snd (with_or_create a f p))"
    and "plane_lookup (snd (with_or_create a f p)) = (plane_lookup p)(a \<mapsto> snd (f (plane_entry p a)))"
    and "plane_unlocked (snd (with_or_create a f p)) = plane_unlocked p"
    and "cl_placement (snd (with_or_create a f p)) = cl_placement p"
proof -
  let ?i = "plane_shard_for p a"
  let ?sh = "lk_value (cl_shards p ! ?i)"
  note shw = plane_wfD [OF wf plane_shard_for_less [OF wf]]
  have "\<exists>idx sh e. find_or_create_entry ?sh a = (Ok idx, sh) \<and> shard_wf sh \<and> length sh = length ?sh \<and>
      entry_at sh idx e \<and> ce_address e = a \<and> e = plane_entry p a \<and>
      (\<forall>b. b \<noteq> a \<longrightarrow> find_entry sh b = find_entry ?sh b) \<and>
      (\<forall>k x. entry_at sh k x \<longrightarrow> plane_shard_for p (ce_address x) = ?i)"
  proof (cases "plane_lookup p a")
    case None
    then have slot: "shard_find_slot ?sh a = None"
      using shard_find_slot_Some_iff [OF shw(1), of a]
      by (auto simp: plane_lookup_def find_entry_def entry_at_def split: option.splits)
    obtain idx where empty: "shard_find_empty ?sh a = Some idx"
      using adm None by (auto simp: plane_admits_def)
    note c = shard_wf_create [OF shw(1) slot empty]
    show ?thesis
      by (rule exI [of _ idx], rule exI [of _ "?sh[idx := Some (entry_new a)]"],
          rule exI [of _ "entry_new a"])
         (use None slot empty c shw find_entry_create [OF shw(1) slot empty]
          in \<open>auto simp: find_or_create_entry_def plane_entry_def split: if_splits\<close>)
  next
    case (Some e)
    then obtain idx where "shard_find_slot ?sh a = Some idx" "?sh ! idx = Some e"
      by (auto simp: plane_lookup_def find_entry_def split: option.splits)
    moreover from this have "entry_at ?sh idx e" "ce_address e = a"
      using shard_find_slot_Some_iff [OF shw(1)] by (auto simp: entry_at_def)
    ultimately show ?thesis using Some shw
      by (intro exI [of _ idx] exI [of _ ?sh] exI [of _ e])
         (auto simp: find_or_create_entry_def plane_entry_def)
  qed
  then obtain idx sh where foc: "find_or_create_entry ?sh a = (Ok idx, sh)" and wfs: "shard_wf sh"
    and len: "length sh = length ?sh" and at: "entry_at sh idx (plane_entry p a)"
    and addr: "ce_address (plane_entry p a) = a"
    and other: "\<forall>b. b \<noteq> a \<longrightarrow> find_entry sh b = find_entry ?sh b"
    and own: "\<forall>k x. entry_at sh k x \<longrightarrow> plane_shard_for p (ce_address x) = ?i"
    by (elim exE conjE) simp
  let ?e = "plane_entry p a"
  have we: "with_or_create a f p = (fst (f ?e), put_shard ?i (sh[idx := Some (snd (f ?e))]) p)"
    using un foc at
    by (simp add: with_or_create_def plane_unlocked_def put_shard_def Let_def split_beta entry_at_def)
  then show "fst (with_or_create a f p) = fst (f ?e)"
    and "plane_unlocked (snd (with_or_create a f p)) = plane_unlocked p"
    and "cl_placement (snd (with_or_create a f p)) = cl_placement p"
    by simp_all
  have ewf: "entry_wf ?e" using wfs at unfolding shard_wf_def by blast
  have "ce_address (snd (f ?e)) = ce_address ?e" "entry_wf (snd (f ?e))"
    using keepsD [OF f] ewf by blast+
  note upd = shard_wf_update [OF wfs at this] find_entry_update [OF wfs at this]
  show "plane_wf (snd (with_or_create a f p))"
    unfolding we snd_conv
    by (rule plane_wf_put_shard [OF wf upd(1)])
       (use shw len own keepsD(1) [OF f] at plane_shard_for_less [OF wf] in \<open>auto split: if_splits\<close>)
  show "plane_lookup (snd (with_or_create a f p)) = (plane_lookup p)(a \<mapsto> snd (f ?e))"
    unfolding we snd_conv
    by (rule plane_lookup_put_shard [OF wf refl]) (simp add: upd(2) addr other)
qed

lemma keeps_acquire [simp, intro]: "keeps (entry_acquire now tier)"
  by (auto simp: keeps_def entry_acquire_def e_compare_exchange_def Let_def
      simp del: state_to_u8.simps)

lemma keeps_steps [simp, intro]:
  "keeps (entry_publish now g tier ttl)" "keeps (entry_fail err)"
  "keeps entry_invalidate" "keeps entry_bump_generation" "keeps entry_release_population_claim"
  "keeps entry_reserve_eviction" "keeps (entry_prepare now eg target kind)"
  "keeps (entry_commit now tok ttl)" "keeps (entry_abort_inner err clean)"
  "keeps (entry_abort_intent err)" "keeps (\<lambda>e. (r, e_set_generation g e))"
  "keeps (\<lambda>e. (r, e_set_tier tier e))" "keeps (\<lambda>e. (r, e_notify (e_set_state s e)))"
  "keeps (entry_expire now)"
  by (auto simp: keeps_def step_defs Let_def split: option.split)


subsection \<open>Runs of operations\<close>

text \<open>One call of each state-changing method, and its effect on the plane.\<close>

datatype plane_op =
    Op_acquire bytes tier_id
  | Op_publish bytes generation tier_id "duration option"
  | Op_fail bytes cache_error
  | Op_release bytes
  | Op_invalidate bytes
  | Op_set_generation bytes generation
  | Op_set_tier bytes tier_id
  | Op_set_state bytes entry_state
  | Op_bump_generation bytes
  | Op_release_claim key_address
  | Op_reserve_eviction key_address
  | Op_prepare bytes "generation option" tier_id intent_kind
  | Op_commit commit_token "duration option"
  | Op_abort commit_token cache_error
  | Op_abort_clean commit_token cache_error
  | Op_abort_intent key_address cache_error
  | Op_sweep

fun plane_exec :: "instant \<times> plane_op \<Rightarrow> cachelito \<Rightarrow> cachelito" where
  "plane_exec (now, Op_acquire k t) p = snd (cp_acquire now k t p)"
| "plane_exec (now, Op_publish k g t ttl) p = snd (cp_publish now k g t ttl p)"
| "plane_exec (now, Op_fail k err) p = snd (cp_fail_with_error k err p)"
| "plane_exec (now, Op_release k) p = snd (cp_release k p)"
| "plane_exec (now, Op_invalidate k) p = snd (cp_invalidate k p)"
| "plane_exec (now, Op_set_generation k g) p = snd (cp_set_generation k g p)"
| "plane_exec (now, Op_set_tier k t) p = snd (cp_set_tier k t p)"
| "plane_exec (now, Op_set_state k s) p = snd (cp_set_state k s p)"
| "plane_exec (now, Op_bump_generation k) p = snd (cp_bump_generation k p)"
| "plane_exec (now, Op_release_claim a) p = snd (cp_release_population_claim a p)"
| "plane_exec (now, Op_reserve_eviction a) p = snd (cp_reserve_eviction a p)"
| "plane_exec (now, Op_prepare k eg t kind) p = snd (cp_prepare now k eg t kind p)"
| "plane_exec (now, Op_commit tok ttl) p = snd (cp_commit now tok ttl p)"
| "plane_exec (now, Op_abort tok err) p = snd (cp_abort tok err p)"
| "plane_exec (now, Op_abort_clean tok err) p = snd (cp_abort_proven_clean tok err p)"
| "plane_exec (now, Op_abort_intent a err) p = snd (cp_abort_intent_by_address a err p)"
| "plane_exec (now, Op_sweep) p = snd (cp_sweep_expired now p)"

text \<open>The address an operation works on (none for the sweep), and what it does to the entry there.\<close>

fun op_address :: "placement \<Rightarrow> plane_op \<Rightarrow> key_address option" where
  "op_address pl (Op_acquire k t) = Some (address_of pl k)"
| "op_address pl (Op_publish k g t ttl) = Some (address_of pl k)"
| "op_address pl (Op_fail k err) = Some (address_of pl k)"
| "op_address pl (Op_release k) = Some (address_of pl k)"
| "op_address pl (Op_invalidate k) = Some (address_of pl k)"
| "op_address pl (Op_set_generation k g) = Some (address_of pl k)"
| "op_address pl (Op_set_tier k t) = Some (address_of pl k)"
| "op_address pl (Op_set_state k s) = Some (address_of pl k)"
| "op_address pl (Op_bump_generation k) = Some (address_of pl k)"
| "op_address pl (Op_release_claim a) = Some a"
| "op_address pl (Op_reserve_eviction a) = Some a"
| "op_address pl (Op_prepare k eg t kind) = Some (address_of pl k)"
| "op_address pl (Op_commit tok ttl) = Some (ct_address tok)"
| "op_address pl (Op_abort tok err) = Some (ct_address tok)"
| "op_address pl (Op_abort_clean tok err) = Some (ct_address tok)"
| "op_address pl (Op_abort_intent a err) = Some a"
| "op_address pl Op_sweep = None"

fun op_entry :: "instant \<times> plane_op \<Rightarrow> control_entry \<Rightarrow> control_entry" where
  "op_entry (now, Op_acquire k t) e = snd (entry_acquire now t e)"
| "op_entry (now, Op_publish k g t ttl) e = snd (entry_publish now g t ttl e)"
| "op_entry (now, Op_fail k err) e = snd (entry_fail err e)"
| "op_entry (now, Op_release k) e = snd (entry_invalidate e)"
| "op_entry (now, Op_invalidate k) e = snd (entry_invalidate e)"
| "op_entry (now, Op_set_generation k g) e = e_set_generation g e"
| "op_entry (now, Op_set_tier k t) e = e_set_tier t e"
| "op_entry (now, Op_set_state k s) e = e_notify (e_set_state s e)"
| "op_entry (now, Op_bump_generation k) e = snd (entry_bump_generation e)"
| "op_entry (now, Op_release_claim a) e = snd (entry_release_population_claim e)"
| "op_entry (now, Op_reserve_eviction a) e = snd (entry_reserve_eviction e)"
| "op_entry (now, Op_prepare k eg t kind) e = snd (entry_prepare now eg t kind e)"
| "op_entry (now, Op_commit tok ttl) e = snd (entry_commit now tok ttl e)"
| "op_entry (now, Op_abort tok err) e = snd (entry_abort_inner err False e)"
| "op_entry (now, Op_abort_clean tok err) e = snd (entry_abort_inner err True e)"
| "op_entry (now, Op_abort_intent a err) e = snd (entry_abort_intent err e)"
| "op_entry (now, Op_sweep) e = snd (entry_expire now e)"

definition act_at :: "placement \<Rightarrow> key_address \<Rightarrow> instant \<times> plane_op \<Rightarrow> control_entry \<Rightarrow> control_entry" where
  "act_at pl a op e =
     (if op_address pl (snd op) = Some a \<or> op_address pl (snd op) = None then op_entry op e else e)"

text \<open>The states of a healthy plane: well formed, no shard poisoned, placement \<open>pl\<close>.\<close>

definition plane_ok :: "placement \<Rightarrow> cachelito \<Rightarrow> bool" where
  "plane_ok pl p \<longleftrightarrow>
     plane_wf p \<and> (\<forall>l \<in> set (cl_shards p). \<not> lk_poisoned l) \<and> cl_placement p = pl"

lemma plane_okD:
  assumes "plane_ok pl p"
  shows "plane_wf p" "plane_unlocked p a" "cl_placement p = pl" "plane_address_of p k = address_of pl k"
  using assms plane_shard_for_less_length [of p a]
  by (auto simp: plane_ok_def plane_address_of_def plane_unlocked_def)

lemma lock_update: "map lk_poisoned (ls[i := (ls ! i)\<lparr>lk_value := x\<rparr>]) = map lk_poisoned ls"
  by (cases "i < length ls")
     (auto intro!: nth_equalityI simp: nth_list_update list_update_beyond split: if_splits)

lemma with_locks:
  "map lk_poisoned (cl_shards (snd (with_entry a ab f p))) = map lk_poisoned (cl_shards p)"
  "map lk_poisoned (cl_shards (snd (with_or_create a f p))) = map lk_poisoned (cl_shards p)"
  by (auto simp: with_entry_def with_or_create_def Let_def lock_update
      split: option.split prod.split sum.split)

lemma unpoisoned_iff: "(\<forall>l \<in> set ls. \<not> lk_poisoned l) \<longleftrightarrow> True \<notin> set (map lk_poisoned ls)"
  by auto

lemma plane_ok_with_entry:
  assumes ok: "plane_ok pl p" and f: "keeps f"
  shows "plane_ok pl (snd (with_entry a ab f p))"
    and "plane_lookup (snd (with_entry a ab f p)) =
      (case plane_lookup p a of None \<Rightarrow> plane_lookup p | Some e \<Rightarrow> (plane_lookup p)(a \<mapsto> snd (f e)))"
    and "fst (with_entry a ab f p) = (case plane_lookup p a of None \<Rightarrow> ab | Some e \<Rightarrow> fst (f e))"
  using ok with_entry_Some [OF plane_okD(1,2) [OF ok] _ f, of a _ ab]
    with_locks(1) [of a ab f p]
  by (cases "plane_lookup p a"; auto simp: plane_ok_def with_entry_None unpoisoned_iff plane_okD(2) [OF ok]
      simp del: set_map)+

lemma plane_ok_with_or_create:
  assumes ok: "plane_ok pl p" and f: "keeps f"
  shows "plane_ok pl (snd (with_or_create a f p))"
    and "plane_lookup (snd (with_or_create a f p)) =
      (if plane_admits p a then (plane_lookup p)(a \<mapsto> snd (f (plane_entry p a))) else plane_lookup p)"
    and "fst (with_or_create a f p) =
      (if plane_admits p a then fst (f (plane_entry p a)) else Err ConfigurationError)"
  using ok with_or_create_admits [OF plane_okD(1,2) [OF ok] _ f, of a] with_or_create_full [of p a f]
    with_locks(2) [of a f p]
  by (cases "plane_admits p a"; auto simp: plane_ok_def unpoisoned_iff simp del: set_map)+


text \<open>The sweep maps over every slot.\<close>

lemma sweep_slot_snd: "snd \<circ> sweep_slot now = map_option (snd \<circ> entry_expire now)"
  by (auto simp: fun_eq_iff sweep_slot_def split: option.split prod.split)

lemma shard_find_slot_map:
  assumes g: "\<And>e. ce_address (g e) = ce_address e"
  shows "shard_find_slot (map (map_option g) sh) a = shard_find_slot sh a"
  unfolding shard_find_slot_def probe_eq_scan length_map
  by (rule scan_cong) (simp add: shard_find_slot_step_def g split: option.split)

lemma shard_wf_map:
  assumes g: "\<And>e. ce_address (g e) = ce_address e" "\<And>e. entry_wf e \<Longrightarrow> entry_wf (g e)"
    and wf: "shard_wf sh"
  shows "shard_wf (map (map_option g) sh)"
proof -
  have at: "entry_at (map (map_option g) sh) i e \<longleftrightarrow> (\<exists>y. entry_at sh i y \<and> e = g y)" for i e
    by (auto simp: entry_at_def)
  show ?thesis
    unfolding shard_wf_def at
  proof (intro allI impI)
    fix i e assume "\<exists>y. entry_at sh i y \<and> e = g y"
    then obtain y where y: "entry_at sh i y" "e = g y" by blast
    with wf obtain pre post where "entry_wf y"
      "probe_order (length sh) (unat (ka_placement (ce_address y))) = pre @ i # post"
      "\<forall>j \<in> set pre. \<exists>e'. entry_at sh j e' \<and> ce_address e' \<noteq> ce_address y"
      unfolding shard_wf_def by metis
    with y g show "entry_wf e \<and> (\<exists>pre post. probe_order (length (map (map_option g) sh))
        (unat (ka_placement (ce_address e))) = pre @ i # post \<and>
        (\<forall>j \<in> set pre. \<exists>e'. (\<exists>y. entry_at sh j y \<and> e' = g y) \<and> ce_address e' \<noteq> ce_address e))"
      by (intro conjI exI [of _ pre] exI [of _ post] ballI) (auto, metis)
  qed
qed

lemma find_entry_map:
  assumes g: "\<And>e. ce_address (g e) = ce_address e"
  shows "find_entry (map (map_option g) sh) a = map_option g (find_entry sh a)"
proof (cases "shard_find_slot sh a")
  case (Some i)
  then have "i < length sh"
    unfolding shard_find_slot_def probe_eq_scan
    by (elim scan_SomeD) (auto dest: probe_order_index_less)
  with Some shard_find_slot_map [OF g] show ?thesis by (simp add: find_entry_def)
qed (simp add: find_entry_def shard_find_slot_map [OF g])

lemma plane_ok_sweep:
  assumes ok: "plane_ok pl p"
  shows "plane_ok pl (snd (cp_sweep_expired now p))"
    and "plane_lookup (snd (cp_sweep_expired now p)) a =
      map_option (snd \<circ> entry_expire now) (plane_lookup p a)"
proof -
  let ?g = "snd \<circ> entry_expire now" and ?p = "snd (cp_sweep_expired now p)"
  have g: "ce_address (?g e) = ce_address e" "entry_wf e \<Longrightarrow> entry_wf (?g e)" for e
    using keeps_steps(14) [of now] by (simp_all add: keeps_def)
  note wf = plane_okD(1) [OF ok]
  have shards: "cl_shards ?p = map (\<lambda>l. l\<lparr>lk_value := map (map_option ?g) (lk_value l)\<rparr>) (cl_shards p)"
    using ok by (simp add: cp_sweep_expired_def sweep_shard_def sweep_slot_snd plane_ok_def)
  have same: "cl_shard_count ?p = cl_shard_count p" "plane_shard_for ?p = plane_shard_for p"
    "cl_capacity_per_shard ?p = cl_capacity_per_shard p" "cl_placement ?p = cl_placement p"
    by (simp_all add: cp_sweep_expired_def plane_shard_for_def fun_eq_iff)
  have at: "entry_at (map (map_option ?g) sh) i e \<longleftrightarrow> (\<exists>y. entry_at sh i y \<and> e = ?g y)" for sh i e
    by (auto simp: entry_at_def)
  have "plane_wf ?p"
    using wf unfolding plane_wf_def same shards
    by (auto simp: at g simp del: comp_apply intro!: shard_wf_map)
  then show "plane_ok pl ?p" using ok by (simp add: plane_ok_def same shards)
  show "plane_lookup ?p a = map_option ?g (plane_lookup p a)"
    using plane_shard_for_less_length [OF wf, of a]
    by (simp add: plane_lookup_def same shards find_entry_map [OF g(1)] del: comp_apply)
qed


lemmas cp_defs = cp_acquire_def cp_publish_def cp_fail_with_error_def cp_release_def cp_invalidate_def
  cp_set_generation_def cp_set_tier_def cp_set_state_def cp_bump_generation_def
  cp_release_population_claim_def cp_reserve_eviction_def cp_prepare_def cp_commit_def
  cp_abort_def cp_abort_proven_clean_def cp_abort_intent_by_address_def

lemma plane_ok_exec:
  assumes "plane_ok pl p"
  shows "plane_ok pl (plane_exec op p)"
proof -
  obtain now c where "op = (now, c)" by (cases op)
  with assms show ?thesis
    by (cases c) (simp_all add: cp_defs plane_ok_with_entry(1) plane_ok_with_or_create(1) plane_ok_sweep(1))
qed

lemma with_lookup_at:
  assumes ok: "plane_ok pl p" and e: "plane_lookup p a = Some e" and f: "keeps f"
  shows "plane_lookup (snd (with_entry b ab f p)) a = Some (if b = a then snd (f e) else e)"
    and "plane_lookup (snd (with_or_create b f p)) a = Some (if b = a then snd (f e) else e)"
  using e by (auto simp: plane_ok_with_entry(2) [OF ok f] plane_ok_with_or_create(2) [OF ok f]
      plane_admits_def plane_entry_def split: option.split)

lemma plane_lookup_exec:
  assumes ok: "plane_ok pl p" and e: "plane_lookup p a = Some e"
  shows "plane_lookup (plane_exec op p) a = Some (act_at pl a op e)"
proof -
  obtain now c where "op = (now, c)" by (cases op)
  then show ?thesis
    using plane_ok_sweep(2) [OF ok] e
    by (cases c) (simp_all add: cp_defs plane_okD(4) [OF ok] act_at_def with_lookup_at [OF ok e])
qed

lemma plane_lookup_exec_None:
  assumes ok: "plane_ok pl p" and e: "plane_lookup p a = None"
  shows "plane_lookup (plane_exec op p) a = None \<or>
    plane_lookup (plane_exec op p) a = Some (act_at pl a op (entry_new a))"
proof -
  obtain now c where "op = (now, c)" by (cases op)
  then show ?thesis
    using plane_ok_sweep(2) [OF ok] e
    by (cases c) (auto simp: cp_defs plane_okD(4) [OF ok] act_at_def plane_entry_def
        plane_ok_with_or_create(2) [OF ok] plane_ok_with_entry(2) [OF ok] split: option.split)
qed

interpretation plane_table: entry_table "plane_ok pl" plane_lookup plane_exec "act_at pl" entry_new
  for pl
  by unfold_locales (simp_all add: plane_ok_exec plane_lookup_exec plane_lookup_exec_None)

end
