(* ===== verification/Control_Properties.thy ===== *)
theory Control_Properties
  imports Control_Plane
begin

section \<open>What the control plane promises\<close>

text \<open>
  The two-phase commit, single flight, eviction and recovery clauses, stated of the methods of
  \<open>Cachelito\<close> on any healthy plane (\<open>plane_ok\<close>) and, where the clause is about concurrency, of
  any interleaving of method calls. Each method runs under one shard guard, so an interleaving
  of threads is a sequence of calls.
\<close>

text \<open>One caller after another acquires \<open>key\<close>; before each the calls of other parties run.\<close>

fun acquire_run ::
  "bytes \<Rightarrow> ((instant \<times> plane_op) list \<times> instant \<times> tier_id) list \<Rightarrow> cachelito
     \<Rightarrow> control_snapshot result list"
where
  "acquire_run key [] p = []"
| "acquire_run key ((others, now, tier) # calls) p =
     (case cp_acquire now key tier (fold plane_exec others p) of
        (r, p') \<Rightarrow> r # acquire_run key calls p')"

definition won_population :: "control_snapshot result \<Rightarrow> bool" where
  "won_population r = (case r of Inl _ \<Rightarrow> False | Inr s \<Rightarrow> cs_population_owner s)"

definition foreign_op :: "placement \<Rightarrow> key_address \<Rightarrow> instant \<times> plane_op \<Rightarrow> bool" where
  "foreign_op pl a op \<longleftrightarrow> op_address pl (snd op) \<noteq> Some a"

text \<open>Operations that move the generation of their entry whatever its state.\<close>

fun moves_generation :: "plane_op \<Rightarrow> bool" where
  "moves_generation (Op_release k) = True"
| "moves_generation (Op_invalidate k) = True"
| "moves_generation (Op_bump_generation k) = True"
| "moves_generation _ = False"

fun sets_generation :: "plane_op \<Rightarrow> bool" where
  "sets_generation (Op_set_generation k g) = True"
| "sets_generation _ = False"

fun sets_state :: "plane_op \<Rightarrow> bool" where
  "sets_state (Op_set_state k s) = True"
| "sets_state _ = False"

text \<open>A claimed population is visible, and a claimed prepared entry carries its intent.\<close>

definition claim_ok :: "control_entry \<Rightarrow> bool" where
  "claim_ok e \<longleftrightarrow> entry_wf e \<and>
     (ce_population_owner e \<longrightarrow>
        e_state e = InFlight \<or> e_state e = Prepared \<and> e_intent e \<noteq> None)"

definition demo_plane :: cachelito where
  "demo_plane = (plane_sized 1 2)\<lparr>cl_placement := AllToZero\<rparr>"

subsection \<open>Shared facts\<close>

lemma shard_wf_new: "shard_wf (shard_new n)"
  by (auto simp: shard_wf_def shard_new_def entry_at_def)

lemma plane_ok_sized: "plane_ok pl ((plane_sized n c)\<lparr>cl_placement := pl\<rparr>)"
  using shard_wf_new
  by (auto simp: plane_ok_def plane_wf_def plane_sized_def Let_def new_lock_def entry_at_def
      shard_new_def)

lemma demo_plane_ok: "plane_ok AllToZero demo_plane"
  unfolding demo_plane_def by (rule plane_ok_sized)

lemma plane_lookup_sized: "plane_lookup ((plane_sized n c)\<lparr>cl_placement := pl\<rparr>) a = None"
proof -
  let ?p = "(plane_sized n c)\<lparr>cl_placement := pl\<rparr>"
  have "plane_shard_for ?p a < max n 1" by (simp add: plane_shard_for_def plane_sized_def Let_def)
  then have "lk_value (cl_shards ?p ! plane_shard_for ?p a) = shard_new c"
    by (simp add: plane_sized_def Let_def new_lock_def)
  moreover have "find_entry (shard_new c) a = None"
    using find_entry_Some_iff [OF shard_wf_new, of c a]
    by (cases "find_entry (shard_new c) a") (auto simp: entry_at_def shard_new_def)
  ultimately show ?thesis by (simp add: plane_lookup_def)
qed

lemma plane_admits_sized: "0 < c \<Longrightarrow> plane_admits ((plane_sized n c)\<lparr>cl_placement := pl\<rparr>) a"
proof -
  let ?p = "(plane_sized n c)\<lparr>cl_placement := pl\<rparr>"
  assume "0 < c"
  have "plane_shard_for ?p a < max n 1" by (simp add: plane_shard_for_def plane_sized_def Let_def)
  then have "lk_value (cl_shards ?p ! plane_shard_for ?p a) ! 0 = None"
    using \<open>0 < c\<close> by (simp add: plane_sized_def Let_def new_lock_def shard_new_def)
  then show ?thesis
    using plane_admits_iff [OF plane_okD(1) [OF plane_ok_sized]] \<open>0 < c\<close>
    by (auto simp: plane_sized_def Let_def)
qed

lemma demo_plane_lookup: "plane_lookup demo_plane a = None"
  unfolding demo_plane_def by (rule plane_lookup_sized)

lemma demo_plane_admits: "plane_admits demo_plane a"
  unfolding demo_plane_def by (rule plane_admits_sized) simp

lemma foreign_act:
  "foreign_op pl a op \<Longrightarrow> e_state e \<noteq> Ready \<Longrightarrow> act_at pl a op e = e"
  by (cases op; cases "snd op") (auto simp: foreign_op_def act_at_def entry_expire_def)

lemma foreign_run:
  "list_all (foreign_op pl a) ops \<Longrightarrow> e_state e \<noteq> Ready \<Longrightarrow> fold (act_at pl a) ops e = e"
  by (induction ops) (simp_all add: foreign_act)

lemma demo_acquired:
  "plane_ok AllToZero (snd (cp_acquire 10 [1] L1 demo_plane))"
  "plane_lookup (snd (cp_acquire 10 [1] L1 demo_plane)) (address_of AllToZero [1]) =
     Some (snd (entry_acquire 10 L1 (entry_new (address_of AllToZero [1]))))"
  using plane_ok_with_or_create(1,2) [OF demo_plane_ok keeps_acquire] demo_plane_admits
  by (simp_all add: cp_acquire_def plane_okD(4) [OF demo_plane_ok] plane_entry_def demo_plane_lookup)

lemma plane_entry_Some [simp]: "plane_lookup p a = Some e \<Longrightarrow> plane_entry p a = e"
  by (simp add: plane_entry_def)

lemma cp_acquire_Some:
  assumes ok: "plane_ok pl p" and e: "plane_lookup p (address_of pl key) = Some e"
  shows "fst (cp_acquire now key tier p) = fst (entry_acquire now tier e)"
    "plane_ok pl (snd (cp_acquire now key tier p))"
    "plane_lookup (snd (cp_acquire now key tier p)) (address_of pl key) =
       Some (snd (entry_acquire now tier e))"
  using plane_ok_with_or_create [OF ok keeps_acquire] e
  by (simp_all add: cp_acquire_def plane_okD(4) [OF ok] plane_admits_def)

text \<open>Once somebody populates, every later caller is told to wait.\<close>

lemma acquire_run_waiters:
  assumes ok: "plane_ok pl p" and e: "plane_lookup p (address_of pl key) = Some e"
    and busy: "e_state e = InFlight"
    and others: "list_all (\<lambda>(os, _, _). list_all (foreign_op pl (address_of pl key)) os) calls"
  shows "map won_population (acquire_run key calls p) = replicate (length calls) False"
  using ok e others
proof (induction calls arbitrary: p)
  case (Cons call calls)
  obtain os now tier where call: "call = (os, now, tier)" by (cases call)
  let ?p = "fold plane_exec os p"
  have ok': "plane_ok pl ?p" by (rule plane_table.inv_run [OF Cons.prems(1)])
  have e': "plane_lookup ?p (address_of pl key) = Some e"
    using plane_table.lookup_run [OF Cons.prems(1,2), of os] Cons.prems(3) busy
    by (simp add: call foreign_run)
  note acq = cp_acquire_Some [OF ok' e', of now tier]
  have "entry_acquire now tier e =
      (Ok (snapshot_of now e InFlight (ce_generation e) (e_tier e) False None), e)"
    using entry_acquire_busy [of e now tier] busy by simp
  with acq Cons.IH [OF acq(2)] Cons.prems(3) show ?case
    by (simp add: call split_beta won_population_def snapshot_of_def)
qed simp


lemma plane_entry_wf: "plane_ok pl p \<Longrightarrow> entry_wf (plane_entry p a)"
  by (auto simp: plane_entry_def dest: plane_okD(1) plane_lookup_wf(2) split: option.split)

lemma plane_entry_address: "plane_ok pl p \<Longrightarrow> ce_address (plane_entry p a) = a"
  by (auto simp: plane_entry_def dest: plane_okD(1) plane_lookup_wf(1) split: option.split)

lemma op_entry_generation:
  assumes "\<not> sets_generation c"
  shows "ce_generation (op_entry (now, c) e) = ce_generation e \<or>
    ce_generation (op_entry (now, c) e) = ce_generation e + 1"
  using assms
  by (cases c) (auto simp: step_defs Let_def e_compare_exchange_def split: option.split
      simp del: state_to_u8.simps)

lemma act_at_generation:
  assumes "\<not> sets_generation (snd op)"
  shows "ce_generation (act_at pl a op e) = ce_generation e \<or>
    ce_generation (act_at pl a op e) = ce_generation e + 1"
  using op_entry_generation [OF assms, of "fst op"] by (simp add: act_at_def)

lemma run_generation:
  assumes "list_all (\<lambda>op. \<not> sets_generation (snd op)) ops"
  obtains k where "k \<le> length ops" "ce_generation (fold (act_at pl a) ops e) = ce_generation e + of_nat k"
  using assms
proof (induction ops arbitrary: e thesis)
  case (Cons op ops)
  have "\<not> sets_generation (snd op)" using Cons.prems(2) by simp
  from act_at_generation [OF this, of pl a e]
  obtain j :: nat where j: "j \<le> 1" "ce_generation (act_at pl a op e) = ce_generation e + of_nat j"
  proof
    assume "ce_generation (act_at pl a op e) = ce_generation e"
    then show ?thesis by (intro that [of 0]) simp_all
  next
    assume "ce_generation (act_at pl a op e) = ce_generation e + 1"
    then show ?thesis by (intro that [of 1]) simp_all
  qed
  from Cons.prems(2) obtain k where "k \<le> length ops"
    "ce_generation (fold (act_at pl a) ops (act_at pl a op e)) =
       ce_generation (act_at pl a op e) + of_nat k"
    using Cons.IH by auto
  with j show ?case by (intro Cons.prems(1) [of "j + k"]) (simp_all add: algebra_simps)
qed simp

lemma word_add_neq: "0 < k \<Longrightarrow> k < 2 ^ 64 \<Longrightarrow> (g :: u64) + of_nat k \<noteq> g"
  using unat_of_nat_u64 [of k] by (metis add_cancel_left_right unat_0 less_numeral_extra(3))

lemma moves_generation_act:
  assumes "moves_generation (snd op)" "op_address pl (snd op) = Some a"
  shows "ce_generation (act_at pl a op e) = ce_generation e + 1"
  using assms by (cases op; cases "snd op") (auto simp: act_at_def step_defs Let_def)

lemma cp_commit_Some:
  assumes ok: "plane_ok pl p" and e: "plane_lookup p (ct_address tok) = Some e"
  shows "fst (cp_commit now tok ttl p) = fst (entry_commit now tok ttl e)"
    "plane_ok pl (snd (cp_commit now tok ttl p))"
    "plane_lookup (snd (cp_commit now tok ttl p)) =
       (plane_lookup p)(ct_address tok \<mapsto> snd (entry_commit now tok ttl e))"
  using plane_ok_with_entry [OF ok keeps_steps(8)] e by (simp_all add: cp_commit_def)

lemma cp_abort_Some:
  assumes ok: "plane_ok pl p" and e: "plane_lookup p (ct_address tok) = Some e"
  shows "fst (cp_abort tok err p) = Ok ()" "plane_ok pl (snd (cp_abort tok err p))"
    "plane_lookup (snd (cp_abort tok err p)) =
       (plane_lookup p)(ct_address tok \<mapsto> snd (entry_abort_inner err False e))"
    "fst (cp_abort_proven_clean tok err p) = Ok ()" "plane_ok pl (snd (cp_abort_proven_clean tok err p))"
    "plane_lookup (snd (cp_abort_proven_clean tok err p)) =
       (plane_lookup p)(ct_address tok \<mapsto> snd (entry_abort_inner err True e))"
  using plane_ok_with_entry [OF ok keeps_steps(9)] e
  by (simp_all add: cp_abort_def cp_abort_proven_clean_def entry_abort_inner_def Let_def)

lemma cp_prepare_admits:
  assumes ok: "plane_ok pl p" and adm: "plane_admits p (address_of pl key)"
  shows "fst (cp_prepare now key eg target kind p) =
      fst (entry_prepare now eg target kind (plane_entry p (address_of pl key)))"
    "plane_ok pl (snd (cp_prepare now key eg target kind p))"
    "plane_lookup (snd (cp_prepare now key eg target kind p)) =
       (plane_lookup p)(address_of pl key \<mapsto>
          snd (entry_prepare now eg target kind (plane_entry p (address_of pl key))))"
  using plane_ok_with_or_create [OF ok keeps_steps(7)] adm
  by (simp_all add: cp_prepare_def plane_okD(4) [OF ok])

lemma entry_prepare_None:
  obtains e' where
    "entry_prepare now None target kind e =
       (Ok \<lparr>ct_address = ce_address e, ct_generation = ce_generation e, ct_kind = kind,
            ct_target_tier = as_u8 target\<rparr>, e')"
    "e_state e' = Prepared" "ce_generation e' = ce_generation e" "ce_population_owner e'"
    "e_intent_prev_state e' = e_state e" "ce_address e' = ce_address e"
    "e_intent e' = Some \<lparr>ci_kind = kind, ci_target_tier = as_u8 target, ci_generation = ce_generation e,
       ci_started_nanos = instant_to_nanos now\<rparr>"
  by (rule that [of "snd (entry_prepare now None target kind e)"])
     (simp_all add: entry_prepare_def Let_def)

lemma cp_prepare_ok:
  assumes ok: "plane_ok pl p" and adm: "plane_admits p (address_of pl key)"
  obtains tok p1 e1 where "cp_prepare now key None target kind p = (Ok tok, p1)" "plane_ok pl p1"
    "plane_lookup p1 = (plane_lookup p)(address_of pl key \<mapsto> e1)"
    "e1 = snd (entry_prepare now None target kind (plane_entry p (address_of pl key)))"
    "e_state e1 = Prepared" "ce_generation e1 = ct_generation tok" "ce_population_owner e1"
    "e_intent_prev_state e1 = e_state (plane_entry p (address_of pl key))"
    "ct_generation tok = ce_generation (plane_entry p (address_of pl key))"
    "ct_address tok = address_of pl key" "ct_kind tok = kind" "ct_target_tier tok = as_u8 target"
proof -
  let ?e = "plane_entry p (address_of pl key)"
  note c = cp_prepare_admits [OF ok adm, of now None target kind]
  obtain e1 where prep: "entry_prepare now None target kind ?e =
       (Ok \<lparr>ct_address = ce_address ?e, ct_generation = ce_generation ?e, ct_kind = kind,
            ct_target_tier = as_u8 target\<rparr>, e1)"
    and e1: "e_state e1 = Prepared" "ce_generation e1 = ce_generation ?e" "ce_population_owner e1"
      "e_intent_prev_state e1 = e_state ?e"
    by (rule entry_prepare_None)
  show ?thesis
    by (rule that [of "\<lparr>ct_address = ce_address ?e, ct_generation = ce_generation ?e, ct_kind = kind,
            ct_target_tier = as_u8 target\<rparr>" "snd (cp_prepare now key None target kind p)" e1])
       (use c prep e1 plane_entry_address [OF ok] in \<open>simp_all add: prod_eq_iff\<close>)
qed

lemma entry_commit_ok:
  assumes "e_state e = Prepared" "ce_generation e = ct_generation tok"
  obtains e' where "entry_commit now tok ttl e = (Ok (), e')" "e_state e' = Ready"
    "ce_generation e' = ce_generation e" "e_intent e' = None" "\<not> ce_population_owner e'"
    "\<And>t. ct_target_tier tok = as_u8 t \<Longrightarrow> e_tier e' = t"
  using assms
  by (intro that [of "snd (entry_commit now tok ttl e)"])
     (auto simp: entry_commit_def token_expired_by_def Let_def split: option.split)

lemma cp_peek_Some:
  assumes ok: "plane_ok pl p" and e: "plane_lookup p (address_of pl key) = Some e"
  shows "cp_peek now key p = Ok (snapshot_of now e (e_state e) (ce_generation e) (e_tier e)
    (ce_population_owner e) (e_population_timestamp e))"
  using plane_okD(2) [OF ok, of "address_of pl key"] e
  by (simp add: cp_peek_def plane_okD(4) [OF ok] plane_lookup_def plane_unlocked_def Let_def)

subsection \<open>The passes\<close>

lemma sweep_shard_count:
  "fst (sweep_shard now l) = length (filter (fst \<circ> entry_expire now) (shard_entries l))"
proof -
  have "sum_list (map (fst \<circ> sweep_slot now) sh) =
      length (filter (fst \<circ> entry_expire now) (List.map_filter id sh))" for sh
    by (induction sh) (auto simp: sweep_slot_def map_filter_simps split: option.split prod.split)
  then show ?thesis by (simp add: sweep_shard_def shard_entries_def)
qed

lemma sweep_shard_entries:
  "shard_entries (snd (sweep_shard now l)) = map (snd \<circ> entry_expire now) (shard_entries l)"
proof -
  have "List.map_filter id (map (map_option f) sh) = map f (List.map_filter id sh)"
    for f :: "control_entry \<Rightarrow> control_entry" and sh
    by (induction sh) (auto simp: map_filter_simps split: option.split)
  then show ?thesis by (simp add: sweep_shard_def shard_entries_def sweep_slot_snd)
qed

lemma sweep_count:
  "fst (cp_sweep_expired now p) = length (filter (fst \<circ> entry_expire now) (plane_entries p))"
proof -
  have "sum_list (map (fst \<circ> sweep_shard now) ls) =
      length (filter (fst \<circ> entry_expire now) (concat (map shard_entries ls)))" for ls
    by (induction ls) (simp_all add: sweep_shard_count comp_def)
  then show ?thesis by (simp add: cp_sweep_expired_def plane_entries_def)
qed

lemma sweep_entries:
  "plane_entries (snd (cp_sweep_expired now p)) = map (snd \<circ> entry_expire now) (plane_entries p)"
proof -
  have "concat (map (shard_entries \<circ> (snd \<circ> sweep_shard now)) ls) =
      map (snd \<circ> entry_expire now) (concat (map shard_entries ls))" for ls
    by (induction ls) (simp_all add: sweep_shard_entries)
  then show ?thesis by (simp add: cp_sweep_expired_def plane_entries_def)
qed

lemma entry_expire_twice: "\<not> fst (entry_expire now (snd (entry_expire now e)))"
  by (simp add: entry_expire_def)

lemma bump_at_length [simp]: "length (bump_at i ns) = length ns"
  by (simp add: bump_at_def)

lemma bump_at_nth: "j < length ns \<Longrightarrow> bump_at i ns ! j = ns ! j + (if i = j then 1 else 0)"
  by (auto simp: bump_at_def)

lemma stats_fold:
  "ps_capacity (fold (stats_add now) es s) = ps_capacity s"
  "ps_occupied (fold (stats_add now) es s) = ps_occupied s + length es"
  "length (ps_by_state (fold (stats_add now) es s)) = length (ps_by_state s)"
  "length (ps_by_tier (fold (stats_add now) es s)) = length (ps_by_tier s)"
  "ps_population_owned (fold (stats_add now) es s) =
     ps_population_owned s + length (filter ce_population_owner es)"
  "ps_intents_outstanding (fold (stats_add now) es s) =
     ps_intents_outstanding s + length (filter (\<lambda>e. e_intent e \<noteq> None) es)"
  "ps_expired_ready (fold (stats_add now) es s) =
     ps_expired_ready s + length (filter (\<lambda>e. e_is_expired now e) es)"
proof (induction es arbitrary: s)
  case (Cons e es)
  have "e_ttl e \<noteq> None \<and> e_is_expired now e \<longleftrightarrow> e_is_expired now e"
    by (auto simp: e_is_expired_def split: option.splits)
  case 7
  then show ?case using Cons \<open>e_ttl e \<noteq> None \<and> e_is_expired now e \<longleftrightarrow> e_is_expired now e\<close>
    by (simp add: stats_add_def)
qed (simp_all add: stats_add_def)

lemma stats_fold_hist:
  "j < length (ps_by_state s) \<Longrightarrow> ps_by_state (fold (stats_add now) es s) ! j =
     ps_by_state s ! j + length (filter (\<lambda>e. unat (state_to_u8 (e_state e)) = j) es)"
  "j < length (ps_by_tier s) \<Longrightarrow> ps_by_tier (fold (stats_add now) es s) ! j =
     ps_by_tier s ! j + length (filter (\<lambda>e. as_usize (e_tier e) = j) es)"
  by (induction es arbitrary: s) (simp_all add: stats_add_def bump_at_nth)

subsection \<open>Properties\<close>

text \<open>
  C12: refinement to the entry map. On a healthy plane, whatever calls are interleaved, the entry
  at an address ends as the calls addressed to it (and the sweeps), run in order on that entry
  alone, leave it; no call on another key, even one that collides on placement, changes it.
\<close>

theorem plane_run_projects:
  assumes "plane_ok pl p" and "plane_lookup p a = Some e"
  shows "plane_lookup (fold plane_exec ops p) a =
    Some (fold op_entry (filter (\<lambda>op. op_address pl (snd op) = Some a \<or> op_address pl (snd op) = None) ops) e)"
proof -
  have "fold (act_at pl a) ops e = fold op_entry
      (filter (\<lambda>op. op_address pl (snd op) = Some a \<or> op_address pl (snd op) = None) ops) e" for e
    by (induction ops arbitrary: e) (simp_all add: act_at_def)
  with plane_table.lookup_run [OF assms, of ops] show ?thesis by simp
qed

theorem plane_run_projects_witness:
  "plane_lookup (fold plane_exec [(12, Op_acquire [2] L0), (13, Op_fail [1] Timeout)]
     (snd (cp_acquire 10 [1] L1 demo_plane))) (address_of AllToZero [1]) =
   Some (snd (entry_fail Timeout (snd (entry_acquire 10 L1 (entry_new (address_of AllToZero [1]))))))"
proof -
  let ?p = "snd (cp_acquire 10 [1] L1 demo_plane)" and ?a = "address_of AllToZero [1]"
  have "plane_ok AllToZero ?p" by (rule demo_acquired(1))
  moreover have "plane_lookup ?p ?a = Some (snd (entry_acquire 10 L1 (entry_new ?a)))"
    using demo_acquired(2) by simp
  ultimately have "plane_lookup (fold plane_exec [(12, Op_acquire [2] L0), (13, Op_fail [1] Timeout)] ?p) ?a =
    Some (fold op_entry (filter (\<lambda>op. op_address AllToZero (snd op) = Some ?a \<or>
       op_address AllToZero (snd op) = None) [(12, Op_acquire [2] L0), (13, Op_fail [1] Timeout)])
       (snd (entry_acquire 10 L1 (entry_new ?a))))"
    by (rule plane_run_projects)
  moreover have "address_of AllToZero [2] \<noteq> ?a" by code_simp
  ultimately show ?thesis by simp
qed

text \<open>
  C3: single flight. When a key is claimable, the first of any number of callers that acquire it
  becomes the population owner and every later one does not, whatever calls on other keys (and
  sweeps) run in between.
\<close>

theorem single_flight:
  assumes ok: "plane_ok pl p" and adm: "plane_admits p (address_of pl key)"
    and claim: "is_claimable (e_state (plane_entry p (address_of pl key)))"
    and others: "list_all (\<lambda>(os, _, _). list_all (foreign_op pl (address_of pl key)) os) calls"
  shows "map won_population (acquire_run key (([], now, tier) # calls) p) =
    True # replicate (length calls) False"
proof -
  let ?e = "plane_entry p (address_of pl key)"
  obtain e' where acq: "entry_acquire now tier ?e =
      (Ok (snapshot_of now e' InFlight (ce_generation ?e + 1) tier True (Some now)), e')"
    and st: "e_state e' = InFlight"
    by (rule entry_acquire_claim [OF plane_entry_wf [OF ok] claim])
  note c = plane_ok_with_or_create [OF ok keeps_acquire, of "address_of pl key" now tier]
  have "plane_lookup (snd (cp_acquire now key tier p)) (address_of pl key) = Some e'"
    using c(2) adm acq by (simp add: cp_acquire_def plane_okD(4) [OF ok])
  moreover have "plane_ok pl (snd (cp_acquire now key tier p))"
    using c(1) by (simp add: cp_acquire_def plane_okD(4) [OF ok])
  ultimately have "map won_population (acquire_run key calls (snd (cp_acquire now key tier p))) =
      replicate (length calls) False"
    using st others by (intro acquire_run_waiters)
  moreover have "won_population (fst (cp_acquire now key tier p))"
    using c(3) adm acq
    by (simp add: cp_acquire_def plane_okD(4) [OF ok] won_population_def snapshot_of_def)
  ultimately show ?thesis by (simp add: split_beta)
qed

theorem single_flight_witness:
  "map won_population (acquire_run [1]
     [([], 10, L1), ([(11, Op_acquire [2] L0), (12, Op_sweep)], 13, L2), ([], 14, L1)] demo_plane) =
   [True, False, False]"
proof -
  have "map won_population (acquire_run [1] (([], 10, L1) #
      [([(11, Op_acquire [2] L0), (12, Op_sweep)], 13, L2), ([], 14, L1)]) demo_plane) =
    True # replicate (length [([(11 :: nat, Op_acquire [2] L0), (12, Op_sweep)], 13 :: nat, L2), ([], 14, L1)]) False"
  proof (rule single_flight [OF demo_plane_ok])
    show "plane_admits demo_plane (address_of AllToZero [1])" by (rule demo_plane_admits)
    show "is_claimable (e_state (plane_entry demo_plane (address_of AllToZero [1])))"
      by code_simp
    show "list_all (\<lambda>(os, _, _). list_all (foreign_op AllToZero (address_of AllToZero [1])) os)
        [([(11, Op_acquire [2] L0), (12, Op_sweep)], 13, L2), ([], 14, L1)]"
      by code_simp
  qed
  then show ?thesis by (simp add: numeral_2_eq_2)
qed


text \<open>
  C10: a prepared write is invisible until it commits, and visible afterwards. Once \<open>prepare\<close> has
  returned a token, whatever calls on other keys run, a peek shows \<open>Prepared\<close> (which no read
  serves); committing the token succeeds and then a peek shows \<open>Ready\<close> at the target rung, with
  the generation unchanged, no intent and no owner.
\<close>

theorem prepare_commit_visible:
  assumes ok: "plane_ok pl p" and adm: "plane_admits p (address_of pl key)"
    and others: "list_all (foreign_op pl (address_of pl key)) ops"
  shows "case cp_prepare now key None target kind p of
      (Inl _, _) \<Rightarrow> False
    | (Inr tok, p1) \<Rightarrow>
        (let p2 = fold plane_exec ops p1; (r, p3) = cp_commit now' tok ttl p2 in
         (\<exists>s. cp_peek t key p2 = Ok s \<and> cs_state s = Prepared \<and> \<not> is_readable (cs_state s)) \<and>
         r = Ok () \<and>
         (\<exists>s. cp_peek t key p3 = Ok s \<and> cs_state s = Ready \<and> cs_tier s = target \<and>
            cs_generation s = ct_generation tok \<and> cs_intent s = None \<and> \<not> cs_population_owner s))"
proof -
  let ?a = "address_of pl key"
  obtain tok p1 e1 where call: "cp_prepare now key None target kind p = (Ok tok, p1)"
    and ok1: "plane_ok pl p1" and l1: "plane_lookup p1 = (plane_lookup p)(?a \<mapsto> e1)"
    and e1: "e_state e1 = Prepared" "ce_generation e1 = ct_generation tok"
    and tok: "ct_address tok = ?a" "ct_target_tier tok = as_u8 target"
    by (rule cp_prepare_ok [OF ok adm])
  let ?p2 = "fold plane_exec ops p1"
  have ok2: "plane_ok pl ?p2" by (rule plane_table.inv_run [OF ok1])
  have l2: "plane_lookup ?p2 ?a = Some e1"
    using plane_table.lookup_run [OF ok1, of ?a e1 ops] others e1(1) l1 by (simp add: foreign_run)
  obtain e3 where cm: "entry_commit now' tok ttl e1 = (Ok (), e3)" and e3: "e_state e3 = Ready"
    "ce_generation e3 = ce_generation e1" "e_intent e3 = None" "\<not> ce_population_owner e3"
    "e_tier e3 = target"
    by (rule entry_commit_ok [OF e1, of now' ttl]) (use tok(2) in blast)
  obtain p3 where p3: "cp_commit now' tok ttl ?p2 = (Ok (), p3)" and ok3: "plane_ok pl p3"
    and l3: "plane_lookup p3 ?a = Some e3"
    using cp_commit_Some [OF ok2, of tok e1 now' ttl] l2 tok(1) cm
    by (cases "cp_commit now' tok ttl ?p2") simp
  show ?thesis
    using call p3 cp_peek_Some [OF ok2 l2, of t] cp_peek_Some [OF ok3 l3, of t] e1 e3
    by (simp add: snapshot_of_def)
qed

theorem prepare_commit_visible_witness:
  "\<exists>p1 tok. cp_prepare 10 [1] None L1 IK_Write demo_plane = (Ok tok, p1) \<and>
     fst (cp_commit 12 tok None (fold plane_exec [(11, Op_prepare [2] None L0 IK_Move)] p1)) = Ok ()"
proof -
  have foreign: "list_all (foreign_op AllToZero (address_of AllToZero [1])) [(11, Op_prepare [2] None L0 IK_Move)]"
    by code_simp
  from prepare_commit_visible [OF demo_plane_ok demo_plane_admits foreign, where now = 10
      and target = L1 and kind = IK_Write and now' = 12 and ttl = None and t = 0]
  show ?thesis
    by (cases "cp_prepare 10 [1] None L1 IK_Write demo_plane")
       (auto simp: split_beta Let_def split: sum.splits)
qed




text \<open>
  C9: of two racing writers one commits. When two callers prepare the same key one after the
  other, both hold a token; whichever commits first succeeds, and the other is then refused with
  \<open>StaleGeneration\<close>.
\<close>

theorem racing_writers_one_commits:
  assumes ok: "plane_ok pl p" and adm: "plane_admits p (address_of pl key)"
  shows "\<exists>tok1 p1 tok2 p2. cp_prepare now1 key None target1 kind1 p = (Ok tok1, p1) \<and>
    cp_prepare now2 key None target2 kind2 p1 = (Ok tok2, p2) \<and>
    (\<forall>(first, second) \<in> {(tok1, tok2), (tok2, tok1)}.
       case cp_commit now3 first ttl p2 of
         (r, p3) \<Rightarrow> r = Ok () \<and> fst (cp_commit now4 second ttl' p3) = Err StaleGeneration)"
proof -
  let ?a = "address_of pl key"
  obtain tok1 p1 e1 where c1: "cp_prepare now1 key None target1 kind1 p = (Ok tok1, p1)"
    and ok1: "plane_ok pl p1" and l1: "plane_lookup p1 = (plane_lookup p)(?a \<mapsto> e1)"
    and e1: "ce_generation e1 = ct_generation tok1" and t1: "ct_address tok1 = ?a"
    by (rule cp_prepare_ok [OF ok adm])
  have adm1: "plane_admits p1 ?a" using l1 by (simp add: plane_admits_def)
  obtain tok2 p2 e2 where c2: "cp_prepare now2 key None target2 kind2 p1 = (Ok tok2, p2)"
    and ok2: "plane_ok pl p2" and l2: "plane_lookup p2 = (plane_lookup p1)(?a \<mapsto> e2)"
    and e2: "e_state e2 = Prepared" "ce_generation e2 = ct_generation tok2"
    and g2: "ct_generation tok2 = ce_generation (plane_entry p1 ?a)" and t2: "ct_address tok2 = ?a"
    by (rule cp_prepare_ok [OF ok1 adm1])
  have gen: "ct_generation tok1 = ce_generation e2" "ct_generation tok2 = ce_generation e2"
    using g2 e1 e2 l1 by simp_all
  have "case cp_commit now3 first ttl p2 of
      (r, p3) \<Rightarrow> r = Ok () \<and> fst (cp_commit now4 second ttl' p3) = Err StaleGeneration"
    if fst: "ct_address first = ?a" "ct_generation first = ce_generation e2"
      and snd: "ct_address second = ?a" for first second
  proof -
    have l: "plane_lookup p2 (ct_address first) = Some e2" using l2 fst by simp
    obtain e3 where cm: "entry_commit now3 first ttl e2 = (Ok (), e3)" and e3: "e_state e3 = Ready"
      by (rule entry_commit_ok [of e2 first now3 ttl]) (use e2(1) fst in simp_all)
    note k = cp_commit_Some [OF ok2 l, of now3 ttl]
    have "plane_lookup (snd (cp_commit now3 first ttl p2)) (ct_address second) = Some e3"
      using k(3) cm fst snd by simp
    from cp_commit_Some(1) [OF k(2) this, of now4 ttl'] e3 k(1) cm show ?thesis
      by (simp add: split_beta entry_commit_def)
  qed
  with c1 c2 gen t1 t2 show ?thesis by simp
qed

theorem racing_writers_witness:
  "\<exists>tok1 p1 tok2 p2. cp_prepare 10 [1] None L0 IK_Write demo_plane = (Ok tok1, p1) \<and>
    cp_prepare 11 [1] None L1 IK_Move p1 = (Ok tok2, p2) \<and>
    (\<forall>(first, second) \<in> {(tok1, tok2), (tok2, tok1)}.
       case cp_commit 12 first None p2 of
         (r, p3) \<Rightarrow> r = Ok () \<and> fst (cp_commit 13 second (Some 5) p3) = Err StaleGeneration)"
  by (rule racing_writers_one_commits [OF demo_plane_ok demo_plane_admits])






text \<open>
  A write the tier provably refused leaves the key as it was. Preparing an existing entry,
  running calls on other keys and cleanly aborting restores its state, generation, rung, TTL and
  populate time, so a committed value stays readable exactly until it would have expired.
\<close>

theorem clean_abort_restores:
  assumes ok: "plane_ok pl p" and e: "plane_lookup p (address_of pl key) = Some e"
    and others: "list_all (foreign_op pl (address_of pl key)) ops"
  shows "\<exists>tok p1 p3 e'. cp_prepare now key None target kind p = (Ok tok, p1) \<and>
    cp_abort_proven_clean tok err (fold plane_exec ops p1) = (Ok (), p3) \<and>
    plane_lookup p3 (address_of pl key) = Some e' \<and>
    e_state e' = e_state e \<and> ce_generation e' = ce_generation e \<and> e_tier e' = e_tier e \<and>
    e_ttl e' = e_ttl e \<and> e_population_timestamp e' = e_population_timestamp e \<and>
    e_is_expired t e' = e_is_expired t e \<and> e_intent e' = None \<and> \<not> ce_population_owner e'"
proof -
  let ?a = "address_of pl key"
  have "plane_admits p ?a" using e by (simp add: plane_admits_def)
  from ok this obtain tok p1 e1 where call: "cp_prepare now key None target kind p = (Ok tok, p1)"
    and ok1: "plane_ok pl p1" and l1: "plane_lookup p1 = (plane_lookup p)(?a \<mapsto> e1)"
    and e1: "e1 = snd (entry_prepare now None target kind (plane_entry p ?a))" "e_state e1 = Prepared"
    and tok: "ct_address tok = ?a"
    by (rule cp_prepare_ok)
  have e1_eq: "e1 = snd (entry_prepare now None target kind e)" using e1(1) e by simp
  have ok2: "plane_ok pl (fold plane_exec ops p1)" by (rule plane_table.inv_run [OF ok1])
  have l2: "plane_lookup (fold plane_exec ops p1) (ct_address tok) = Some e1"
    using plane_table.lookup_run [OF ok1, of ?a e1 ops] others e1(2) l1 tok by (simp add: foreign_run)
  note ab = cp_abort_Some(4,6) [OF ok2 l2, of err]
  let ?e = "snd (entry_abort_inner err True e1)"
  have "e_state ?e = e_state e" "ce_generation ?e = ce_generation e" "e_tier ?e = e_tier e"
    "e_ttl ?e = e_ttl e" "e_population_timestamp ?e = e_population_timestamp e"
    "e_is_expired t ?e = e_is_expired t e" "e_intent ?e = None" "\<not> ce_population_owner ?e"
    by (simp_all add: e1_eq entry_abort_inner_def entry_prepare_def Let_def e_ttl_def
        e_population_timestamp_def e_is_expired_def)
  with call ab tok show ?thesis
    by (intro exI [of _ tok] exI [of _ p1] exI [of _ "snd (cp_abort_proven_clean tok err (fold plane_exec ops p1))"]
        exI [of _ ?e]) (simp add: prod_eq_iff)
qed

theorem clean_abort_restores_witness:
  "\<exists>tok p1 p3. cp_prepare 12 [1] None L1 IK_Write (snd (cp_acquire 10 [1] L1 demo_plane)) = (Ok tok, p1) \<and>
    cp_abort_proven_clean tok CapacityExhausted (fold plane_exec [] p1) = (Ok (), p3)"
proof -
  have "plane_ok AllToZero (snd (cp_acquire 10 [1] L1 demo_plane))"
    by (rule demo_acquired(1))
  moreover have "plane_lookup (snd (cp_acquire 10 [1] L1 demo_plane)) (address_of AllToZero [1]) =
      Some (snd (entry_acquire 10 L1 (entry_new (address_of AllToZero [1]))))"
    using demo_acquired(2) by simp
  ultimately show ?thesis
    using clean_abort_restores [where ops = "[]" and now = 12 and target = L1 and kind = IK_Write
        and err = CapacityExhausted]
    by fastforce
qed

text \<open>
  C28: a claim is always accounted for. Starting from a plane whose claims are in order (the empty
  one is), along any interleaving of calls that does not store a raw state, an entry that somebody
  owns is in flight or prepared, and a prepared one that is owned carries the intent by which the
  recovery sweep finds it.
\<close>

theorem claims_accounted_for:
  assumes ok: "plane_ok pl p" and init: "\<And>a e. plane_lookup p a = Some e \<Longrightarrow> claim_ok e"
    and quiet: "list_all (\<lambda>op. \<not> sets_state (snd op)) ops"
    and e: "plane_lookup (fold plane_exec ops p) a = Some e" and owned: "ce_population_owner e"
  shows "e_state e = InFlight \<or> e_state e = Prepared \<and> e_intent e \<noteq> None"
proof -
  have "claim_ok e"
  proof (rule plane_table.entry_invariant [OF ok _ _ _ e, of "\<lambda>_. claim_ok"])
    fix a :: key_address and op :: "instant \<times> plane_op" and e
    show "claim_ok (entry_new a)" by (simp add: claim_ok_def) (simp add: entry_new_def)
    assume "op \<in> set ops" and c: "claim_ok e"
    obtain now c' where op: "op = (now, c')" by (cases op)
    with \<open>op \<in> set ops\<close> quiet have "\<not> sets_state c'" by (auto simp: list_all_iff)
    then have "claim_ok (op_entry op e)"
      using c unfolding op
      by (cases c') (auto simp: claim_ok_def step_defs Let_def e_compare_exchange_def
          simp del: state_to_u8.simps split: option.split if_splits)
    with c show "claim_ok (act_at pl a op e)" by (simp add: act_at_def)
  qed (use init in blast)
  with owned show ?thesis by (simp add: claim_ok_def)
qed


theorem claims_accounted_for_witness:
  "\<exists>e. plane_lookup (fold plane_exec [(10, Op_prepare [1] None L1 IK_Write)] demo_plane) (address_of AllToZero [1]) = Some e \<and>
     ce_population_owner e \<and> (e_state e = InFlight \<or> e_state e = Prepared \<and> e_intent e \<noteq> None)"
proof -
  obtain tok p1 e1 where "cp_prepare 10 [1] None L1 IK_Write demo_plane = (Ok tok, p1)"
    and "plane_lookup p1 = (plane_lookup demo_plane)(address_of AllToZero [1] \<mapsto> e1)" and own: "ce_population_owner e1"
    by (rule cp_prepare_ok [OF demo_plane_ok demo_plane_admits])
  then have e: "plane_lookup (fold plane_exec [(10, Op_prepare [1] None L1 IK_Write)] demo_plane)
      (address_of AllToZero [1]) = Some e1"
    by simp
  have "e_state e1 = InFlight \<or> e_state e1 = Prepared \<and> e_intent e1 \<noteq> None"
    by (rule claims_accounted_for [OF demo_plane_ok _ _ e own]) (simp_all add: demo_plane_lookup)
  with e own show ?thesis by blast
qed

text \<open>A plane on which one write has been committed, with a TTL.\<close>

lemma demo_committed:
  obtains tok p1 p2 e where "cp_prepare 10 [1] None L1 IK_Write demo_plane = (Ok tok, p1)"
    "cp_commit 11 tok (Some 5) p1 = (Ok (), p2)" "plane_ok AllToZero p2"
    "plane_lookup p2 (address_of AllToZero [1]) = Some e" "e_state e = Ready" "\<not> ce_population_owner e"
    "e_intent e = None" "e_tier e = L1" "e_is_expired 100 e"
proof -
  obtain tok p1 e1 where call: "cp_prepare 10 [1] None L1 IK_Write demo_plane = (Ok tok, p1)"
    and ok1: "plane_ok AllToZero p1"
    and l1: "plane_lookup p1 = (plane_lookup demo_plane)(address_of AllToZero [1] \<mapsto> e1)"
    and e1: "e_state e1 = Prepared" "ce_generation e1 = ct_generation tok"
    and tok: "ct_address tok = address_of AllToZero [1]" "ct_target_tier tok = as_u8 L1"
    by (rule cp_prepare_ok [OF demo_plane_ok demo_plane_admits])
  have l: "plane_lookup p1 (ct_address tok) = Some e1" using l1 tok by simp
  note c = cp_commit_Some [OF ok1 l, of 11 "Some 5"]
  obtain e where e: "entry_commit 11 tok (Some 5) e1 = (Ok (), e)" "e_state e = Ready" "e_intent e = None"
    "\<not> ce_population_owner e" "e_tier e = L1"
    by (rule entry_commit_ok [OF e1, of 11 "Some 5"]) (simp add: tok(2))
  have "e_is_expired 100 e"
    using e(1) e1
    by (auto simp: entry_commit_def token_expired_by_def Let_def e_is_expired_def e_ttl_def e_population_timestamp_def
        e_setters instant_to_nanos_def nanos_to_instant_def saturate_u64_def elapsed_ge_def split: option.splits)
  with call c e tok show thesis by (intro that [of tok p1 "snd (cp_commit 11 tok (Some 5) p1)" e]) (simp_all add: prod_eq_iff)
qed

text \<open>
  C29: eviction reserves only what nobody is using. \<open>reserve_eviction\<close> succeeds exactly on an entry
  that is \<open>Ready\<close>, unowned and without an intent; it then marks it \<open>Stale\<close> and advances the
  generation, so that a token taken before it can no longer commit; otherwise no entry changes.
\<close>

theorem reserve_eviction_exact:
  assumes ok: "plane_ok pl p" and e: "plane_lookup p a = Some e"
  shows "case cp_reserve_eviction a p of (r, p') \<Rightarrow>
    (if e_state e = Ready \<and> \<not> ce_population_owner e \<and> e_intent e = None
     then r = Ok True \<and>
       (\<exists>e'. plane_lookup p' = (plane_lookup p)(a \<mapsto> e') \<and> e_state e' = Stale \<and>
          ce_generation e' = ce_generation e + 1 \<and>
          (\<forall>tok now ttl. ct_address tok = a \<longrightarrow> ct_generation tok = ce_generation e \<longrightarrow>
             fst (cp_commit now tok ttl p') = Err StaleGeneration))
     else r = Ok False \<and> plane_lookup p' = plane_lookup p)"
proof -
  note r = plane_ok_with_entry [OF ok keeps_steps(6), of a "Ok False"]
  let ?e = "snd (entry_reserve_eviction e)"
  have "fst (cp_commit now tok ttl (snd (with_entry a (Ok False) entry_reserve_eviction p))) =
      Err StaleGeneration"
    if "ct_address tok = a" "e_state ?e = Stale" for tok now ttl
    using cp_commit_Some(1) [OF r(1), of tok ?e now ttl] r(2) e that by (simp add: entry_commit_def)
  then show ?thesis
    using r(2,3) e
    by (auto simp: cp_reserve_eviction_def split_beta entry_reserve_eviction_def fun_upd_idem)
qed

theorem reserve_eviction_exact_witness:
  "fst (cp_reserve_eviction (address_of AllToZero [1]) (snd (cp_acquire 10 [1] L1 demo_plane))) = Ok False \<and>
   (\<exists>tok p1 p2. cp_prepare 10 [1] None L1 IK_Write demo_plane = (Ok tok, p1) \<and> cp_commit 11 tok (Some 5) p1 = (Ok (), p2) \<and>
      fst (cp_reserve_eviction (address_of AllToZero [1]) p2) = Ok True)"
proof -
  let ?a = "address_of AllToZero [1]" and ?e = "snd (entry_acquire 10 L1 (entry_new (address_of AllToZero [1])))"
  have "e_state ?e = InFlight"
    by (simp add: entry_acquire_def e_compare_exchange_state_def Let_def entry_new_def e_state_def
        state_of_u8_def state_try_from_def e_setters)
  with reserve_eviction_exact [OF demo_acquired]
  have "fst (cp_reserve_eviction ?a (snd (cp_acquire 10 [1] L1 demo_plane))) = Ok False"
    by (simp add: split_beta)
  moreover obtain tok p1 p2 e where d: "cp_prepare 10 [1] None L1 IK_Write demo_plane = (Ok tok, p1)"
    "cp_commit 11 tok (Some 5) p1 = (Ok (), p2)" "plane_ok AllToZero p2" "plane_lookup p2 ?a = Some e" "e_state e = Ready"
    "\<not> ce_population_owner e" "e_intent e = None" "e_tier e = L1" "e_is_expired 100 e"
    by (rule demo_committed)
  moreover have "fst (cp_reserve_eviction ?a p2) = Ok True"
    using reserve_eviction_exact [OF d(3,4)] d(5-7) by (simp add: split_beta)
  ultimately show ?thesis by blast
qed

text \<open>
  C30: the expiry sweep is exact. It counts the \<open>Ready\<close> entries below the authority rung whose TTL
  has run out, marks exactly those \<open>Stale\<close> and wakes their waiters, leaves every other entry as it
  is, and run again at the same time finds nothing to do.
\<close>

theorem sweep_expired_exact:
  assumes ok: "plane_ok pl p"
  shows "case cp_sweep_expired now p of (n, p') \<Rightarrow>
    n = length (filter (\<lambda>e. e_state e = Ready \<and> e_is_expired now e \<and> \<not> is_authority_rung (e_tier e))
          (plane_entries p)) \<and>
    (\<forall>a. plane_lookup p' a = map_option (\<lambda>e.
       if e_state e = Ready \<and> e_is_expired now e \<and> \<not> is_authority_rung (e_tier e)
       then e_notify (e_set_state Stale e) else e) (plane_lookup p a)) \<and>
    fst (cp_sweep_expired now p') = 0"
proof -
  have "(fst \<circ> entry_expire now) =
      (\<lambda>e. e_state e = Ready \<and> e_is_expired now e \<and> \<not> is_authority_rung (e_tier e))"
    by (auto simp: fun_eq_iff entry_expire_def)
  moreover have "(snd \<circ> entry_expire now) = (\<lambda>e.
      if e_state e = Ready \<and> e_is_expired now e \<and> \<not> is_authority_rung (e_tier e)
      then e_notify (e_set_state Stale e) else e)"
    by (auto simp: fun_eq_iff entry_expire_def)
  moreover have "fst (cp_sweep_expired now (snd (cp_sweep_expired now p))) = 0"
    by (simp add: sweep_count sweep_entries filter_map comp_def entry_expire_twice)
  ultimately show ?thesis
    using plane_ok_sweep(2) [OF ok, of now] sweep_count [of now p] by (simp add: split_beta)
qed

theorem sweep_expired_exact_witness:
  "\<exists>tok p1 p2 e. cp_prepare 10 [1] None L1 IK_Write demo_plane = (Ok tok, p1) \<and> cp_commit 11 tok (Some 5) p1 = (Ok (), p2) \<and>
     plane_lookup (snd (cp_sweep_expired 100 p2)) (address_of AllToZero [1]) = Some e \<and> e_state e = Stale \<and>
     fst (cp_sweep_expired 100 (snd (cp_sweep_expired 100 p2))) = 0"
proof -
  obtain tok p1 p2 e where d: "cp_prepare 10 [1] None L1 IK_Write demo_plane = (Ok tok, p1)"
    "cp_commit 11 tok (Some 5) p1 = (Ok (), p2)" "plane_ok AllToZero p2"
    "plane_lookup p2 (address_of AllToZero [1]) = Some e" "e_state e = Ready"
    "\<not> ce_population_owner e" "e_intent e = None" "e_tier e = L1" "e_is_expired 100 e"
    by (rule demo_committed)
  from sweep_expired_exact [OF d(3), of 100] d(4,5,8,9)
  have "plane_lookup (snd (cp_sweep_expired 100 p2)) (address_of AllToZero [1]) = Some (e_notify (e_set_state Stale e))"
    "fst (cp_sweep_expired 100 (snd (cp_sweep_expired 100 p2))) = 0"
    by (simp_all add: split_beta is_authority_rung_iff)
  with d(1,2) show ?thesis by (intro exI [of _ "e_notify (e_set_state Stale e)"] exI conjI) simp_all
qed

text \<open>
  The occupancy statistics are exact. Every visited entry is counted once in each histogram,
  under its own state and its own rung; the owned, intent-carrying and expired counts are the
  numbers of such entries (of any state); and the occupied slots never exceed the capacity.
\<close>

theorem plane_stats_exact:
  assumes wf: "plane_wf p"
  shows "let s = cp_plane_stats now p; es = plane_entries p in
    ps_occupied s = length es \<and> ps_occupied s \<le> ps_capacity s \<and>
    (\<forall>st. ps_by_state s ! unat (state_to_u8 st) = length (filter (\<lambda>e. e_state e = st) es)) \<and>
    (\<forall>t. ps_by_tier s ! as_usize t = length (filter (\<lambda>e. e_tier e = t) es)) \<and>
    ps_population_owned s = length (filter ce_population_owner es) \<and>
    ps_intents_outstanding s = length (filter (\<lambda>e. e_intent e \<noteq> None) es) \<and>
    ps_expired_ready s = length (filter (\<lambda>e. e_is_expired now e) es)"
proof -
  have "length (concat (map shard_entries ls)) \<le> length ls * c"
    if "\<forall>l \<in> set ls. length (lk_value l) = c" for ls c
    using that
  proof (induction ls)
    case (Cons l ls)
    have "length (List.map_filter id sh) \<le> length sh" for sh :: shard
      by (induction sh) (auto simp: map_filter_simps split: option.split)
    from this [of "lk_value l"] Cons.prems have "length (shard_entries l) \<le> c"
      by (auto simp: shard_entries_def)
    with Cons show ?case by simp
  qed simp
  moreover have "\<forall>l \<in> set (cl_shards p). length (lk_value l) = cl_capacity_per_shard p"
    using wf by (auto simp: plane_wf_def in_set_conv_nth)
  ultimately have cap: "length (plane_entries p) \<le> length (cl_shards p) * cl_capacity_per_shard p"
    by (simp add: plane_entries_def)
  have "unat (state_to_u8 st) < 6" for st by (cases st) simp_all
  moreover have "unat (state_to_u8 st') = unat (state_to_u8 st) \<longleftrightarrow> st' = st" for st st'
    by (cases st; cases st') simp_all
  moreover have "as_usize t < 7" "as_usize t' = as_usize t \<longleftrightarrow> t' = t" for t t'
    by (cases t; cases t'; simp)+
  ultimately show ?thesis
    using cap by (simp add: cp_plane_stats_def Let_def stats_fold stats_fold_hist)
qed

theorem plane_stats_exact_witness: "ps_occupied (cp_plane_stats 5 demo_plane) \<le> ps_capacity (cp_plane_stats 5 demo_plane)"
  using plane_stats_exact [OF plane_okD(1) [OF demo_plane_ok], of 5] by (simp add: Let_def)

subsection \<open>Where the protocol leaks\<close>

text \<open>
  Two writers that both abort cleanly wedge the key. The second \<open>prepare\<close> records \<open>Prepared\<close>
  as the state it interrupted, so when both writers report a provably clean failure the entry is
  left \<open>Prepared\<close> with no owner and no intent: no caller can acquire it, and neither the intent
  sweep nor the release of claims reaches it.
\<close>

theorem double_clean_abort_wedges:
  "let e1 = snd (entry_prepare now1 None target1 kind1 e);
       e2 = snd (entry_prepare now2 None target2 kind2 e1);
       e4 = snd (entry_abort_inner err2 True (snd (entry_abort_inner err1 True e2)))
   in e_state e4 = Prepared \<and> \<not> ce_population_owner e4 \<and> e_intent e4 = None \<and>
      snd (entry_acquire now3 tier e4) = e4 \<and> entry_abort_intent err e4 = (Ok False, e4) \<and>
      entry_release_population_claim e4 = (Ok False, e4)"
  by (simp add: Let_def entry_prepare_def entry_abort_inner_def entry_abort_intent_def
      entry_release_population_claim_def entry_acquire_busy)

text \<open>
  A spent token can commit somebody else's write. A commit does not advance the generation, so
  after the entry is prepared again the token that already committed is accepted once more and
  publishes the second writer's unfinished write.
\<close>

theorem spent_token_commits_again:
  "case entry_prepare now1 None target kind e of
     (Inl _, _) \<Rightarrow> False
   | (Inr tok, e1) \<Rightarrow>
       (let (c1, e2) = entry_commit now2 tok ttl e1;
            (r2, e3) = entry_prepare now3 None target' kind' e2;
            (c2, e4) = entry_commit now4 tok ttl' e3
        in c1 = Ok () \<and> is_ok r2 \<and> e_state e3 = Prepared \<and> c2 = Ok () \<and> e_state e4 = Ready \<and>
           e_tier e4 = target)"
  by (simp add: Let_def entry_prepare_def entry_commit_def token_expired_by_def)

text \<open>
  A late failure report destroys a newer value. \<open>fail_with_error\<close> checks no generation: when a
  populator was overtaken (its key invalidated, acquired and published by another), its publish is
  refused with \<open>StaleGeneration\<close>, but the failure it then reports turns the newer \<open>Ready\<close> entry
  into \<open>Failed\<close>.
\<close>

theorem late_failure_clobbers_ready:
  assumes "entry_wf e" and "is_claimable (e_state e)"
  shows "let e1 = snd (entry_acquire now1 tier1 e); mine = ce_generation e1;
       e2 = snd (entry_invalidate e1);
       e3 = snd (entry_acquire now2 tier2 e2);
       (r, e4) = entry_publish now3 (ce_generation e3) tier2 ttl e3;
       (late, e5) = entry_publish now4 mine tier1 ttl' e4;
       e6 = snd (entry_fail StaleGeneration e5)
   in r = Ok () \<and> e_state e4 = Ready \<and> late = Err StaleGeneration \<and> e5 = e4 \<and> e_state e6 = Failed"
proof -
  obtain e1 where e1: "snd (entry_acquire now1 tier1 e) = e1" "ce_generation e1 = ce_generation e + 1"
    by (rule entry_acquire_claim [OF assms, of now1 tier1]) simp
  have "entry_wf e1" using keepsD(2) [OF keeps_acquire assms(1), of now1 tier1] e1(1) by simp
  then have wf2: "entry_wf (snd (entry_invalidate e1))" using keepsD(2) [OF keeps_steps(3)] by blast
  have "is_claimable (e_state (snd (entry_invalidate e1)))" by (simp add: entry_invalidate_def)
  from wf2 this obtain e3 where e3: "snd (entry_acquire now2 tier2 (snd (entry_invalidate e1))) = e3"
    "ce_generation e3 = ce_generation (snd (entry_invalidate e1)) + 1"
    by (rule entry_acquire_claim [of _ now2 tier2]) simp
  have "ce_generation e1 \<noteq> ce_generation e3"
    using e3(2) word_add_neq [of 2 "ce_generation e1"] by (simp add: entry_invalidate_def)
  then show ?thesis
    by (simp add: Let_def e1 e3 entry_publish_def entry_fail_def generation_is_stale_def)
qed

theorem late_failure_clobbers_ready_witness:
  "let e1 = snd (entry_acquire 1 L0 (entry_new (address_of AllToZero [1]))); mine = ce_generation e1;
       e2 = snd (entry_invalidate e1);
       e3 = snd (entry_acquire 2 L1 e2);
       (r, e4) = entry_publish 3 (ce_generation e3) L1 None e3;
       (late, e5) = entry_publish 4 mine L0 None e4;
       e6 = snd (entry_fail StaleGeneration e5)
   in r = Ok () \<and> e_state e4 = Ready \<and> late = Err StaleGeneration \<and> e5 = e4 \<and> e_state e6 = Failed"
  by (rule late_failure_clobbers_ready)
     (simp_all, simp add: entry_new_def e_state_def state_of_u8_def state_try_from_def)

end
