(* ===== verification/Capability.thy ===== *)
theory Capability
  imports Errors "HOL-Library.List_Lexorder" "HOL-Library.Char_ord"
begin

section \<open>What a rung can be relied on for (\<open>src/capability.rs\<close>, \<open>src/tier/trait.rs\<close>)\<close>

text \<open>
  The kinds of backend, the bit set of durable properties, the operational state, the durability
  class and the capability record that joins them. The bit set is the 16-bit word of the source
  and its operations are the bitwise ones.
\<close>

datatype backend_kind =
    BK_InMemory | BK_InMemoryFallback | BK_Moka | BK_Redis | BK_Sled | BK_RocksDb | BK_Postgres
  | BK_Neo4j | BK_Helix | BK_Oxigraph | BK_Origin | BK_Test | BK_Unavailable

definition is_implemented :: "backend_kind \<Rightarrow> bool" where
  "is_implemented k \<longleftrightarrow>
     k \<in> {BK_InMemory, BK_InMemoryFallback, BK_Redis, BK_Sled, BK_Oxigraph, BK_Origin, BK_Test}"

definition is_persistent_by_design :: "backend_kind \<Rightarrow> bool" where
  "is_persistent_by_design k \<longleftrightarrow> k \<in> {BK_Sled, BK_RocksDb, BK_Postgres}"

definition is_shared_by_design :: "backend_kind \<Rightarrow> bool" where
  "is_shared_by_design k \<longleftrightarrow> k \<in> {BK_Redis, BK_Postgres, BK_Neo4j, BK_Helix, BK_Origin}"

fun backend_display :: "backend_kind \<Rightarrow> string" where
  "backend_display BK_InMemory = ''in-memory''"
| "backend_display BK_InMemoryFallback = ''in-memory-fallback''"
| "backend_display BK_Moka = ''moka''"
| "backend_display BK_Redis = ''redis''"
| "backend_display BK_Sled = ''sled''"
| "backend_display BK_RocksDb = ''rocksdb''"
| "backend_display BK_Postgres = ''postgres''"
| "backend_display BK_Neo4j = ''neo4j''"
| "backend_display BK_Helix = ''helix''"
| "backend_display BK_Oxigraph = ''oxigraph''"
| "backend_display BK_Origin = ''origin''"
| "backend_display BK_Test = ''test''"
| "backend_display BK_Unavailable = ''unavailable''"

subsection \<open>Flags\<close>

type_synonym capability_flags = u16

definition CF_EMPTY :: capability_flags where "CF_EMPTY = 0"
definition CF_IN_MEMORY :: capability_flags where "CF_IN_MEMORY = push_bit 0 1"
definition CF_VOLATILE :: capability_flags where "CF_VOLATILE = push_bit 1 1"
definition CF_PERSISTENT :: capability_flags where "CF_PERSISTENT = push_bit 2 1"
definition CF_SHARED :: capability_flags where "CF_SHARED = push_bit 3 1"
definition CF_AUTHORITATIVE :: capability_flags where "CF_AUTHORITATIVE = push_bit 4 1"
definition CF_BLOCKING_IO :: capability_flags where "CF_BLOCKING_IO = push_bit 5 1"
definition CF_ATOMIC_WRITE_OR_ERROR :: capability_flags where
  "CF_ATOMIC_WRITE_OR_ERROR = push_bit 6 1"

definition flags_ALL :: "capability_flags list" where
  "flags_ALL =
     [CF_IN_MEMORY, CF_VOLATILE, CF_PERSISTENT, CF_SHARED, CF_AUTHORITATIVE, CF_BLOCKING_IO,
      CF_ATOMIC_WRITE_OR_ERROR]"

definition flags_contains :: "capability_flags \<Rightarrow> capability_flags \<Rightarrow> bool" where
  "flags_contains a b \<longleftrightarrow> a AND b = b"

definition flags_intersects :: "capability_flags \<Rightarrow> capability_flags \<Rightarrow> bool" where
  "flags_intersects a b \<longleftrightarrow> a AND b \<noteq> 0"

definition flags_is_empty :: "capability_flags \<Rightarrow> bool" where
  "flags_is_empty a \<longleftrightarrow> a = 0"

definition flags_union :: "capability_flags \<Rightarrow> capability_flags \<Rightarrow> capability_flags" where
  "flags_union a b = a OR b"

definition flags_without :: "capability_flags \<Rightarrow> capability_flags \<Rightarrow> capability_flags" where
  "flags_without a b = a AND NOT b"

definition flags_iter :: "capability_flags \<Rightarrow> capability_flags list" where
  "flags_iter a = filter (flags_contains a) flags_ALL"

definition flag_name :: "capability_flags \<Rightarrow> string" where
  "flag_name f =
     (if f = CF_IN_MEMORY then ''in_memory''
      else if f = CF_VOLATILE then ''volatile''
      else if f = CF_PERSISTENT then ''persistent''
      else if f = CF_SHARED then ''shared''
      else if f = CF_AUTHORITATIVE then ''authoritative''
      else if f = CF_BLOCKING_IO then ''blocking_io''
      else if f = CF_ATOMIC_WRITE_OR_ERROR then ''atomic_write_or_error''
      else ''unknown'')"

definition flags_names :: "capability_flags \<Rightarrow> string list" where
  "flags_names a = map flag_name (flags_iter a)"

text \<open>\<open>names.join("|")\<close>.\<close>

fun join_with :: "string \<Rightarrow> string list \<Rightarrow> string" where
  "join_with sep [] = []"
| "join_with sep [x] = x"
| "join_with sep (x # y # ys) = x @ sep @ join_with sep (y # ys)"

definition flags_display :: "capability_flags \<Rightarrow> string" where
  "flags_display a =
     (let names = flags_names a in if names = [] then ''none'' else join_with ''|'' names)"

subsection \<open>State, durability and the capability record\<close>

datatype operational_state =
    OS_Unbound | OS_Unavailable | OS_Healthy | OS_Degraded | OS_Recovering | OS_Reconciling

definition operational_ALL :: "operational_state list" where
  "operational_ALL =
     [OS_Unbound, OS_Unavailable, OS_Healthy, OS_Degraded, OS_Recovering, OS_Reconciling]"

fun operational_name :: "operational_state \<Rightarrow> string" where
  "operational_name OS_Unbound = ''unbound''"
| "operational_name OS_Unavailable = ''unavailable''"
| "operational_name OS_Healthy = ''healthy''"
| "operational_name OS_Degraded = ''degraded''"
| "operational_name OS_Recovering = ''recovering''"
| "operational_name OS_Reconciling = ''reconciling''"

fun operational_is_serving :: "operational_state \<Rightarrow> bool" where
  "operational_is_serving OS_Healthy = True"
| "operational_is_serving OS_Degraded = True"
| "operational_is_serving _ = False"

datatype durability_class = DC_Volatile | DC_Delegated | DC_Verified

definition durability_ALL :: "durability_class list" where
  "durability_ALL = [DC_Volatile, DC_Delegated, DC_Verified]"

fun durability_name :: "durability_class \<Rightarrow> string" where
  "durability_name DC_Volatile = ''volatile''"
| "durability_name DC_Delegated = ''delegated''"
| "durability_name DC_Verified = ''verified''"

fun durability_survives_restart :: "durability_class \<Rightarrow> bool" where
  "durability_survives_restart DC_Volatile = False"
| "durability_survives_restart _ = True"

record tier_capability =
  tc_backend :: backend_kind
  tc_flags :: capability_flags
  tc_state :: operational_state
  tc_durability :: durability_class

definition capability_new ::
  "backend_kind \<Rightarrow> capability_flags \<Rightarrow> operational_state \<Rightarrow> durability_class \<Rightarrow> tier_capability"
where
  "capability_new b f s d = \<lparr>tc_backend = b, tc_flags = f, tc_state = s, tc_durability = d\<rparr>"

definition capability_unbound :: tier_capability where
  "capability_unbound =
     \<lparr>tc_backend = BK_Unavailable, tc_flags = CF_EMPTY, tc_state = OS_Unbound, tc_durability = DC_Volatile\<rparr>"

text \<open>The default body of \<open>CacheTier::capability\<close>: a tier that says nothing claims nothing.\<close>

definition default_capability :: "backend_kind \<Rightarrow> tier_capability" where
  "default_capability b = capability_new b CF_EMPTY OS_Unavailable DC_Volatile"

definition capability_is_bound :: "tier_capability \<Rightarrow> bool" where
  "capability_is_bound c \<longleftrightarrow> tc_state c \<noteq> OS_Unbound"

definition capability_is_authoritative :: "tier_capability \<Rightarrow> bool" where
  "capability_is_authoritative c = flags_contains (tc_flags c) CF_AUTHORITATIVE"

definition capability_is_blocking_io :: "tier_capability \<Rightarrow> bool" where
  "capability_is_blocking_io c = flags_contains (tc_flags c) CF_BLOCKING_IO"

definition capability_survives_restart :: "tier_capability \<Rightarrow> bool" where
  "capability_survives_restart c \<longleftrightarrow> tc_durability c \<in> {DC_Delegated, DC_Verified}"

definition capability_summary :: "tier_capability \<Rightarrow> string" where
  "capability_summary c =
     backend_display (tc_backend c) @ ''['' @ flags_display (tc_flags c) @ ''] state='' @
     operational_name (tc_state c) @ '' durability='' @ durability_name (tc_durability c)"

text \<open>\<open>dedup\<close> drops consecutive repetitions, which after \<open>sort_unstable\<close> are all of them.\<close>

definition all_state_names :: "string list" where
  "all_state_names =
     remdups_adj (sort (map flag_name flags_ALL @ map operational_name operational_ALL
       @ map durability_name durability_ALL))"

subsection \<open>The flags are a set\<close>

lemmas flag_consts = CF_EMPTY_def CF_IN_MEMORY_def CF_VOLATILE_def CF_PERSISTENT_def CF_SHARED_def
  CF_AUTHORITATIVE_def CF_BLOCKING_IO_def CF_ATOMIC_WRITE_OR_ERROR_def

lemma flags_contains_iff: "flags_contains a b \<longleftrightarrow> (\<forall>n. bit b n \<longrightarrow> bit a n)"
proof
  assume "flags_contains a b"
  then have "a AND b = b" by (simp add: flags_contains_def)
  then show "\<forall>n. bit b n \<longrightarrow> bit a n" by (metis bit_and_iff)
qed (auto simp: flags_contains_def bit_eq_iff bit_and_iff)

lemma flags_contains_union [simp]:
  "flags_contains (flags_union a b) a" "flags_contains (flags_union a b) b"
  by (auto simp: flags_contains_iff flags_union_def bit_or_iff)

lemma flags_intersects_without [simp]: "\<not> flags_intersects (flags_without a b) b"
  by (simp add: flags_intersects_def flags_without_def bit_eq_iff bit_and_iff bit_not_iff)

text \<open>Each single flag is one bit, so asking for one of them is asking for a bit.\<close>

lemma flags_contains_single: "n < 16 \<Longrightarrow> flags_contains a (push_bit n 1) \<longleftrightarrow> bit a n"
  by (auto simp: flags_contains_iff bit_exp_iff)

lemma flags_without_other:
  "n < 16 \<Longrightarrow> flags_contains (flags_without a b) (push_bit n 1) \<longleftrightarrow> bit a n \<and> \<not> bit b n"
  by (subst flags_contains_single) (simp_all add: flags_without_def bit_and_iff bit_not_iff)

lemma flags_names_union:
  "set (flags_names (flags_union a b)) = set (flags_names a) \<union> set (flags_names b)"
proof -
  have single: "\<exists>n < 16. f = push_bit n 1" if "f \<in> set flags_ALL" for f
  proof -
    from that have "f \<in> (\<lambda>n. push_bit n 1) ` {..<7}"
      unfolding flags_ALL_def flag_consts by (auto simp: lessThan_nat_numeral lessThan_Suc)
    then obtain n :: nat where "n < 7" "f = push_bit n 1" by (elim imageE) (simp only: lessThan_iff)
    then show ?thesis by (intro exI [of _ n]) simp
  qed
  have "flags_contains (flags_union a b) f \<longleftrightarrow> flags_contains a f \<or> flags_contains b f"
    if f: "f \<in> set flags_ALL" for f
  proof -
    from single [OF f] obtain n where n: "n < 16" "f = push_bit n 1" by blast
    show ?thesis unfolding n(2) flags_contains_single [OF n(1)] by (simp add: flags_union_def bit_or_iff)
  qed
  then show ?thesis unfolding flags_names_def flags_iter_def by auto
qed

lemma all_state_names_set:
  "set all_state_names =
     flag_name ` set flags_ALL \<union> operational_name ` set operational_ALL \<union> durability_name ` set durability_ALL"
  by (auto simp: all_state_names_def)

lemma distinct_remdups_adj_sorted: "sorted xs \<Longrightarrow> distinct (remdups_adj xs)"
  by (induction xs rule: remdups_adj.induct) (auto simp: less_le)

lemma all_state_names_distinct: "distinct all_state_names" "sorted all_state_names"
proof -
  have "sorted (sort (map flag_name flags_ALL @ map operational_name operational_ALL
       @ map durability_name durability_ALL))" by simp
  then show "sorted all_state_names" unfolding all_state_names_def by (rule sorted_remdups_adj)
  then show "distinct all_state_names"
    unfolding all_state_names_def by (intro distinct_remdups_adj_sorted) simp
qed

end
