(* ===== verification/Policy.thy ===== *)
theory Policy
  imports Key_Frame Control_Entry
begin

section \<open>Routing policy (\<open>src/policy.rs\<close>)\<close>

text \<open>
  A policy is a pure function from a request, the state of its entry and the caller's identity to
  a decision. The two policies of the crate are here with the ladder they route over; the
  \<open>CachePolicy\<close> trait is the type \<open>cache_policy\<close>. Floating point availability is a real number,
  as in \<open>Tier_Id\<close>: the policy compares it with zero.
\<close>

datatype cache_operation =
    OpGet | OpSet | OpRemove | OpInvalidate | OpRefresh | OpExists | OpPromote | OpDemote

datatype population_strategy = SingleFlight | AllowDuplicate

datatype fail_mode = FailOpen | FailClosed

record ('k, 'v) cache_request =
  rq_operation :: cache_operation
  rq_key :: 'k
  rq_value :: "'v option"
  rq_ttl :: "duration option"
  rq_entry_size :: nat
  rq_cost :: "32 word"
  rq_latency_budget :: "duration option"

definition request_new :: "cache_operation \<Rightarrow> 'k \<Rightarrow> ('k, 'v) cache_request" where
  "request_new operation key =
     \<lparr>rq_operation = operation, rq_key = key, rq_value = None, rq_ttl = None, rq_entry_size = 0,
      rq_cost = 0, rq_latency_budget = None\<rparr>"

definition with_value :: "'v \<Rightarrow> ('k, 'v) cache_request \<Rightarrow> ('k, 'v) cache_request" where
  "with_value v r = r\<lparr>rq_value := Some v\<rparr>"

definition with_ttl :: "duration \<Rightarrow> ('k, 'v) cache_request \<Rightarrow> ('k, 'v) cache_request" where
  "with_ttl d r = r\<lparr>rq_ttl := Some d\<rparr>"

definition with_entry_size :: "nat \<Rightarrow> ('k, 'v) cache_request \<Rightarrow> ('k, 'v) cache_request" where
  "with_entry_size n r = r\<lparr>rq_entry_size := n\<rparr>"

definition with_cost :: "32 word \<Rightarrow> ('k, 'v) cache_request \<Rightarrow> ('k, 'v) cache_request" where
  "with_cost c r = r\<lparr>rq_cost := c\<rparr>"

definition with_latency_budget :: "duration \<Rightarrow> ('k, 'v) cache_request \<Rightarrow> ('k, 'v) cache_request" where
  "with_latency_budget d r = r\<lparr>rq_latency_budget := Some d\<rparr>"

record cache_state =
  st_entry_state :: entry_state
  st_generation :: generation
  st_tier :: tier_id
  st_tier_health :: tier_health
  st_expiration :: "instant option"

definition cache_state_new :: cache_state where
  "cache_state_new =
     \<lparr>st_entry_state = Absent, st_generation = 0, st_tier = L0, st_tier_health = default_health,
      st_expiration = None\<rparr>"

definition from_snapshot :: "control_snapshot \<Rightarrow> tier_health \<Rightarrow> cache_state" where
  "from_snapshot s h =
     \<lparr>st_entry_state = cs_state s, st_generation = cs_generation s, st_tier = cs_tier s,
      st_tier_health = h, st_expiration = None\<rparr>"

record policy_decision =
  pd_authorized :: bool
  pd_tier :: tier_id
  pd_operation :: cache_operation
  pd_population :: population_strategy
  pd_fail_mode :: fail_mode

definition decision_allow :: "tier_id \<Rightarrow> policy_decision" where
  "decision_allow tier =
     \<lparr>pd_authorized = True, pd_tier = tier, pd_operation = OpGet, pd_population = SingleFlight,
      pd_fail_mode = FailOpen\<rparr>"

definition decision_deny :: policy_decision where
  "decision_deny =
     \<lparr>pd_authorized = False, pd_tier = L0, pd_operation = OpGet, pd_population = SingleFlight,
      pd_fail_mode = FailClosed\<rparr>"

definition LAST_CACHE_TIER :: tier_id where
  "LAST_CACHE_TIER = L5"

definition cache_ladder :: "tier_id list" where
  "cache_ladder = [L0, L1, L2, L3, L4, L5]"

definition AUTHORITY_TIER :: tier_id where
  "AUTHORITY_TIER = L6"

type_synonym ('k, 'v) cache_policy =
  "('k, 'v) cache_request \<Rightarrow> cache_state \<Rightarrow> identity_context \<Rightarrow> policy_decision"

fun base_tier :: "cache_operation \<Rightarrow> tier_id \<Rightarrow> tier_id" where
  "base_tier OpGet current = current"
| "base_tier OpSet current = L1"
| "base_tier _ current = L0"

text \<open>\<open>for _ in 0..n\<close> with a guarded increment: the index advances until the last cache rung.\<close>

fun step_toward_origin :: "nat \<Rightarrow> nat \<Rightarrow> nat" where
  "step_toward_origin 0 idx = idx"
| "step_toward_origin (Suc left) idx =
     (if idx \<ge> as_usize LAST_CACHE_TIER then idx else step_toward_origin left (idx + 1))"

definition healthy_fallback :: "tier_id \<Rightarrow> cache_state \<Rightarrow> tier_id" where
  "healthy_fallback start state =
     (if \<not> health_circuit_open (st_tier_health state) \<or> st_tier state \<noteq> start then start
      else case from_usize (step_toward_origin (as_usize LAST_CACHE_TIER) (as_usize start)) of
        Some t \<Rightarrow> t
      | None \<Rightarrow> LAST_CACHE_TIER)"

definition capacity_fallback :: "tier_id \<Rightarrow> cache_state \<Rightarrow> tier_id" where
  "capacity_fallback start state =
     (if st_tier state \<noteq> start \<or> availability (st_tier_health state) > 0 then start
      else case from_usize (min (as_usize start + 1) (as_usize LAST_CACHE_TIER)) of
        Some t \<Rightarrow> t
      | None \<Rightarrow> LAST_CACHE_TIER)"

definition default_select :: "('k, 'v) cache_policy" where
  "default_select request state identity =
     (let d = (decision_allow (base_tier (rq_operation request) (st_tier state)))
                \<lparr>pd_operation := rq_operation request\<rparr>;
          d = d\<lparr>pd_tier := healthy_fallback (pd_tier d) state\<rparr>
      in if rq_operation request \<in> {OpSet, OpRefresh}
         then d\<lparr>pd_tier := capacity_fallback (pd_tier d) state\<rparr>
         else d)"

definition strict_select :: "('k, 'v) cache_policy" where
  "strict_select request state identity =
     (let mutating =
            rq_operation request \<in> {OpSet, OpRemove, OpInvalidate, OpRefresh, OpPromote, OpDemote}
      in if mutating \<and> \<not> identity_authenticated identity then decision_deny
         else default_select request state identity)"

subsection \<open>Where the policies route\<close>

lemma step_toward_origin_full:
  "idx \<le> as_usize LAST_CACHE_TIER \<Longrightarrow> as_usize LAST_CACHE_TIER - idx \<le> n
     \<Longrightarrow> step_toward_origin n idx = as_usize LAST_CACHE_TIER"
  by (induction n arbitrary: idx) auto

lemma healthy_fallback_eq:
  "healthy_fallback start state =
     (if health_circuit_open (st_tier_health state) \<and> st_tier state = start \<and> is_cache_rung start
      then LAST_CACHE_TIER else start)"
proof (cases "is_cache_rung start")
  case True
  then have "step_toward_origin (as_usize LAST_CACHE_TIER) (as_usize start) = as_usize LAST_CACHE_TIER"
    by (intro step_toward_origin_full)
       (simp_all add: is_cache_rung_def LAST_CACHE_TIER_def LAST_CACHE_RUNG_INDEX_def)
  with True show ?thesis
    by (simp add: healthy_fallback_def LAST_CACHE_TIER_def from_usize_def)
next
  case False
  then have "start = L6" by (cases start) (simp_all add: is_cache_rung_def LAST_CACHE_RUNG_INDEX_def)
  moreover have "step_toward_origin 5 6 = 6" by (simp add: numeral_eq_Suc LAST_CACHE_TIER_def)
  ultimately show ?thesis using False
    by (simp add: healthy_fallback_def LAST_CACHE_TIER_def from_usize_def)
qed

lemma capacity_fallback_cache_rung: "is_cache_rung start \<Longrightarrow> is_cache_rung (capacity_fallback start state)"
  by (cases start) (simp_all add: capacity_fallback_def is_cache_rung_def LAST_CACHE_RUNG_INDEX_def
      LAST_CACHE_TIER_def from_usize_def)

lemma healthy_fallback_cache_rung: "is_cache_rung start \<Longrightarrow> is_cache_rung (healthy_fallback start state)"
  by (simp add: healthy_fallback_eq is_cache_rung_def LAST_CACHE_TIER_def LAST_CACHE_RUNG_INDEX_def)

lemma base_tier_cache_rung:
  "op \<noteq> OpGet \<or> is_cache_rung current \<Longrightarrow> is_cache_rung (base_tier op current)"
  by (cases op) (simp_all add: is_cache_rung_def LAST_CACHE_RUNG_INDEX_def)

lemma default_select_fields [simp]:
  "pd_authorized (default_select r s i)"
  "pd_operation (default_select r s i) = rq_operation r"
  "pd_fail_mode (default_select r s i) = FailOpen"
  "pd_population (default_select r s i) = SingleFlight"
  by (simp_all add: default_select_def decision_allow_def Let_def)

lemma default_select_tier:
  "pd_tier (default_select r s i) =
     (let t = healthy_fallback (base_tier (rq_operation r) (st_tier s)) s
      in if rq_operation r \<in> {OpSet, OpRefresh} then capacity_fallback t s else t)"
  by (simp add: default_select_def decision_allow_def Let_def)

lemma cache_rung_in_ladder: "is_cache_rung t \<longleftrightarrow> t \<in> set cache_ladder"
  by (cases t) (simp_all add: is_cache_rung_def LAST_CACHE_RUNG_INDEX_def cache_ladder_def)

text \<open>
  Neither policy ever routes a write, a maintenance operation or a move onto the authority rung:
  for every operation other than a read, whatever the state of the entry, the health of its rung and
  the caller, the rung selected is one of the six cache rungs; the authority rung is selected only by
  a read of an entry that the plane already places there.
\<close>

theorem policy_never_routes_writes_to_authority:
  fixes r :: "('k, 'v) cache_request"
  assumes "policy \<in> {default_select, strict_select}"
    and "rq_operation r \<noteq> OpGet \<or> st_tier s \<noteq> AUTHORITY_TIER"
  shows "pd_tier (policy r s i) \<in> set cache_ladder"
proof -
  have "is_cache_rung (base_tier (rq_operation r) (st_tier s))"
    using assms(2) by (intro base_tier_cache_rung)
      (cases "st_tier s"; auto simp: is_cache_rung_def LAST_CACHE_RUNG_INDEX_def AUTHORITY_TIER_def)
  then have "is_cache_rung (pd_tier (default_select r s i))"
    by (simp add: default_select_tier Let_def capacity_fallback_cache_rung healthy_fallback_cache_rung)
  moreover have "is_cache_rung (pd_tier decision_deny)"
    by (simp add: decision_deny_def is_cache_rung_def LAST_CACHE_RUNG_INDEX_def)
  ultimately show ?thesis
    using assms(1) unfolding cache_rung_in_ladder by (auto simp: strict_select_def Let_def)
qed

theorem policy_never_routes_writes_to_authority_witness:
  "pd_tier (strict_select (request_new OpSet () :: (unit, nat) cache_request)
     (cache_state_new\<lparr>st_tier := L6\<rparr>)
     \<lparr>principal = [115, 118, 99], roles = [], tenant = []\<rparr>) \<in> set cache_ladder"
  by (rule policy_never_routes_writes_to_authority) (simp_all add: request_new_def)

text \<open>
  The strict policy refuses exactly the mutating operations of unauthenticated callers, with a
  fail-closed decision, and is the default policy on everything else; the default policy refuses
  nothing.
\<close>

theorem strict_policy_exact:
  "strict_select r s i =
     (if rq_operation r \<notin> {OpGet, OpExists} \<and> principal i = [] then decision_deny
      else default_select r s i) \<and>
   pd_authorized (default_select r s i) \<and>
   (pd_authorized (strict_select r s i) \<longleftrightarrow> rq_operation r \<in> {OpGet, OpExists} \<or> principal i \<noteq> [])"
  by (cases "rq_operation r")
     (simp_all add: strict_select_def identity_authenticated_def decision_deny_def Let_def)

text \<open>
  An open circuit on the rung that a request would use sends the request straight to the last
  cache rung, not to the next healthy one, and a full rung sends a write one rung further; a rung
  that is neither open nor full is used as it is.
\<close>

theorem default_policy_fallback_exact:
  "pd_tier (default_select r s i) =
     (let b = base_tier (rq_operation r) (st_tier s);
          tripped = (st_tier s = b \<and> health_circuit_open (st_tier_health s));
          full = (st_tier s = b \<and> availability (st_tier_health s) \<le> 0)
      in if tripped \<and> b \<noteq> L6 then L5
         else if rq_operation r \<in> {OpSet, OpRefresh} \<and> full
         then (if b = L0 then L1 else L2)
         else b)"
proof -
  have rung: "is_cache_rung t \<longleftrightarrow> t \<noteq> L6" for t
    by (cases t) (simp_all add: is_cache_rung_def LAST_CACHE_RUNG_INDEX_def)
  have to_hot: "base_tier (rq_operation r) (st_tier s) \<in> {L0, L1}" if "rq_operation r \<in> {OpSet, OpRefresh}"
    using that by auto
  show ?thesis
    using to_hot
    by (auto simp: default_select_tier healthy_fallback_eq capacity_fallback_def rung
        LAST_CACHE_TIER_def from_usize_def Let_def)
qed

end
