(* ===== verification/Telemetry.thy ===== *)
theory Telemetry
  imports Capability Continuity
begin

section \<open>Operation records (\<open>src/telemetry.rs\<close>)\<close>

text \<open>
  The payload-free record of one operation, the sinks, and the latency percentiles. A sink is
  what its \<open>record\<close> method does to its state; the ring keeps the most recent records. The lemmas
  say which records a ring retains after any number of operations and that the percentiles are
  the nearest-rank ones.
\<close>

record key_identity =
  ki_digest :: u64
  ki_len :: u16

definition fnv1a64 :: "bytes \<Rightarrow> u64" where
  "fnv1a64 bs = foldl (\<lambda>hash b. (hash XOR ucast b) * 0x00000100000001b3) 0xcbf29ce484222325 bs"

definition key_identity_of :: "bytes \<Rightarrow> key_identity" where
  "key_identity_of key =
     \<lparr>ki_digest = fnv1a64 key,
      ki_len = (if length key < 2 ^ 16 then of_nat (length key) else 0xffff)\<rparr>"

definition key_identity_is_empty :: "key_identity \<Rightarrow> bool" where
  "key_identity_is_empty i \<longleftrightarrow> ki_len i = 0"

datatype operation =
    Tel_Get | Tel_GetOrFetch | Tel_Set | Tel_Invalidate | Tel_Remove | Tel_Exists | Tel_Refresh
  | Tel_Promote | Tel_Demote | Tel_Recover

fun operation_name :: "operation \<Rightarrow> string" where
  "operation_name Tel_Get = ''get''"
| "operation_name Tel_GetOrFetch = ''get_or_fetch''"
| "operation_name Tel_Set = ''set''"
| "operation_name Tel_Invalidate = ''invalidate''"
| "operation_name Tel_Remove = ''remove''"
| "operation_name Tel_Exists = ''exists''"
| "operation_name Tel_Refresh = ''refresh''"
| "operation_name Tel_Promote = ''promote''"
| "operation_name Tel_Demote = ''demote''"
| "operation_name Tel_Recover = ''recover''"

datatype outcome =
    Out_Served | Out_Miss | Out_Populated | Out_FellBack | Out_Denied | Out_Failed | Out_Cancelled

fun outcome_name :: "outcome \<Rightarrow> string" where
  "outcome_name Out_Served = ''served''"
| "outcome_name Out_Miss = ''miss''"
| "outcome_name Out_Populated = ''populated''"
| "outcome_name Out_FellBack = ''fell_back''"
| "outcome_name Out_Denied = ''denied''"
| "outcome_name Out_Failed = ''failed''"
| "outcome_name Out_Cancelled = ''cancelled''"

definition outcome_from_error :: "cache_error \<Rightarrow> outcome" where
  "outcome_from_error e =
     (if e \<in> {Unauthenticated, Unauthorized, PolicyDenied} then Out_Denied
      else if e = Cancelled then Out_Cancelled
      else if e = Miss then Out_Miss
      else Out_Failed)"

record operation_record =
  or_operation :: operation
  or_key :: key_identity
  or_source_tier :: "tier_id option"
  or_destination_tier :: "tier_id option"
  or_backend :: "backend_kind option"
  or_generation :: "generation option"
  or_latency :: duration
  or_outcome :: outcome
  or_fallback :: bool
  or_failure_class :: "cache_error option"
  or_recovery_state :: "continuity_state option"

definition record_begin :: "operation \<Rightarrow> bytes \<Rightarrow> operation_record" where
  "record_begin op key =
     \<lparr>or_operation = op, or_key = key_identity_of key, or_source_tier = None,
      or_destination_tier = None, or_backend = None, or_generation = None, or_latency = 0,
      or_outcome = Out_Served, or_fallback = False, or_failure_class = None,
      or_recovery_state = None\<rparr>"

text \<open>\<open>started.elapsed()\<close> reads the clock when the record is finished.\<close>

definition record_finish :: "instant \<Rightarrow> instant \<Rightarrow> outcome \<Rightarrow> operation_record \<Rightarrow> operation_record" where
  "record_finish now started out r = r\<lparr>or_latency := now - started, or_outcome := out\<rparr>"

definition with_source :: "tier_id \<Rightarrow> operation_record \<Rightarrow> operation_record" where
  "with_source t r = r\<lparr>or_source_tier := Some t\<rparr>"

definition with_destination :: "tier_id \<Rightarrow> operation_record \<Rightarrow> operation_record" where
  "with_destination t r = r\<lparr>or_destination_tier := Some t\<rparr>"

definition with_backend :: "backend_kind \<Rightarrow> operation_record \<Rightarrow> operation_record" where
  "with_backend b r = r\<lparr>or_backend := Some b\<rparr>"

definition with_generation :: "generation \<Rightarrow> operation_record \<Rightarrow> operation_record" where
  "with_generation g r = r\<lparr>or_generation := Some g\<rparr>"

definition with_fallback :: "bool \<Rightarrow> operation_record \<Rightarrow> operation_record" where
  "with_fallback b r = r\<lparr>or_fallback := b\<rparr>"

definition with_failure :: "cache_error \<Rightarrow> operation_record \<Rightarrow> operation_record" where
  "with_failure e r = r\<lparr>or_failure_class := Some e, or_outcome := outcome_from_error e\<rparr>"

definition with_recovery_state :: "continuity_state \<Rightarrow> operation_record \<Rightarrow> operation_record" where
  "with_recovery_state s r = r\<lparr>or_recovery_state := Some s\<rparr>"

subsection \<open>Sinks\<close>

type_synonym 'st sink = "operation_record \<Rightarrow> 'st \<Rightarrow> 'st"

definition no_telemetry_record :: "unit sink" where
  "no_telemetry_record r s = s"

record ring_telemetry =
  rt_buf :: "operation_record list lock"
  rt_cap :: nat

definition ring_new :: "nat \<Rightarrow> ring_telemetry" where
  "ring_new cap = \<lparr>rt_buf = new_lock [], rt_cap = max cap 1\<rparr>"

definition ring_records :: "ring_telemetry \<Rightarrow> operation_record list" where
  "ring_records t = (if lk_poisoned (rt_buf t) then [] else lk_value (rt_buf t))"

definition ring_records_for :: "bytes \<Rightarrow> ring_telemetry \<Rightarrow> operation_record list" where
  "ring_records_for key t = filter (\<lambda>r. or_key r = key_identity_of key) (ring_records t)"

definition ring_len :: "ring_telemetry \<Rightarrow> nat" where
  "ring_len t = (if lk_poisoned (rt_buf t) then 0 else length (lk_value (rt_buf t)))"

definition ring_record :: "ring_telemetry sink" where
  "ring_record r t =
     (if lk_poisoned (rt_buf t) then t
      else
        (let buf = lk_value (rt_buf t);
             buf = (if length buf = rt_cap t then tl buf else buf)
         in t\<lparr>rt_buf := (rt_buf t)\<lparr>lk_value := buf @ [r]\<rparr>\<rparr>))"

record latency_percentiles =
  lp_count :: nat
  lp_p50 :: u64
  lp_p95 :: u64
  lp_p99 :: u64
  lp_p99_9 :: u64
  lp_max :: u64

definition clamp :: "nat \<Rightarrow> nat \<Rightarrow> nat \<Rightarrow> nat" where
  "clamp x lo hi = (if x < lo then lo else if hi < x then hi else x)"

definition div_ceil :: "nat \<Rightarrow> nat \<Rightarrow> nat" where
  "div_ceil a b = (if a mod b > 0 then a div b + 1 else a div b)"

definition rank_of :: "nat \<Rightarrow> nat \<Rightarrow> nat \<Rightarrow> nat" where
  "rank_of num den len = clamp (div_ceil (num * len) den) 1 len"

definition from_samples :: "u64 list \<Rightarrow> latency_percentiles" where
  "from_samples samples =
     (if samples = []
      then \<lparr>lp_count = 0, lp_p50 = 0, lp_p95 = 0, lp_p99 = 0, lp_p99_9 = 0, lp_max = 0\<rparr>
      else
        (let sorted_samples = sort samples; len = length sorted_samples;
             at_rank = (\<lambda>num den. sorted_samples ! (rank_of num den len - 1))
         in \<lparr>lp_count = len, lp_p50 = at_rank 50 100, lp_p95 = at_rank 95 100,
             lp_p99 = at_rank 99 100,
             lp_p99_9 = at_rank 999 1000, lp_max = last sorted_samples\<rparr>))"

definition ring_percentiles :: "ring_telemetry \<Rightarrow> latency_percentiles" where
  "ring_percentiles t = from_samples (map (\<lambda>r. of_nat (or_latency r div 1000)) (ring_records t))"

subsection \<open>The retained records\<close>

definition last_n :: "nat \<Rightarrow> 'a list \<Rightarrow> 'a list" where
  "last_n n xs = drop (length xs - n) xs"

lemma fnv1a64_eq: "fnv1a64 bs = fnv1a bs FNV_OFFSET_A"
proof -
  have "foldl (\<lambda>hash b. (hash XOR ucast b) * 0x00000100000001b3) h bs = fnv1a bs h" for h :: u64
    by (induction bs arbitrary: h) (simp_all add: FNV_PRIME_def)
  then show ?thesis by (simp add: fnv1a64_def FNV_OFFSET_A_def)
qed

lemma last_n_snoc:
  assumes "0 < n"
  shows "last_n n (xs @ [x]) = (if length (last_n n xs) = n then tl (last_n n xs) else last_n n xs) @ [x]"
proof (cases "n \<le> length xs")
  case True
  with assms have "Suc (length xs) - n = Suc (length xs - n)" by simp
  with True assms show ?thesis by (simp add: last_n_def drop_Suc tl_drop)
next
  case False
  then show ?thesis using assms by (simp add: last_n_def)
qed

lemma ring_record_run:
  assumes "\<not> lk_poisoned (rt_buf t)" "0 < rt_cap t" "lk_value (rt_buf t) = last_n (rt_cap t) old"
  shows "ring_records (fold ring_record rs t) = last_n (rt_cap t) (old @ rs)"
  using assms
proof (induction rs arbitrary: t old)
  case Nil
  then show ?case by (simp add: ring_records_def)
next
  case (Cons r rs)
  have "lk_value (rt_buf (ring_record r t)) = last_n (rt_cap t) (old @ [r])"
    using Cons.prems by (simp add: ring_record_def Let_def last_n_snoc)
  moreover have "rt_cap (ring_record r t) = rt_cap t" "\<not> lk_poisoned (rt_buf (ring_record r t))"
    using Cons.prems by (simp_all add: ring_record_def Let_def)
  ultimately show ?case using Cons.IH [of "ring_record r t" "old @ [r]"] Cons.prems by simp
qed

text \<open>
  After any sequence of operations a ring of capacity \<open>cap\<close> retains exactly the last
  \<open>max cap 1\<close> records, oldest first; a lookup by key returns the retained records of that key and of
  those that share its identity, and the length reported never exceeds the capacity.
\<close>

theorem ring_keeps_latest:
  "ring_records (fold ring_record rs (ring_new cap)) = drop (length rs - max cap 1) rs \<and>
   ring_records_for key (fold ring_record rs (ring_new cap)) =
     filter (\<lambda>r. or_key r = key_identity_of key) (drop (length rs - max cap 1) rs) \<and>
   ring_len (fold ring_record rs (ring_new cap)) \<le> max cap 1"
proof -
  have r: "ring_records (fold ring_record rs (ring_new cap)) = last_n (max cap 1) rs"
    using ring_record_run [of "ring_new cap" "[]" rs]
    by (simp add: ring_new_def new_lock_def last_n_def)
  moreover have "ring_len t = length (ring_records t)" for t by (simp add: ring_len_def ring_records_def)
  ultimately show ?thesis by (auto simp: ring_records_for_def last_n_def)
qed

subsection \<open>Percentiles\<close>

lemma rank_of_bounds: "0 < len \<Longrightarrow> 1 \<le> rank_of num den len \<and> rank_of num den len \<le> len"
  by (simp add: rank_of_def clamp_def)

lemma div_ceil_le_iff:
  assumes "0 < b"
  shows "div_ceil a b \<le> n \<longleftrightarrow> a \<le> b * n"
proof -
  have a: "a = b * (a div b) + a mod b" by simp
  have m: "a mod b < b" using assms by simp
  show ?thesis
  proof (cases "a mod b = 0")
    case True
    with a assms show ?thesis unfolding div_ceil_def by (metis less_irrefl_nat nat_mult_le_cancel1 add_0_right)
  next
    case False
    have "a \<le> b * n \<longleftrightarrow> a div b < n"
    proof
      assume "a \<le> b * n"
      moreover have "b * n \<le> b * (a div b)" if "n \<le> a div b" using that by simp
      ultimately show "a div b < n" using a False by (metis add_is_0 le_add1 linorder_not_less
            le_antisym order_trans add_cancel_left_right)
    next
      assume "a div b < n"
      then have "b * (a div b + 1) \<le> b * n" by (intro mult_le_mono2) simp
      then have "b * (a div b) + b \<le> b * n" by simp
      with a m show "a \<le> b * n" by linarith
    qed
    with False show ?thesis by (simp add: div_ceil_def Suc_le_eq)
  qed
qed

lemma count_sorted_le:
  fixes xs :: "'a :: linorder list"
  assumes "sorted xs" "k < length xs"
  shows "k < length (filter (\<lambda>x. x \<le> xs ! k) xs)"
    and "length (filter (\<lambda>x. x < xs ! k) xs) \<le> k"
proof -
  have split: "xs = take (Suc k) xs @ drop (Suc k) xs" by simp
  have "\<forall>x \<in> set (take (Suc k) xs). x \<le> xs ! k"
    using assms by (auto simp: in_set_conv_nth sorted_iff_nth_mono)
  then have "filter (\<lambda>x. x \<le> xs ! k) (take (Suc k) xs) = take (Suc k) xs" by simp
  then have "length (filter (\<lambda>x. x \<le> xs ! k) xs) \<ge> Suc k"
    using assms by (subst split) (simp only: filter_append length_append, simp)
  then show "k < length (filter (\<lambda>x. x \<le> xs ! k) xs)" by simp
  have "\<forall>x \<in> set (drop k xs). \<not> x < xs ! k"
    using assms by (auto simp: in_set_conv_nth sorted_iff_nth_mono not_less)
  then have none: "filter (\<lambda>x. x < xs ! k) (drop k xs) = []" by simp
  have "length (filter (\<lambda>x. x < xs ! k) xs) =
      length (filter (\<lambda>x. x < xs ! k) (take k xs @ drop k xs))" by simp
  also have "\<dots> \<le> length (take k xs)"
    unfolding filter_append none append_Nil2 by (rule length_filter_le)
  also have "\<dots> \<le> k" by simp
  finally show "length (filter (\<lambda>x. x < xs ! k) xs) \<le> k" .
qed

text \<open>The specification of a nearest-rank percentile.\<close>

definition is_nearest_rank :: "nat \<Rightarrow> nat \<Rightarrow> u64 list \<Rightarrow> u64 \<Rightarrow> bool" where
  "is_nearest_rank num den xs v \<longleftrightarrow>
     v \<in> set xs \<and> num * length xs \<le> den * length (filter (\<lambda>x. x \<le> v) xs) \<and>
     den * length (filter (\<lambda>x. x < v) xs) < num * length xs"

lemma nearest_rank:
  assumes "xs \<noteq> []" "0 < num" "num \<le> den"
  shows "is_nearest_rank num den xs (sort xs ! (rank_of num den (length xs) - 1))"
    (is "is_nearest_rank num den xs ?v")
proof -
  let ?n = "length xs" and ?r = "rank_of num den (length xs)"
  have len: "0 < ?n" and den: "0 < den" using assms by auto
  have r: "1 \<le> ?r" "?r \<le> ?n" using rank_of_bounds [OF len] by blast+
  have c1: "1 \<le> div_ceil (num * ?n) den"
    using div_ceil_le_iff [OF den, of "num * ?n" 0] len assms(2) by simp
  have c2: "div_ceil (num * ?n) den \<le> ?n" using div_ceil_le_iff [OF den] assms(3) by simp
  have rank: "?r = div_ceil (num * ?n) den" using c1 c2 by (simp add: rank_of_def clamp_def)
  have ms: "length (filter P (sort xs)) = length (filter P xs)" for P
    by (metis filter_sort length_sort)
  have k: "?r - 1 < length (sort xs)" using r by simp
  note cnt = count_sorted_le [OF sorted_sort k, unfolded ms]
  have "num * ?n \<le> den * ?r" using div_ceil_le_iff [OF den, of "num * ?n" ?r] rank by simp
  also have "\<dots> \<le> den * length (filter (\<lambda>x. x \<le> ?v) xs)" using cnt(1) r by (intro mult_le_mono2) simp
  finally have a: "num * ?n \<le> den * length (filter (\<lambda>x. x \<le> ?v) xs)" .
  have "\<not> num * ?n \<le> den * (?r - 1)" unfolding div_ceil_le_iff [OF den, symmetric] using rank r by linarith
  moreover have "den * length (filter (\<lambda>x. x < ?v) xs) \<le> den * (?r - 1)"
    using cnt(2) by (rule mult_le_mono2)
  ultimately have b: "den * length (filter (\<lambda>x. x < ?v) xs) < num * ?n" by linarith
  have "?v \<in> set xs" using k by (metis nth_mem set_sort)
  with a b show ?thesis unfolding is_nearest_rank_def by blast
qed

lemma last_sort_max:
  fixes xs :: "'a :: linorder list"
  assumes "xs \<noteq> []"
  shows "last (sort xs) \<in> set xs" "x \<in> set xs \<Longrightarrow> x \<le> last (sort xs)"
proof -
  have ne: "sort xs \<noteq> []" using assms by (metis length_0_conv length_sort)
  then show "last (sort xs) \<in> set xs" by (metis last_in_set set_sort)
  assume "x \<in> set xs"
  then obtain i where "i < length (sort xs)" "sort xs ! i = x" by (metis in_set_conv_nth set_sort)
  then show "x \<le> last (sort xs)"
    using ne by (auto simp: last_conv_nth intro: sorted_nth_mono [OF sorted_sort])
qed

text \<open>
  Over a non-empty set of samples the percentiles are the nearest-rank ones: each is one of the
  samples, at least that share of the samples does not exceed it, fewer than that share lie strictly
  below it, and the maximum bounds every sample.
\<close>

theorem percentiles_nearest_rank:
  assumes "samples \<noteq> []"
  shows "lp_count (from_samples samples) = length samples \<and>
    is_nearest_rank 50 100 samples (lp_p50 (from_samples samples)) \<and>
    is_nearest_rank 95 100 samples (lp_p95 (from_samples samples)) \<and>
    is_nearest_rank 99 100 samples (lp_p99 (from_samples samples)) \<and>
    is_nearest_rank 999 1000 samples (lp_p99_9 (from_samples samples)) \<and>
    lp_max (from_samples samples) \<in> set samples \<and>
    (\<forall>x \<in> set samples. x \<le> lp_max (from_samples samples))"
  using assms nearest_rank [OF assms] last_sort_max [OF assms]
  by (simp add: from_samples_def Let_def)

theorem percentiles_nearest_rank_witness:
  "lp_p95 (from_samples [30, 10, 20]) = 30 \<and>
   is_nearest_rank 95 100 [30, 10, 20] (lp_p95 (from_samples [30, 10, 20]))"
  using percentiles_nearest_rank [of "[30, 10, 20]"]
  by (simp add: from_samples_def rank_of_def clamp_def div_ceil_def)

end
