(* ===== verification/Task_Effects.thy ===== *)
theory Task_Effects
  imports Errors
begin

section \<open>Tasks: sequential code that can be suspended, cancelled or stuck\<close>

text \<open>
  An asynchronous function of the crate is a state transformer over a world. It ends in one of
  three ways: it returns a value, its future is dropped at a suspension point (cancellation), or it
  waits for ever on a future that never completes. A guard whose destructor releases a claim runs
  its clean-up when the code returns with the guard armed and when the future is dropped.
\<close>

datatype 'a flow = Done 'a | Dropped | Hung

type_synonym ('w, 'a) task = "'w \<Rightarrow> 'a flow \<times> 'w"

definition ret :: "'a \<Rightarrow> ('w, 'a) task" where
  "ret x w = (Done x, w)"

definition bind_task :: "('w, 'a) task \<Rightarrow> ('a \<Rightarrow> ('w, 'b) task) \<Rightarrow> ('w, 'b) task" where
  "bind_task m f w =
     (case m w of
        (Done x, w') \<Rightarrow> f x w'
      | (Dropped, w') \<Rightarrow> (Dropped, w')
      | (Hung, w') \<Rightarrow> (Hung, w'))"

definition then_task :: "('w, 'a) task \<Rightarrow> ('w, 'b) task \<Rightarrow> ('w, 'b) task" where
  "then_task m k = bind_task m (\<lambda>_. k)"

text \<open>The \<open>?\<close> operator on the result of a task, and a plain result turned into a task.\<close>

definition try_task :: "('w, 'a result) task \<Rightarrow> ('a \<Rightarrow> ('w, 'b result) task) \<Rightarrow> ('w, 'b result) task" where
  "try_task m f = bind_task m (\<lambda>r. case r of Inl e \<Rightarrow> ret (Inl e) | Inr x \<Rightarrow> f x)"

definition try_pure :: "'a result \<Rightarrow> ('a \<Rightarrow> ('w, 'b result) task) \<Rightarrow> ('w, 'b result) task" where
  "try_pure r f = (case r of Inl e \<Rightarrow> ret (Inl e) | Inr x \<Rightarrow> f x)"

text \<open>
  A scope that owns a guard: the body returns whether the guard is still armed when the scope ends.
  Inside the scope the guard is armed at every suspension point.
\<close>

definition guarded :: "('w \<Rightarrow> 'w) \<Rightarrow> ('w, bool \<times> 'a) task \<Rightarrow> ('w, 'a) task" where
  "guarded cleanup body w =
     (case body w of
        (Done (armed, x), w') \<Rightarrow> (Done x, if armed then cleanup w' else w')
      | (Dropped, w') \<Rightarrow> (Dropped, cleanup w')
      | (Hung, w') \<Rightarrow> (Hung, w'))"

text \<open>What an asynchronous call of a backend does: it answers, or it never completes.\<close>

datatype 'a reply = Returns "'a result" | Hangs

subsection \<open>Stepping through a task\<close>

lemma bind_ret [simp]: "bind_task (ret x) f = f x"
  by (simp add: fun_eq_iff bind_task_def ret_def)

lemma then_ret [simp]: "then_task (ret x) k = k"
  by (simp add: then_task_def)

lemma try_ret [simp]: "try_task (ret (Inr x)) f = f x" "try_task (ret (Inl e)) f = ret (Inl e)"
  by (simp_all add: try_task_def)

lemma try_pure_simps [simp]: "try_pure (Inr x) f = f x" "try_pure (Inl e) f = ret (Inl e)"
  by (simp_all add: try_pure_def)

lemma bind_assoc: "bind_task (bind_task m f) g = bind_task m (\<lambda>x. bind_task (f x) g)"
  by (auto simp: fun_eq_iff bind_task_def split: prod.split flow.split)

lemma bind_Done: "m w = (Done x, w') \<Longrightarrow> bind_task m f w = f x w'"
  by (simp add: bind_task_def)

lemma then_Done: "m w = (Done x, w') \<Longrightarrow> then_task m k w = k w'"
  by (simp add: then_task_def bind_task_def)

lemma try_Done: "m w = (Done (Inr x), w') \<Longrightarrow> try_task m f w = f x w'"
  by (simp add: try_task_def bind_task_def)

lemma try_DoneErr: "m w = (Done (Inl e), w') \<Longrightarrow> try_task m f w = (Done (Inl e), w')"
  by (simp add: try_task_def bind_task_def ret_def)

lemma bind_DoneE:
  assumes "bind_task m f w = (Done y, w'')"
  obtains x w' where "m w = (Done x, w')" "f x w' = (Done y, w'')"
  using assms by (auto simp: bind_task_def split: prod.splits flow.splits)

lemma then_DoneE:
  assumes "then_task m k w = (Done y, w'')"
  obtains x w' where "m w = (Done x, w')" "k w' = (Done y, w'')"
  using assms unfolding then_task_def by (elim bind_DoneE)

lemma try_DoneE:
  assumes "try_task m f w = (Done y, w'')"
  obtains (ok) x w' where "m w = (Done (Inr x), w')" "f x w' = (Done y, w'')"
    | (err) e where "m w = (Done (Inl e), w'')" "y = Inl e"
  using assms unfolding try_task_def
  by (elim bind_DoneE) (auto simp: ret_def split: sum.splits)

subsection \<open>Postconditions\<close>

text \<open>
  \<open>upholds I m\<close>: from a world that satisfies \<open>I\<close> the task ends in one that does, whether it returns,
  is dropped or is stuck.
\<close>

definition upholds :: "('w \<Rightarrow> bool) \<Rightarrow> ('w, 'a) task \<Rightarrow> bool" where
  "upholds I m \<longleftrightarrow> (\<forall>w. I w \<longrightarrow> I (snd (m w)))"

named_theorems upheld \<open>tasks that keep a predicate of the world\<close>

lemma upholdsD: "upholds I m \<Longrightarrow> I w \<Longrightarrow> I (snd (m w))"
  by (simp add: upholds_def)

lemma upholds_ret [upheld, simp]: "upholds I (ret x)"
  by (simp add: upholds_def ret_def)

lemma upholds_bind [upheld]:
  assumes "upholds I m" "\<And>x. upholds I (f x)"
  shows "upholds I (bind_task m f)"
  unfolding upholds_def
proof (intro allI impI)
  fix w assume w: "I w"
  obtain r w' where m: "m w = (r, w')" by (cases "m w")
  with upholdsD [OF assms(1) w] have w': "I w'" by simp
  show "I (snd (bind_task m f w))"
    using m w' upholdsD [OF assms(2) w'] by (cases r) (simp_all add: bind_task_def)
qed

lemma upholds_then [upheld]: "upholds I m \<Longrightarrow> upholds I k \<Longrightarrow> upholds I (then_task m k)"
  unfolding then_task_def by (rule upholds_bind)

lemma upholds_try [upheld]:
  assumes "upholds I m" "\<And>x. upholds I (f x)"
  shows "upholds I (try_task m f)"
  unfolding try_task_def using assms by (intro upholds_bind) (auto split: sum.split)

lemma upholds_try_pure [upheld]: "(\<And>x. upholds I (f x)) \<Longrightarrow> upholds I (try_pure r f)"
  by (auto simp: try_pure_def split: sum.split)

lemma upholds_guarded [upheld]:
  assumes "upholds I body" "\<And>w. I w \<Longrightarrow> I (cleanup w)"
  shows "upholds I (guarded cleanup body)"
  unfolding upholds_def
proof (intro allI impI)
  fix w assume w: "I w"
  obtain r w' where m: "body w = (r, w')" by (cases "body w")
  with upholdsD [OF assms(1) w] have "I w'" by simp
  with m assms(2) show "I (snd (guarded cleanup body w))"
    by (cases r) (auto simp: guarded_def split: prod.split)
qed

lemma upholds_if [upheld]: "upholds I a \<Longrightarrow> upholds I b \<Longrightarrow> upholds I (if c then a else b)"
  by simp

lemma upholds_prod [upheld]: "(\<And>x y. upholds I (f x y)) \<Longrightarrow> upholds I (case p of (x, y) \<Rightarrow> f x y)"
  by (cases p) simp

lemma upholds_option [upheld]:
  "upholds I a \<Longrightarrow> (\<And>x. upholds I (f x)) \<Longrightarrow> upholds I (case p of None \<Rightarrow> a | Some x \<Rightarrow> f x)"
  by (cases p) simp_all

lemma upholds_sum [upheld]:
  "(\<And>x. upholds I (f x)) \<Longrightarrow> (\<And>x. upholds I (g x)) \<Longrightarrow> upholds I (case p of Inl x \<Rightarrow> f x | Inr x \<Rightarrow> g x)"
  by (cases p) simp_all

subsection \<open>Triples\<close>

text \<open>
  \<open>runs P m Q D\<close>: started in a world that satisfies \<open>P\<close>, a task that returns does so with \<open>Q\<close>, and
  one that is dropped leaves \<open>D\<close>. A task that waits for ever leaves nothing to be said.
\<close>

definition runs :: "('w \<Rightarrow> bool) \<Rightarrow> ('w, 'a) task \<Rightarrow> ('a \<Rightarrow> 'w \<Rightarrow> bool) \<Rightarrow> ('w \<Rightarrow> bool) \<Rightarrow> bool" where
  "runs P m Q D \<longleftrightarrow>
     (\<forall>w. P w \<longrightarrow>
        (case m w of (Done x, w') \<Rightarrow> Q x w' | (Dropped, w') \<Rightarrow> D w' | (Hung, w') \<Rightarrow> True))"

lemma runsD:
  assumes "runs P m Q D" "P w"
  shows "m w = (Done x, w') \<Longrightarrow> Q x w'" "m w = (Dropped, w') \<Longrightarrow> D w'"
  using assms by (fastforce simp: runs_def)+

lemma runsI:
  assumes "\<And>w x w'. P w \<Longrightarrow> m w = (Done x, w') \<Longrightarrow> Q x w'"
    and "\<And>w w'. P w \<Longrightarrow> m w = (Dropped, w') \<Longrightarrow> D w'"
  shows "runs P m Q D"
  using assms by (auto simp: runs_def split: prod.split flow.split)

lemma runs_ret [intro]: "(\<And>w. P w \<Longrightarrow> Q x w) \<Longrightarrow> runs P (ret x) Q D"
  by (simp add: runs_def ret_def)

lemma runs_bind:
  assumes "runs P m Q D" "\<And>x. runs (Q x) (f x) R D"
  shows "runs P (bind_task m f) R D"
  unfolding runs_def
proof (intro allI impI)
  fix w assume w: "P w"
  obtain r w' where m: "m w = (r, w')" by (cases "m w")
  show "case bind_task m f w of (Done x, w') \<Rightarrow> R x w' | (Dropped, w') \<Rightarrow> D w' | (Hung, w') \<Rightarrow> True"
  proof (cases r)
    case (Done x)
    with m runsD(1) [OF assms(1) w] have "Q x w'" by simp
    with assms(2) [of x] m Done show ?thesis by (simp add: bind_task_def runs_def)
  next
    case Dropped
    with m runsD(2) [OF assms(1) w] show ?thesis by (simp add: bind_task_def)
  next
    case Hung
    with m show ?thesis by (simp add: bind_task_def)
  qed
qed

lemma runs_then: "runs P m (\<lambda>_. Q) D \<Longrightarrow> runs Q k R D \<Longrightarrow> runs P (then_task m k) R D"
  unfolding then_task_def by (rule runs_bind)

lemma runs_try:
  assumes "runs P m Q D" "\<And>x. runs (Q (Inr x)) (f x) R D" "\<And>e w. Q (Inl e) w \<Longrightarrow> R (Inl e) w"
  shows "runs P (try_task m f) R D"
  unfolding try_task_def
proof (rule runs_bind [OF assms(1)])
  show "runs (Q r) (case r of Inl e \<Rightarrow> ret (Inl e) | Inr x \<Rightarrow> f x) R D" for r
    using assms(2,3) by (cases r) auto
qed

lemma runs_try_pure:
  assumes "\<And>x. r = Inr x \<Longrightarrow> runs P (f x) R D" "\<And>e w. r = Inl e \<Longrightarrow> P w \<Longrightarrow> R (Inl e) w"
  shows "runs P (try_pure r f) R D"
  using assms by (cases r) auto

lemma runs_guarded:
  assumes "runs P body (\<lambda>(armed, x) w. R x (if armed then cleanup w else w)) (\<lambda>w. D (cleanup w))"
  shows "runs P (guarded cleanup body) R D"
  unfolding runs_def
proof (intro allI impI)
  fix w assume w: "P w"
  obtain r w' where m: "body w = (r, w')" by (cases "body w")
  show "case guarded cleanup body w of (Done x, w') \<Rightarrow> R x w' | (Dropped, w') \<Rightarrow> D w' | (Hung, w') \<Rightarrow> True"
  proof (cases r)
    case (Done y)
    obtain armed x where y: "y = (armed, x)" by (cases y)
    with m Done runsD(1) [OF assms w, of y w'] show ?thesis by (simp add: guarded_def)
  next
    case Dropped
    with m runsD(2) [OF assms w] show ?thesis by (simp add: guarded_def)
  next
    case Hung
    with m show ?thesis by (simp add: guarded_def)
  qed
qed

lemma runs_weaken:
  assumes "runs P m Q D" "\<And>w. P' w \<Longrightarrow> P w" "\<And>x w. Q x w \<Longrightarrow> Q' x w" "\<And>w. D w \<Longrightarrow> D' w"
  shows "runs P' m Q' D'"
proof (rule runsI)
  show "Q' x w'" if "P' w" "m w = (Done x, w')" for w x w'
    using runsD(1) [OF assms(1) assms(2) [OF that(1)] that(2)] assms(3) by blast
  show "D' w'" if "P' w" "m w = (Dropped, w')" for w w'
    using runsD(2) [OF assms(1) assms(2) [OF that(1)] that(2)] assms(4) by blast
qed

lemma upholds_runs:
  assumes "upholds I m" "\<And>w. I w \<Longrightarrow> D w"
  shows "runs I m (\<lambda>_. I) D"
proof (rule runsI)
  show "I w'" if "I w" "m w = (Done x, w')" for w x w'
    using upholdsD [OF assms(1) that(1)] that(2) by simp
  show "D w'" if "I w" "m w = (Dropped, w')" for w w'
    using upholdsD [OF assms(1) that(1)] that(2) assms(2) by simp
qed

text \<open>Tasks that never wait for ever.\<close>

definition completes :: "('w, 'a) task \<Rightarrow> bool" where
  "completes m \<longleftrightarrow> (\<forall>w. fst (m w) \<noteq> Hung)"

lemma completesD: "completes m \<Longrightarrow> fst (m w) \<noteq> Hung"
  by (simp add: completes_def)

lemma completes_ret [simp]: "completes (ret x)"
  by (simp add: completes_def ret_def)

lemma completes_bind: "completes m \<Longrightarrow> (\<And>x. completes (f x)) \<Longrightarrow> completes (bind_task m f)"
  unfolding completes_def
proof
  fix w assume a: "\<forall>w. fst (m w) \<noteq> Hung" "\<And>x. \<forall>w. fst (f x w) \<noteq> Hung"
  obtain r w' where m: "m w = (r, w')" by (cases "m w")
  moreover from m a(1) have "r \<noteq> Hung" by (metis fst_conv)
  ultimately show "fst (bind_task m f w) \<noteq> Hung" using a(2) by (cases r) (simp_all add: bind_task_def)
qed

lemma completes_then: "completes m \<Longrightarrow> completes k \<Longrightarrow> completes (then_task m k)"
  unfolding then_task_def by (rule completes_bind)

lemma completes_try: "completes m \<Longrightarrow> (\<And>x. completes (f x)) \<Longrightarrow> completes (try_task m f)"
  unfolding try_task_def by (rule completes_bind) (simp_all split: sum.split)

lemma completes_try_pure: "(\<And>x. completes (f x)) \<Longrightarrow> completes (try_pure r f)"
  by (simp add: try_pure_def split: sum.split)

lemma completes_guarded: "completes body \<Longrightarrow> completes (guarded cleanup body)"
  unfolding completes_def
proof
  fix w assume a: "\<forall>w. fst (body w) \<noteq> Hung"
  obtain r w' where m: "body w = (r, w')" by (cases "body w")
  moreover from m a have "r \<noteq> Hung" by (metis fst_conv)
  ultimately show "fst (guarded cleanup body w) \<noteq> Hung"
    by (cases r) (auto simp: guarded_def split: prod.split)
qed

lemmas completes_intros = completes_bind completes_then completes_try completes_try_pure completes_guarded

end
