(* ===== verification/Rungs.thy ===== *)
theory Rungs
  imports Sharded_Tier Tier_Id Capability Task_Effects
begin

section \<open>The tier trait and its in-memory rungs (\<open>src/tier/trait.rs\<close>, \<open>src/tier/l0.rs\<close> to \<open>l5.rs\<close>, \<open>src/tier/test.rs\<close>)\<close>

text \<open>
  \<open>Arc<dyn CacheTier<V>>\<close> is a record of the trait's methods over the state \<open>'s\<close> behind the
  object. An asynchronous method answers or hangs; either way it may have changed its store, which
  is how a write that times out and lands all the same is expressed. The cursor of the sharded
  eviction scan is a process-wide static, so nominating takes it and returns it.

  The six in-memory rungs forward to the sharded table and differ in their name, backend, flags and
  identifier. \<open>TestTier\<close> puts a switch in front of one slot table.
\<close>

record ('s, 'v) tier_ops =
  t_name :: "'s \<Rightarrow> string"
  t_backend :: "'s \<Rightarrow> backend_kind"
  t_capability :: "'s \<Rightarrow> tier_capability"
  t_eviction_candidate :: "instant \<Rightarrow> u64 \<Rightarrow> 's \<Rightarrow> key_address option \<times> u64 \<times> 's"
  t_capacity :: "'s \<Rightarrow> nat option"
  t_remove_if_address :: "key_address \<Rightarrow> 's \<Rightarrow> bool result \<times> 's"
  t_get :: "instant \<Rightarrow> bytes \<Rightarrow> 's \<Rightarrow> 'v option reply \<times> 's"
  t_set :: "instant \<Rightarrow> bytes \<Rightarrow> 'v \<Rightarrow> duration option \<Rightarrow> 's \<Rightarrow> unit reply \<times> 's"
  t_remove :: "instant \<Rightarrow> bytes \<Rightarrow> 's \<Rightarrow> unit reply \<times> 's"
  t_contains :: "instant \<Rightarrow> bytes \<Rightarrow> 's \<Rightarrow> bool reply \<times> 's"
  t_health :: "instant \<Rightarrow> 's \<Rightarrow> tier_health"
  t_tier_id :: tier_id

text \<open>The default bodies of the trait's optional methods.\<close>

definition default_eviction_candidate :: "instant \<Rightarrow> u64 \<Rightarrow> 's \<Rightarrow> key_address option \<times> u64 \<times> 's" where
  "default_eviction_candidate now cursor s = (None, cursor, s)"

definition default_remove_if_address :: "key_address \<Rightarrow> 's \<Rightarrow> bool result \<times> 's" where
  "default_remove_if_address a s = (Ok False, s)"

definition default_tier_capacity :: "'s \<Rightarrow> nat option" where
  "default_tier_capacity s = None"

definition answer :: "'r result \<times> 's \<Rightarrow> 'r reply \<times> 's" where
  "answer x = (case x of (r, s) \<Rightarrow> (Returns r, s))"

subsection \<open>The stub rungs\<close>

definition stub_ops ::
  "(bytes \<Rightarrow> u64) \<Rightarrow> ('v \<Rightarrow> content_digest) \<Rightarrow> string \<Rightarrow> backend_kind \<Rightarrow> capability_flags \<Rightarrow> tier_id
     \<Rightarrow> ('v sharded_tier, 'v) tier_ops"
where
  "stub_ops hasher dg name backend flags tier =
     \<lparr>t_name = (\<lambda>_. name), t_backend = (\<lambda>_. backend),
      t_capability = (\<lambda>_. capability_new backend flags OS_Healthy DC_Volatile),
      t_eviction_candidate = sharded_eviction_candidate,
      t_capacity = (\<lambda>s. Some (sharded_capacity s)),
      t_remove_if_address = sharded_remove_if_address,
      t_get = (\<lambda>now key s. answer (sharded_get hasher dg now key s)),
      t_set = (\<lambda>now key v ttl s. answer (sharded_set hasher dg now key v ttl s)),
      t_remove = (\<lambda>now key s. answer (sharded_remove hasher now key s)),
      t_contains = (\<lambda>now key s. (Returns (sharded_contains hasher now key s), s)),
      t_health = (\<lambda>_ _. default_health),
      t_tier_id = tier\<rparr>"

definition atomic_memory_flags :: capability_flags where
  "atomic_memory_flags =
     flags_union (flags_union CF_IN_MEMORY CF_VOLATILE) CF_ATOMIC_WRITE_OR_ERROR"

definition l0_ops :: "(bytes \<Rightarrow> u64) \<Rightarrow> ('v \<Rightarrow> content_digest) \<Rightarrow> ('v sharded_tier, 'v) tier_ops" where
  "l0_ops hasher dg =
     stub_ops hasher dg ''L0-request-local'' BK_InMemory (flags_union CF_IN_MEMORY CF_VOLATILE) L0"

definition l1_ops :: "(bytes \<Rightarrow> u64) \<Rightarrow> ('v \<Rightarrow> content_digest) \<Rightarrow> ('v sharded_tier, 'v) tier_ops" where
  "l1_ops hasher dg = stub_ops hasher dg ''L1-hot-local'' BK_InMemory atomic_memory_flags L1"

definition l2_ops :: "(bytes \<Rightarrow> u64) \<Rightarrow> ('v \<Rightarrow> content_digest) \<Rightarrow> ('v sharded_tier, 'v) tier_ops" where
  "l2_ops hasher dg = stub_ops hasher dg ''L2-local'' BK_InMemory atomic_memory_flags L2"

definition l3_ops :: "(bytes \<Rightarrow> u64) \<Rightarrow> ('v \<Rightarrow> content_digest) \<Rightarrow> ('v sharded_tier, 'v) tier_ops" where
  "l3_ops hasher dg =
     stub_ops hasher dg ''L3-in-memory-fallback'' BK_InMemoryFallback atomic_memory_flags L3"

definition l4_ops :: "(bytes \<Rightarrow> u64) \<Rightarrow> ('v \<Rightarrow> content_digest) \<Rightarrow> ('v sharded_tier, 'v) tier_ops" where
  "l4_ops hasher dg =
     stub_ops hasher dg ''L4-in-memory-fallback'' BK_InMemoryFallback atomic_memory_flags L4"

definition l5_ops :: "(bytes \<Rightarrow> u64) \<Rightarrow> ('v \<Rightarrow> content_digest) \<Rightarrow> ('v sharded_tier, 'v) tier_ops" where
  "l5_ops hasher dg =
     stub_ops hasher dg ''L5-in-memory-fallback'' BK_InMemoryFallback atomic_memory_flags L5"

text \<open>\<open>L3Stub::with_capacity\<close> and its copies in \<open>l4.rs\<close> and \<open>l5.rs\<close>.\<close>

definition stub_with_capacity :: "nat \<Rightarrow> 'v sharded_tier result" where
  "stub_with_capacity capacity = sharded_with_shards DEFAULT_SHARDS capacity"

subsection \<open>The test tier\<close>

record 'v test_tier =
  tt_healthy :: bool
  tt_inner :: "'v fixed_tier lock"
  tt_failure_count :: u64

definition test_tier_new :: "'v test_tier result" where
  "test_tier_new =
     try_then (fixed_with_capacity 1024) (\<lambda>t.
       Ok \<lparr>tt_healthy = True, tt_inner = new_lock t, tt_failure_count = 0\<rparr>)"

definition test_tier_set_healthy :: "bool \<Rightarrow> 'v test_tier \<Rightarrow> 'v test_tier" where
  "test_tier_set_healthy b t = t\<lparr>tt_healthy := b\<rparr>"

definition test_tier_call ::
  "('v fixed_tier \<Rightarrow> 'r result \<times> 'v fixed_tier) \<Rightarrow> 'v test_tier \<Rightarrow> 'r reply \<times> 'v test_tier"
where
  "test_tier_call call t =
     (if \<not> tt_healthy t
      then (Returns (Err TierUnavailable), t\<lparr>tt_failure_count := tt_failure_count t + 1\<rparr>)
      else if lk_poisoned (tt_inner t) then (Returns (Err ConfigurationError), t)
      else case call (lk_value (tt_inner t)) of
        (r, s) \<Rightarrow> (Returns r, t\<lparr>tt_inner := (tt_inner t)\<lparr>lk_value := s\<rparr>\<rparr>))"

definition test_tier_health :: "instant \<Rightarrow> 'v test_tier \<Rightarrow> tier_health" where
  "test_tier_health now t =
     (let failures = tt_failure_count t in
      \<lparr>consecutive_failures = failures,
       last_failure_timestamp = (if failures > 0 then Some now else None),
       health_score = (if failures \<ge> 5 then 0 else max (1 - real (unat failures) / 10) 0),
       availability = 1\<rparr>)"

definition test_tier_ops :: "('v \<Rightarrow> content_digest) \<Rightarrow> tier_id \<Rightarrow> ('v test_tier, 'v) tier_ops" where
  "test_tier_ops dg tier =
     \<lparr>t_name = (\<lambda>_. ''test-'' @ tier_display tier), t_backend = (\<lambda>_. BK_Test),
      t_capability = (\<lambda>s. capability_new BK_Test (flags_union CF_IN_MEMORY CF_VOLATILE)
         (if tt_healthy s then OS_Healthy else OS_Unavailable) DC_Volatile),
      t_eviction_candidate = default_eviction_candidate,
      t_capacity = (\<lambda>s. if lk_poisoned (tt_inner s) then None
                        else Some (fixed_capacity (lk_value (tt_inner s)))),
      t_remove_if_address = default_remove_if_address,
      t_get = (\<lambda>now key. test_tier_call (fixed_get dg now key)),
      t_set = (\<lambda>now key v ttl. test_tier_call (fixed_set dg now key v ttl)),
      t_remove = (\<lambda>now key. test_tier_call (fixed_remove now key)),
      t_contains = (\<lambda>now key. test_tier_call (\<lambda>s. (fixed_contains now key s, s))),
      t_health = test_tier_health,
      t_tier_id = tier\<rparr>"

subsection \<open>What the manager relies on\<close>

text \<open>
  The contract of one rung as the manager uses it: reads and writes of a healthy rung answer, a
  stored value is read back, a refused write leaves no trace, and every method keeps the invariant. The locale fixes the methods
  of a rung; the stub rungs interpret it on the sharded table.
\<close>

locale rung_contract =
  fixes ops :: "('s, 'v) tier_ops"
    and inv :: "'s \<Rightarrow> bool"
  assumes get_answers: "inv s \<Longrightarrow> \<exists>r. fst (t_get ops now k s) = Returns r"
    and set_answers: "inv s \<Longrightarrow> \<exists>r. fst (t_set ops now k v ttl s) = Returns r"
    and remove_answers: "inv s \<Longrightarrow> \<exists>r. fst (t_remove ops now k s) = Returns r"
    and inv_get: "inv s \<Longrightarrow> inv (snd (t_get ops now k s))"
    and inv_set: "inv s \<Longrightarrow> inv (snd (t_set ops now k v ttl s))"
    and inv_remove: "inv s \<Longrightarrow> inv (snd (t_remove ops now k s))"
    and inv_evict: "inv s \<Longrightarrow> inv (snd (snd (t_eviction_candidate ops now c s)))"
    and inv_remove_if: "inv s \<Longrightarrow> inv (snd (t_remove_if_address ops a s))"
    and get_after_set: "inv s \<Longrightarrow> t_set ops now k v ttl s = (Returns (Ok ()), s') \<Longrightarrow>
      fst (t_get ops now' k s') = Returns (Ok (if unexpired ttl now now' then Some v else None))"
    and set_refused: "inv s \<Longrightarrow> fst (t_set ops now k v ttl s) = Returns (Err e) \<Longrightarrow>
      snd (t_set ops now k v ttl s) = s"

lemma stub_ops_simps [simp]:
  "t_get (stub_ops hasher dg name b f t) now key s = answer (sharded_get hasher dg now key s)"
  "t_set (stub_ops hasher dg name b f t) now key v ttl s = answer (sharded_set hasher dg now key v ttl s)"
  "t_remove (stub_ops hasher dg name b f t) now key s = answer (sharded_remove hasher now key s)"
  "t_eviction_candidate (stub_ops hasher dg name b f t) = sharded_eviction_candidate"
  "t_remove_if_address (stub_ops hasher dg name b f t) = sharded_remove_if_address"
  by (simp_all add: stub_ops_def)

lemma answer_simps [simp]:
  "fst (answer x) = Returns (fst x)" "snd (answer x) = snd x"
  "answer x = (Returns r, s) \<longleftrightarrow> x = (r, s)"
  by (cases x; simp add: answer_def)+

interpretation stub_rung: rung_contract "stub_ops hasher dg name b f t" sharded_wf
  for hasher :: "bytes \<Rightarrow> u64" and dg :: "'v \<Rightarrow> content_digest" and name b f t
  by unfold_locales
     (auto simp: sharded_store.inv_get sharded_store.inv_set sharded_store.inv_remove
        sharded_store.get_after_set sharded_store.set_error sharded_wf_eviction)

end
