(* ===== verification/Manager.thy ===== *)
theory Manager
  imports Control_Plane Policy Telemetry Rungs
begin

section \<open>The cache manager (\<open>src/manager.rs\<close>)\<close>

text \<open>
  \<open>CacheManager\<close>: the operations that join the control plane, the rungs, the breaker registry, the
  policy and the telemetry sink. What the operations share is the world; the manager's own fields
  never change after construction.

  Every operation runs against a schedule. Before each access to shared state, and at each
  suspension point, \<open>sc_between\<close> lets everything else that runs in the process act on the world;
  \<open>sc_drop\<close> says at which suspension points the caller drops the future; \<open>sc_timer\<close> decides a
  \<open>select!\<close> whose two branches are both ready. Statements that hold for every schedule hold for
  every interleaving.

  The key type is the crate's own \<open>Key\<close> for byte strings. The sink is the list of the records it was
  given. A call of a backend runs atomically between its two suspension points; cancellation can
  strike before it or after it.
\<close>

record 's world =
  w_plane :: cachelito
  w_registry :: tier_registry
  w_stores :: "'s list"
  w_cursor :: u64
  w_log :: "operation_record list"
  w_now :: instant
  w_step :: nat

record 's schedule =
  sc_between :: "nat \<Rightarrow> 's world \<Rightarrow> 's world"
  sc_drop :: "nat \<Rightarrow> bool"
  sc_timer :: "nat \<Rightarrow> bool"

type_synonym ('s, 'a) io = "('s world, 'a) task"

record ('s, 'v) manager =
  m_policy :: "(bytes, 'v) cache_policy"
  m_tiers :: "('s, 'v) tier_ops list"
  m_wait_timeout :: duration
  m_authority_tier :: tier_id

datatype freshness = Fresh | StaleValue

record 'v lookup =
  lu_value :: "'v option"
  lu_freshness :: freshness

definition MANAGER_MAX_KEY_SIZE :: nat where
  "MANAGER_MAX_KEY_SIZE = 256"

definition MAX_POPULATE_ATTEMPTS :: nat where
  "MAX_POPULATE_ATTEMPTS = 3"

text \<open>Fifty milliseconds, in nanoseconds.\<close>

definition RETRY_BASE_BACKOFF :: duration where
  "RETRY_BASE_BACKOFF = 50000000"

definition MAX_COMMIT_ATTEMPTS :: nat where
  "MAX_COMMIT_ATTEMPTS = 64"

definition MAX_EVICTION_PASSES :: nat where
  "MAX_EVICTION_PASSES = 16"

definition MAX_POPULATION_ATTEMPTS :: nat where
  "MAX_POPULATION_ATTEMPTS = 8"

definition MAX_EVICTION_ATTEMPTS :: nat where
  "MAX_EVICTION_ATTEMPTS = 8"

definition write_provably_stored_nothing :: "cache_error \<Rightarrow> bool" where
  "write_provably_stored_nothing e \<longleftrightarrow> e \<in> {SerializationFailed, CapacityExhausted}"

definition previous_rung :: "tier_id \<Rightarrow> tier_id" where
  "previous_rung rung =
     (if as_usize rung = 0 then L6
      else case from_usize (as_usize rung - 1) of Some t \<Rightarrow> t | None \<Rightarrow> L0)"

definition decision_tier_placeholder :: tier_id where
  "decision_tier_placeholder = L0"

definition manager_with_timeout ::
  "(bytes, 'v) cache_policy \<Rightarrow> ('s, 'v) tier_ops list \<Rightarrow> duration \<Rightarrow> ('s, 'v) manager"
where
  "manager_with_timeout policy tiers wait_timeout =
     \<lparr>m_policy = policy, m_tiers = tiers, m_wait_timeout = wait_timeout,
      m_authority_tier = AUTHORITY_TIER\<rparr>"

definition manager_new :: "(bytes, 'v) cache_policy \<Rightarrow> ('s, 'v) tier_ops list \<Rightarrow> ('s, 'v) manager" where
  "manager_new policy tiers = manager_with_timeout policy tiers 5000000000"

text \<open>\<open>with_authority\<close> asserts that the rung is the authority rung; \<open>None\<close> is the panic.\<close>

definition with_authority :: "tier_id \<Rightarrow> ('s, 'v) manager \<Rightarrow> ('s, 'v) manager option" where
  "with_authority authority m =
     (if is_authority_rung authority then Some (m\<lparr>m_authority_tier := authority\<rparr>) else None)"

subsection \<open>Touching the world\<close>

definition tick :: "'s schedule \<Rightarrow> 's world \<Rightarrow> 's world" where
  "tick sc w = (sc_between sc (w_step w) w)\<lparr>w_step := Suc (w_step w)\<rparr>"

text \<open>A suspension point: the rest of the process runs, and the caller may drop the future.\<close>

definition suspend :: "'s schedule \<Rightarrow> ('s, unit) io" where
  "suspend sc w = (if sc_drop sc (w_step w) then Dropped else Done (), tick sc w)"

definition plane_call ::
  "'s schedule \<Rightarrow> (instant \<Rightarrow> cachelito \<Rightarrow> 'r \<times> cachelito) \<Rightarrow> ('s, 'r) io"
where
  "plane_call sc f w0 =
     (let w = tick sc w0 in
      case f (w_now w) (w_plane w) of (r, p) \<Rightarrow> (Done r, w\<lparr>w_plane := p\<rparr>))"

definition plane_peek :: "'s schedule \<Rightarrow> bytes \<Rightarrow> ('s, control_snapshot result) io" where
  "plane_peek sc key = plane_call sc (\<lambda>now p. (cp_peek now key p, p))"

definition registry_call ::
  "'s schedule \<Rightarrow> (instant \<Rightarrow> tier_registry \<Rightarrow> tier_registry) \<Rightarrow> ('s, unit) io"
where
  "registry_call sc f w0 =
     (let w = tick sc w0 in (Done (), w\<lparr>w_registry := f (w_now w) (w_registry w)\<rparr>))"

definition read_now :: "('s, instant) io" where
  "read_now w = (Done (w_now w), w)"

definition emit :: "operation_record \<Rightarrow> ('s, unit) io" where
  "emit r w = (Done (), w\<lparr>w_log := w_log w @ [r]\<rparr>)"

text \<open>An asynchronous call on the rung at index \<open>i\<close>, and a synchronous one.\<close>

definition tier_call ::
  "'s schedule \<Rightarrow> nat \<Rightarrow> (instant \<Rightarrow> 's \<Rightarrow> 'a reply \<times> 's) \<Rightarrow> ('s, 'a reply) io"
where
  "tier_call sc i f =
     then_task (suspend sc)
       (bind_task
          (\<lambda>w. case f (w_now w) (w_stores w ! i) of
                 (r, s) \<Rightarrow> (Done r, w\<lparr>w_stores := (w_stores w)[i := s]\<rparr>))
          (\<lambda>r. then_task (suspend sc) (ret r)))"

definition tier_sync ::
  "'s schedule \<Rightarrow> nat \<Rightarrow> (instant \<Rightarrow> u64 \<Rightarrow> 's \<Rightarrow> 'a \<times> u64 \<times> 's) \<Rightarrow> ('s, 'a) io"
where
  "tier_sync sc i f w0 =
     (let w = tick sc w0 in
      case f (w_now w) (w_cursor w) (w_stores w ! i) of
        (r, c, s) \<Rightarrow> (Done r, w\<lparr>w_stores := (w_stores w)[i := s], w_cursor := c\<rparr>))"

text \<open>The clock has moved on by at least \<open>d\<close> when a timer of that length fires.\<close>

definition let_time_pass :: "duration \<Rightarrow> ('s, unit) io" where
  "let_time_pass d w = (Done (), w\<lparr>w_now := w_now w + d\<rparr>)"

definition sleep :: "'s schedule \<Rightarrow> duration \<Rightarrow> ('s, unit) io" where
  "sleep sc d = then_task (suspend sc) (let_time_pass d)"

definition bounded :: "('s, 'v) manager \<Rightarrow> ('s, 'a reply) io \<Rightarrow> ('s, 'a result) io" where
  "bounded m fut =
     bind_task fut (\<lambda>r. case r of
         Returns x \<Rightarrow> ret x
       | Hangs \<Rightarrow> then_task (let_time_pass (m_wait_timeout m)) (ret (Err Timeout)))"

text \<open>\<open>fut.await\<close> with no bound: a future that never completes suspends its caller for ever.\<close>

definition unbounded :: "('s, 'a reply) io \<Rightarrow> ('s, 'a result) io" where
  "unbounded fut = bind_task fut (\<lambda>r. case r of Returns x \<Rightarrow> ret x | Hangs \<Rightarrow> (\<lambda>w. (Hung, w)))"

subsection \<open>Rungs of a manager\<close>

definition has_tier :: "('s, 'v) manager \<Rightarrow> tier_id \<Rightarrow> bool" where
  "has_tier m t \<longleftrightarrow> as_usize t < length (m_tiers m)"

definition bound_tier :: "('s, 'v) manager \<Rightarrow> tier_id \<Rightarrow> ('s, 'v) tier_ops option" where
  "bound_tier m t = (if as_usize t < length (m_tiers m) then Some (m_tiers m ! as_usize t) else None)"

definition backend_of :: "('s, 'v) manager \<Rightarrow> 's world \<Rightarrow> tier_id \<Rightarrow> backend_kind" where
  "backend_of m w t =
     (case bound_tier m t of Some ops \<Rightarrow> t_backend ops (w_stores w ! as_usize t) | None \<Rightarrow> BK_Unavailable)"

definition read_backend :: "('s, 'v) manager \<Rightarrow> tier_id \<Rightarrow> ('s, backend_kind) io" where
  "read_backend m t w = (Done (backend_of m w t), w)"

fun nearest_from :: "('s, 'v) manager \<Rightarrow> nat \<Rightarrow> tier_id option" where
  "nearest_from m idx =
     (case (if idx < 256 then from_index (of_nat idx) else None) of
        None \<Rightarrow> None
      | Some candidate \<Rightarrow>
          if has_tier m candidate then Some candidate
          else if idx = 0 then None
          else nearest_from m (idx - 1))"

definition nearest_bound_rung :: "('s, 'v) manager \<Rightarrow> tier_id \<Rightarrow> tier_id option" where
  "nearest_bound_rung m wanted =
     (if \<not> is_cache_rung wanted then None else nearest_from m (as_usize wanted))"

definition tier_capability_of :: "('s, 'v) manager \<Rightarrow> 's world \<Rightarrow> tier_id \<Rightarrow> tier_capability" where
  "tier_capability_of m w t =
     (let cap = (if has_tier m t
                 then (case bound_tier m t of
                         Some ops \<Rightarrow> t_capability ops (w_stores w ! as_usize t)
                       | None \<Rightarrow> capability_unbound)
                 else capability_unbound)
      in if t = m_authority_tier m
         then cap\<lparr>tc_flags := flags_union (tc_flags cap) CF_AUTHORITATIVE\<rparr> else cap)"

definition capabilities :: "('s, 'v) manager \<Rightarrow> 's world \<Rightarrow> (tier_id \<times> tier_capability) list" where
  "capabilities m w = map (\<lambda>t. (t, tier_capability_of m w t)) tier_ALL"

definition continuity_of :: "('s, 'v) manager \<Rightarrow> 's world \<Rightarrow> tier_id \<Rightarrow> continuity_state" where
  "continuity_of m w t =
     (if \<not> has_tier m t then CS_Unavailable
      else
        (let n = consecutive_failures (registry_tier_health (w_registry w) t) in
         if n = 0 then CS_Healthy
         else if n \<ge> FAILURE_THRESHOLD then CS_Unavailable
         else CS_Degraded))"

definition continuity :: "('s, 'v) manager \<Rightarrow> 's world \<Rightarrow> continuity_report" where
  "continuity m w = map (\<lambda>t. (t, continuity_of m w t)) (reg_tiers (w_registry w))"

subsection \<open>Keys, authentication and routing\<close>

definition encode_key :: "bytes \<Rightarrow> cache_context \<Rightarrow> bytes result" where
  "encode_key key ctx =
     try_then (key_encode key (replicate MANAGER_MAX_KEY_SIZE 0)) (\<lambda>(key_len, raw).
       try_then (frame_tenant_key (tenant (ctx_identity ctx)) (take key_len raw)
                  (replicate MANAGER_MAX_KEY_SIZE 0)) (\<lambda>(len, buf).
         Ok (take len buf)))"

definition check_auth :: "cache_context \<Rightarrow> unit result" where
  "check_auth ctx = (if \<not> context_authenticated ctx then Err Unauthenticated else Ok ())"

definition request_for :: "cache_operation \<Rightarrow> bytes \<Rightarrow> cache_context \<Rightarrow> (bytes, 'v) cache_request" where
  "request_for op key ctx =
     (case ctx_ttl ctx of Some ttl \<Rightarrow> with_ttl ttl (request_new op key) | None \<Rightarrow> request_new op key)"

definition resolve ::
  "('s, 'v) manager \<Rightarrow> (bytes, 'v) cache_request \<Rightarrow> cache_context \<Rightarrow> policy_decision"
where
  "resolve m request ctx = m_policy m request cache_state_new (ctx_identity ctx)"

definition resolve_with_snapshot ::
  "'s schedule \<Rightarrow> ('s, 'v) manager \<Rightarrow> (bytes, 'v) cache_request \<Rightarrow> cache_context \<Rightarrow> control_snapshot
     \<Rightarrow> ('s, policy_decision) io"
where
  "resolve_with_snapshot sc m request ctx snapshot w0 =
     (let w = tick sc w0; health = registry_tier_health (w_registry w) (cs_tier snapshot)
      in (Done (m_policy m request (from_snapshot snapshot health) (ctx_identity ctx)), w))"

definition authorize :: "policy_decision \<Rightarrow> unit result" where
  "authorize d = (if pd_authorized d then Ok () else Err Unauthorized)"

text \<open>\<open>record_outcome\<close> and \<open>record_read\<close> differ only in the type of the result they look at.\<close>

definition record_outcome :: "'s schedule \<Rightarrow> tier_id \<Rightarrow> 'a result \<Rightarrow> ('s, unit) io" where
  "record_outcome sc tier r =
     (case r of
        Inr _ \<Rightarrow> registry_call sc (\<lambda>now. registry_recover tier)
      | Inl e \<Rightarrow> if e = TierUnavailable then registry_call sc (\<lambda>now. registry_fail now tier) else ret ())"

subsection \<open>Observed accesses\<close>

definition observed_read ::
  "'s schedule \<Rightarrow> ('s, 'v) manager \<Rightarrow> operation \<Rightarrow> bytes \<Rightarrow> tier_id \<Rightarrow> ('s, 'v option reply) io
     \<Rightarrow> ('s, 'v option result) io"
where
  "observed_read sc m op key tier fut =
     bind_task read_now (\<lambda>started.
     bind_task (bounded m fut) (\<lambda>r.
     bind_task read_now (\<lambda>now.
     bind_task (read_backend m tier) (\<lambda>backend.
       let out = (case r of Inr (Some _) \<Rightarrow> Out_Served | Inr None \<Rightarrow> Out_Miss
                  | Inl e \<Rightarrow> outcome_from_error e);
           rec = record_finish now started out (with_generation 0
                   (with_backend backend (with_source tier (record_begin op key))))
       in then_task (emit (case r of Inl e \<Rightarrow> with_failure e rec | Inr _ \<Rightarrow> rec)) (ret r)))))"

definition observed_write ::
  "'s schedule \<Rightarrow> ('s, 'v) manager \<Rightarrow> operation \<Rightarrow> bytes \<Rightarrow> tier_id \<Rightarrow> ('s, unit reply) io
     \<Rightarrow> ('s, unit result) io"
where
  "observed_write sc m op key tier fut =
     bind_task read_now (\<lambda>started.
     bind_task (bounded m fut) (\<lambda>r.
     bind_task read_now (\<lambda>now.
     bind_task (read_backend m tier) (\<lambda>backend.
       let out = (case r of Inr _ \<Rightarrow> Out_Populated | Inl e \<Rightarrow> outcome_from_error e);
           rec = record_finish now started out
                   (with_backend backend (with_destination tier (record_begin op key)))
       in then_task (emit (case r of Inl e \<Rightarrow> with_failure e rec | Inr _ \<Rightarrow> rec)) (ret r)))))"

definition observed_control_only ::
  "operation \<Rightarrow> bytes \<Rightarrow> tier_id \<Rightarrow> instant \<Rightarrow> outcome \<Rightarrow> ('s, unit) io"
where
  "observed_control_only op key tier started out =
     bind_task read_now (\<lambda>now.
       emit (record_finish now started out (with_source tier (record_begin op key))))"

definition record_fallback :: "('s, 'v) manager \<Rightarrow> bytes \<Rightarrow> tier_id \<Rightarrow> cache_error \<Rightarrow> ('s, unit) io" where
  "record_fallback m key tier cause =
     bind_task read_now (\<lambda>started. bind_task read_now (\<lambda>now. bind_task (read_backend m tier) (\<lambda>backend.
       emit (record_finish now started Out_FellBack (with_failure cause (with_fallback True
         (with_backend backend (with_source tier (record_begin Tel_GetOrFetch key)))))))))"

definition record_telemetry_refresh_failure ::
  "bytes \<Rightarrow> control_snapshot \<Rightarrow> cache_error \<Rightarrow> ('s, unit) io"
where
  "record_telemetry_refresh_failure key snapshot cause =
     bind_task read_now (\<lambda>started. bind_task read_now (\<lambda>now.
       emit (record_finish now started Out_FellBack (with_failure cause
         (with_generation (cs_generation snapshot) (with_source (cs_tier snapshot)
           (record_begin Tel_Refresh key)))))))"

text \<open>The calls of a rung's methods.\<close>

definition rung_get :: "'s schedule \<Rightarrow> ('s, 'v) manager \<Rightarrow> tier_id \<Rightarrow> bytes \<Rightarrow> ('s, 'v option reply) io" where
  "rung_get sc m t key =
     tier_call sc (as_usize t) (\<lambda>now. t_get (m_tiers m ! as_usize t) now key)"

definition rung_set ::
  "'s schedule \<Rightarrow> ('s, 'v) manager \<Rightarrow> tier_id \<Rightarrow> bytes \<Rightarrow> 'v \<Rightarrow> duration option \<Rightarrow> ('s, unit reply) io"
where
  "rung_set sc m t key v ttl =
     tier_call sc (as_usize t) (\<lambda>now. t_set (m_tiers m ! as_usize t) now key v ttl)"

definition rung_remove :: "'s schedule \<Rightarrow> ('s, 'v) manager \<Rightarrow> nat \<Rightarrow> bytes \<Rightarrow> ('s, unit reply) io" where
  "rung_remove sc m i key = tier_call sc i (\<lambda>now. t_remove (m_tiers m ! i) now key)"

definition rung_contains :: "'s schedule \<Rightarrow> ('s, 'v) manager \<Rightarrow> tier_id \<Rightarrow> bytes \<Rightarrow> ('s, bool reply) io" where
  "rung_contains sc m t key =
     tier_call sc (as_usize t) (\<lambda>now. t_contains (m_tiers m ! as_usize t) now key)"

end
