(* ===== verification/Manager_Ops.thy ===== *)
theory Manager_Ops
  imports Manager
begin

section \<open>The operations of the manager (\<open>src/manager.rs\<close>)\<close>

text \<open>
  The public operations and the helpers they are built from, in the order of the source. A loop with
  a budget recurses on the budget left; the walk down the ladder recurses on the rung and ends
  because \<open>previous_rung\<close> leaves the cache rungs after at most six steps.
\<close>

subsection \<open>Recovery\<close>

fun recover_all :: "'s schedule \<Rightarrow> (key_address \<times> commit_intent) list \<Rightarrow> recovery_report \<Rightarrow> ('s, recovery_report) io"
where
  "recover_all sc [] report = ret report"
| "recover_all sc ((address, intent) # rest) report =
     (case ci_kind intent of
        IK_Write \<Rightarrow>
          bind_task (plane_call sc (\<lambda>now. cp_abort_intent_by_address address UncommittedIntent)) (\<lambda>r.
            recover_all sc rest
              (case r of
                 Inr True \<Rightarrow> report\<lparr>rr_recovered := rr_recovered report + 1\<rparr>
               | Inr False \<Rightarrow> report
               | Inl _ \<Rightarrow> report\<lparr>rr_failed := rr_failed report + 1\<rparr>))
      | IK_Move \<Rightarrow>
          (let report = report\<lparr>rr_needs_reconciliation := rr_needs_reconciliation report + 1\<rparr> in
           bind_task (plane_call sc (\<lambda>now. cp_release_population_claim address)) (\<lambda>r.
             recover_all sc rest
               (case r of
                  Inr True \<Rightarrow>
                    report\<lparr>rr_released_for_reconciliation := rr_released_for_reconciliation report + 1\<rparr>
                | Inr False \<Rightarrow> report
                | Inl _ \<Rightarrow> report\<lparr>rr_failed := rr_failed report + 1\<rparr>))))"

definition recover_older_than :: "'s schedule \<Rightarrow> duration \<Rightarrow> ('s, recovery_report) io" where
  "recover_older_than sc age =
     bind_task (plane_call sc (\<lambda>now p. (cp_stale_intents now (of_nat age) p, p))) (\<lambda>intents.
       recover_all sc intents empty_recovery_report)"

definition recover :: "'s schedule \<Rightarrow> ('s, recovery_report) io" where
  "recover sc = recover_older_than sc INTENT_RECOVERY_AGE"

definition manager_plane_stats :: "'s schedule \<Rightarrow> ('s, plane_stats) io" where
  "manager_plane_stats sc = plane_call sc (\<lambda>now p. (cp_plane_stats now p, p))"

definition manager_sweep_expired :: "'s schedule \<Rightarrow> ('s, nat) io" where
  "manager_sweep_expired sc = plane_call sc cp_sweep_expired"

subsection \<open>Waiting for another caller's population\<close>

text \<open>How many times the waiters of a key's entry have been notified; none for an entry not there.\<close>

definition notified_count :: "bytes \<Rightarrow> 's world \<Rightarrow> nat" where
  "notified_count key w =
     (case plane_lookup (w_plane w) (plane_address_of (w_plane w) key) of Some e \<Rightarrow> ce_notify e | None \<Rightarrow> 0)"

definition enable_notified :: "'s schedule \<Rightarrow> bytes \<Rightarrow> ('s, nat) io" where
  "enable_notified sc key w0 = (let w = tick sc w0 in (Done (notified_count key w), w))"

text \<open>\<open>select!\<close> between the timer and the notification.\<close>

definition await_notified :: "'s schedule \<Rightarrow> ('s, 'v) manager \<Rightarrow> bytes \<Rightarrow> nat \<Rightarrow> ('s, unit result) io" where
  "await_notified sc m key registered =
     then_task (suspend sc) (\<lambda>w.
       if notified_count key w > registered \<and> \<not> sc_timer sc (w_step w) then (Done (Ok ()), w)
       else then_task (let_time_pass (m_wait_timeout m)) (ret (Err Timeout)) w)"

definition wait_for_population :: "'s schedule \<Rightarrow> ('s, 'v) manager \<Rightarrow> bytes \<Rightarrow> ('s, unit result) io" where
  "wait_for_population sc m key =
     bind_task (enable_notified sc key) (\<lambda>registered.
     bind_task (plane_peek sc key) (\<lambda>r.
       case r of
         Inr now \<Rightarrow>
           if cs_state now \<noteq> InFlight \<and> cs_state now \<noteq> Prepared then ret (Ok ())
           else await_notified sc m key registered
       | Inl _ \<Rightarrow> await_notified sc m key registered))"

definition wait_and_get ::
  "'s schedule \<Rightarrow> ('s, 'v) manager \<Rightarrow> bytes \<Rightarrow> cache_context \<Rightarrow> ('s, 'v result) io"
where
  "wait_and_get sc m key ctx =
     try_pure (encode_key key ctx) (\<lambda>key_ref.
     try_task (wait_for_population sc m key_ref) (\<lambda>_.
     try_task (plane_peek sc key_ref) (\<lambda>after.
       case cs_last_error after of
         Some err \<Rightarrow> ret (Err err)
       | None \<Rightarrow>
           if \<not> is_readable (cs_state after) then ret (Err Miss)
           else if \<not> has_tier m (cs_tier after) then ret (Err TierUnavailable)
           else
             try_task (observed_read sc m Tel_GetOrFetch key_ref (cs_tier after)
                         (rung_get sc m (cs_tier after) key_ref)) (\<lambda>v.
               case v of Some v \<Rightarrow> ret (Ok v) | None \<Rightarrow> ret (Err Miss)))))"

subsection \<open>Reading\<close>

text \<open>The read of \<open>get\<close> on a committed entry, with the second look at the plane after it.\<close>

definition get_ready ::
  "'s schedule \<Rightarrow> ('s, 'v) manager \<Rightarrow> bytes \<Rightarrow> control_snapshot \<Rightarrow> instant \<Rightarrow> ('s, 'v option result) io"
where
  "get_ready sc m key_ref snapshot started =
     (if \<not> has_tier m (cs_tier snapshot)
      then then_task (observed_control_only Tel_Get key_ref (cs_tier snapshot) started
                        (outcome_from_error TierUnavailable)) (ret (Err TierUnavailable))
      else
        bind_task (observed_read sc m Tel_Get key_ref (cs_tier snapshot)
                     (rung_get sc m (cs_tier snapshot) key_ref)) (\<lambda>result.
        then_task (record_outcome sc (cs_tier snapshot) result)
          (if is_ok result
           then
             bind_task (plane_peek sc key_ref) (\<lambda>r.
               case r of
                 Inr after \<Rightarrow> if cs_state after \<noteq> Ready then ret (Err Miss) else ret result
               | Inl _ \<Rightarrow> ret result)
           else ret result)))"

text \<open>The arm of \<open>get\<close> that joins a population or a commit that is under way.\<close>

definition get_waiting ::
  "'s schedule \<Rightarrow> ('s, 'v) manager \<Rightarrow> bytes \<Rightarrow> ('s, 'v option result) io"
where
  "get_waiting sc m key_ref =
     try_task (wait_for_population sc m key_ref) (\<lambda>_.
     try_task (plane_peek sc key_ref) (\<lambda>after.
       case cs_last_error after of
         Some err \<Rightarrow> ret (Err err)
       | None \<Rightarrow>
           if cs_state after \<noteq> Ready then ret (Err Miss)
           else if \<not> has_tier m (cs_tier after) then ret (Err TierUnavailable)
           else
             bind_task (observed_read sc m Tel_Get key_ref (cs_tier after)
                          (rung_get sc m (cs_tier after) key_ref)) (\<lambda>result.
             then_task (record_outcome sc (cs_tier after) result) (ret result))))"

definition get_op ::
  "'s schedule \<Rightarrow> ('s, 'v) manager \<Rightarrow> bytes \<Rightarrow> cache_context \<Rightarrow> ('s, 'v option result) io"
where
  "get_op sc m key ctx =
     bind_task read_now (\<lambda>started.
     try_pure (encode_key key ctx) (\<lambda>key_ref.
       case check_auth ctx of
         Inl e \<Rightarrow>
           then_task (observed_control_only Tel_Get key_ref decision_tier_placeholder started
                        (outcome_from_error e)) (ret (Err e))
       | Inr _ \<Rightarrow>
           (let decision = resolve m (request_for OpGet key ctx) ctx in
            case authorize decision of
              Inl e \<Rightarrow>
                then_task (observed_control_only Tel_Get key_ref (pd_tier decision) started
                             (outcome_from_error e)) (ret (Err e))
            | Inr _ \<Rightarrow>
                try_task (plane_peek sc key_ref) (\<lambda>snapshot.
                  if cs_state snapshot = Ready \<and> \<not> cs_expired snapshot
                  then get_ready sc m key_ref snapshot started
                  else if cs_state snapshot = Ready
                  then
                    then_task (plane_call sc (\<lambda>now. cp_set_state key_ref Stale))
                      (then_task (observed_control_only Tel_Get key_ref (cs_tier snapshot) started
                                    Out_Miss) (ret (Err Miss)))
                  else if cs_state snapshot \<in> {InFlight, Prepared} \<and> \<not> cs_population_owner snapshot
                  then get_waiting sc m key_ref
                  else
                    then_task (observed_control_only Tel_Get key_ref (cs_tier snapshot) started
                                 Out_Miss) (ret (Err Miss))))))"

subsection \<open>Eviction\<close>

text \<open>The attempts left in the budget of one write are returned with the answer.\<close>

fun try_evict_at_rung :: "'s schedule \<Rightarrow> ('s, 'v) manager \<Rightarrow> tier_id \<Rightarrow> nat \<Rightarrow> ('s, bool \<times> nat) io" where
  "try_evict_at_rung sc m t 0 = ret (False, 0)"
| "try_evict_at_rung sc m t (Suc left) =
     bind_task (tier_sync sc (as_usize t) (t_eviction_candidate (m_tiers m ! as_usize t))) (\<lambda>c.
       case c of
         None \<Rightarrow> ret (False, left)
       | Some address \<Rightarrow>
           bind_task (plane_call sc (\<lambda>now. cp_reserve_eviction address)) (\<lambda>r.
             case r of
               Inr True \<Rightarrow>
                 bind_task (tier_sync sc (as_usize t) (\<lambda>now cursor s.
                     case t_remove_if_address (m_tiers m ! as_usize t) address s of (x, s') \<Rightarrow> (x, cursor, s')))
                   (\<lambda>x. ret (x = Ok True, left))
             | Inr False \<Rightarrow> try_evict_at_rung sc m t left
             | Inl _ \<Rightarrow> ret (False, left)))"

fun try_free_from :: "'s schedule \<Rightarrow> ('s, 'v) manager \<Rightarrow> tier_id list \<Rightarrow> nat \<Rightarrow> ('s, bool) io" where
  "try_free_from sc m [] left = ret False"
| "try_free_from sc m (candidate # rest) left =
     (if \<not> has_tier m candidate then try_free_from sc m rest left
      else
        bind_task (try_evict_at_rung sc m candidate left) (\<lambda>(freed, left').
          if freed then ret True else try_free_from sc m rest left'))"

definition try_free_somewhere_in_the_ladder :: "'s schedule \<Rightarrow> ('s, 'v) manager \<Rightarrow> ('s, bool) io" where
  "try_free_somewhere_in_the_ladder sc m = try_free_from sc m cache_ladder MAX_EVICTION_ATTEMPTS"

subsection \<open>Writing\<close>

text \<open>The two destructors: what dropping an armed guard does to the plane.\<close>

definition intent_guard_drop :: "'s schedule \<Rightarrow> commit_token \<Rightarrow> 's world \<Rightarrow> 's world" where
  "intent_guard_drop sc token w = snd (plane_call sc (\<lambda>now. cp_abort token Cancelled) w)"

definition population_guard_drop :: "'s schedule \<Rightarrow> bytes \<Rightarrow> 's world \<Rightarrow> 's world" where
  "population_guard_drop sc key w = snd (plane_call sc (\<lambda>now. cp_fail_with_error key Cancelled) w)"

definition intent_guard_abort :: "'s schedule \<Rightarrow> commit_token \<Rightarrow> cache_error \<Rightarrow> ('s, unit) io" where
  "intent_guard_abort sc token e =
     then_task (plane_call sc (\<lambda>now. cp_abort token e)) (ret ())"

definition intent_guard_abort_proven_clean :: "'s schedule \<Rightarrow> commit_token \<Rightarrow> cache_error \<Rightarrow> ('s, unit) io" where
  "intent_guard_abort_proven_clean sc token e =
     then_task (plane_call sc (\<lambda>now. cp_abort_proven_clean token e)) (ret ())"

definition release_intent :: "'s schedule \<Rightarrow> commit_token \<Rightarrow> cache_error \<Rightarrow> ('s, unit) io" where
  "release_intent sc token e =
     (if write_provably_stored_nothing e then intent_guard_abort_proven_clean sc token e
      else intent_guard_abort sc token e)"

text \<open>How one attempt on a rung ends, and how the attempts on it end.\<close>

datatype rung_step = Returned "unit result" | NextRung cache_error

datatype set_attempt = Finished rung_step | LostRace

definition rung_level_error :: "cache_error \<Rightarrow> bool" where
  "rung_level_error e \<longleftrightarrow>
     e \<in> {CapacityExhausted, TierUnavailable, Timeout, Corrupted, SerializationFailed, WriteIndeterminate}"

text \<open>
  One attempt after \<open>prepare\<close>: the body of the guard's scope, with whether the guard is still armed
  when the scope is left. \<open>last_try\<close> says that this lost race would be the last one allowed.
\<close>

definition set_attempt_body ::
  "'s schedule \<Rightarrow> ('s, 'v) manager \<Rightarrow> bytes \<Rightarrow> 'v \<Rightarrow> duration option \<Rightarrow> tier_id \<Rightarrow> bool \<Rightarrow> commit_token
     \<Rightarrow> ('s, bool \<times> set_attempt) io"
where
  "set_attempt_body sc m key_ref value ttl rung last_try token =
     bind_task (observed_write sc m Tel_Set key_ref rung (rung_set sc m rung key_ref value ttl)) (\<lambda>set_result.
     then_task (record_outcome sc rung set_result)
     (then_task
       (if set_result = Err WriteIndeterminate
        then then_task (bounded m (rung_remove sc m (as_usize rung) key_ref)) (ret ())
        else ret ())
       (case set_result of
          Inr _ \<Rightarrow>
            bind_task (plane_call sc (\<lambda>now. cp_commit now token ttl)) (\<lambda>c.
              case c of
                Inr _ \<Rightarrow> ret (False, Finished (Returned (Ok ())))
              | Inl e \<Rightarrow>
                  if e = StaleGeneration
                  then (if last_try then ret (True, Finished (Returned (Err WriteContended)))
                        else then_task (suspend sc) (ret (True, LostRace)))
                  else
                    then_task (unbounded (rung_remove sc m (as_usize rung) key_ref))
                      (then_task (intent_guard_abort sc token e) (ret (False, Finished (Returned (Err e))))))
        | Inl e \<Rightarrow>
            then_task (release_intent sc token e)
              (ret (False, Finished (if rung_level_error e then NextRung e else Returned (Err e)))))))"

text \<open>The attempts on one rung; the argument counts the races that may still be lost.\<close>

fun set_rung ::
  "'s schedule \<Rightarrow> ('s, 'v) manager \<Rightarrow> bytes \<Rightarrow> 'v \<Rightarrow> duration option \<Rightarrow> tier_id \<Rightarrow> nat \<Rightarrow> ('s, rung_step) io"
where
  "set_rung sc m key_ref value ttl rung 0 = ret (Returned (Err WriteContended))"
| "set_rung sc m key_ref value ttl rung (Suc left) =
     bind_task (plane_call sc (\<lambda>now. cp_prepare now key_ref None rung IK_Write)) (\<lambda>p.
       case p of
         Inl e \<Rightarrow> ret (Returned (Err e))
       | Inr token \<Rightarrow>
           bind_task (guarded (intent_guard_drop sc token)
               (set_attempt_body sc m key_ref value ttl rung (left = 0) token)) (\<lambda>a.
             case a of
               Finished s \<Rightarrow> ret s
             | LostRace \<Rightarrow> set_rung sc m key_ref value ttl rung left))"

text \<open>The walk down the ladder: the answer if there is one, and the error remembered last.\<close>

definition rungs_left :: "tier_id \<Rightarrow> nat" where
  "rungs_left rung = (if rung = L6 then 0 else Suc (as_usize rung))"

lemma previous_rung_decreases: "is_cache_rung rung \<Longrightarrow> rungs_left (previous_rung rung) < rungs_left rung"
  by (cases rung)
     (simp_all add: rungs_left_def previous_rung_def from_usize_def is_cache_rung_def
        LAST_CACHE_RUNG_INDEX_def)

function set_walk ::
  "'s schedule \<Rightarrow> ('s, 'v) manager \<Rightarrow> bytes \<Rightarrow> 'v \<Rightarrow> duration option \<Rightarrow> tier_id \<Rightarrow> cache_error
     \<Rightarrow> ('s, unit result option \<times> cache_error) io"
where
  "set_walk sc m key_ref value ttl rung last_error =
     (if \<not> is_cache_rung rung then ret (None, last_error)
      else if \<not> has_tier m rung
      then set_walk sc m key_ref value ttl (previous_rung rung) last_error
      else
        bind_task (set_rung sc m key_ref value ttl rung MAX_COMMIT_ATTEMPTS) (\<lambda>s.
          case s of
            Returned r \<Rightarrow> ret (Some r, last_error)
          | NextRung e \<Rightarrow> set_walk sc m key_ref value ttl (previous_rung rung) e))"
  by pat_completeness auto
termination
  by (relation "measure (\<lambda>(sc, m, k, v, ttl, rung, e). rungs_left rung)")
     (simp_all add: previous_rung_decreases)

fun set_passes ::
  "'s schedule \<Rightarrow> ('s, 'v) manager \<Rightarrow> bytes \<Rightarrow> 'v \<Rightarrow> duration option \<Rightarrow> tier_id \<Rightarrow> nat \<Rightarrow> cache_error
     \<Rightarrow> ('s, unit result) io"
where
  "set_passes sc m key_ref value ttl tier 0 last_error = ret (Err last_error)"
| "set_passes sc m key_ref value ttl tier (Suc passes) last_error =
     bind_task (set_walk sc m key_ref value ttl tier last_error) (\<lambda>(r, last_error').
       case r of
         Some x \<Rightarrow> ret x
       | None \<Rightarrow>
           if last_error' = CapacityExhausted
           then
             bind_task (try_free_somewhere_in_the_ladder sc m) (\<lambda>freed.
               if freed then set_passes sc m key_ref value ttl tier passes last_error'
               else ret (Err last_error'))
           else ret (Err last_error'))"

definition set_op ::
  "'s schedule \<Rightarrow> ('s, 'v) manager \<Rightarrow> bytes \<Rightarrow> 'v \<Rightarrow> cache_context \<Rightarrow> ('s, unit result) io"
where
  "set_op sc m key value ctx =
     try_pure (check_auth ctx) (\<lambda>_.
     try_pure (encode_key key ctx) (\<lambda>key_ref.
     try_task (plane_peek sc key_ref) (\<lambda>snapshot.
     bind_task (resolve_with_snapshot sc m (request_for OpSet key ctx) ctx snapshot) (\<lambda>decision.
     try_pure (authorize decision) (\<lambda>_.
       if pd_tier decision = m_authority_tier m then ret (Err PolicyDenied)
       else set_passes sc m key_ref value (ctx_ttl ctx) (pd_tier decision) (MAX_EVICTION_PASSES + 1)
              TierUnavailable)))))"

declare set_walk.simps [simp del]

subsection \<open>Invalidating, removing, probing\<close>

definition invalidate_op ::
  "'s schedule \<Rightarrow> ('s, 'v) manager \<Rightarrow> bytes \<Rightarrow> cache_context \<Rightarrow> ('s, unit result) io"
where
  "invalidate_op sc m key ctx =
     try_pure (check_auth ctx) (\<lambda>_.
     try_pure (authorize (resolve m (request_for OpInvalidate key ctx) ctx)) (\<lambda>_.
     try_pure (encode_key key ctx) (\<lambda>key_ref.
     try_task (plane_call sc (\<lambda>now. cp_invalidate key_ref)) (\<lambda>_. ret (Ok ())))))"

fun remove_from_rungs :: "'s schedule \<Rightarrow> ('s, 'v) manager \<Rightarrow> bytes \<Rightarrow> nat list \<Rightarrow> ('s, unit) io" where
  "remove_from_rungs sc m key_ref [] = ret ()"
| "remove_from_rungs sc m key_ref (idx # rest) =
     (if idx = as_usize L6 then remove_from_rungs sc m key_ref rest
      else then_task (unbounded (rung_remove sc m idx key_ref)) (remove_from_rungs sc m key_ref rest))"

definition remove_op ::
  "'s schedule \<Rightarrow> ('s, 'v) manager \<Rightarrow> bytes \<Rightarrow> cache_context \<Rightarrow> ('s, unit result) io"
where
  "remove_op sc m key ctx =
     try_pure (check_auth ctx) (\<lambda>_.
     try_pure (authorize (resolve m (request_for OpRemove key ctx) ctx)) (\<lambda>_.
     try_pure (encode_key key ctx) (\<lambda>key_ref.
     then_task (remove_from_rungs sc m key_ref [0..<length (m_tiers m)])
       (try_task (plane_call sc (\<lambda>now. cp_release key_ref)) (\<lambda>_. ret (Ok ()))))))"

definition exists_op ::
  "'s schedule \<Rightarrow> ('s, 'v) manager \<Rightarrow> bytes \<Rightarrow> cache_context \<Rightarrow> ('s, bool result) io"
where
  "exists_op sc m key ctx =
     try_pure (check_auth ctx) (\<lambda>_.
     try_pure (authorize (resolve m (request_for OpExists key ctx) ctx)) (\<lambda>_.
     try_pure (encode_key key ctx) (\<lambda>key_ref.
     try_task (plane_peek sc key_ref) (\<lambda>snapshot.
       if cs_state snapshot \<noteq> Ready then ret (Ok False)
       else if \<not> has_tier m (cs_tier snapshot) then ret (Ok False)
       else bounded m (rung_contains sc m (cs_tier snapshot) key_ref)))))"

subsection \<open>Populating\<close>

text \<open>The caller's fetch: what the call made at a given step of the schedule answers.\<close>

type_synonym 'v fetch = "nat \<Rightarrow> 'v reply"

definition fetch_call :: "'s schedule \<Rightarrow> 'v fetch \<Rightarrow> ('s, 'v reply) io" where
  "fetch_call sc fetch =
     then_task (suspend sc)
       (bind_task (\<lambda>w. (Done (fetch (w_step w)), w)) (\<lambda>r. then_task (suspend sc) (ret r)))"

definition is_retryable :: "cache_error \<Rightarrow> bool" where
  "is_retryable e \<longleftrightarrow> e \<in> {TierUnavailable, Timeout, PopulationFailed}"

definition populate_once ::
  "'s schedule \<Rightarrow> ('s, 'v) manager \<Rightarrow> bytes \<Rightarrow> bytes \<Rightarrow> generation \<Rightarrow> cache_context \<Rightarrow> 'v fetch
     \<Rightarrow> policy_decision \<Rightarrow> ('s, 'v result) io"
where
  "populate_once sc m key key_ref expected ctx fetch decision =
     try_task (bounded m (fetch_call sc fetch)) (\<lambda>value.
       case nearest_bound_rung m (pd_tier decision) of
         None \<Rightarrow> ret (Err TierUnavailable)
       | Some tier_id \<Rightarrow>
           if \<not> has_tier m tier_id then ret (Err TierUnavailable)
           else
             try_pure (encode_key key ctx) (\<lambda>key_ref2.
             bind_task (observed_write sc m Tel_GetOrFetch key_ref2 tier_id
                          (rung_set sc m tier_id key_ref2 value (ctx_ttl ctx))) (\<lambda>set_result.
             then_task (record_outcome sc tier_id set_result)
               (try_pure set_result (\<lambda>_.
                  try_task (plane_call sc (\<lambda>now. cp_publish now key_ref expected tier_id (ctx_ttl ctx)))
                    (\<lambda>_. ret (Ok value)))))))"

fun try_fallback_from ::
  "'s schedule \<Rightarrow> ('s, 'v) manager \<Rightarrow> bytes \<Rightarrow> cache_error \<Rightarrow> tier_id list \<Rightarrow> ('s, 'v result) io"
where
  "try_fallback_from sc m key_ref cause [] = ret (Err cause)"
| "try_fallback_from sc m key_ref cause (t # rest) =
     (if \<not> has_tier m t then try_fallback_from sc m key_ref cause rest
      else
        bind_task (\<lambda>w0. let w = tick sc w0 in (Done (registry_circuit_open (w_registry w) t), w)) (\<lambda>tripped.
          if tripped then try_fallback_from sc m key_ref cause rest
          else
            bind_task (bounded m (rung_get sc m t key_ref)) (\<lambda>r.
              case r of
                Inr (Some v) \<Rightarrow> then_task (record_fallback m key_ref t cause) (ret (Ok v))
              | _ \<Rightarrow> try_fallback_from sc m key_ref cause rest)))"

definition try_fallback_tier ::
  "'s schedule \<Rightarrow> ('s, 'v) manager \<Rightarrow> bytes \<Rightarrow> cache_context \<Rightarrow> cache_error \<Rightarrow> ('s, 'v result) io"
where
  "try_fallback_tier sc m key ctx cause =
     try_pure (encode_key key ctx) (\<lambda>key_ref. try_fallback_from sc m key_ref cause cache_ladder)"

text \<open>
  The retry loop, with the number of retries left: the body of the population guard's scope. On a
  terminal failure the failure is recorded and the claim released before the guard is disarmed.
\<close>

definition population_failed ::
  "'s schedule \<Rightarrow> ('s, 'v) manager \<Rightarrow> bytes \<Rightarrow> policy_decision \<Rightarrow> cache_error \<Rightarrow> ('s, bool \<times> 'v result) io"
where
  "population_failed sc m key_ref decision e =
     bind_task read_now (\<lambda>started. bind_task read_now (\<lambda>now. bind_task (read_backend m (pd_tier decision)) (\<lambda>backend.
       then_task
         (emit (record_finish now started (outcome_from_error e) (with_failure e
            (with_backend backend (with_destination (pd_tier decision)
              (record_begin Tel_GetOrFetch key_ref))))))
         (then_task (plane_call sc (\<lambda>now. cp_fail_with_error key_ref e)) (ret (False, Err e))))))"

fun populate_loop ::
  "'s schedule \<Rightarrow> ('s, 'v) manager \<Rightarrow> bytes \<Rightarrow> bytes \<Rightarrow> generation \<Rightarrow> cache_context \<Rightarrow> policy_decision
     \<Rightarrow> 'v fetch \<Rightarrow> nat \<Rightarrow> duration \<Rightarrow> ('s, bool \<times> 'v result) io"
where
  "populate_loop sc m key key_ref expected ctx decision fetch 0 backoff =
     bind_task (populate_once sc m key key_ref expected ctx fetch decision) (\<lambda>out.
       case out of
         Inr value \<Rightarrow> ret (False, Ok value)
       | Inl e \<Rightarrow> population_failed sc m key_ref decision e)"
| "populate_loop sc m key key_ref expected ctx decision fetch (Suc retries) backoff =
     bind_task (populate_once sc m key key_ref expected ctx fetch decision) (\<lambda>out.
       case out of
         Inr value \<Rightarrow> ret (False, Ok value)
       | Inl e \<Rightarrow>
           if is_retryable e
           then then_task (sleep sc backoff)
                  (populate_loop sc m key key_ref expected ctx decision fetch retries (2 * backoff))
           else population_failed sc m key_ref decision e)"

definition become_population_owner ::
  "'s schedule \<Rightarrow> ('s, 'v) manager \<Rightarrow> bytes \<Rightarrow> bytes \<Rightarrow> generation \<Rightarrow> cache_context \<Rightarrow> policy_decision
     \<Rightarrow> 'v fetch \<Rightarrow> ('s, 'v result) io"
where
  "become_population_owner sc m key key_ref expected ctx decision fetch =
     bind_task (guarded (population_guard_drop sc key_ref)
         (populate_loop sc m key key_ref expected ctx decision fetch (MAX_POPULATE_ATTEMPTS - 1)
            RETRY_BASE_BACKOFF)) (\<lambda>out.
       case out of
         Inr value \<Rightarrow> ret (Ok value)
       | Inl e \<Rightarrow>
           if e = StaleGeneration then ret (Err StaleGeneration)
           else if pd_fail_mode decision = FailOpen then try_fallback_tier sc m key ctx e
           else ret (Err e))"

text \<open>The fast path of \<open>get_or_fetch\<close>: an answer, or nothing when the rung has no value.\<close>

definition fetch_fast_path ::
  "'s schedule \<Rightarrow> ('s, 'v) manager \<Rightarrow> bytes \<Rightarrow> control_snapshot \<Rightarrow> ('s, 'v result option) io"
where
  "fetch_fast_path sc m key_ref snapshot =
     (if cs_state snapshot = Ready \<and> \<not> cs_expired snapshot
      then
        (if \<not> has_tier m (cs_tier snapshot) then ret (Some (Err TierUnavailable))
         else
           bind_task (observed_read sc m Tel_GetOrFetch key_ref (cs_tier snapshot)
                        (rung_get sc m (cs_tier snapshot) key_ref)) (\<lambda>r.
             case r of
               Inr (Some v) \<Rightarrow> ret (Some (Ok v))
             | Inr None \<Rightarrow> ret None
             | Inl e \<Rightarrow> ret (Some (Err e))))
      else ret None)"

text \<open>A committed entry whose TTL has elapsed is marked stale and claimed again.\<close>

definition reclaim_expired ::
  "'s schedule \<Rightarrow> bytes \<Rightarrow> tier_id \<Rightarrow> control_snapshot \<Rightarrow> ('s, control_snapshot result) io"
where
  "reclaim_expired sc key_ref tier first =
     (if cs_state first = Ready \<and> cs_expired first
      then then_task (plane_call sc (\<lambda>now. cp_set_state key_ref Stale))
             (plane_call sc (\<lambda>now. cp_acquire now key_ref tier))
      else ret (Ok first))"

text \<open>One iteration after the claim: \<open>again\<close> is the next iteration of the loop.\<close>

definition dispatch_claim ::
  "'s schedule \<Rightarrow> ('s, 'v) manager \<Rightarrow> bytes \<Rightarrow> bytes \<Rightarrow> cache_context \<Rightarrow> policy_decision \<Rightarrow> 'v fetch
     \<Rightarrow> ('s, 'v result) io \<Rightarrow> control_snapshot \<Rightarrow> ('s, 'v result) io"
where
  "dispatch_claim sc m key key_ref ctx decision fetch again snapshot =
     bind_task (fetch_fast_path sc m key_ref snapshot) (\<lambda>fast.
       case fast of
         Some r \<Rightarrow> ret r
       | None \<Rightarrow>
           if cs_state snapshot = InFlight \<and> \<not> cs_population_owner snapshot
           then wait_and_get sc m key ctx
           else if cs_state snapshot = Prepared \<and> cs_population_owner snapshot
           then try_task (wait_for_population sc m key_ref) (\<lambda>_. again)
           else if cs_state snapshot = Prepared
           then wait_and_get sc m key ctx
           else become_population_owner sc m key key_ref (cs_generation snapshot) ctx decision fetch)"

fun get_or_fetch_loop ::
  "'s schedule \<Rightarrow> ('s, 'v) manager \<Rightarrow> bytes \<Rightarrow> bytes \<Rightarrow> cache_context \<Rightarrow> policy_decision \<Rightarrow> 'v fetch \<Rightarrow> nat
     \<Rightarrow> ('s, 'v result) io"
where
  "get_or_fetch_loop sc m key key_ref ctx decision fetch 0 = ret (Err Timeout)"
| "get_or_fetch_loop sc m key key_ref ctx decision fetch (Suc attempts) =
     try_task (plane_call sc (\<lambda>now. cp_acquire now key_ref (pd_tier decision))) (\<lambda>first.
     try_task (reclaim_expired sc key_ref (pd_tier decision) first)
       (dispatch_claim sc m key key_ref ctx decision fetch
          (get_or_fetch_loop sc m key key_ref ctx decision fetch attempts)))"

definition get_or_fetch_op ::
  "'s schedule \<Rightarrow> ('s, 'v) manager \<Rightarrow> bytes \<Rightarrow> cache_context \<Rightarrow> 'v fetch \<Rightarrow> ('s, 'v result) io"
where
  "get_or_fetch_op sc m key ctx fetch =
     try_pure (check_auth ctx) (\<lambda>_.
     try_pure (encode_key key ctx) (\<lambda>key_ref.
       let decision = resolve m (request_for OpGet key ctx) ctx in
       try_pure (authorize decision) (\<lambda>_.
         get_or_fetch_loop sc m key key_ref ctx decision fetch MAX_POPULATION_ATTEMPTS)))"

subsection \<open>Refreshing\<close>

definition refresh_current ::
  "'s schedule \<Rightarrow> ('s, 'v) manager \<Rightarrow> bytes \<Rightarrow> control_snapshot \<Rightarrow> ('s, 'v option) io"
where
  "refresh_current sc m key_ref before =
     (if is_readable (cs_state before) \<and> has_tier m (cs_tier before)
      then bind_task (bounded m (rung_get sc m (cs_tier before) key_ref)) (\<lambda>r.
             ret (case r of Inr v \<Rightarrow> v | Inl _ \<Rightarrow> None))
      else ret None)"

definition refresh_detailed ::
  "'s schedule \<Rightarrow> ('s, 'v) manager \<Rightarrow> bytes \<Rightarrow> cache_context \<Rightarrow> 'v fetch \<Rightarrow> ('s, 'v lookup result) io"
where
  "refresh_detailed sc m key ctx fetch =
     try_pure (check_auth ctx) (\<lambda>_.
     try_pure (encode_key key ctx) (\<lambda>key_ref.
       let resolved = resolve m (request_for OpRefresh key ctx) ctx;
           decision = resolved\<lparr>pd_fail_mode := FailClosed\<rparr> in
       try_pure (authorize resolved) (\<lambda>_.
       try_task (plane_peek sc key_ref) (\<lambda>before.
       bind_task (refresh_current sc m key_ref before) (\<lambda>current.
       then_task
         (if cs_state before = Ready \<and> \<not> cs_expired before
          then then_task (plane_call sc (\<lambda>now. cp_set_state key_ref Stale)) (ret ())
          else ret ())
         (try_task (plane_call sc (\<lambda>now. cp_acquire now key_ref (pd_tier decision))) (\<lambda>snapshot.
            if \<not> cs_population_owner snapshot
            then ret (Ok \<lparr>lu_value = current, lu_freshness = StaleValue\<rparr>)
            else
              bind_task (become_population_owner sc m key key_ref (cs_generation snapshot) ctx decision
                           fetch) (\<lambda>out.
                case out of
                  Inr new_value \<Rightarrow> ret (Ok \<lparr>lu_value = Some new_value, lu_freshness = Fresh\<rparr>)
                | Inl e \<Rightarrow>
                    if current \<noteq> None
                    then then_task (record_telemetry_refresh_failure key_ref snapshot e)
                           (ret (Ok \<lparr>lu_value = current, lu_freshness = StaleValue\<rparr>))
                    else ret (Err e)))))))))"

definition refresh_op ::
  "'s schedule \<Rightarrow> ('s, 'v) manager \<Rightarrow> bytes \<Rightarrow> cache_context \<Rightarrow> 'v fetch \<Rightarrow> ('s, 'v option result) io"
where
  "refresh_op sc m key ctx fetch =
     try_task (refresh_detailed sc m key ctx fetch) (\<lambda>l. ret (Ok (lu_value l)))"

subsection \<open>Moving an entry between rungs\<close>

text \<open>The body of the intent guard's scope in \<open>move_entry\<close>.\<close>

definition move_body ::
  "'s schedule \<Rightarrow> ('s, 'v) manager \<Rightarrow> bytes \<Rightarrow> bytes \<Rightarrow> tier_id \<Rightarrow> tier_id \<Rightarrow> cache_context \<Rightarrow> commit_token
     \<Rightarrow> ('s, bool \<times> unit result) io"
where
  "move_body sc m key key_ref from_id to_id ctx token =
     (if \<not> has_tier m from_id \<or> \<not> has_tier m to_id then ret (True, Err TierUnavailable)
      else
        bind_task (bounded m (rung_get sc m from_id key_ref)) (\<lambda>r.
          case r of
            Inl e \<Rightarrow> then_task (intent_guard_abort sc token e) (ret (False, Err e))
          | Inr None \<Rightarrow> then_task (intent_guard_abort sc token Miss) (ret (False, Err Miss))
          | Inr (Some value) \<Rightarrow>
              (case encode_key key ctx of
                 Inl e \<Rightarrow> then_task (intent_guard_abort sc token e) (ret (False, Err e))
               | Inr key_ref2 \<Rightarrow>
                   bind_task (observed_write sc m Tel_Promote key_ref2 to_id
                                (rung_set sc m to_id key_ref2 value (ctx_ttl ctx))) (\<lambda>set_result.
                   then_task (record_outcome sc to_id set_result)
                     (case set_result of
                        Inl e \<Rightarrow> then_task (intent_guard_abort sc token e) (ret (False, Err e))
                      | Inr _ \<Rightarrow>
                          bind_task (unbounded (rung_remove sc m (as_usize from_id) key_ref)) (\<lambda>remove_result.
                          then_task (record_outcome sc from_id remove_result)
                            (bind_task (plane_call sc (\<lambda>now. cp_commit now token (ctx_ttl ctx))) (\<lambda>c.
                               case c of
                                 Inr _ \<Rightarrow> ret (False, Ok ())
                               | Inl e \<Rightarrow>
                                   then_task (unbounded (rung_remove sc m (as_usize to_id) key_ref2))
                                     (then_task (intent_guard_abort sc token e) (ret (False, Err e)))))))))))"

definition move_entry ::
  "'s schedule \<Rightarrow> ('s, 'v) manager \<Rightarrow> bytes \<Rightarrow> bytes \<Rightarrow> control_snapshot \<Rightarrow> tier_id \<Rightarrow> cache_context
     \<Rightarrow> ('s, unit result) io"
where
  "move_entry sc m key key_ref snapshot new_tier ctx =
     try_task (plane_call sc (\<lambda>now. cp_prepare now key_ref None new_tier IK_Move)) (\<lambda>token.
       guarded (intent_guard_drop sc token)
         (move_body sc m key key_ref (cs_tier snapshot) new_tier ctx token))"

definition promote_op ::
  "'s schedule \<Rightarrow> ('s, 'v) manager \<Rightarrow> bytes \<Rightarrow> cache_context \<Rightarrow> ('s, unit result) io"
where
  "promote_op sc m key ctx =
     try_pure (check_auth ctx) (\<lambda>_.
     try_pure (authorize (resolve m (request_for OpPromote key ctx) ctx)) (\<lambda>_.
     try_pure (encode_key key ctx) (\<lambda>key_ref.
     try_task (plane_peek sc key_ref) (\<lambda>snapshot.
       if cs_state snapshot \<noteq> Ready then ret (Err Miss)
       else if \<not> is_cache_rung (cs_tier snapshot) \<or> as_usize (cs_tier snapshot) = 0 then ret (Ok ())
       else case from_usize (as_usize (cs_tier snapshot) - 1) of
         None \<Rightarrow> ret (Err ConfigurationError)
       | Some new_tier \<Rightarrow> move_entry sc m key key_ref snapshot new_tier ctx))))"

definition demote_op ::
  "'s schedule \<Rightarrow> ('s, 'v) manager \<Rightarrow> bytes \<Rightarrow> cache_context \<Rightarrow> ('s, unit result) io"
where
  "demote_op sc m key ctx =
     try_pure (check_auth ctx) (\<lambda>_.
     try_pure (authorize (resolve m (request_for OpDemote key ctx) ctx)) (\<lambda>_.
     try_pure (encode_key key ctx) (\<lambda>key_ref.
     try_task (plane_peek sc key_ref) (\<lambda>snapshot.
       if cs_state snapshot \<noteq> Ready then ret (Err Miss)
       else if \<not> is_cache_rung (cs_tier snapshot) \<or> cs_tier snapshot \<ge> LAST_CACHE_TIER then ret (Ok ())
       else case from_usize (as_usize (cs_tier snapshot) + 1) of
         None \<Rightarrow> ret (Err ConfigurationError)
       | Some new_tier \<Rightarrow> move_entry sc m key key_ref snapshot new_tier ctx))))"

end
