(* ===== verification/Manager_Logic.thy ===== *)
theory Manager_Logic
  imports Manager_Ops Control_Properties
begin

section \<open>Reasoning about the manager's tasks\<close>

text \<open>
  A predicate of the world that the rest of the process keeps is \<open>steady\<close> for a schedule. The lemmas
  say which primitive of the manager keeps a steady predicate under which condition; the composite
  steps (bounded calls, observed accesses, breaker updates) follow. Two kinds of predicates are used
  later: those of the entry of one address in the plane, and those of one store.
\<close>

definition blind :: "('s world \<Rightarrow> bool) \<Rightarrow> bool" where
  "blind I \<longleftrightarrow>
     (\<forall>w r c l t n. I (w\<lparr>w_registry := r, w_cursor := c, w_log := l, w_now := t, w_step := n\<rparr>) \<longleftrightarrow> I w)"

definition steady :: "'s schedule \<Rightarrow> ('s world \<Rightarrow> bool) \<Rightarrow> bool" where
  "steady sc I \<longleftrightarrow> blind I \<and> (\<forall>n w. I w \<longrightarrow> I (sc_between sc n w))"

lemma blindD:
  assumes "blind I"
  shows "I (w\<lparr>w_step := k\<rparr>) \<longleftrightarrow> I w" "I (w\<lparr>w_log := l\<rparr>) \<longleftrightarrow> I w" "I (w\<lparr>w_now := t\<rparr>) \<longleftrightarrow> I w"
    "I (w\<lparr>w_registry := r\<rparr>) \<longleftrightarrow> I w" "I (w\<lparr>w_cursor := c\<rparr>) \<longleftrightarrow> I w"
proof -
  have s: "I (w\<lparr>w_registry := r, w_cursor := c, w_log := l, w_now := t, w_step := n\<rparr>) \<longleftrightarrow> I w" for w r c l t n
    using assms by (simp add: blind_def)
  show "I (w\<lparr>w_step := k\<rparr>) \<longleftrightarrow> I w"
    using s [where w = w and r = "w_registry w" and c = "w_cursor w" and l = "w_log w" and t = "w_now w"
        and n = k] by simp
  show "I (w\<lparr>w_log := l\<rparr>) \<longleftrightarrow> I w"
    using s [where w = w and r = "w_registry w" and c = "w_cursor w" and l = l and t = "w_now w"
        and n = "w_step w"] by simp
  show "I (w\<lparr>w_now := t\<rparr>) \<longleftrightarrow> I w"
    using s [where w = w and r = "w_registry w" and c = "w_cursor w" and l = "w_log w" and t = t
        and n = "w_step w"] by simp
  show "I (w\<lparr>w_registry := r\<rparr>) \<longleftrightarrow> I w"
    using s [where w = w and r = r and c = "w_cursor w" and l = "w_log w" and t = "w_now w"
        and n = "w_step w"] by simp
  show "I (w\<lparr>w_cursor := c\<rparr>) \<longleftrightarrow> I w"
    using s [where w = w and r = "w_registry w" and c = c and l = "w_log w" and t = "w_now w"
        and n = "w_step w"] by simp
qed

lemma steady_blind: "steady sc I \<Longrightarrow> blind I"
  by (simp add: steady_def)

lemma steady_tick: "steady sc I \<Longrightarrow> I w \<Longrightarrow> I (tick sc w)"
  by (simp add: tick_def steady_def blindD)

lemma upholds_suspend [upheld]: "steady sc I \<Longrightarrow> upholds I (suspend sc)"
  by (simp add: upholds_def suspend_def steady_tick)

lemma upholds_read_now [upheld]: "upholds I read_now"
  by (simp add: upholds_def read_now_def)

lemma upholds_read_backend [upheld]: "upholds I (read_backend m t)"
  by (simp add: upholds_def read_backend_def)

lemma upholds_emit [upheld]: "blind I \<Longrightarrow> upholds I (emit r)"
  by (simp add: upholds_def emit_def blindD)

lemma upholds_let_time_pass [upheld]: "blind I \<Longrightarrow> upholds I (let_time_pass d)"
  by (simp add: upholds_def let_time_pass_def blindD)

lemma upholds_registry_call [upheld]: "steady sc I \<Longrightarrow> upholds I (registry_call sc f)"
  by (simp add: upholds_def registry_call_def blindD [OF steady_blind] steady_tick Let_def)

lemma upholds_record_outcome [upheld]: "steady sc I \<Longrightarrow> upholds I (record_outcome sc t r)"
  unfolding record_outcome_def by (intro upheld | assumption)+

lemma upholds_sleep [upheld]: "steady sc I \<Longrightarrow> upholds I (sleep sc d)"
  unfolding sleep_def by (intro upheld | assumption | erule steady_blind)+

lemma upholds_plane_call:
  assumes "steady sc I" "\<And>w. I w \<Longrightarrow> I (w\<lparr>w_plane := snd (f (w_now w) (w_plane w))\<rparr>)"
  shows "upholds I (plane_call sc f)"
  unfolding upholds_def
proof (intro allI impI)
  fix w assume "I w"
  then have "I (tick sc w)" by (rule steady_tick [OF assms(1)])
  from assms(2) [OF this] show "I (snd (plane_call sc f w))"
    by (simp add: plane_call_def Let_def case_prod_unfold)
qed

lemma upholds_peek [upheld]: "steady sc I \<Longrightarrow> upholds I (plane_peek sc key)"
  unfolding plane_peek_def by (rule upholds_plane_call) simp_all

lemma upholds_tier_call:
  assumes st: "steady sc I"
    and f: "\<And>w. I w \<Longrightarrow> I (w\<lparr>w_stores := (w_stores w)[i := snd (f (w_now w) (w_stores w ! i))]\<rparr>)"
  shows "upholds I (tier_call sc i f)"
proof -
  have "upholds I (\<lambda>w. case f (w_now w) (w_stores w ! i) of
      (r, s) \<Rightarrow> (Done r, w\<lparr>w_stores := (w_stores w)[i := s]\<rparr>))"
    unfolding upholds_def
  proof (intro allI impI)
    fix w assume "I w"
    from f [OF this] show "I (snd (case f (w_now w) (w_stores w ! i) of
        (r, s) \<Rightarrow> (Done r, w\<lparr>w_stores := (w_stores w)[i := s]\<rparr>)))"
      by (simp add: case_prod_unfold)
  qed
  with st show ?thesis unfolding tier_call_def by (intro upheld) simp_all
qed

lemma upholds_tier_sync:
  assumes st: "steady sc I"
    and f: "\<And>w. I w \<Longrightarrow>
      I (w\<lparr>w_stores := (w_stores w)[i := snd (snd (f (w_now w) (w_cursor w) (w_stores w ! i)))]\<rparr>)"
  shows "upholds I (tier_sync sc i f)"
  unfolding upholds_def
proof (intro allI impI)
  fix w assume "I w"
  then have "I (tick sc w)" by (rule steady_tick [OF st])
  from f [OF this] show "I (snd (tier_sync sc i f w))"
    by (simp add: tier_sync_def Let_def case_prod_unfold blindD [OF steady_blind [OF st]])
qed

lemma upholds_bounded [upheld]:
  assumes "blind I" "upholds I fut"
  shows "upholds I (bounded m fut)"
  unfolding bounded_def
proof (rule upholds_bind [OF assms(2)])
  show "upholds I (case r of Returns x \<Rightarrow> ret x
      | Hangs \<Rightarrow> then_task (let_time_pass (m_wait_timeout m)) (ret (Err Timeout)))" for r
    using assms(1) by (cases r) (simp_all add: upheld)
qed

lemma upholds_unbounded [upheld]:
  assumes "upholds I fut"
  shows "upholds I (unbounded fut)"
  unfolding unbounded_def
proof (rule upholds_bind [OF assms])
  show "upholds I (case r of Returns x \<Rightarrow> ret x | Hangs \<Rightarrow> (\<lambda>w. (Hung, w)))" for r
    by (cases r) (simp_all add: upholds_def ret_def)
qed

lemma upholds_observed [upheld]:
  assumes "blind I"
  shows "upholds I fut \<Longrightarrow> upholds I (observed_read sc m op key t fut)"
    and "upholds I fut' \<Longrightarrow> upholds I (observed_write sc m op key t fut')"
    and "upholds I (observed_control_only op key t started out)"
    and "upholds I (record_fallback m key t cause)"
    and "upholds I (record_telemetry_refresh_failure key snapshot cause)"
  unfolding observed_read_def observed_write_def observed_control_only_def record_fallback_def
    record_telemetry_refresh_failure_def Let_def
  by (intro upheld assms | assumption)+

lemma upholds_resolve [upheld]: "steady sc I \<Longrightarrow> upholds I (resolve_with_snapshot sc m request ctx snapshot)"
  by (simp add: upholds_def resolve_with_snapshot_def steady_tick Let_def)

lemma upholds_circuit_read [upheld]:
  "steady sc I \<Longrightarrow> upholds I (\<lambda>w0. let w = tick sc w0 in (Done (registry_circuit_open (w_registry w) t), w))"
  by (simp add: upholds_def steady_tick Let_def)

lemma upholds_fetch_call [upheld]: "steady sc I \<Longrightarrow> upholds I (fetch_call sc fetch)"
  unfolding fetch_call_def
  by (intro upholds_then upholds_bind upholds_suspend upholds_ret) (simp_all add: upholds_def)

lemma upholds_wait [upheld]:
  fixes sc :: "'s schedule"
  assumes st: "steady sc I"
  shows "upholds I (wait_for_population sc m key)"
proof -
  have "upholds I (enable_notified sc key)"
    using steady_tick [OF st] by (simp add: upholds_def enable_notified_def Let_def)
  moreover have "upholds I (await_notified sc m key n)" for n
    unfolding await_notified_def
  proof (rule upholds_then [OF upholds_suspend [OF st]])
    show "upholds I (\<lambda>w :: 's world. if n < notified_count key w \<and> \<not> sc_timer sc (w_step w)
        then (Done (Ok ()), w)
        else then_task (let_time_pass (m_wait_timeout m)) (ret (Err Timeout)) w)"
      by (simp add: upholds_def then_task_def bind_task_def let_time_pass_def ret_def
          blindD [OF steady_blind [OF st]])
  qed
  ultimately show ?thesis
    unfolding wait_for_population_def by (intro upheld st) simp_all
qed

subsection \<open>Predicates of one entry\<close>

text \<open>
  The rest of the process leaves the entry at \<open>a\<close> alone and keeps the plane sound. Other keys may be
  read, written, evicted, invalidated and created by any number of tasks meanwhile.
\<close>

definition leaves_entry :: "placement \<Rightarrow> key_address \<Rightarrow> 's schedule \<Rightarrow> bool" where
  "leaves_entry pl a sc \<longleftrightarrow>
     (\<forall>n w. plane_ok pl (w_plane w) \<longrightarrow>
        plane_ok pl (w_plane (sc_between sc n w)) \<and>
        plane_lookup (w_plane (sc_between sc n w)) a = plane_lookup (w_plane w) a)"

definition at_entry :: "placement \<Rightarrow> key_address \<Rightarrow> (control_entry \<Rightarrow> bool) \<Rightarrow> 's world \<Rightarrow> bool" where
  "at_entry pl a P w \<longleftrightarrow>
     plane_ok pl (w_plane w) \<and> (\<forall>e. plane_lookup (w_plane w) a = Some e \<longrightarrow> P e)"

lemma steady_at_entry: "leaves_entry pl a sc \<Longrightarrow> steady sc (at_entry pl a P)"
  by (simp add: steady_def blind_def at_entry_def leaves_entry_def)

lemma at_entry_weaken: "at_entry pl a P w \<Longrightarrow> (\<And>e. P e \<Longrightarrow> Q e) \<Longrightarrow> at_entry pl a Q w"
  by (auto simp: at_entry_def)

lemma at_entry_stores [simp]: "at_entry pl a P (w\<lparr>w_stores := x\<rparr>) \<longleftrightarrow> at_entry pl a P w"
  by (simp add: at_entry_def)

text \<open>A method of the plane keeps a predicate of the entry at \<open>a\<close> when its transition does.\<close>

lemma at_entry_with_entry:
  assumes "at_entry pl a P w" "keeps f" "\<And>e. P e \<Longrightarrow> b = a \<Longrightarrow> Q (snd (f e))" "\<And>e. P e \<Longrightarrow> b \<noteq> a \<Longrightarrow> Q e"
  shows "at_entry pl a Q (w\<lparr>w_plane := snd (with_entry b ab f (w_plane w))\<rparr>)"
proof -
  have ok: "plane_ok pl (w_plane w)" using assms(1) by (simp add: at_entry_def)
  show ?thesis
    using assms plane_ok_with_entry [OF ok assms(2), of b ab]
    by (cases "b = a") (auto simp: at_entry_def split: option.splits if_splits)
qed

lemma at_entry_with_or_create:
  assumes "at_entry pl a P w" "keeps f" "\<And>e. P e \<Longrightarrow> b = a \<Longrightarrow> Q (snd (f e))" "\<And>e. P e \<Longrightarrow> Q e"
    and "b = a \<Longrightarrow> Q (snd (f (entry_new a)))"
  shows "at_entry pl a Q (w\<lparr>w_plane := snd (with_or_create b f (w_plane w))\<rparr>)"
proof -
  have ok: "plane_ok pl (w_plane w)" using assms(1) by (simp add: at_entry_def)
  show ?thesis
    using assms plane_ok_with_or_create [OF ok assms(2), of b]
    by (auto simp: at_entry_def plane_entry_def split: option.splits if_splits)
qed

lemma upholds_tier_call_entry [upheld]:
  "leaves_entry pl a sc \<Longrightarrow> upholds (at_entry pl a P) (tier_call sc i f)"
  by (rule upholds_tier_call) (simp_all add: steady_at_entry)

lemma upholds_rungs_entry [upheld]:
  assumes "leaves_entry pl a sc"
  shows "upholds (at_entry pl a P) (rung_get sc m t key)"
    "upholds (at_entry pl a P) (rung_set sc m t key v ttl)"
    "upholds (at_entry pl a P) (rung_remove sc m i key)"
    "upholds (at_entry pl a P) (rung_contains sc m t key)"
  unfolding rung_get_def rung_set_def rung_remove_def rung_contains_def
  by (rule upholds_tier_call_entry [OF assms])+

lemma upholds_with_entry:
  assumes sc: "leaves_entry pl a sc" and f: "\<And>now. keeps (f now)"
    and P: "\<And>now e. P e \<Longrightarrow> P (snd (f now e))"
  shows "upholds (at_entry pl a P) (plane_call sc (\<lambda>now p. with_entry (b p) ab (f now) p))"
  by (rule upholds_plane_call [OF steady_at_entry [OF sc]], rule at_entry_with_entry) (use f P in auto)

lemma upholds_with_or_create:
  assumes sc: "leaves_entry pl a sc" and f: "\<And>now. keeps (f now)"
    and P: "\<And>now e. P e \<Longrightarrow> P (snd (f now e))" "\<And>now. P (snd (f now (entry_new a)))"
  shows "upholds (at_entry pl a P) (plane_call sc (\<lambda>now p. with_or_create (b p) (f now) p))"
  by (rule upholds_plane_call [OF steady_at_entry [OF sc]], rule at_entry_with_or_create) (use f P in auto)

subsection \<open>Keys\<close>

text \<open>
  The encoded key is the tenant frame; it exists exactly when the tenant holds no separator and the
  frame fits the manager's buffer.
\<close>

lemma encode_key_eq:
  "encode_key key ctx =
     (let t = tenant (ctx_identity ctx) in
      if TENANT_SEPARATOR \<notin> set t \<and> length t + 1 + length key \<le> MANAGER_MAX_KEY_SIZE
      then Ok (t @ [TENANT_SEPARATOR] @ key) else Err ConfigurationError)"
proof (cases "length key \<le> MANAGER_MAX_KEY_SIZE")
  case True
  let ?t = "tenant (ctx_identity ctx)"
  have e: "encode_key key ctx = try_then (frame_tenant_key ?t key (replicate MANAGER_MAX_KEY_SIZE 0))
      (\<lambda>(len, buf). Ok (take len buf))"
    using True by (simp add: encode_key_def key_encode_def)
  show ?thesis
  proof (cases "TENANT_SEPARATOR \<notin> set ?t \<and> length ?t + 1 + length key \<le> MANAGER_MAX_KEY_SIZE")
    case True
    moreover from True have "length ?t + 1 + length key < 2 ^ 64" by (simp add: MANAGER_MAX_KEY_SIZE_def)
    ultimately obtain n buf where f: "frame_tenant_key ?t key (replicate MANAGER_MAX_KEY_SIZE 0) = Ok (n, buf)"
      using frame_tenant_key_Ok_iff [of ?t key "replicate MANAGER_MAX_KEY_SIZE 0"] by auto
    with frame_tenant_key_bytes [OF f] True show ?thesis by (simp add: e)
  next
    case False
    then show ?thesis
      by (auto simp: e frame_tenant_key_def checked_add_usize_def MANAGER_MAX_KEY_SIZE_def Let_def)
  qed
qed (auto simp: encode_key_def key_encode_def Let_def)

lemma cp_peek_None:
  assumes ok: "plane_ok pl p" and e: "plane_lookup p (address_of pl key) = None"
  shows "cp_peek now key p = Ok absent_snapshot"
  using plane_okD(2) [OF ok, of "address_of pl key"] e
  by (simp add: cp_peek_def plane_okD(4) [OF ok] plane_lookup_def plane_unlocked_def Let_def)

end
