(* ===== verification/Manager_Claims.thy ===== *)
theory Manager_Claims
  imports Manager_Logic
begin

section \<open>No operation leaves a key claimed\<close>

text \<open>
  A key whose entry is owned, in flight or prepared with nobody left to finish the work is unusable:
  every later operation on it waits out its bound. The guards of \<open>src/manager.rs\<close> exist so that no
  cancelled or failing operation leaves such a key behind. Here that is proved for every operation,
  every rung implementation, every cancellation point and every activity of other tasks on other
  keys.
\<close>

definition settled :: "control_entry \<Rightarrow> bool" where
  "settled e \<longleftrightarrow> \<not> ce_population_owner e \<and> e_intent e = None \<and> e_state e \<notin> {Prepared, InFlight}"

text \<open>Between \<open>prepare\<close> and its end: settled again, or prepared over a settled state.\<close>

definition preparing :: "control_entry \<Rightarrow> bool" where
  "preparing e \<longleftrightarrow> settled e \<or> e_state e = Prepared \<and> e_intent_prev_state e \<notin> {Prepared, InFlight}"

text \<open>Between \<open>acquire\<close> and its end.\<close>

definition populating :: "control_entry \<Rightarrow> bool" where
  "populating e \<longleftrightarrow> e_intent e = None \<and> (settled e \<or> e_state e = InFlight)"

lemma settled_new [simp]: "settled (entry_new a)"
  by (simp add: settled_def entry_new_def e_intent_def e_state_def state_of_u8_def state_try_from_def)

lemma settled_preparing [simp]: "settled e \<Longrightarrow> preparing e"
  and settled_populating [simp]: "settled e \<Longrightarrow> populating e"
  by (simp_all add: preparing_def populating_def settled_def)

lemma settled_steps:
  assumes "settled e"
  shows "settled (snd (entry_reserve_eviction e))" "settled (snd (entry_release_population_claim e))"
    "settled (snd (entry_abort_intent err e))" "settled (snd (entry_invalidate e))"
    "settled (e_notify (e_set_state Stale e))"
    "preparing (snd (entry_prepare now eg target kind e))"
  using assms by (auto simp: settled_def preparing_def step_defs Let_def)

lemma populating_acquire:
  assumes "settled e"
  shows "populating (snd (entry_acquire now tier e))"
proof -
  have "e_state e \<in> {Absent, Ready, Stale, Failed}" using assms by (cases "e_state e") (simp_all add: settled_def)
  with assms show ?thesis
    by (auto simp: entry_acquire_def e_compare_exchange_def populating_def settled_def Let_def
        simp del: state_to_u8.simps)
qed

lemma preparing_abort:
  assumes "preparing e"
  shows "settled (snd (entry_abort_inner err clean e))"
  using assms by (auto simp: preparing_def settled_def entry_abort_inner_def Let_def)

lemma preparing_commit:
  assumes "preparing e"
  shows "preparing (snd (entry_commit now token ttl e))"
    and "fst (entry_commit now token ttl e) = Ok x \<Longrightarrow> settled (snd (entry_commit now token ttl e))"
  using assms by (auto simp: preparing_def settled_def entry_commit_def Let_def split: option.splits if_splits)

lemma populating_publish:
  assumes "populating e"
  shows "populating (snd (entry_publish now g tier ttl e))"
    and "fst (entry_publish now g tier ttl e) = Ok x \<Longrightarrow> settled (snd (entry_publish now g tier ttl e))"
  using assms by (auto simp: populating_def settled_def entry_publish_def Let_def split: if_splits)

lemma populating_fail: "populating e \<Longrightarrow> settled (snd (entry_fail err e))"
  by (auto simp: populating_def settled_def entry_fail_def)

subsection \<open>Calls of the plane\<close>

text \<open>A call whose transition takes \<open>P\<close> to \<open>Q\<close>, with the answer in \<open>Q\<close>, on the entry at \<open>a\<close>.\<close>

lemma runs_with_entry:
  assumes sc: "leaves_entry pl a sc" and f: "\<And>now. keeps (f now)"
    and b: "\<And>p. plane_ok pl p \<Longrightarrow> b p = a"
    and Q: "\<And>now e. P e \<Longrightarrow> Q (fst (f now e)) (snd (f now e))"
  shows "runs (at_entry pl a P) (plane_call sc (\<lambda>now p. with_entry (b p) ab (f now) p))
           (\<lambda>r. at_entry pl a (Q r)) D"
proof (rule runsI)
  fix w r w'
  assume w: "at_entry pl a P w" and c: "plane_call sc (\<lambda>now p. with_entry (b p) ab (f now) p) w = (Done r, w')"
  let ?t = "tick sc w"
  have t: "at_entry pl a P ?t" by (rule steady_tick [OF steady_at_entry [OF sc] w])
  then have ok: "plane_ok pl (w_plane ?t)" by (simp add: at_entry_def)
  have r: "r = fst (with_entry a ab (f (w_now ?t)) (w_plane ?t))"
    and w': "w' = ?t\<lparr>w_plane := snd (with_entry a ab (f (w_now ?t)) (w_plane ?t))\<rparr>"
    using c b [OF ok] by (auto simp: plane_call_def Let_def case_prod_unfold)
  show "at_entry pl a (Q r) w'"
    using plane_ok_with_entry [OF ok f, of a ab "w_now ?t"] t Q
    by (auto simp: r w' at_entry_def split: option.splits)
qed (auto simp: plane_call_def Let_def case_prod_unfold)

lemma runs_with_or_create:
  assumes sc: "leaves_entry pl a sc" and f: "\<And>now. keeps (f now)"
    and b: "\<And>p. plane_ok pl p \<Longrightarrow> b p = a"
    and Q: "\<And>now e. P e \<Longrightarrow> Q (fst (f now e)) (snd (f now e))"
    and new: "P (entry_new a)"
  shows "runs (at_entry pl a P) (plane_call sc (\<lambda>now p. with_or_create (b p) (f now) p))
           (\<lambda>r. at_entry pl a (Q r)) D"
proof (rule runsI)
  fix w r w'
  assume w: "at_entry pl a P w" and c: "plane_call sc (\<lambda>now p. with_or_create (b p) (f now) p) w = (Done r, w')"
  let ?t = "tick sc w"
  have t: "at_entry pl a P ?t" by (rule steady_tick [OF steady_at_entry [OF sc] w])
  then have ok: "plane_ok pl (w_plane ?t)" by (simp add: at_entry_def)
  have r: "r = fst (with_or_create a (f (w_now ?t)) (w_plane ?t))"
    and w': "w' = ?t\<lparr>w_plane := snd (with_or_create a (f (w_now ?t)) (w_plane ?t))\<rparr>"
    using c b [OF ok] by (auto simp: plane_call_def Let_def case_prod_unfold)
  have "P (plane_entry (w_plane ?t) a)" using t new by (auto simp: at_entry_def plane_entry_def split: option.splits)
  then show "at_entry pl a (Q r) w'"
    using plane_ok_with_or_create [OF ok f, of a "w_now ?t"] Q
    by (auto simp: r w' at_entry_def plane_admits_def split: if_splits)
qed (auto simp: plane_call_def Let_def case_prod_unfold)

lemma upholds_settled:
  assumes "leaves_entry pl a sc"
  shows "upholds (at_entry pl a settled) (plane_call sc (\<lambda>now. cp_set_state key Stale))"
    "upholds (at_entry pl a settled) (plane_call sc (\<lambda>now. cp_invalidate key))"
    "upholds (at_entry pl a settled) (plane_call sc (\<lambda>now. cp_release key))"
    "upholds (at_entry pl a settled) (plane_call sc (\<lambda>now. cp_reserve_eviction b))"
    "upholds (at_entry pl a settled) (plane_call sc (\<lambda>now. cp_abort_intent_by_address b err))"
    "upholds (at_entry pl a settled) (plane_call sc (\<lambda>now. cp_release_population_claim b))"
  unfolding cp_set_state_def cp_invalidate_def cp_release_def cp_reserve_eviction_def
    cp_abort_intent_by_address_def cp_release_population_claim_def
  by (rule upholds_with_or_create upholds_with_entry; auto simp: assms settled_steps)+

lemma runs_prepare:
  assumes sc: "leaves_entry pl (address_of pl key) sc"
  shows "runs (at_entry pl (address_of pl key) settled)
           (plane_call sc (\<lambda>now. cp_prepare now key None rung kind))
           (\<lambda>r w. at_entry pl (address_of pl key) (case r of Inl _ \<Rightarrow> settled | Inr _ \<Rightarrow> preparing) w \<and>
              (\<forall>token. r = Inr token \<longrightarrow> ct_address token = address_of pl key)) D"
    (is "runs (at_entry pl ?a settled) ?c _ _")
proof (rule runsI)
  fix w r w' assume w: "at_entry pl ?a settled w" and c: "?c w = (Done r, w')"
  let ?t = "tick sc w"
  have t: "at_entry pl ?a settled ?t" by (rule steady_tick [OF steady_at_entry [OF sc] w])
  then have ok: "plane_ok pl (w_plane ?t)" by (simp add: at_entry_def)
  let ?f = "entry_prepare (w_now ?t) None rung kind" and ?e = "plane_entry (w_plane ?t) ?a"
  have r: "r = fst (with_or_create ?a ?f (w_plane ?t))"
    and w': "w' = ?t\<lparr>w_plane := snd (with_or_create ?a ?f (w_plane ?t))\<rparr>"
    using c plane_okD(4) [OF ok] by (auto simp: plane_call_def cp_prepare_def Let_def case_prod_unfold)
  have e: "settled ?e" "ce_address ?e = ?a"
    using t plane_entry_address [OF ok] by (auto simp: at_entry_def plane_entry_def split: option.splits)
  have "\<exists>token. fst (?f ?e) = Inr token \<and> ct_address token = ?a"
    using e(2) by (simp add: entry_prepare_def Let_def)
  then show "at_entry pl ?a (case r of Inl _ \<Rightarrow> settled | Inr _ \<Rightarrow> preparing) w' \<and>
      (\<forall>token. r = Inr token \<longrightarrow> ct_address token = ?a)"
    using plane_ok_with_or_create [OF ok keeps_steps(7), of ?a "w_now ?t" None rung kind]
      settled_steps(6) [OF e(1)] t
    by (auto simp: r w' at_entry_def plane_admits_def split: if_splits)
qed (auto simp: plane_call_def Let_def case_prod_unfold)

lemma runs_commit:
  assumes "leaves_entry pl a sc" "ct_address token = a"
  shows "runs (at_entry pl a preparing) (plane_call sc (\<lambda>now. cp_commit now token ttl))
           (\<lambda>r. at_entry pl a (case r of Inr _ \<Rightarrow> settled | Inl _ \<Rightarrow> preparing)) D"
  unfolding cp_commit_def
  by (rule runs_with_entry) (use assms preparing_commit in \<open>auto split: sum.split\<close>)

lemma runs_abort:
  assumes "leaves_entry pl a sc" "ct_address token = a"
  shows "runs (at_entry pl a preparing) (intent_guard_abort sc token e) (\<lambda>_. at_entry pl a settled) D"
    "runs (at_entry pl a preparing) (intent_guard_abort_proven_clean sc token e) (\<lambda>_. at_entry pl a settled) D"
    "runs (at_entry pl a preparing) (release_intent sc token e) (\<lambda>_. at_entry pl a settled) D"
proof -
  have *: "runs (at_entry pl a preparing)
      (plane_call sc (\<lambda>now p. with_entry (ct_address token) (Ok ()) (entry_abort_inner e clean) p))
      (\<lambda>_. at_entry pl a settled) D" for clean
    by (rule runs_with_entry) (use assms preparing_abort in auto)
  show abort: "runs (at_entry pl a preparing) (intent_guard_abort sc token e) (\<lambda>_. at_entry pl a settled) D"
    "runs (at_entry pl a preparing) (intent_guard_abort_proven_clean sc token e) (\<lambda>_. at_entry pl a settled) D"
    unfolding intent_guard_abort_def intent_guard_abort_proven_clean_def cp_abort_def
      cp_abort_proven_clean_def
    by (rule runs_then [OF *], rule runs_ret, assumption)+
  show "runs (at_entry pl a preparing) (release_intent sc token e) (\<lambda>_. at_entry pl a settled) D"
    unfolding release_intent_def using abort by simp
qed

lemma intent_drop_settles:
  assumes "leaves_entry pl a sc" "ct_address token = a" "at_entry pl a preparing w"
  shows "at_entry pl a settled (intent_guard_drop sc token w)"
proof -
  have "runs (at_entry pl a preparing) (plane_call sc (\<lambda>now. cp_abort token Cancelled))
      (\<lambda>_. at_entry pl a settled) (\<lambda>_. True)"
    unfolding cp_abort_def by (rule runs_with_entry) (use assms preparing_abort in auto)
  from runsD(1) [OF this assms(3)] show ?thesis
    by (simp add: intent_guard_drop_def plane_call_def Let_def case_prod_unfold)
qed

lemma population_drop_settles:
  assumes "leaves_entry pl (address_of pl key) sc" "at_entry pl (address_of pl key) populating w"
  shows "at_entry pl (address_of pl key) settled (population_guard_drop sc key w)"
proof -
  have "runs (at_entry pl (address_of pl key) populating)
      (plane_call sc (\<lambda>now. cp_fail_with_error key Cancelled))
      (\<lambda>_. at_entry pl (address_of pl key) settled) (\<lambda>_. True)"
    unfolding cp_fail_with_error_def
    by (rule runs_with_entry) (use assms populating_fail in \<open>auto simp: plane_okD(4)\<close>)
  from runsD(1) [OF this assms(2)] show ?thesis
    by (simp add: population_guard_drop_def plane_call_def Let_def case_prod_unfold)
qed

subsection \<open>Writes\<close>

text \<open>Steps that do not touch the plane, as triples.\<close>

lemma runs_aside:
  fixes sc :: "'s schedule"
  assumes "leaves_entry pl a sc"
  shows "runs (at_entry pl a P) (observed_write sc m op key t (rung_set sc m' t' key' v ttl)) (\<lambda>_. at_entry pl a P)
      (at_entry pl a P)"
    "runs (at_entry pl a P) (observed_read sc m op key t (rung_get sc m' t' key')) (\<lambda>_. at_entry pl a P)
      (at_entry pl a P)"
    "runs (at_entry pl a P) (record_outcome sc t r) (\<lambda>_. at_entry pl a P) (at_entry pl a P)"
    "runs (at_entry pl a P) (bounded m (rung_remove sc m' i key')) (\<lambda>_. at_entry pl a P) (at_entry pl a P)"
    "runs (at_entry pl a P) (bounded m (rung_get sc m' t' key')) (\<lambda>_. at_entry pl a P) (at_entry pl a P)"
    "runs (at_entry pl a P) (bounded m (rung_contains sc m' t' key')) (\<lambda>_. at_entry pl a P) (at_entry pl a P)"
    "runs (at_entry pl a P) (unbounded (rung_remove sc m' i key')) (\<lambda>_. at_entry pl a P) (at_entry pl a P)"
    "runs (at_entry pl a P) (suspend sc) (\<lambda>_. at_entry pl a P) (at_entry pl a P)"
    "runs (at_entry pl a P) (sleep sc d) (\<lambda>_. at_entry pl a P) (at_entry pl a P)"
    "runs (at_entry pl a P) (plane_peek sc key') (\<lambda>_. at_entry pl a P) (at_entry pl a P)"
    "runs (at_entry pl a P) (observed_control_only op key t started out :: ('s, unit) io) (\<lambda>_. at_entry pl a P) (at_entry pl a P)"
  by ((rule upholds_runs, (intro upheld steady_at_entry assms steady_blind [OF steady_at_entry [OF assms]])[1],
       assumption)+)

lemma runs_set_attempt_body:
  assumes sc: "leaves_entry pl a sc" and a: "ct_address token = a"
  shows "runs (at_entry pl a preparing) (set_attempt_body sc m key_ref value ttl rung last_try token)
           (\<lambda>(armed, x). at_entry pl a (if armed then preparing else settled)) (at_entry pl a preparing)"
proof -
  note aside = runs_aside [OF sc]
  have fin: "runs (at_entry pl a preparing)
      (case r of
         Inr _ \<Rightarrow> bind_task (plane_call sc (\<lambda>now. cp_commit now token ttl)) (\<lambda>c.
           case c of
             Inr _ \<Rightarrow> ret (False, Finished (Returned (Ok ())))
           | Inl e \<Rightarrow>
               if e = StaleGeneration
               then (if last_try then ret (True, Finished (Returned (Err WriteContended)))
                     else then_task (suspend sc) (ret (True, LostRace)))
               else then_task (unbounded (rung_remove sc m (as_usize rung) key_ref))
                 (then_task (intent_guard_abort sc token e) (ret (False, Finished (Returned (Err e))))))
       | Inl e \<Rightarrow> then_task (release_intent sc token e)
           (ret (False, Finished (if rung_level_error e then NextRung e else Returned (Err e)))))
      (\<lambda>(armed, x). at_entry pl a (if armed then preparing else settled)) (at_entry pl a preparing)"
    for r :: "unit result"
  proof (cases r)
    case (Inl e)
    then show ?thesis
      by (auto intro!: runs_then [OF runs_abort(3) [OF sc a]] runs_ret)
  next
    case (Inr u)
    have lost: "runs (at_entry pl a preparing)
        (then_task (suspend sc) (ret (True, LostRace)))
        (\<lambda>(armed, x). at_entry pl a (if armed then preparing else settled)) (at_entry pl a preparing)"
      by (rule runs_then [OF aside(8)]) auto
    have bad: "runs (at_entry pl a preparing)
        (then_task (unbounded (rung_remove sc m (as_usize rung) key_ref))
           (then_task (intent_guard_abort sc token e) (ret (False, Finished (Returned (Err e))))))
        (\<lambda>(armed, x). at_entry pl a (if armed then preparing else settled)) (at_entry pl a preparing)" for e
      by (rule runs_then [OF aside(7)], rule runs_then [OF runs_abort(1) [OF sc a]]) auto
    have "runs (at_entry pl a preparing)
        (bind_task (plane_call sc (\<lambda>now. cp_commit now token ttl)) (\<lambda>c.
           case c of
             Inr _ \<Rightarrow> ret (False, Finished (Returned (Ok ())))
           | Inl e \<Rightarrow>
               if e = StaleGeneration
               then (if last_try then ret (True, Finished (Returned (Err WriteContended)))
                     else then_task (suspend sc) (ret (True, LostRace)))
               else then_task (unbounded (rung_remove sc m (as_usize rung) key_ref))
                 (then_task (intent_guard_abort sc token e) (ret (False, Finished (Returned (Err e)))))))
        (\<lambda>(armed, x). at_entry pl a (if armed then preparing else settled)) (at_entry pl a preparing)"
      by (rule runs_bind [OF runs_commit [OF sc a]]) (auto split: sum.split intro: lost bad)
    with Inr show ?thesis by simp
  qed
  show ?thesis
    unfolding set_attempt_body_def
  proof (rule runs_bind [OF aside(1)], rule runs_then [OF aside(3)], rule runs_then [OF _ fin])
    show "runs (at_entry pl a preparing)
        (if r = Err WriteIndeterminate
         then then_task (bounded m (rung_remove sc m (as_usize rung) key_ref)) (ret ()) else ret ())
        (\<lambda>_. at_entry pl a preparing) (at_entry pl a preparing)" for r :: "unit result"
      by (simp add: runs_ret) (blast intro: runs_then [OF aside(4)])
  qed
qed

text \<open>What a step that keeps the entry settled is.\<close>

definition settles :: "placement \<Rightarrow> key_address \<Rightarrow> ('s, 'a) io \<Rightarrow> bool" where
  "settles pl a m \<longleftrightarrow> runs (at_entry pl a settled) m (\<lambda>_. at_entry pl a settled) (at_entry pl a settled)"

lemma settles_ret [simp]: "settles pl a (ret x)"
  by (auto simp: settles_def)

lemma settles_bind: "settles pl a m \<Longrightarrow> (\<And>x. settles pl a (f x)) \<Longrightarrow> settles pl a (bind_task m f)"
  unfolding settles_def by (rule runs_bind)

lemma settles_then: "settles pl a m \<Longrightarrow> settles pl a k \<Longrightarrow> settles pl a (then_task m k)"
  unfolding then_task_def by (rule settles_bind)

lemma settles_try: "settles pl a m \<Longrightarrow> (\<And>x. settles pl a (f x)) \<Longrightarrow> settles pl a (try_task m f)"
  unfolding try_task_def by (rule settles_bind) (simp_all split: sum.split)

lemma settles_try_pure: "(\<And>x. r = Inr x \<Longrightarrow> settles pl a (f x)) \<Longrightarrow> settles pl a (try_pure r f)"
  by (cases r) simp_all

lemma settles_upholds: "upholds (at_entry pl a settled) m \<Longrightarrow> settles pl a m"
  unfolding settles_def by (rule upholds_runs)

lemma settles_guarded_intent:
  assumes "leaves_entry pl a sc" "ct_address token = a"
    and "runs (at_entry pl a preparing) body
      (\<lambda>(armed, x). at_entry pl a (if armed then preparing else settled)) (at_entry pl a preparing)"
  shows "runs (at_entry pl a preparing) (guarded (intent_guard_drop sc token) body)
    (\<lambda>_. at_entry pl a settled) (at_entry pl a settled)"
  by (rule runs_guarded, rule runs_weaken [OF assms(3)])
     (auto simp: intent_drop_settles [OF assms(1,2)] split: if_splits)

lemmas settles_intros = settles_bind settles_then settles_try settles_try_pure

lemma settles_aside:
  fixes sc :: "'s schedule"
  assumes "leaves_entry pl a sc"
  shows "settles pl a (observed_write sc m op key t (rung_set sc m' t' key' v ttl))"
    "settles pl a (observed_read sc m op key t (rung_get sc m' t' key'))"
    "settles pl a (record_outcome sc t r)" "settles pl a (bounded m (rung_remove sc m' i key'))"
    "settles pl a (bounded m (rung_get sc m' t' key'))"
    "settles pl a (bounded m (rung_contains sc m' t' key'))"
    "settles pl a (unbounded (rung_remove sc m' i key'))" "settles pl a (suspend sc)"
    "settles pl a (sleep sc d)" "settles pl a (plane_peek sc key')"
    "settles pl a (observed_control_only op key t started out :: ('s, unit) io)"
  unfolding settles_def by (rule runs_aside [OF assms])+

lemma settles_set_rung:
  assumes sc: "leaves_entry pl (address_of pl key_ref) sc"
  shows "settles pl (address_of pl key_ref) (set_rung sc m key_ref value ttl rung n)"
proof (induction n)
  case (Suc n)
  let ?a = "address_of pl key_ref"
  show ?case
    unfolding settles_def set_rung.simps
  proof (rule runs_bind [OF runs_prepare [OF sc]])
    fix r :: "commit_token result"
    show "runs (\<lambda>w. at_entry pl ?a (case r of Inl _ \<Rightarrow> settled | Inr _ \<Rightarrow> preparing) w \<and>
          (\<forall>token. r = Inr token \<longrightarrow> ct_address token = ?a))
        (case r of
           Inl e \<Rightarrow> ret (Returned (Err e))
         | Inr token \<Rightarrow> bind_task (guarded (intent_guard_drop sc token)
               (set_attempt_body sc m key_ref value ttl rung (n = 0) token)) (\<lambda>x.
             case x of Finished s \<Rightarrow> ret s | LostRace \<Rightarrow> set_rung sc m key_ref value ttl rung n))
        (\<lambda>_. at_entry pl ?a settled) (at_entry pl ?a settled)"
    proof (cases r)
      case (Inr token)
      show ?thesis
      proof (cases "ct_address token = ?a")
        case True
        have "runs (at_entry pl ?a preparing) (bind_task (guarded (intent_guard_drop sc token)
               (set_attempt_body sc m key_ref value ttl rung (n = 0) token)) (\<lambda>x.
             case x of Finished s \<Rightarrow> ret s | LostRace \<Rightarrow> set_rung sc m key_ref value ttl rung n))
            (\<lambda>_. at_entry pl ?a settled) (at_entry pl ?a settled)"
          by (rule runs_bind [OF settles_guarded_intent [OF sc True runs_set_attempt_body [OF sc True]]])
             (use Suc.IH in \<open>auto simp: settles_def split: set_attempt.split\<close>)
        then show ?thesis unfolding Inr by (auto elim: runs_weaken)
      qed (auto simp: Inr runs_def)
    qed (auto intro: runs_ret)
  qed
qed simp

lemma settles_set_walk:
  assumes sc: "leaves_entry pl (address_of pl key_ref) sc"
  shows "settles pl (address_of pl key_ref) (set_walk sc m key_ref v ttl rung last_error)"
  using sc
proof (induction sc m key_ref v ttl rung last_error rule: set_walk.induct)
  case (1 sc m key_ref v ttl rung last_error)
  show ?case
    unfolding set_walk.simps [of sc m key_ref v ttl rung last_error]
    using 1 by (auto intro!: settles_bind settles_set_rung split: rung_step.split)
qed

lemma settles_tier_sync: "leaves_entry pl a sc \<Longrightarrow> settles pl a (tier_sync sc i f)"
  by (intro settles_upholds upholds_tier_sync steady_at_entry) simp_all

lemma settles_try_evict:
  assumes sc: "leaves_entry pl a sc"
  shows "settles pl a (try_evict_at_rung sc m t n)"
proof (induction n)
  case (Suc n)
  have "settles pl a (plane_call sc (\<lambda>now. cp_reserve_eviction b))" for b
    by (rule settles_upholds [OF upholds_settled(4) [OF sc]])
  with Suc show ?case
    by (auto intro!: settles_bind settles_tier_sync [OF sc] split: option.split sum.split bool.split)
qed simp

lemma settles_try_free:
  assumes sc: "leaves_entry pl a sc"
  shows "settles pl a (try_free_from sc m ts n)"
  by (induction ts arbitrary: n) (auto intro!: settles_bind settles_try_evict [OF sc] split: prod.split)

lemma settles_set_passes:
  assumes sc: "leaves_entry pl (address_of pl key_ref) sc"
  shows "settles pl (address_of pl key_ref) (set_passes sc m key_ref v ttl t n last_error)"
  by (induction n arbitrary: last_error)
     (auto intro!: settles_bind settles_set_walk [OF sc] settles_try_free [OF sc]
        simp: try_free_somewhere_in_the_ladder_def split: prod.split option.split)

lemma settles_resolve:
  assumes "leaves_entry pl a sc"
  shows "settles pl a (resolve_with_snapshot sc m request ctx snapshot)"
  by (intro settles_upholds upholds_resolve steady_at_entry assms)

lemma settles_set_op:
  assumes "\<And>key_ref. encode_key key ctx = Inr key_ref \<Longrightarrow> a = address_of pl key_ref" "leaves_entry pl a sc"
  shows "settles pl a (set_op sc m key v ctx)"
  unfolding set_op_def
  using assms
  by (auto intro!: settles_intros settles_aside(10) [OF assms(2)] settles_resolve [OF assms(2)]
      settles_set_passes simp del: set_passes.simps)

subsection \<open>Populations\<close>

lemma settles_wait_and_get:
  assumes "leaves_entry pl a sc"
  shows "settles pl a (wait_and_get sc m key ctx)" "settles pl a (get_waiting sc m key_ref)"
  unfolding wait_and_get_def get_waiting_def
  by (auto intro!: settles_intros settles_upholds [OF upholds_wait [OF steady_at_entry [OF assms]]] settles_aside [OF assms]
      split: option.split)

lemma settles_try_fallback:
  assumes "leaves_entry pl a sc"
  shows "settles pl a (try_fallback_tier sc m key ctx cause)"
proof -
  note st = steady_at_entry [OF assms, of settled]
  have peek: "settles pl a (\<lambda>w0. let w = tick sc w0 in (Done (registry_circuit_open (w_registry w) t), w))" for t
    by (rule settles_upholds [OF upholds_circuit_read [OF st]])
  have fb: "settles pl a (record_fallback m key_ref t cause)" for key_ref t
    by (intro settles_upholds upheld steady_blind [OF st])
  have "settles pl a (try_fallback_from sc m key_ref cause ts)" for key_ref ts
    by (induction ts) (auto intro!: settles_intros peek fb settles_aside [OF assms] split: sum.split option.split)
  then show ?thesis unfolding try_fallback_tier_def by (intro settles_try_pure)
qed

lemma runs_populate_once:
  assumes sc: "leaves_entry pl (address_of pl key_ref) sc"
  shows "runs (at_entry pl (address_of pl key_ref) populating)
           (populate_once sc m key key_ref g ctx fetch decision)
           (\<lambda>r. at_entry pl (address_of pl key_ref) (case r of Inr _ \<Rightarrow> settled | Inl _ \<Rightarrow> populating))
           (at_entry pl (address_of pl key_ref) populating)"
proof -
  let ?a = "address_of pl key_ref" and ?P = "at_entry pl (address_of pl key_ref) populating"
  note st = steady_at_entry [OF sc, of populating]
  have "upholds ?P (bounded m (fetch_call sc fetch))" by (intro upheld st steady_blind [OF st])
  from upholds_runs [OF this, of ?P]
  have fetch: "runs ?P (bounded m (fetch_call sc fetch)) (\<lambda>_. ?P) ?P" by simp
  have publish: "runs ?P (plane_call sc (\<lambda>now. cp_publish now key_ref g t ttl))
      (\<lambda>r. at_entry pl ?a (case r of Inr _ \<Rightarrow> settled | Inl _ \<Rightarrow> populating)) ?P" for t ttl
    unfolding cp_publish_def
    by (rule runs_with_entry [OF sc]) (use populating_publish in \<open>auto simp: plane_okD(4) split: sum.split\<close>)
  show ?thesis
    unfolding populate_once_def
    by (rule runs_try [OF fetch])
       (auto intro!: runs_try_pure runs_bind [OF runs_aside(1) [OF sc]] runs_then [OF runs_aside(3) [OF sc]]
          runs_try [OF publish] split: option.split)
qed

lemma runs_population_failed:
  fixes sc :: "'s schedule"
  assumes sc: "leaves_entry pl (address_of pl key_ref) sc"
  shows "runs (at_entry pl (address_of pl key_ref) populating) (population_failed sc m key_ref decision e)
           (\<lambda>(armed, x). at_entry pl (address_of pl key_ref) (if armed then populating else settled))
           (at_entry pl (address_of pl key_ref) populating)"
proof -
  let ?a = "address_of pl key_ref" and ?P = "at_entry pl (address_of pl key_ref) populating"
  note bl = steady_blind [OF steady_at_entry [OF sc, of populating]]
  have fail: "runs ?P (plane_call sc (\<lambda>now. cp_fail_with_error key_ref e)) (\<lambda>_. at_entry pl ?a settled) ?P"
    unfolding cp_fail_with_error_def
    by (rule runs_with_entry [OF sc]) (use populating_fail in \<open>auto simp: plane_okD(4)\<close>)
  have now: "runs ?P (read_now :: ('s, instant) io) (\<lambda>_. ?P) ?P" by (rule upholds_runs) (simp_all add: upholds_read_now)
  have backend: "runs ?P (read_backend m t) (\<lambda>_. ?P) ?P" for t by (rule upholds_runs) (simp_all add: upholds_read_backend)
  have emit: "runs ?P (emit r :: ('s, unit) io) (\<lambda>_. ?P) ?P" for r by (rule upholds_runs) (simp_all add: upholds_emit bl)
  show ?thesis
    unfolding population_failed_def
    by (auto intro!: runs_bind [OF now] runs_bind [OF backend] runs_then [OF emit] runs_then [OF fail])
qed

lemma runs_populate_loop:
  assumes sc: "leaves_entry pl (address_of pl key_ref) sc"
  shows "runs (at_entry pl (address_of pl key_ref) populating)
           (populate_loop sc m key key_ref g ctx decision fetch n backoff)
           (\<lambda>(armed, x). at_entry pl (address_of pl key_ref) (if armed then populating else settled))
           (at_entry pl (address_of pl key_ref) populating)"
  by (induction n arbitrary: backoff)
     (auto intro!: runs_bind [OF runs_populate_once [OF sc]] runs_population_failed [OF sc]
        runs_then [OF runs_aside(9) [OF sc]] runs_ret split: sum.split)

lemma runs_become_owner:
  assumes sc: "leaves_entry pl (address_of pl key_ref) sc"
  shows "runs (at_entry pl (address_of pl key_ref) populating)
           (become_population_owner sc m key key_ref g ctx decision fetch)
           (\<lambda>_. at_entry pl (address_of pl key_ref) settled) (at_entry pl (address_of pl key_ref) settled)"
proof -
  have "runs (at_entry pl (address_of pl key_ref) populating)
      (guarded (population_guard_drop sc key_ref)
         (populate_loop sc m key key_ref g ctx decision fetch (MAX_POPULATE_ATTEMPTS - 1) RETRY_BASE_BACKOFF))
      (\<lambda>_. at_entry pl (address_of pl key_ref) settled) (at_entry pl (address_of pl key_ref) settled)"
    by (rule runs_guarded, rule runs_weaken [OF runs_populate_loop [OF sc]])
       (auto simp: population_drop_settles [OF sc] split: if_splits)
  then show ?thesis
    unfolding become_population_owner_def
    by (rule runs_bind)
       (use settles_try_fallback [OF sc] in \<open>auto simp: settles_def split: sum.split\<close>)
qed

subsection \<open>Reads, refreshes and moves\<close>

text \<open>
  What a claim leaves: a snapshot that says it owns the population is in flight, any other leaves
  the entry settled.
\<close>

definition claimed_as :: "control_snapshot result \<Rightarrow> control_entry \<Rightarrow> bool" where
  "claimed_as r e =
     (case r of
        Inl _ \<Rightarrow> settled e
      | Inr s \<Rightarrow> if cs_population_owner s then populating e \<and> cs_state s = InFlight else settled e)"

lemma claimed_as_simps [simp]:
  "claimed_as (Inl err) = settled"
  "\<not> cs_population_owner s \<Longrightarrow> claimed_as (Inr s) = settled"
  "cs_population_owner s \<Longrightarrow> cs_state s = InFlight \<Longrightarrow> claimed_as (Inr s) = populating"
  "cs_population_owner s \<Longrightarrow> cs_state s \<noteq> InFlight \<Longrightarrow> claimed_as (Inr s) = (\<lambda>_. False)"
  by (simp_all add: claimed_as_def fun_eq_iff)

lemma claimed_populating: "claimed_as (Inr s) e \<Longrightarrow> populating e"
  by (auto simp: claimed_as_def split: if_splits)

lemma claimed_settled: "claimed_as (Inr s) e \<Longrightarrow> cs_state s \<noteq> InFlight \<or> \<not> cs_population_owner s \<Longrightarrow> settled e"
  by (auto simp: claimed_as_def split: if_splits)

lemma runs_acquire:
  assumes sc: "leaves_entry pl (address_of pl key_ref) sc"
  shows "runs (at_entry pl (address_of pl key_ref) settled)
           (plane_call sc (\<lambda>now. cp_acquire now key_ref tier))
           (\<lambda>r. at_entry pl (address_of pl key_ref) (claimed_as r)) D"
  unfolding cp_acquire_def
proof (rule runs_with_or_create [OF sc])
  fix now e assume e: "settled e"
  show "claimed_as (fst (entry_acquire now tier e)) (snd (entry_acquire now tier e))"
  proof (cases "e_state e \<in> {Absent, Failed, Stale}")
    case True
    with e populating_acquire [OF e, of now tier] show ?thesis
      by (cases "ce_state e = state_to_u8 (e_state e)")
         (auto simp: entry_acquire_def e_compare_exchange_def snapshot_of_def settled_def claimed_as_def
            Let_def simp del: state_to_u8.simps)
  next
    case False
    with e show ?thesis by (simp add: entry_acquire_def snapshot_of_def claimed_as_def Let_def)
  qed
qed (auto simp: plane_okD(4))

lemma settles_fast_path:
  "leaves_entry pl a sc \<Longrightarrow> settles pl a (fetch_fast_path sc m key_ref snapshot)"
  unfolding fetch_fast_path_def
  by (auto intro!: settles_bind settles_aside split: sum.split option.split)

lemma settles_set_stale:
  "leaves_entry pl a sc \<Longrightarrow> settles pl a (plane_call sc (\<lambda>now. cp_set_state key_ref Stale))"
  by (rule settles_upholds [OF upholds_settled(1)])

lemma runs_reclaim:
  assumes sc: "leaves_entry pl (address_of pl key_ref) sc"
  shows "runs (at_entry pl (address_of pl key_ref) (claimed_as (Inr first))) (reclaim_expired sc key_ref tier first)
           (\<lambda>r. at_entry pl (address_of pl key_ref) (claimed_as r)) (at_entry pl (address_of pl key_ref) settled)"
proof (cases "cs_state first = Ready \<and> cs_expired first")
  case True
  have "runs (at_entry pl (address_of pl key_ref) settled) (reclaim_expired sc key_ref tier first)
      (\<lambda>r. at_entry pl (address_of pl key_ref) (claimed_as r)) (at_entry pl (address_of pl key_ref) settled)"
    unfolding reclaim_expired_def using True
    by (simp add: runs_then [OF settles_set_stale [OF sc, unfolded settles_def] runs_acquire [OF sc]])
  then show ?thesis
    by (rule runs_weaken) (use True in \<open>auto elim!: at_entry_weaken dest: claimed_settled\<close>)
qed (auto simp: reclaim_expired_def)

lemma runs_dispatch:
  assumes sc: "leaves_entry pl (address_of pl key_ref) sc" and again: "settles pl (address_of pl key_ref) again"
  shows "runs (at_entry pl (address_of pl key_ref) (claimed_as (Inr s)))
           (dispatch_claim sc m key key_ref ctx decision fetch again s)
           (\<lambda>_. at_entry pl (address_of pl key_ref) settled) (at_entry pl (address_of pl key_ref) settled)"
    (is "runs (?at (claimed_as (Inr s))) ?d (\<lambda>_. ?at settled) (?at settled)")
proof -
  note own = runs_become_owner [OF sc, of m key "cs_generation s" ctx decision fetch]
  show ?thesis
  proof (cases "cs_population_owner s \<and> cs_state s = InFlight")
    case True
    with own show ?thesis by (simp add: dispatch_claim_def fetch_fast_path_def)
  next
    case False
    have "settles pl (address_of pl key_ref) (become_population_owner sc m key key_ref (cs_generation s) ctx decision fetch)"
      unfolding settles_def by (rule runs_weaken [OF own]) (auto elim: at_entry_weaken)
    then have "settles pl (address_of pl key_ref) ?d"
      unfolding dispatch_claim_def using again
      by (auto intro!: settles_intros settles_fast_path [OF sc] settles_wait_and_get [OF sc]
          settles_upholds [OF upholds_wait [OF steady_at_entry [OF sc]]] split: option.split)
    then show ?thesis
      unfolding settles_def
      by (rule runs_weaken) (use False in \<open>auto elim!: at_entry_weaken dest: claimed_settled\<close>)
  qed
qed

lemma settles_get_or_fetch_loop:
  assumes sc: "leaves_entry pl (address_of pl key_ref) sc"
  shows "settles pl (address_of pl key_ref) (get_or_fetch_loop sc m key key_ref ctx decision fetch n)"
proof (induction n)
  case (Suc n)
  show ?case
    unfolding settles_def get_or_fetch_loop.simps
    by (rule runs_try [OF runs_acquire [OF sc]], rule runs_try [OF runs_reclaim [OF sc]],
        rule runs_dispatch [OF sc Suc.IH]) simp_all
qed simp

lemma settles_refresh:
  fixes sc :: "'s schedule"
  assumes a: "\<And>key_ref. encode_key key ctx = Inr key_ref \<Longrightarrow> a = address_of pl key_ref"
    and sc: "leaves_entry pl a sc"
  shows "settles pl a (refresh_detailed sc m key ctx fetch)"
proof -
  have cur: "settles pl a (refresh_current sc m key_ref before)" for key_ref before
    unfolding refresh_current_def by (auto intro!: settles_bind settles_aside [OF sc])
  have rec: "settles pl a (record_telemetry_refresh_failure key_ref snapshot e :: ('s, unit) io)" for key_ref snapshot e
    by (intro settles_upholds upheld steady_blind [OF steady_at_entry [OF sc]])
  have claim: "settles pl a (try_task (plane_call sc (\<lambda>now. cp_acquire now key_ref tier)) (\<lambda>s.
      if \<not> cs_population_owner s then ret (Ok (f s))
      else bind_task (become_population_owner sc m key key_ref (cs_generation s) ctx decision fetch) (g s)))"
    if "a = address_of pl key_ref" "\<And>s x. settles pl a (g s x)"
    for key_ref tier decision and f :: "control_snapshot \<Rightarrow> 'b lookup" and g
  proof -
    note sc' = sc [unfolded that(1)]
    have own: "runs (at_entry pl a populating) (bind_task
        (become_population_owner sc m key key_ref (cs_generation s) ctx decision fetch) (g s))
        (\<lambda>_. at_entry pl a settled) (at_entry pl a settled)" for s
      unfolding that(1)
      by (rule runs_bind [OF runs_become_owner [OF sc']]) (use that in \<open>simp add: settles_def\<close>)
    show ?thesis
      unfolding settles_def that(1)
    proof (rule runs_try [OF runs_acquire [OF sc']])
      show "runs (at_entry pl (address_of pl key_ref) (claimed_as (Inr s)))
          (if \<not> cs_population_owner s then ret (Ok (f s))
           else bind_task (become_population_owner sc m key key_ref (cs_generation s) ctx decision fetch) (g s))
          (\<lambda>_. at_entry pl (address_of pl key_ref) settled) (at_entry pl (address_of pl key_ref) settled)" for s
      proof (cases "cs_population_owner s")
        case True
        have "runs (at_entry pl (address_of pl key_ref) (claimed_as (Inr s))) (bind_task
            (become_population_owner sc m key key_ref (cs_generation s) ctx decision fetch) (g s))
            (\<lambda>_. at_entry pl (address_of pl key_ref) settled) (at_entry pl (address_of pl key_ref) settled)"
          by (rule runs_weaken [OF own [unfolded that(1)]]) (auto elim: at_entry_weaken dest: claimed_populating)
        with True show ?thesis by simp
      qed auto
    qed simp
  qed
  show ?thesis
    unfolding refresh_detailed_def Let_def
    by (auto intro!: settles_intros settles_aside(10) [OF sc] cur settles_set_stale [OF sc] claim rec
        intro: a split: sum.split)
qed

lemma settles_get:
  assumes sc: "leaves_entry pl a sc"
  shows "settles pl a (get_op sc m key ctx)"
proof -
  have now: "settles pl a read_now" by (rule settles_upholds [OF upholds_read_now])
  show ?thesis
    unfolding get_op_def get_ready_def Let_def
    by (auto intro!: settles_intros settles_aside [OF sc] settles_set_stale [OF sc]
        settles_wait_and_get [OF sc] now split: sum.split)
qed

lemma settles_simple_ops:
  assumes sc: "leaves_entry pl a sc"
  shows "settles pl a (invalidate_op sc m key ctx)" "settles pl a (remove_op sc m key ctx)"
    "settles pl a (exists_op sc m key ctx)" "settles pl a (recover_older_than sc age)"
proof -
  show "settles pl a (invalidate_op sc m key ctx)"
    unfolding invalidate_op_def by (auto intro!: settles_intros settles_upholds [OF upholds_settled(2) [OF sc]])
  have "settles pl a (remove_from_rungs sc m key_ref is)" for key_ref "is"
    by (induction "is") (auto intro!: settles_then settles_aside [OF sc])
  then show "settles pl a (remove_op sc m key ctx)"
    unfolding remove_op_def
    by (auto intro!: settles_intros settles_upholds [OF upholds_settled(3) [OF sc]])
  show "settles pl a (exists_op sc m key ctx)"
    unfolding exists_op_def by (auto intro!: settles_intros settles_aside [OF sc])
  have rec: "settles pl a (recover_all sc intents report)" for intents report
    by (induction intents arbitrary: report)
       (auto intro!: settles_bind settles_upholds [OF upholds_settled(5) [OF sc]]
          settles_upholds [OF upholds_settled(6) [OF sc]] simp: Let_def split: intent_kind.split)
  have "upholds (at_entry pl a settled) (plane_call sc (\<lambda>now p. (cp_stale_intents now (of_nat age) p, p)))"
    by (rule upholds_plane_call [OF steady_at_entry [OF sc]]) simp
  from settles_bind [OF settles_upholds [OF this] rec] show "settles pl a (recover_older_than sc age)"
    unfolding recover_older_than_def .
qed

lemma runs_move_body:
  assumes sc: "leaves_entry pl a sc" and a: "ct_address token = a"
  shows "runs (at_entry pl a preparing) (move_body sc m key key_ref from_id to_id ctx token)
           (\<lambda>(armed, x). at_entry pl a (if armed then preparing else settled)) (at_entry pl a preparing)"
proof -
  note aside = runs_aside [OF sc]
  have giveup: "runs (at_entry pl a preparing) (then_task (intent_guard_abort sc token e) (ret (False, Err e)))
      (\<lambda>(armed, x :: unit result). at_entry pl a (if armed then preparing else settled)) (at_entry pl a preparing)" for e
    by (rule runs_then [OF runs_abort(1) [OF sc a]]) auto
  have finish: "runs (at_entry pl a preparing)
      (bind_task (plane_call sc (\<lambda>now. cp_commit now token (ctx_ttl ctx))) (\<lambda>c.
         case c of
           Inr _ \<Rightarrow> ret (False, Ok ())
         | Inl e \<Rightarrow> then_task (unbounded (rung_remove sc m (as_usize to_id) key_ref2))
             (then_task (intent_guard_abort sc token e) (ret (False, Err e)))))
      (\<lambda>(armed, x). at_entry pl a (if armed then preparing else settled)) (at_entry pl a preparing)" for key_ref2
    by (rule runs_bind [OF runs_commit [OF sc a]])
       (auto intro!: runs_then [OF aside(7)] giveup runs_ret split: sum.split)
  show ?thesis
    unfolding move_body_def
    by (auto intro!: runs_bind [OF aside(5)] runs_bind [OF aside(1)] runs_then [OF aside(3)]
        runs_bind [OF aside(7)] giveup finish runs_ret split: sum.split option.split)
qed

lemma settles_move:
  assumes sc: "leaves_entry pl (address_of pl key_ref) sc"
  shows "settles pl (address_of pl key_ref) (move_entry sc m key key_ref snapshot t ctx)"
  unfolding settles_def move_entry_def
proof (rule runs_try [OF runs_prepare [OF sc]])
  fix token
  show "runs (\<lambda>w. at_entry pl (address_of pl key_ref) (case Inr token of Inl _ \<Rightarrow> settled | Inr _ \<Rightarrow> preparing) w \<and>
        (\<forall>t. Inr token = Inr t \<longrightarrow> ct_address t = address_of pl key_ref))
      (guarded (intent_guard_drop sc token) (move_body sc m key key_ref (cs_tier snapshot) t ctx token))
      (\<lambda>_. at_entry pl (address_of pl key_ref) settled) (at_entry pl (address_of pl key_ref) settled)"
  proof (cases "ct_address token = address_of pl key_ref")
    case True
    show ?thesis
      by (rule runs_weaken [OF settles_guarded_intent [OF sc True runs_move_body [OF sc True]]]) auto
  qed (simp add: runs_def)
qed simp

lemma settles_promote_demote:
  assumes a: "\<And>key_ref. encode_key key ctx = Inr key_ref \<Longrightarrow> a = address_of pl key_ref"
    and sc: "leaves_entry pl a sc"
  shows "settles pl a (promote_op sc m key ctx)" "settles pl a (demote_op sc m key ctx)"
  unfolding promote_op_def demote_op_def
  using a sc by (auto intro!: settles_intros settles_aside(10) [OF sc] settles_move split: option.split)

lemma settles_get_or_fetch:
  assumes a: "\<And>key_ref. encode_key key ctx = Inr key_ref \<Longrightarrow> a = address_of pl key_ref"
    and sc: "leaves_entry pl a sc"
  shows "settles pl a (get_or_fetch_op sc m key ctx fetch)"
  unfolding get_or_fetch_op_def Let_def
  using a sc by (auto intro!: settles_try_pure settles_get_or_fetch_loop simp del: get_or_fetch_loop.simps)

lemma settlesD:
  assumes "settles pl a m" "at_entry pl a settled w" "fst (m w) \<noteq> Hung"
  shows "at_entry pl a settled (snd (m w))"
  using assms unfolding settles_def runs_def by (cases "m w"; cases "fst (m w)") auto

subsection \<open>The property\<close>

text \<open>A schedule on which nothing else runs, and one that drops the future at one suspension point.\<close>

definition quiet :: "'s schedule" where
  "quiet = \<lparr>sc_between = (\<lambda>_ w. w), sc_drop = (\<lambda>_. False), sc_timer = (\<lambda>_. False)\<rparr>"

definition drop_at :: "nat \<Rightarrow> 's schedule" where
  "drop_at n = quiet\<lparr>sc_drop := (\<lambda>k. k = n)\<rparr>"

lemma quiet_leaves_entry [simp]: "leaves_entry pl a quiet" "leaves_entry pl a (drop_at n)"
  by (simp_all add: leaves_entry_def quiet_def drop_at_def)

text \<open>A rung that never answers, and a world with two of them over an empty plane.\<close>

definition hanging_ops :: "(unit, 'v) tier_ops" where
  "hanging_ops =
     \<lparr>t_name = (\<lambda>_. []), t_backend = (\<lambda>_. BK_Test), t_capability = (\<lambda>_. default_capability BK_Test),
      t_eviction_candidate = default_eviction_candidate, t_capacity = default_tier_capacity,
      t_remove_if_address = default_remove_if_address, t_get = (\<lambda>_ _ s. (Hangs, s)),
      t_set = (\<lambda>_ _ _ _ s. (Hangs, s)), t_remove = (\<lambda>_ _ s. (Hangs, s)),
      t_contains = (\<lambda>_ _ s. (Hangs, s)), t_health = (\<lambda>_ _. default_health), t_tier_id = L0\<rparr>"

definition idle_world :: "'s list \<Rightarrow> 's world" where
  "idle_world stores =
     \<lparr>w_plane = demo_plane, w_registry = registry_new, w_stores = stores, w_cursor = 0, w_log = [],
      w_now = 0, w_step = 0\<rparr>"

definition demo_context :: cache_context where
  "demo_context = context_new \<lparr>principal = [115], roles = [], tenant = [116]\<rparr>"

lemma idle_world_settled: "at_entry AllToZero a settled (idle_world stores)"
  by (simp add: at_entry_def idle_world_def demo_plane_ok demo_plane_lookup)

lemma demo_key: "encode_key [107] demo_context = Ok [116, 0, 107]"
  by (simp add: encode_key_eq demo_context_def context_new_def MANAGER_MAX_KEY_SIZE_def TENANT_SEPARATOR_def)

lemma demo_auth: "check_auth demo_context = Ok ()"
  by (simp add: check_auth_def demo_context_def context_new_def context_authenticated_def
      identity_authenticated_def)

lemma demo_registry: "registry_tier_health registry_new L0 = default_health"
  by (simp add: registry_tier_health_def registry_new_def new_lock_def)

lemma demo_set_decision:
  "pd_tier (default_select (request_for OpSet [107] demo_context :: (bytes, 'v) cache_request)
     (from_snapshot absent_snapshot default_health) i) = L1"
  by (simp add: default_select_tier request_for_def demo_context_def context_new_def request_new_def
      from_snapshot_def absent_snapshot_def healthy_fallback_def capacity_fallback_def default_health_def
      health_circuit_open_def)

lemma tick_quiet [simp]:
  "tick quiet w = w\<lparr>w_step := Suc (w_step w)\<rparr>" "tick (drop_at n) w = w\<lparr>w_step := Suc (w_step w)\<rparr>"
  by (simp_all add: tick_def quiet_def drop_at_def)

text \<open>
  C4: No operation leaves a key claimed. Start from a key whose entry is absent or at rest: not owned,
  without an intent, neither in flight nor prepared. Let any operation of the manager run on it, over
  rungs that behave in any way, with the caller dropping the future at any suspension points, while
  other tasks do anything to other keys. Unless the operation waits for ever, the entry is at rest
  again when the operation returns or has been dropped.
\<close>

theorem no_operation_leaves_a_claim:
  assumes "encode_key key ctx = Ok key_ref" "a = address_of pl key_ref"
    and "leaves_entry pl a sc" "at_entry pl a settled w"
  shows "(fst (get_op sc m key ctx w) \<noteq> Hung \<longrightarrow> at_entry pl a settled (snd (get_op sc m key ctx w))) \<and>
    (fst (get_or_fetch_op sc m key ctx fetch w) \<noteq> Hung \<longrightarrow>
       at_entry pl a settled (snd (get_or_fetch_op sc m key ctx fetch w))) \<and>
    (fst (set_op sc m key v ctx w) \<noteq> Hung \<longrightarrow> at_entry pl a settled (snd (set_op sc m key v ctx w))) \<and>
    (fst (refresh_detailed sc m key ctx fetch w) \<noteq> Hung \<longrightarrow>
       at_entry pl a settled (snd (refresh_detailed sc m key ctx fetch w))) \<and>
    (fst (promote_op sc m key ctx w) \<noteq> Hung \<longrightarrow> at_entry pl a settled (snd (promote_op sc m key ctx w))) \<and>
    (fst (demote_op sc m key ctx w) \<noteq> Hung \<longrightarrow> at_entry pl a settled (snd (demote_op sc m key ctx w))) \<and>
    (fst (invalidate_op sc m key ctx w) \<noteq> Hung \<longrightarrow> at_entry pl a settled (snd (invalidate_op sc m key ctx w))) \<and>
    (fst (remove_op sc m key ctx w) \<noteq> Hung \<longrightarrow> at_entry pl a settled (snd (remove_op sc m key ctx w))) \<and>
    (fst (exists_op sc m key ctx w) \<noteq> Hung \<longrightarrow> at_entry pl a settled (snd (exists_op sc m key ctx w))) \<and>
    (fst (recover_older_than sc age w) \<noteq> Hung \<longrightarrow> at_entry pl a settled (snd (recover_older_than sc age w)))"
proof -
  have a: "a = address_of pl k" if "encode_key key ctx = Inr k" for k using assms(1,2) that by simp
  show ?thesis
    by (intro conjI impI settlesD [OF _ assms(4)])
       (simp_all add: settles_get [OF assms(3)] settles_get_or_fetch [OF a assms(3)]
          settles_set_op [OF a assms(3)] settles_refresh [OF a assms(3)]
          settles_promote_demote [OF a assms(3)] settles_simple_ops [OF assms(3)])
qed

theorem no_operation_leaves_a_claim_witness:
  "fst (set_op (drop_at 3) (manager_new default_select [hanging_ops, hanging_ops]) [107] (5 :: nat) demo_context
          (idle_world [(), ()])) = Dropped \<and>
   at_entry AllToZero (address_of AllToZero [116, 0, 107]) settled
     (snd (set_op (drop_at 3) (manager_new default_select [hanging_ops, hanging_ops]) [107] (5 :: nat) demo_context
          (idle_world [(), ()])))"
proof -
  let ?m = "manager_new default_select [hanging_ops, hanging_ops] :: (unit, nat) manager"
  let ?k = "[116, 0, 107] :: bytes"
  obtain tok p1 e1 where prep: "cp_prepare 0 ?k None L1 IK_Write demo_plane = (Ok tok, p1)"
    by (rule cp_prepare_ok [OF demo_plane_ok demo_plane_admits])
  have attempts: "MAX_COMMIT_ATTEMPTS = Suc 63" by (simp add: MAX_COMMIT_ATTEMPTS_def)
  have rung: "fst (set_rung (drop_at 3) ?m ?k 5 ttl L1 MAX_COMMIT_ATTEMPTS
      (idle_world [(), ()]\<lparr>w_step := 2\<rparr>)) = Dropped" for ttl
    unfolding attempts set_rung.simps
    by (simp add: bind_task_def plane_call_def idle_world_def prep guarded_def set_attempt_body_def
        observed_write_def bounded_def rung_set_def tier_call_def then_task_def suspend_def read_now_def read_backend_def
        Let_def drop_at_def tick_def quiet_def)
  have walk: "fst (set_walk (drop_at 3) ?m ?k 5 ttl L1 e (idle_world [(), ()]\<lparr>w_step := 2\<rparr>)) = Dropped" for ttl e
    using rung [of ttl]
    by (subst set_walk.simps)
       (auto simp: is_cache_rung_iff has_tier_def manager_new_def manager_with_timeout_def bind_task_def
          split: prod.split flow.split)
  have passes: "fst (set_passes (drop_at 3) ?m ?k 5 ttl L1 (Suc n) e (idle_world [(), ()]\<lparr>w_step := 2\<rparr>)) = Dropped"
    for ttl e n
    using walk [of ttl e] by (auto simp: bind_task_def split: prod.split flow.split)
  have peek: "plane_peek (drop_at 3) ?k (idle_world [(), ()]) =
      (Done (Ok absent_snapshot), idle_world [(), ()]\<lparr>w_step := Suc 0\<rparr>)"
    by (simp add: plane_peek_def plane_call_def idle_world_def Let_def cp_peek_None [OF demo_plane_ok] demo_plane_lookup)
  have res: "resolve_with_snapshot (drop_at 3) ?m (request_for OpSet [107] demo_context) demo_context absent_snapshot
      (idle_world [(), ()]\<lparr>w_step := Suc 0\<rparr>) =
      (Done (default_select (request_for OpSet [107] demo_context :: (bytes, nat) cache_request)
         (from_snapshot absent_snapshot default_health) (ctx_identity demo_context)), idle_world [(), ()]\<lparr>w_step := 2\<rparr>)"
    by (simp add: resolve_with_snapshot_def idle_world_def Let_def demo_registry absent_snapshot_def manager_new_def
        manager_with_timeout_def)
  have auth: "m_authority_tier ?m = L6"
    by (simp add: manager_new_def manager_with_timeout_def AUTHORITY_TIER_def)
  have "fst (set_op (drop_at 3) ?m [107] 5 demo_context (idle_world [(), ()])) = Dropped"
    using passes
    by (simp add: set_op_def demo_set_decision demo_key demo_auth try_Done [where m = "plane_peek _ _", OF peek]
        bind_Done [where m = "resolve_with_snapshot _ _ _ _ _", OF res] authorize_def auth
        del: set_passes.simps)
  then show ?thesis
    using no_operation_leaves_a_claim [OF demo_key refl quiet_leaves_entry(2) idle_world_settled,
        where m = ?m and v = "5 :: nat"] by simp
qed

end
