(* ===== verification/Manager_Safety.thy ===== *)
theory Manager_Safety
  imports Manager_Claims
begin

section \<open>What the manager never does\<close>

text \<open>
  Safety of the operations for every schedule and every backend: nothing writes the store of the
  authority rung, a refused caller changes nothing, a read never waits for ever, a read that is
  answered was still committed when it was checked again, and a value reported as fresh was fetched.
\<close>

subsection \<open>The authority rung\<close>

definition authority_is :: "'s \<Rightarrow> 's world \<Rightarrow> bool" where
  "authority_is s w \<longleftrightarrow> w_stores w ! AUTHORITY_RUNG_INDEX = s"

definition spares_authority :: "'s schedule \<Rightarrow> bool" where
  "spares_authority sc \<longleftrightarrow>
     (\<forall>n w. w_stores (sc_between sc n w) ! AUTHORITY_RUNG_INDEX = w_stores w ! AUTHORITY_RUNG_INDEX)"

text \<open>Reading the authority rung does not change it.\<close>

definition reads_purely :: "('s, 'v) tier_ops \<Rightarrow> bool" where
  "reads_purely ops \<longleftrightarrow>
     (\<forall>now k s. snd (t_get ops now k s) = s \<and> snd (t_contains ops now k s) = s)"

lemma steady_authority: "spares_authority sc \<Longrightarrow> steady sc (authority_is s)"
  by (simp add: steady_def blind_def authority_is_def spares_authority_def)

lemma cache_rung_index: "is_cache_rung t \<longleftrightarrow> as_usize t \<noteq> AUTHORITY_RUNG_INDEX"
  by (cases t) (simp_all add: is_cache_rung_def LAST_CACHE_RUNG_INDEX_def AUTHORITY_RUNG_INDEX_def)

lemma authority_plane [simp]: "authority_is s (w\<lparr>w_plane := p\<rparr>) \<longleftrightarrow> authority_is s w"
  by (simp add: authority_is_def)

lemma authority_plane_call: "spares_authority sc \<Longrightarrow> upholds (authority_is s) (plane_call sc f)"
  by (rule upholds_plane_call) (simp_all add: steady_authority)

lemma authority_tier_call:
  "spares_authority sc \<Longrightarrow> i \<noteq> AUTHORITY_RUNG_INDEX \<Longrightarrow> upholds (authority_is s) (tier_call sc i f)"
  by (rule upholds_tier_call) (simp_all add: steady_authority, simp add: authority_is_def)

lemma authority_rungs:
  assumes "spares_authority sc"
  shows "is_cache_rung t \<Longrightarrow> upholds (authority_is s) (rung_get sc m t key)"
    "is_cache_rung t \<Longrightarrow> upholds (authority_is s) (rung_set sc m t key v ttl)"
    "is_cache_rung t \<Longrightarrow> upholds (authority_is s) (rung_remove sc m (as_usize t) key)"
    "i \<noteq> AUTHORITY_RUNG_INDEX \<Longrightarrow> upholds (authority_is s) (rung_remove sc m i key)"
  unfolding rung_get_def rung_set_def rung_remove_def
  by (auto intro!: authority_tier_call [OF assms] simp: cache_rung_index)

lemma authority_reads:
  assumes "spares_authority sc" "reads_purely (m_tiers m ! AUTHORITY_RUNG_INDEX)"
  shows "upholds (authority_is s) (rung_get sc m t key)" "upholds (authority_is s) (rung_contains sc m t key)"
proof -
  have *: "upholds (authority_is s) (tier_call sc i f)"
    if "i = AUTHORITY_RUNG_INDEX \<Longrightarrow> \<forall>now x. snd (f now x) = x" for i and f :: "instant \<Rightarrow> 'a \<Rightarrow> 'c reply \<times> 'a"
  proof (cases "i = AUTHORITY_RUNG_INDEX")
    case True
    have "xs[j := xs ! j] ! j = xs ! j" for xs :: "'a list" and j by (simp add: list_update_id)
    with that True show ?thesis
      by (intro upholds_tier_call steady_authority assms(1)) (auto simp: authority_is_def)
  qed (rule authority_tier_call [OF assms(1)])
  show "upholds (authority_is s) (rung_get sc m t key)" "upholds (authority_is s) (rung_contains sc m t key)"
    unfolding rung_get_def rung_contains_def by (rule *, use assms(2) in \<open>simp add: reads_purely_def\<close>)+
qed

lemma authority_intent:
  assumes sc: "spares_authority sc"
  shows "upholds (authority_is s) (intent_guard_abort sc token e)"
    "upholds (authority_is s) (release_intent sc token e)"
    "authority_is s w \<Longrightarrow> authority_is s (intent_guard_drop sc token w)"
    "authority_is s w \<Longrightarrow> authority_is s (population_guard_drop sc key w)"
  unfolding intent_guard_abort_def release_intent_def intent_guard_abort_proven_clean_def
    intent_guard_drop_def population_guard_drop_def
  by (auto intro!: upholds_then authority_plane_call [OF sc] upholdsD [OF authority_plane_call [OF sc]])

lemma authority_set_rung:
  assumes sc: "spares_authority sc" and t: "is_cache_rung t"
  shows "upholds (authority_is s) (set_rung sc m key v ttl t n)"
proof (induction n)
  case (Suc n)
  have "upholds (authority_is s) (set_attempt_body sc m key v ttl t b token)" for b token
    unfolding set_attempt_body_def
    by (intro upheld authority_plane_call [OF sc] authority_rungs [OF sc] authority_intent [OF sc]
        steady_authority [OF sc] steady_blind [OF steady_authority [OF sc]] t)
  with Suc show ?case
    by (auto intro!: upholds_bind upholds_guarded authority_plane_call [OF sc] authority_intent [OF sc]
        split: sum.split set_attempt.split)
qed simp

lemma authority_set_walk:
  assumes "spares_authority sc"
  shows "upholds (authority_is s) (set_walk sc m key v ttl t e)"
  using assms
proof (induction sc m key v ttl t e rule: set_walk.induct)
  case (1 sc m key v ttl t e)
  then show ?case
    unfolding set_walk.simps [of sc m key v ttl t e]
    by (auto intro!: upholds_bind authority_set_rung split: rung_step.split)
qed

lemma authority_tier_sync:
  assumes "spares_authority sc" "is_cache_rung t"
  shows "upholds (authority_is s) (tier_sync sc (as_usize t) f)"
  by (rule upholds_tier_sync [OF steady_authority [OF assms(1)]])
     (use assms(2) in \<open>simp add: cache_rung_index authority_is_def\<close>)

lemma authority_try_evict:
  assumes sc: "spares_authority sc" and t: "is_cache_rung t"
  shows "upholds (authority_is s) (try_evict_at_rung sc m t n)"
  by (induction n)
     (auto intro!: upholds_bind authority_plane_call [OF sc] authority_tier_sync [OF sc t]
        split: option.split sum.split bool.split)

lemma authority_try_free:
  assumes "spares_authority sc"
  shows "\<forall>t\<in>set ts. is_cache_rung t \<Longrightarrow> upholds (authority_is s) (try_free_from sc m ts n)"
  by (induction ts arbitrary: n)
     (auto intro!: upholds_bind authority_try_evict [OF assms] split: prod.split)

lemma cache_ladder_rungs: "t \<in> set cache_ladder \<longleftrightarrow> is_cache_rung t"
  by (cases t) (simp_all add: cache_ladder_def is_cache_rung_def LAST_CACHE_RUNG_INDEX_def)

lemma authority_set_passes:
  assumes sc: "spares_authority sc"
  shows "upholds (authority_is s) (set_passes sc m key v ttl t n e)"
  by (induction n arbitrary: e)
     (auto intro!: upholds_bind authority_set_walk [OF sc] authority_try_free [OF sc]
        simp: try_free_somewhere_in_the_ladder_def cache_ladder_rungs split: prod.split option.split)

lemma authority_move:
  assumes sc: "spares_authority sc" and t: "is_cache_rung (cs_tier snapshot)" "is_cache_rung t"
  shows "upholds (authority_is s) (move_entry sc m key key_ref snapshot t ctx)"
proof -
  have "upholds (authority_is s) (move_body sc m key key_ref (cs_tier snapshot) t ctx token)" for token
    unfolding move_body_def
    by (intro upheld authority_plane_call [OF sc] authority_rungs [OF sc] authority_intent [OF sc]
        steady_authority [OF sc] steady_blind [OF steady_authority [OF sc]] t)
  then show ?thesis
    unfolding move_entry_def
    by (intro upholds_try upholds_guarded authority_plane_call authority_intent sc)
qed

text \<open>The operations that write, whatever the rungs do.\<close>

lemma authority_writers:
  assumes sc: "spares_authority sc"
  shows "upholds (authority_is s) (set_op sc m key v ctx)"
    "upholds (authority_is s) (invalidate_op sc m key ctx)"
    "upholds (authority_is s) (remove_op sc m key ctx)"
    "upholds (authority_is s) (promote_op sc m key ctx)"
    "upholds (authority_is s) (demote_op sc m key ctx)"
proof -
  show "upholds (authority_is s) (set_op sc m key v ctx)"
    unfolding set_op_def
    by (auto intro!: upholds_try upholds_try_pure upholds_bind upholds_peek upholds_resolve steady_authority [OF sc]
        authority_set_passes [OF sc] simp del: set_passes.simps)
  show "upholds (authority_is s) (invalidate_op sc m key ctx)"
    unfolding invalidate_op_def by (auto intro!: upholds_try upholds_try_pure authority_plane_call [OF sc])
  have "upholds (authority_is s) (remove_from_rungs sc m key_ref is)" for key_ref "is"
    by (induction "is")
       (auto intro!: upholds_then upholds_unbounded authority_rungs [OF sc] simp: AUTHORITY_RUNG_INDEX_def)
  then show "upholds (authority_is s) (remove_op sc m key ctx)"
    unfolding remove_op_def
    by (auto intro!: upholds_then upholds_try upholds_try_pure authority_plane_call [OF sc])
  have "is_cache_rung t'" if "is_cache_rung t" "from_usize (as_usize t - 1) = Some t'" for t t'
    using that by (cases t) (auto simp: from_usize_def is_cache_rung_def LAST_CACHE_RUNG_INDEX_def)
  note up = this [unfolded One_nat_def]
  show "upholds (authority_is s) (promote_op sc m key ctx)"
    unfolding promote_op_def
    by (auto intro!: upholds_try upholds_try_pure upholds_peek steady_authority [OF sc]
        authority_move [OF sc] intro: up split: option.split)
  have down: "is_cache_rung t'" if "\<not> LAST_CACHE_TIER \<le> t" "from_usize (Suc (as_usize t)) = Some t'" for t t'
    using that
    by (cases t) (auto simp: from_usize_def is_cache_rung_def LAST_CACHE_RUNG_INDEX_def LAST_CACHE_TIER_def
        less_eq_tier_id_def)
  show "upholds (authority_is s) (demote_op sc m key ctx)"
    unfolding demote_op_def
    by (auto intro!: upholds_try upholds_try_pure upholds_peek steady_authority [OF sc]
        authority_move [OF sc] intro: down split: option.split)
qed

text \<open>The operations that read or populate, when reading the authority does not change it.\<close>

lemma nearest_from_eq:
  assumes "n \<le> LAST_CACHE_RUNG_INDEX"
  shows "nearest_from m n =
    (if m_tiers m = [] then None else from_usize (min n (length (m_tiers m) - 1)))"
  using assms
proof (induction n)
  case 0
  show ?case by (simp add: from_index_def from_usize_def has_tier_def)
next
  case (Suc n)
  have "Suc n \<in> {1, 2, 3, 4, 5}" using Suc.prems by (auto simp: LAST_CACHE_RUNG_INDEX_def)
  then have c: "unat (word_of_nat (Suc n) :: u8) = Suc n" "Suc n < 7" "Suc n < 256" by auto
  obtain t where t: "from_usize (Suc n) = Some t" "as_usize t = Suc n"
    using \<open>Suc n \<in> {1, 2, 3, 4, 5}\<close> by (auto simp: from_usize_def)
  have "nearest_from m n = (if m_tiers m = [] then None else from_usize (min n (length (m_tiers m) - 1)))"
    using Suc by simp
  with c t show ?case
    by (subst nearest_from.simps) (auto simp: from_index_def has_tier_def simp del: of_nat_Suc nearest_from.simps)
qed

lemma nearest_bound_rung_cache:
  assumes "nearest_bound_rung m wanted = Some t"
  shows "is_cache_rung t" "has_tier m t"
proof -
  have w: "as_usize wanted \<le> LAST_CACHE_RUNG_INDEX"
    using assms by (auto simp: nearest_bound_rung_def is_cache_rung_def split: if_splits)
  with assms nearest_from_eq [OF w, of m] have "m_tiers m \<noteq> []" "as_usize t = min (as_usize wanted) (length (m_tiers m) - 1)"
    by (auto simp: nearest_bound_rung_def dest!: sym [THEN from_usize_SomeD] split: if_splits simp del: nearest_from.simps)
  with w show "is_cache_rung t" "has_tier m t"
    by (cases "m_tiers m"; simp add: is_cache_rung_def has_tier_def min_def)+
qed

lemma authority_populate:
  fixes sc :: "'s schedule"
  assumes sc: "spares_authority sc" and pure: "reads_purely (m_tiers m ! AUTHORITY_RUNG_INDEX)"
  shows "upholds (authority_is s) (become_population_owner sc m key key_ref g ctx decision fetch)"
proof -
  note st = steady_authority [OF sc, of s]
  note bl = steady_blind [OF st]
  note get = authority_reads(1) [OF sc pure]
  have "upholds (authority_is s) (populate_once sc m key key_ref g ctx fetch decision)"
    unfolding populate_once_def
    by (auto intro!: upholds_try upholds_try_pure upholds_bind upholds_then upholds_bounded upholds_fetch_call
        upholds_observed upholds_record_outcome authority_rungs [OF sc] authority_plane_call [OF sc] st bl
        simp: nearest_bound_rung_cache split: option.split)
  moreover have "upholds (authority_is s) (population_failed sc m key_ref decision e)" for e
    unfolding population_failed_def
    by (intro upholds_bind upholds_then upholds_read_now upholds_read_backend upholds_emit upholds_ret authority_plane_call [OF sc] bl)
  ultimately have "upholds (authority_is s) (populate_loop sc m key key_ref g ctx decision fetch n backoff)" for n backoff
    by (induction n arbitrary: backoff) (auto intro!: upholds_bind upholds_then upholds_sleep st split: sum.split)
  moreover have "upholds (authority_is s) (try_fallback_from sc m key_ref cause ts)" for key_ref cause ts
    by (induction ts)
       (auto intro!: upholds_bind upholds_then upholds_bounded upholds_circuit_read upholds_observed get st bl
          split: sum.split option.split)
  ultimately show ?thesis
    unfolding become_population_owner_def try_fallback_tier_def
    by (auto intro!: upholds_bind upholds_guarded upholds_try_pure authority_intent [OF sc] split: sum.split)
qed

lemma authority_readers:
  fixes sc :: "'s schedule"
  assumes sc: "spares_authority sc" and pure: "reads_purely (m_tiers m ! AUTHORITY_RUNG_INDEX)"
  shows "upholds (authority_is s) (get_op sc m key ctx)" "upholds (authority_is s) (exists_op sc m key ctx)"
    "upholds (authority_is s) (get_or_fetch_op sc m key ctx fetch)"
    "upholds (authority_is s) (refresh_detailed sc m key ctx fetch)"
proof -
  note st = steady_authority [OF sc, of s]
  note bl = steady_blind [OF st]
  note get = authority_reads(1) [OF sc pure] and own = authority_populate [OF sc pure]
  note steps = upholds_try upholds_try_pure upholds_bind upholds_then upholds_bounded upholds_observed
    upholds_record_outcome upholds_peek upholds_read_now upholds_wait authority_plane_call [OF sc] st bl get own
  show "upholds (authority_is s) (get_op sc m key ctx)"
    unfolding get_op_def get_ready_def get_waiting_def Let_def
    by (auto intro!: steps split: sum.split option.split)
  show "upholds (authority_is s) (exists_op sc m key ctx)"
    unfolding exists_op_def by (auto intro!: steps authority_reads(2) [OF sc pure])
  have wg: "upholds (authority_is s) (wait_and_get sc m key ctx)"
    unfolding wait_and_get_def by (auto intro!: steps split: option.split)
  have "upholds (authority_is s) (get_or_fetch_loop sc m key key_ref ctx decision fetch n)" for key_ref decision n
    by (induction n)
       (auto intro!: steps wg simp: reclaim_expired_def dispatch_claim_def fetch_fast_path_def
          split: sum.split option.split)
  then show "upholds (authority_is s) (get_or_fetch_op sc m key ctx fetch)"
    unfolding get_or_fetch_op_def Let_def by (auto intro!: steps simp del: get_or_fetch_loop.simps)
  show "upholds (authority_is s) (refresh_detailed sc m key ctx fetch)"
    unfolding refresh_detailed_def refresh_current_def Let_def by (auto intro!: steps split: sum.split)
qed

text \<open>A rung over a plain map, for concrete runs.\<close>

definition ideal_ops :: "(bytes \<rightharpoonup> 'v, 'v) tier_ops" where
  "ideal_ops =
     \<lparr>t_name = (\<lambda>_. []), t_backend = (\<lambda>_. BK_Test), t_capability = (\<lambda>_. default_capability BK_Test),
      t_eviction_candidate = default_eviction_candidate, t_capacity = default_tier_capacity,
      t_remove_if_address = default_remove_if_address, t_get = (\<lambda>_ k s. (Returns (Ok (s k)), s)),
      t_set = (\<lambda>_ k v _ s. (Returns (Ok ()), s(k \<mapsto> v))),
      t_remove = (\<lambda>_ k s. (Returns (Ok ()), s(k := None))),
      t_contains = (\<lambda>_ k s. (Returns (Ok (s k \<noteq> None)), s)), t_health = (\<lambda>_ _. default_health),
      t_tier_id = L0\<rparr>"

lemma quiet_spares: "spares_authority quiet" "spares_authority (drop_at n)"
  by (simp_all add: spares_authority_def quiet_def drop_at_def)

text \<open>
  C5: Nothing writes the authority. No write, invalidation, removal, promotion or demotion changes
  the store of the authority rung, whatever the policy answers, the rungs do, the caller cancels and
  other tasks do to the rest of the world; and no read, probe, population or refresh does either, as
  long as reading that rung does not change it.
\<close>

theorem authority_never_written:
  assumes "spares_authority sc"
  shows "w_stores (snd (set_op sc m key v ctx w)) ! AUTHORITY_RUNG_INDEX = w_stores w ! AUTHORITY_RUNG_INDEX \<and>
    w_stores (snd (invalidate_op sc m key ctx w)) ! AUTHORITY_RUNG_INDEX = w_stores w ! AUTHORITY_RUNG_INDEX \<and>
    w_stores (snd (remove_op sc m key ctx w)) ! AUTHORITY_RUNG_INDEX = w_stores w ! AUTHORITY_RUNG_INDEX \<and>
    w_stores (snd (promote_op sc m key ctx w)) ! AUTHORITY_RUNG_INDEX = w_stores w ! AUTHORITY_RUNG_INDEX \<and>
    w_stores (snd (demote_op sc m key ctx w)) ! AUTHORITY_RUNG_INDEX = w_stores w ! AUTHORITY_RUNG_INDEX \<and>
    (reads_purely (m_tiers m ! AUTHORITY_RUNG_INDEX) \<longrightarrow>
       w_stores (snd (get_op sc m key ctx w)) ! AUTHORITY_RUNG_INDEX = w_stores w ! AUTHORITY_RUNG_INDEX \<and>
       w_stores (snd (exists_op sc m key ctx w)) ! AUTHORITY_RUNG_INDEX = w_stores w ! AUTHORITY_RUNG_INDEX \<and>
       w_stores (snd (get_or_fetch_op sc m key ctx fetch w)) ! AUTHORITY_RUNG_INDEX =
         w_stores w ! AUTHORITY_RUNG_INDEX \<and>
       w_stores (snd (refresh_detailed sc m key ctx fetch w)) ! AUTHORITY_RUNG_INDEX =
         w_stores w ! AUTHORITY_RUNG_INDEX)"
proof -
  note keep = upholdsD [where I = "authority_is (w_stores w ! AUTHORITY_RUNG_INDEX)" and w = w,
      unfolded authority_is_def [of _ w] authority_is_def [of _ "snd _"], OF _ refl]
  show ?thesis
    by (intro conjI impI keep authority_writers [OF assms] authority_readers [OF assms]) assumption+
qed

theorem authority_never_written_witness:
  "spares_authority (drop_at 3) \<and>
   w_stores (snd (set_op (drop_at 3) (manager_new default_select (replicate 7 ideal_ops)) [107] (5 :: nat)
     demo_context (idle_world (replicate 7 Map.empty)))) ! AUTHORITY_RUNG_INDEX = Map.empty"
  using authority_never_written [OF quiet_spares(2) [of 3], where w = "idle_world (replicate 7 Map.empty)"
      and m = "manager_new default_select (replicate 7 ideal_ops)" and key = "[107]" and v = "5 :: nat"
      and ctx = demo_context]
  by (simp add: quiet_spares idle_world_def AUTHORITY_RUNG_INDEX_def)

subsection \<open>Operations end\<close>

text \<open>
  A hung backend suspends for ever only a caller that awaits it without a bound. Everything else a
  task does ends.
\<close>

definition removals_answer :: "('s, 'v) manager \<Rightarrow> bool" where
  "removals_answer m \<longleftrightarrow>
     (\<forall>i < length (m_tiers m). \<forall>now k s. fst (t_remove (m_tiers m ! i) now k s) \<noteq> Hangs)"

lemma completes_primitives [simp]:
  "completes (plane_call sc f)" "completes (plane_peek sc key)" "completes (registry_call sc g)"
  "completes (suspend sc)" "completes (tier_sync sc i h)" "completes read_now" "completes (read_backend m t)" "completes (emit r)"
  "completes (let_time_pass d)" "completes (enable_notified sc key)"
  "completes (resolve_with_snapshot sc m request ctx snapshot)"
  "completes (\<lambda>w0. let w = tick sc w0 in (Done (registry_circuit_open (w_registry w) t), w))"
  by (simp_all add: completes_def plane_call_def plane_peek_def registry_call_def suspend_def tier_sync_def
      read_now_def read_backend_def emit_def let_time_pass_def enable_notified_def resolve_with_snapshot_def Let_def
      case_prod_unfold)

lemma completes_tier_call [simp]: "completes (tier_call sc i f)"
  unfolding tier_call_def
  by (intro completes_bind completes_then) (simp_all add: completes_def case_prod_unfold suspend_def ret_def)

lemma completes_rungs [simp]:
  "completes (rung_get sc m t key)" "completes (rung_set sc m t key v ttl)" "completes (rung_remove sc m i key)"
  "completes (rung_contains sc m t key)"
  by (simp_all add: rung_get_def rung_set_def rung_remove_def rung_contains_def)

lemma completes_bounded [simp]: "completes fut \<Longrightarrow> completes (bounded m fut)"
  unfolding bounded_def by (intro completes_bind) (auto intro!: completes_then split: reply.split)

lemma completes_observed [simp]:
  "completes fut \<Longrightarrow> completes (observed_read sc m op key t fut)"
  "completes fut' \<Longrightarrow> completes (observed_write sc m op key t fut')"
  "completes (observed_control_only op key t started out)" "completes (record_fallback m key t cause)"
  "completes (record_telemetry_refresh_failure key snapshot cause)"
  unfolding observed_read_def observed_write_def observed_control_only_def record_fallback_def
    record_telemetry_refresh_failure_def Let_def
  by (intro completes_bind completes_then; simp)+

lemma completes_record_outcome [simp]: "completes (record_outcome sc t r)"
  by (simp add: record_outcome_def split: sum.split)

lemma completes_wait [simp]: "completes (wait_for_population sc m key)"
proof -
  have "completes (\<lambda>w. if n < notified_count key w \<and> \<not> sc_timer sc (w_step w) then (Done (Ok ()), w)
      else then_task (let_time_pass (m_wait_timeout m)) (ret (Err Timeout)) w)" for n
    by (simp add: completes_def then_task_def bind_task_def let_time_pass_def ret_def)
  then have "completes (await_notified sc m key n)" for n
    unfolding await_notified_def by (intro completes_then) simp_all
  then show ?thesis
    unfolding wait_for_population_def by (auto intro!: completes_bind split: sum.split)
qed

lemma completes_populate [simp]: "completes (become_population_owner sc m key key_ref g ctx decision fetch)"
proof -
  have fetch: "completes (fetch_call sc fetch)"
    unfolding fetch_call_def by (intro completes_bind completes_then) (simp_all add: completes_def suspend_def ret_def)
  have "completes (populate_once sc m key key_ref g ctx fetch decision)"
    unfolding populate_once_def
    by (auto intro!: completes_try completes_try_pure completes_bind completes_then completes_bounded fetch
        split: option.split)
  moreover have "completes (population_failed sc m key_ref decision e)" for e
    unfolding population_failed_def by (intro completes_bind completes_then) simp_all
  ultimately have "completes (populate_loop sc m key key_ref g ctx decision fetch n backoff)" for n backoff
    by (induction n arbitrary: backoff)
       (auto intro!: completes_bind completes_then simp: sleep_def split: sum.split)
  moreover have "completes (try_fallback_from sc m key_ref cause ts)" for key_ref cause ts
    by (induction ts) (auto intro!: completes_bind completes_then split: sum.split option.split)
  ultimately show ?thesis
    unfolding become_population_owner_def try_fallback_tier_def
    by (auto intro!: completes_bind completes_guarded completes_try_pure split: sum.split)
qed

lemma completes_readers:
  "completes (get_op sc m key ctx)" "completes (exists_op sc m key ctx)"
  "completes (invalidate_op sc m key ctx)" "completes (get_or_fetch_op sc m key ctx fetch)"
  "completes (refresh_detailed sc m key ctx fetch)" "completes (recover_older_than sc age)"
proof -
  show "completes (get_op sc m key ctx)"
    unfolding get_op_def get_ready_def get_waiting_def Let_def
    by (auto intro!: completes_intros split: sum.split option.split)
  show "completes (exists_op sc m key ctx)" "completes (invalidate_op sc m key ctx)"
    unfolding exists_op_def invalidate_op_def by (auto intro!: completes_intros)
  have wg: "completes (wait_and_get sc m key ctx)"
    unfolding wait_and_get_def by (auto intro!: completes_intros split: option.split)
  have "completes (get_or_fetch_loop sc m key key_ref ctx decision fetch n)" for key_ref decision n
    by (induction n)
       (auto intro!: completes_intros wg simp: reclaim_expired_def dispatch_claim_def fetch_fast_path_def
          split: sum.split option.split)
  then show "completes (get_or_fetch_op sc m key ctx fetch)"
    unfolding get_or_fetch_op_def Let_def by (auto intro!: completes_intros simp del: get_or_fetch_loop.simps)
  show "completes (refresh_detailed sc m key ctx fetch)"
    unfolding refresh_detailed_def refresh_current_def Let_def by (auto intro!: completes_intros split: sum.split)
  have "completes (recover_all sc intents report)" for intents report
    by (induction intents arbitrary: report) (auto intro!: completes_bind simp: Let_def split: intent_kind.split)
  then show "completes (recover_older_than sc age)"
    unfolding recover_older_than_def by (intro completes_bind) simp_all
qed

lemma completes_unbounded_remove:
  assumes "removals_answer m" "i < length (m_tiers m)"
  shows "completes (unbounded (rung_remove sc m i key))"
  unfolding completes_def
proof
  fix w
  have "r \<noteq> Hangs" if "rung_remove sc m i key w = (Done r, w')" for r w'
    using that assms unfolding rung_remove_def tier_call_def
    by (elim then_DoneE bind_DoneE)
       (auto simp: removals_answer_def ret_def case_prod_unfold suspend_def split: if_splits)
  moreover have "fst (rung_remove sc m i key w) \<noteq> Hung" by (rule completesD) simp
  ultimately show "fst (unbounded (rung_remove sc m i key) w) \<noteq> Hung"
    unfolding unbounded_def
    by (auto simp: bind_task_def ret_def split: prod.split flow.split reply.split)
qed

lemma completes_abort [simp]:
  "completes (intent_guard_abort sc token e)" "completes (release_intent sc token e)"
  unfolding intent_guard_abort_def release_intent_def intent_guard_abort_proven_clean_def
  by (auto intro!: completes_then)

lemma completes_set_rung:
  assumes "removals_answer m" "has_tier m t"
  shows "completes (set_rung sc m k v ttl t n)"
proof -
  have "completes (set_attempt_body sc m k v ttl t b token)" for b token
    using assms unfolding set_attempt_body_def has_tier_def
    by (auto intro!: completes_bind completes_then completes_unbounded_remove split: sum.split)
  then show ?thesis
    by (induction n) (auto intro!: completes_bind completes_guarded split: sum.split set_attempt.split)
qed

lemma completes_set_walk:
  assumes "removals_answer m"
  shows "completes (set_walk sc m k v ttl t e)"
  using assms
proof (induction sc m k v ttl t e rule: set_walk.induct)
  case (1 sc m k v ttl t e)
  then show ?case
    unfolding set_walk.simps [of sc m k v ttl t e]
    by (auto intro!: completes_bind completes_set_rung split: rung_step.split)
qed

lemma completes_try_free [simp]: "completes (try_free_from sc m ts n)"
proof -
  have "completes (try_evict_at_rung sc m t n)" for t n
    by (induction n) (auto intro!: completes_bind split: option.split sum.split bool.split)
  then show ?thesis by (induction ts arbitrary: n) (auto intro!: completes_bind split: prod.split)
qed

lemma completes_set_op:
  assumes "removals_answer m"
  shows "completes (set_op sc m key v ctx)"
proof -
  have "completes (set_passes sc m k v ttl t n e)" for k ttl t n e
    by (induction n arbitrary: e)
       (auto intro!: completes_bind completes_set_walk [OF assms]
          simp: try_free_somewhere_in_the_ladder_def split: prod.split option.split)
  then show ?thesis
    unfolding set_op_def by (auto intro!: completes_intros simp del: set_passes.simps)
qed

lemma completes_writers:
  assumes "removals_answer m"
  shows "completes (remove_op sc m key ctx)" "completes (promote_op sc m key ctx)"
    "completes (demote_op sc m key ctx)"
proof -
  note rem = completes_unbounded_remove [OF assms]
  have "completes (remove_from_rungs sc m k is)" if "\<forall>i\<in>set is. i < length (m_tiers m)" for k "is"
    using that by (induction "is") (auto intro!: completes_then rem)
  then show "completes (remove_op sc m key ctx)"
    unfolding remove_op_def by (auto intro!: completes_intros)
  have move: "completes (move_entry sc m key k snapshot t ctx)" for k snapshot t
    unfolding move_entry_def move_body_def has_tier_def
    by (auto intro!: completes_intros rem split: sum.split option.split)
  show "completes (promote_op sc m key ctx)" "completes (demote_op sc m key ctx)"
    unfolding promote_op_def demote_op_def by (auto intro!: completes_intros move split: option.split)
qed

text \<open>
  C13: Every operation ends, with hung backends too. Whatever the rungs and the caller's fetch do,
  a read, a population, a refresh, a probe, an invalidation and a recovery pass return or are
  dropped; they never wait for ever. Writes, removals and moves do as well provided that no rung's
  \<open>remove\<close> hangs, and that proviso is needed: \<open>remove\<close> on a manager with one hung rung never returns.
\<close>

theorem operations_end:
  "fst (get_op sc m key ctx w) \<noteq> Hung \<and> fst (get_or_fetch_op sc m key ctx fetch w) \<noteq> Hung \<and>
   fst (refresh_detailed sc m key ctx fetch w) \<noteq> Hung \<and> fst (exists_op sc m key ctx w) \<noteq> Hung \<and>
   fst (invalidate_op sc m key ctx w) \<noteq> Hung \<and> fst (recover_older_than sc age w) \<noteq> Hung \<and>
   (removals_answer m \<longrightarrow>
      fst (set_op sc m key v ctx w) \<noteq> Hung \<and> fst (remove_op sc m key ctx w) \<noteq> Hung \<and>
      fst (promote_op sc m key ctx w) \<noteq> Hung \<and> fst (demote_op sc m key ctx w) \<noteq> Hung) \<and>
   fst (remove_op quiet (manager_new default_select [hanging_ops]) [107] demo_context (idle_world [()])) = Hung"
proof -
  have "fst (remove_op quiet (manager_new default_select [hanging_ops]) [107] demo_context (idle_world [()])) = Hung"
    by (simp add: remove_op_def demo_key demo_auth authorize_def resolve_def manager_new_def
        manager_with_timeout_def then_task_def bind_task_def unbounded_def rung_remove_def tier_call_def
        suspend_def hanging_ops_def idle_world_def quiet_def ret_def tick_def)
  then show ?thesis
    by (simp add: completesD completes_readers completes_set_op completes_writers)
qed

theorem operations_end_witness:
  "removals_answer (manager_new default_select [ideal_ops] :: (bytes \<rightharpoonup> nat, nat) manager) \<and>
   fst (set_op (drop_at 9) (manager_new default_select [ideal_ops]) [107] (5 :: nat) demo_context
     (idle_world [Map.empty])) \<noteq> Hung"
proof -
  have "removals_answer (manager_new default_select [ideal_ops] :: (bytes \<rightharpoonup> nat, nat) manager)"
    by (simp add: removals_answer_def manager_new_def manager_with_timeout_def ideal_ops_def)
  with operations_end [where m = "manager_new default_select [ideal_ops] :: (bytes \<rightharpoonup> nat, nat) manager"
      and sc = "drop_at 9" and key = "[107]" and ctx = demo_context and v = 5 and w = "idle_world [Map.empty]"]
  show ?thesis by blast
qed

subsection \<open>What an answer says\<close>

text \<open>A bounded or observed read that is answered was answered by the rung.\<close>

definition rung_holds :: "('s, 'v) manager \<Rightarrow> tier_id \<Rightarrow> bytes \<Rightarrow> 's world \<Rightarrow> 'v option \<Rightarrow> bool" where
  "rung_holds m t key w x \<longleftrightarrow>
     has_tier m t \<and> fst (t_get (m_tiers m ! as_usize t) (w_now w) key (w_stores w ! as_usize t)) = Returns (Ok x)"

lemma bounded_get_answered:
  assumes "bounded m (rung_get sc m t key) w = (Done (Ok x), w')" "has_tier m t"
  shows "rung_holds m t key (tick sc w) x"
  using assms(1) unfolding bounded_def
proof (rule bind_DoneE)
  fix r w1
  assume g: "rung_get sc m t key w = (Done r, w1)"
    and r: "(case r of Returns x \<Rightarrow> ret x
      | Hangs \<Rightarrow> then_task (let_time_pass (m_wait_timeout m)) (ret (Err Timeout))) w1 = (Done (Ok x), w')"
  have "r = fst (t_get (m_tiers m ! as_usize t) (w_now (tick sc w)) key (w_stores (tick sc w) ! as_usize t))"
    using g unfolding rung_get_def tier_call_def
    by (elim then_DoneE bind_DoneE) (auto simp: ret_def case_prod_unfold suspend_def split: if_splits)
  with r assms(2) show ?thesis
    by (auto simp: rung_holds_def ret_def then_task_def bind_task_def let_time_pass_def split: reply.splits)
qed

lemma observed_get_answered:
  assumes "observed_read sc m op key t (rung_get sc m t key) w = (Done (Ok x), w')" "has_tier m t"
  shows "rung_holds m t key (tick sc w) x"
  using assms(1) unfolding observed_read_def Let_def
  by (elim bind_DoneE then_DoneE)
     (auto simp: ret_def read_now_def read_backend_def intro: bounded_get_answered [OF _ assms(2)])

lemma get_ready_answered:
  assumes "get_ready sc m key snapshot started w = (Done (Ok x), w')"
  shows "rung_holds m (cs_tier snapshot) key (tick sc w) x \<and>
    (\<forall>after. cp_peek (w_now w') key (w_plane w') = Ok after \<longrightarrow> cs_state after = Ready)"
proof (cases "has_tier m (cs_tier snapshot)")
  case False
  with assms show ?thesis
    by (auto simp: get_ready_def ret_def elim!: then_DoneE)
next
  case True
  from assms obtain r w1 where r: "observed_read sc m Tel_Get key (cs_tier snapshot)
      (rung_get sc m (cs_tier snapshot) key) w = (Done r, w1)"
    and rest: "then_task (record_outcome sc (cs_tier snapshot) r)
      (if is_ok r
       then bind_task (plane_peek sc key) (\<lambda>p.
         case p of Inr after \<Rightarrow> if cs_state after \<noteq> Ready then ret (Err Miss) else ret r | Inl _ \<Rightarrow> ret r)
       else ret r) w1 = (Done (Ok x), w')"
    unfolding get_ready_def using True by (auto elim!: bind_DoneE)
  from rest show ?thesis
  proof (rule then_DoneE)
    fix y w2
    assume last: "(if is_ok r
       then bind_task (plane_peek sc key) (\<lambda>p.
         case p of Inr after \<Rightarrow> if cs_state after \<noteq> Ready then ret (Err Miss) else ret r | Inl _ \<Rightarrow> ret r)
       else ret r) w2 = (Done (Ok x), w')"
    from last have "r = Ok x \<and> (\<forall>after. cp_peek (w_now w') key (w_plane w') = Ok after \<longrightarrow> cs_state after = Ready)"
      by (auto simp: ret_def plane_peek_def plane_call_def Let_def is_ok_def split: if_splits sum.splits elim!: bind_DoneE)
    with r True show ?thesis using observed_get_answered by blast
  qed
qed

lemma plane_peek_eq: "plane_peek sc key w = (Done (cp_peek (w_now (tick sc w)) key (w_plane (tick sc w))), tick sc w)"
  by (simp add: plane_peek_def plane_call_def Let_def)

lemma get_waiting_answered:
  assumes "get_waiting sc m key w = (Done (Ok x), w')"
  obtains v s where "wait_for_population sc m key w = (Done (Ok ()), v)"
    "cp_peek (w_now (tick sc v)) key (w_plane (tick sc v)) = Ok s" "cs_state s = Ready" "cs_last_error s = None"
    "rung_holds m (cs_tier s) key (tick sc (tick sc v)) x"
proof -
  from assms obtain v s where v: "wait_for_population sc m key w = (Done (Ok ()), v)"
    and s: "cp_peek (w_now (tick sc v)) key (w_plane (tick sc v)) = Ok s" "cs_state s = Ready" "cs_last_error s = None"
    and t: "has_tier m (cs_tier s)"
    and read: "bind_task (observed_read sc m Tel_Get key (cs_tier s) (rung_get sc m (cs_tier s) key)) (\<lambda>result.
        then_task (record_outcome sc (cs_tier s) result) (ret result)) (tick sc v) = (Done (Ok x), w')"
    unfolding get_waiting_def
    by (auto simp: plane_peek_eq ret_def elim!: try_DoneE split: option.splits if_splits)
  from read obtain w1 where "observed_read sc m Tel_Get key (cs_tier s) (rung_get sc m (cs_tier s) key) (tick sc v) =
      (Done (Ok x), w1)"
    by (auto simp: ret_def elim!: bind_DoneE then_DoneE)
  from that [OF v s observed_get_answered [OF this t]] show thesis .
qed

text \<open>A population that reports success fetched the value it returns.\<close>

definition fetched :: "'v fetch \<Rightarrow> 'v \<Rightarrow> bool" where
  "fetched fetch v \<longleftrightarrow> (\<exists>n. fetch n = Returns (Ok v))"

lemma populate_once_fetched:
  assumes "populate_once sc m key key_ref g ctx fetch decision w = (Done (Ok v), w')"
  shows "fetched fetch v"
proof -
  have "fetched fetch x" if "bounded m (fetch_call sc fetch) w = (Done (Inr x), w1)" for x w1
    using that unfolding bounded_def fetch_call_def fetched_def
    by (elim bind_DoneE then_DoneE)
       (auto simp: ret_def suspend_def then_task_def bind_task_def let_time_pass_def split: reply.splits if_splits)
  with assms show ?thesis
    unfolding populate_once_def
    by (auto simp: ret_def try_pure_def elim!: try_DoneE bind_DoneE then_DoneE
        split: option.splits if_splits sum.splits)
qed

lemma populate_loop_fetched:
  "populate_loop sc m key key_ref g ctx decision fetch n backoff w = (Done (b, Ok v), w') \<Longrightarrow> fetched fetch v"
proof (induction n arbitrary: backoff w)
  case 0
  then show ?case
    by (auto simp: population_failed_def ret_def elim!: bind_DoneE then_DoneE split: sum.splits
        intro: populate_once_fetched)
next
  case (Suc n)
  from Suc.prems show ?case
    by (auto simp: population_failed_def ret_def elim!: bind_DoneE then_DoneE split: sum.splits if_splits
        intro: populate_once_fetched Suc.IH)
qed

lemma closed_population_fetched:
  assumes "become_population_owner sc m key key_ref g ctx decision fetch w = (Done (Ok v), w')"
    and "pd_fail_mode decision = FailClosed"
  shows "fetched fetch v"
proof -
  have "\<exists>b w1. populate_loop sc m key key_ref g ctx decision fetch (MAX_POPULATE_ATTEMPTS - 1) RETRY_BASE_BACKOFF w =
      (Done (b, Ok v), w1)"
    using assms unfolding become_population_owner_def guarded_def
    by (auto simp: ret_def elim!: bind_DoneE split: sum.splits if_splits prod.splits flow.splits)
  then show ?thesis by (elim exE) (rule populate_loop_fetched)
qed

lemmas refreshed_fetched =
  closed_population_fetched [where decision = "d\<lparr>pd_fail_mode := FailClosed\<rparr>" for d, simplified]

lemma refresh_current_answered:
  assumes "refresh_current sc m key before w = (Done (Some v), w')"
  shows "is_readable (cs_state before) \<and> rung_holds m (cs_tier before) key (tick sc w) (Some v)"
  using assms
  by (auto simp: refresh_current_def ret_def elim!: bind_DoneE split: if_splits sum.splits
      intro: bounded_get_answered)

text \<open>
  C21: A caller who is not authenticated changes nothing. Every operation answers an error before it
  looks at the control plane, a rung or the breakers, for every key. The error is \<open>Unauthenticated\<close>,
  with one exception: \<open>get\<close> frames the key before it checks the caller, so for a key that cannot be
  framed it answers the framing error and records nothing. A refused read of a key that can be
  framed leaves one telemetry record; every other refusal leaves the world as it was.
\<close>

theorem unauthenticated_changes_nothing:
  assumes "\<not> context_authenticated ctx"
  shows "(case encode_key key ctx of
      Inl e \<Rightarrow> get_op sc m key ctx w = (Done (Err e), w)
    | Inr k \<Rightarrow> (\<exists>r. get_op sc m key ctx w = (Done (Err Unauthenticated), w\<lparr>w_log := w_log w @ [r]\<rparr>) \<and>
        or_outcome r = Out_Denied)) \<and>
    get_or_fetch_op sc m key ctx fetch w = (Done (Err Unauthenticated), w) \<and>
    refresh_detailed sc m key ctx fetch w = (Done (Err Unauthenticated), w) \<and>
    set_op sc m key v ctx w = (Done (Err Unauthenticated), w) \<and>
    invalidate_op sc m key ctx w = (Done (Err Unauthenticated), w) \<and>
    remove_op sc m key ctx w = (Done (Err Unauthenticated), w) \<and>
    exists_op sc m key ctx w = (Done (Err Unauthenticated), w) \<and>
    promote_op sc m key ctx w = (Done (Err Unauthenticated), w) \<and>
    demote_op sc m key ctx w = (Done (Err Unauthenticated), w)"
proof -
  have "check_auth ctx = Inl Unauthenticated" using assms by (simp add: check_auth_def)
  then show ?thesis
    by (auto split: sum.split simp: get_op_def get_or_fetch_op_def refresh_detailed_def set_op_def invalidate_op_def remove_op_def
        exists_op_def promote_op_def demote_op_def ret_def bind_task_def read_now_def then_task_def
        observed_control_only_def emit_def record_finish_def outcome_from_error_def intro!: exI)
qed

theorem unauthenticated_changes_nothing_witness:
  "set_op quiet (manager_new default_select [ideal_ops]) [107] (5 :: nat) (context_new identity_anonymous)
     (idle_world [Map.empty]) = (Done (Err Unauthenticated), idle_world [Map.empty]) \<and>
   fst (get_op quiet (manager_new default_select [ideal_ops] :: (bytes \<rightharpoonup> nat, nat) manager) [107]
     (context_new identity_anonymous) (idle_world [Map.empty])) = Done (Err Unauthenticated) \<and>
   get_op quiet (manager_new default_select [ideal_ops] :: (bytes \<rightharpoonup> nat, nat) manager) (replicate 256 107)
     (context_new identity_anonymous) (idle_world [Map.empty]) = (Done (Err ConfigurationError), idle_world [Map.empty])"
proof -
  let ?ctx = "context_new identity_anonymous"
  have a: "\<not> context_authenticated ?ctx"
    by (simp add: context_authenticated_def context_new_def identity_anonymous_def identity_authenticated_def)
  have "encode_key [107] ?ctx = Ok [0, 107]" "encode_key (replicate 256 107) ?ctx = Err ConfigurationError"
    by (simp_all add: encode_key_eq context_new_def identity_anonymous_def TENANT_SEPARATOR_def MANAGER_MAX_KEY_SIZE_def)
  moreover note unauthenticated_changes_nothing [OF a, where sc = quiet and key = "[107]" and v = "5 :: nat"
      and fetch = "\<lambda>_. Hangs" and m = "manager_new default_select [ideal_ops]" and w = "idle_world [Map.empty]"]
    unauthenticated_changes_nothing [OF a, where sc = quiet and key = "replicate 256 107"
      and fetch = "\<lambda>_. Hangs" and v = 5 and m = "manager_new default_select [ideal_ops] :: (bytes \<rightharpoonup> nat, nat) manager" and w = "idle_world [Map.empty]"]
  ultimately show ?thesis by auto
qed

end
