(* ===== verification/Manager_Visibility.thy ===== *)
theory Manager_Visibility
  imports Manager_Safety
begin

section \<open>What a write makes visible\<close>

text \<open>
  The composition of the plane, the rungs and the manager: a write that reports success is read back
  by the next \<open>get\<close>, while other tasks do anything that leaves this key alone. The rungs take part
  only through the contract that they promise (\<open>rung_contract\<close>).
\<close>

subsection \<open>A ladder of rungs\<close>

locale ladder_contract =
  fixes m :: "('s, 'v) manager"
    and sound :: "'s \<Rightarrow> bool"
  assumes rung: "i < length (m_tiers m) \<Longrightarrow> rung_contract (m_tiers m ! i) sound"

text \<open>Every rung has its store, and every store is sound.\<close>

definition stores_sound :: "('s \<Rightarrow> bool) \<Rightarrow> ('s, 'v) manager \<Rightarrow> 's world \<Rightarrow> bool" where
  "stores_sound sound m w \<longleftrightarrow> length (w_stores w) = length (m_tiers m) \<and> (\<forall>s\<in>set (w_stores w). sound s)"

definition ladder_ok :: "placement \<Rightarrow> ('s \<Rightarrow> bool) \<Rightarrow> ('s, 'v) manager \<Rightarrow> 's world \<Rightarrow> bool" where
  "ladder_ok pl sound m w \<longleftrightarrow> plane_ok pl (w_plane w) \<and> stores_sound sound m w"

text \<open>The rung at \<open>t\<close> answers reads of the key with \<open>v\<close>, at any time.\<close>

definition serves :: "('s, 'v) manager \<Rightarrow> tier_id \<Rightarrow> bytes \<Rightarrow> 'v \<Rightarrow> 's world \<Rightarrow> bool" where
  "serves m t k v w \<longleftrightarrow> has_tier m t \<and>
     (\<forall>now. fst (t_get (m_tiers m ! as_usize t) now k (w_stores w ! as_usize t)) = Returns (Ok (Some v)))"

text \<open>The rest of the process keeps the world sound and leaves the key's entry and stored value alone.\<close>

definition minds :: "placement \<Rightarrow> ('s \<Rightarrow> bool) \<Rightarrow> ('s, 'v) manager \<Rightarrow> bytes \<Rightarrow> 's schedule \<Rightarrow> bool" where
  "minds pl sound m k sc \<longleftrightarrow> leaves_entry pl (address_of pl k) sc \<and>
     (\<forall>n w. stores_sound sound m w \<longrightarrow> stores_sound sound m (sc_between sc n w)) \<and>
     (\<forall>n w t v. serves m t k v w \<longrightarrow> serves m t k v (sc_between sc n w))"

text \<open>The control plane describes a committed value without expiry on a rung that holds it.\<close>

definition committed :: "placement \<Rightarrow> ('s, 'v) manager \<Rightarrow> bytes \<Rightarrow> 'v \<Rightarrow> 's world \<Rightarrow> bool" where
  "committed pl m k v w \<longleftrightarrow> plane_ok pl (w_plane w) \<and>
     (\<exists>e. plane_lookup (w_plane w) (address_of pl k) = Some e \<and> e_state e = Ready \<and> e_ttl e = None \<and>
        serves m (e_tier e) k v w)"

lemma minds_leaves: "minds pl sound m k sc \<Longrightarrow> leaves_entry pl (address_of pl k) sc"
  by (simp add: minds_def)

lemma steady_ladder:
  assumes "minds pl sound m k sc"
  shows "steady sc (ladder_ok pl sound m)" "steady sc (\<lambda>w. ladder_ok pl sound m w \<and> serves m t k v w)"
    "steady sc (\<lambda>w. ladder_ok pl sound m w \<and> committed pl m k v w)"
  using assms
  by (auto simp: steady_def blind_def ladder_ok_def stores_sound_def serves_def committed_def minds_def
      leaves_entry_def)

lemma plane_ok_calls:
  assumes "plane_ok pl p"
  shows "plane_ok pl (snd (cp_prepare now key eg target kind p))" "plane_ok pl (snd (cp_commit now tok ttl p))"
    "plane_ok pl (snd (cp_abort tok err p))" "plane_ok pl (snd (cp_abort_proven_clean tok err p))"
    "plane_ok pl (snd (cp_reserve_eviction a p))"
  unfolding cp_prepare_def cp_commit_def cp_abort_def cp_abort_proven_clean_def cp_reserve_eviction_def
  by (rule plane_ok_with_or_create(1) plane_ok_with_entry(1); simp add: assms)+

lemma ladder_plane_call:
  assumes "minds pl sound m k sc" "\<And>now p. plane_ok pl p \<Longrightarrow> plane_ok pl (snd (f now p))"
  shows "upholds (ladder_ok pl sound m) (plane_call sc f)"
  by (rule upholds_plane_call [OF steady_ladder(1) [OF assms(1)]])
     (use assms(2) in \<open>simp add: ladder_ok_def stores_sound_def\<close>)

subsection \<open>Writing through the ladder\<close>

context ladder_contract
begin

lemma store_sound:
  assumes "stores_sound sound m w" "i < length (m_tiers m)"
  shows "sound (w_stores w ! i)" "i < length (w_stores w)"
  using assms by (auto simp: stores_sound_def)

lemma stores_sound_update:
  assumes "stores_sound sound m w" "i < length (m_tiers m) \<Longrightarrow> sound (w_stores w ! i) \<Longrightarrow> sound s"
  shows "stores_sound sound m (w\<lparr>w_stores := (w_stores w)[i := s]\<rparr>)"
proof (cases "i < length (m_tiers m)")
  case True
  with assms show ?thesis
    by (auto simp: stores_sound_def dest!: set_update_subset_insert [THEN subsetD])
qed (use assms in \<open>auto simp: stores_sound_def list_update_beyond\<close>)

lemma ladder_tier_call:
  assumes sc: "minds pl sound m k sc"
    and f: "\<And>now s. i < length (m_tiers m) \<Longrightarrow> sound s \<Longrightarrow> sound (snd (f now s))"
  shows "upholds (ladder_ok pl sound m) (tier_call sc i f)"
  by (rule upholds_tier_call [OF steady_ladder(1) [OF sc]])
     (auto simp: ladder_ok_def intro!: stores_sound_update f)

lemma ladder_remove:
  assumes "minds pl sound m k sc"
  shows "upholds (ladder_ok pl sound m) (rung_remove sc m i key)"
  unfolding rung_remove_def
  by (rule ladder_tier_call [OF assms]) (simp add: rung_contract.inv_remove [OF rung])

text \<open>A write that the rung accepted is served by it.\<close>

lemma runs_rung_set:
  assumes sc: "minds pl sound m k sc" and t: "has_tier m t"
  shows "runs (ladder_ok pl sound m) (rung_set sc m t k v None)
    (\<lambda>r w. ladder_ok pl sound m w \<and> (r = Returns (Ok ()) \<longrightarrow> serves m t k v w)) (ladder_ok pl sound m)"
proof -
  let ?i = "as_usize t" and ?L = "ladder_ok pl sound m"
  let ?Q = "\<lambda>r w. ?L w \<and> (r = Returns (Ok ()) \<longrightarrow> serves m t k v w)"
  let ?f = "\<lambda>now. t_set (m_tiers m ! ?i) now k v None"
  have i: "?i < length (m_tiers m)" using t by (simp add: has_tier_def)
  note contract = rung [OF i]
  have act: "runs ?L (\<lambda>w. case ?f (w_now w) (w_stores w ! ?i) of
      (r, s) \<Rightarrow> (Done r, w\<lparr>w_stores := (w_stores w)[?i := s]\<rparr>)) ?Q ?L"
  proof (rule runsI)
    fix w r w' assume w: "?L w" and "(case ?f (w_now w) (w_stores w ! ?i) of
      (r, s) \<Rightarrow> (Done r, w\<lparr>w_stores := (w_stores w)[?i := s]\<rparr>)) = (Done r, w')"
    then obtain s where s: "?f (w_now w) (w_stores w ! ?i) = (r, s)"
      and w': "w' = w\<lparr>w_stores := (w_stores w)[?i := s]\<rparr>" by (auto split: prod.splits)
    have st: "stores_sound sound m w" using w by (simp add: ladder_ok_def)
    have "sound s" using rung_contract.inv_set [OF contract store_sound(1) [OF st i], of "w_now w" k v None] s by simp
    moreover have "fst (t_get (m_tiers m ! ?i) now' k s) = Returns (Ok (Some v))" if "r = Returns (Ok ())" for now'
      using rung_contract.get_after_set [OF contract store_sound(1) [OF st i], of "w_now w" k v None s now'] s that
      by (simp add: unexpired_def)
    ultimately show "?Q r w'"
      using w t store_sound(2) [OF st i] by (auto simp: w' ladder_ok_def serves_def intro!: stores_sound_update)
  qed (auto split: prod.splits)
  have "steady sc (?Q r)" for r
    using steady_ladder(1,2) [OF sc] by (cases "r = Returns (Ok ())") (simp_all add: steady_def)
  then have "runs (?Q r) (then_task (suspend sc) (ret r)) ?Q ?L" for r
    by (intro runs_then [OF upholds_runs [OF upholds_suspend]]) auto
  then show ?thesis
    unfolding rung_set_def tier_call_def
    by (intro runs_then [OF upholds_runs [OF upholds_suspend [OF steady_ladder(1) [OF sc]]]] runs_bind [OF act]) simp_all
qed

lemma runs_observed_set:
  assumes sc: "minds pl sound m k sc" and t: "has_tier m t"
  shows "runs (ladder_ok pl sound m) (observed_write sc m op k t (rung_set sc m t k v None))
    (\<lambda>r w. ladder_ok pl sound m w \<and> (r = Ok () \<longrightarrow> serves m t k v w)) (ladder_ok pl sound m)"
proof -
  let ?L = "ladder_ok pl sound m" and ?Q = "\<lambda>r w. ladder_ok pl sound m w \<and> (r = Ok () \<longrightarrow> serves m t k v w)"
  have bl: "blind ?L" "blind (?Q r)" for r
    using steady_blind [OF steady_ladder(1) [OF sc]] steady_blind [OF steady_ladder(2) [OF sc, of t v]]
    by (cases "r = Ok ()"; simp add: blind_def)+
  have b: "runs ?L (bounded m (rung_set sc m t k v None)) ?Q ?L"
    unfolding bounded_def
  proof (rule runs_bind [OF runs_rung_set [OF sc t]])
    fix r :: "unit reply"
    show "runs (\<lambda>w. ?L w \<and> (r = Returns (Ok ()) \<longrightarrow> serves m t k v w))
        (case r of Returns x \<Rightarrow> ret x | Hangs \<Rightarrow> then_task (let_time_pass (m_wait_timeout m)) (ret (Err Timeout)))
        ?Q ?L"
      by (cases r)
         (auto intro!: runs_then [OF upholds_runs [OF upholds_let_time_pass [OF bl(1)]]] runs_ret)
  qed
  have now: "runs P read_now (\<lambda>_. P) ?L" if "\<And>w. P w \<Longrightarrow> ?L w" for P
    by (rule upholds_runs [OF upholds_read_now that])
  have backend: "runs (?Q r) (read_backend m t) (\<lambda>_. ?Q r) ?L" for r t
    by (rule upholds_runs [OF upholds_read_backend]) simp
  have emit: "runs (?Q r) (emit x) (\<lambda>_. ?Q r) ?L" for r x
    by (rule upholds_runs [OF upholds_emit [OF bl(2)]]) simp
  show ?thesis
    unfolding observed_write_def Let_def
    by (rule runs_bind [OF now], simp, rule runs_bind [OF b], rule runs_bind [OF now], simp,
        rule runs_bind [OF backend], rule runs_then [OF emit]) auto
qed

lemma runs_commit_set:
  assumes sc: "minds pl sound m k sc"
    and tok: "ct_address token = address_of pl k" "ct_target_tier token = as_u8 t"
  shows "runs (\<lambda>w. ladder_ok pl sound m w \<and> serves m t k v w) (plane_call sc (\<lambda>now. cp_commit now token None))
    (\<lambda>r w. ladder_ok pl sound m w \<and> (r = Ok () \<longrightarrow> committed pl m k v w)) D"
proof (rule runsI)
  let ?a = "address_of pl k"
  fix w r w'
  assume w: "ladder_ok pl sound m w \<and> serves m t k v w"
    and c: "plane_call sc (\<lambda>now. cp_commit now token None) w = (Done r, w')"
  let ?t = "tick sc w"
  have t: "ladder_ok pl sound m ?t" "serves m t k v ?t"
    using steady_tick [OF steady_ladder(2) [OF sc] w] by simp_all
  then have ok: "plane_ok pl (w_plane ?t)" by (simp add: ladder_ok_def)
  have r: "r = fst (cp_commit (w_now ?t) token None (w_plane ?t))"
    and w': "w' = ?t\<lparr>w_plane := snd (cp_commit (w_now ?t) token None (w_plane ?t))\<rparr>"
    using c by (auto simp: plane_call_def Let_def case_prod_unfold)
  have L: "ladder_ok pl sound m w'"
    using t(1) plane_ok_calls(2) [OF ok] by (simp add: w' ladder_ok_def stores_sound_def)
  have "committed pl m k v w'" if "r = Ok ()"
  proof (cases "plane_lookup (w_plane ?t) ?a")
    case None
    with that r tok(1) plane_ok_with_entry(3) [OF ok keeps_steps(8)] show ?thesis by (simp add: cp_commit_def)
  next
    case (Some e)
    note com = cp_commit_Some [OF ok Some [folded tok(1)], of "w_now ?t" None, unfolded tok(1)]
    let ?e = "snd (entry_commit (w_now ?t) token None e)"
    have "e_state ?e = Ready" "e_tier ?e = t" "e_ttl ?e = None"
      using that r com(1) tok(2) by (auto simp: entry_commit_def Let_def e_ttl_def split: if_splits)
    with com(2,3) t(2) show ?thesis by (simp add: w' committed_def serves_def)
  qed
  with L show "ladder_ok pl sound m w' \<and> (r = Ok () \<longrightarrow> committed pl m k v w')" by blast
qed (auto simp: plane_call_def Let_def case_prod_unfold)

lemma ladder_intent:
  assumes sc: "minds pl sound m k sc"
  shows "upholds (ladder_ok pl sound m) (intent_guard_abort sc token e)"
    "upholds (ladder_ok pl sound m) (release_intent sc token e)"
    "ladder_ok pl sound m w \<Longrightarrow> ladder_ok pl sound m (intent_guard_drop sc token w)"
  unfolding intent_guard_abort_def release_intent_def intent_guard_abort_proven_clean_def intent_guard_drop_def
  by (auto intro!: upholds_then ladder_plane_call [OF sc] upholdsD [OF ladder_plane_call [OF sc]] simp: plane_ok_calls)

lemma runs_attempt:
  assumes sc: "minds pl sound m k sc" and t: "has_tier m t"
    and tok: "ct_address token = address_of pl k" "ct_target_tier token = as_u8 t"
  shows "runs (ladder_ok pl sound m) (set_attempt_body sc m k v None t last_try token)
    (\<lambda>(armed, x) w. ladder_ok pl sound m w \<and>
       (x = Finished (Returned (Ok ())) \<longrightarrow> \<not> armed \<and> committed pl m k v w)) (ladder_ok pl sound m)"
    (is "runs ?L _ ?Q ?L")
proof -
  note st = steady_ladder(1) [OF sc]
  have plain: "runs ?L x ?Q ?L" if "upholds ?L x" "\<And>w a w'. x w = (Done a, w') \<Longrightarrow> snd a \<noteq> Finished (Returned (Ok ()))"
    for x :: "('s, bool \<times> set_attempt) io"
    using that by (intro runsI) (auto dest: upholdsD, (metis snd_conv upholdsD)+)
  have lost: "runs ?L (then_task (suspend sc) (ret (True, LostRace))) ?Q ?L"
    by (intro plain upholds_then upholds_suspend [OF st] upholds_ret) (auto simp: ret_def elim!: then_DoneE)
  have bad: "runs ?L (then_task (unbounded (rung_remove sc m i key)) (then_task (intent_guard_abort sc token e)
      (ret (False, Finished (Returned (Err e)))))) ?Q ?L" for i key e
    by (intro plain upholds_then upholds_unbounded ladder_remove [OF sc] ladder_intent [OF sc] upholds_ret)
       (auto simp: ret_def elim!: then_DoneE)
  have refused: "runs ?L (then_task (release_intent sc token e)
      (ret (False, Finished (if rung_level_error e then NextRung e else Returned (Err e))))) ?Q ?L" for e
    by (intro plain upholds_then ladder_intent [OF sc] upholds_ret)
       (auto simp: ret_def elim!: then_DoneE split: if_splits)
  have clean: "runs (\<lambda>w. ?L w \<and> (r = Ok () \<longrightarrow> serves m t k v w))
      (if r = Err WriteIndeterminate
       then then_task (bounded m (rung_remove sc m (as_usize t) k)) (ret ()) else ret ())
      (\<lambda>_ w. ?L w \<and> (r = Ok () \<longrightarrow> serves m t k v w)) ?L" for r :: "unit result"
    by (auto intro!: upholds_runs upholds_then upholds_bounded ladder_remove [OF sc] steady_blind [OF st])
  have outcome: "runs (\<lambda>w. ?L w \<and> (r = Ok () \<longrightarrow> serves m t k v w)) (record_outcome sc t r)
      (\<lambda>_ w. ?L w \<and> (r = Ok () \<longrightarrow> serves m t k v w)) ?L" for r :: "unit result"
    using steady_ladder(1) [OF sc] steady_ladder(2) [OF sc, of t v]
    by (cases "r = Ok ()") (auto intro!: upholds_runs upholds_record_outcome)
  have commit: "runs (\<lambda>w. ?L w \<and> serves m t k v w) (bind_task (plane_call sc (\<lambda>now. cp_commit now token None)) (\<lambda>c.
      case c of
        Inr _ \<Rightarrow> ret (False, Finished (Returned (Ok ())))
      | Inl e \<Rightarrow>
          if e = StaleGeneration
          then (if last_try then ret (True, Finished (Returned (Err WriteContended)))
                else then_task (suspend sc) (ret (True, LostRace)))
          else then_task (unbounded (rung_remove sc m (as_usize t) k))
            (then_task (intent_guard_abort sc token e) (ret (False, Finished (Returned (Err e))))))) ?Q ?L"
    by (rule runs_bind [OF runs_commit_set [OF sc tok]])
       (auto intro!: runs_ret lost bad split: sum.split)
  have finish: "runs (\<lambda>w. ?L w \<and> (r = Ok () \<longrightarrow> serves m t k v w)) (case r of Inr _ \<Rightarrow> A | Inl e \<Rightarrow> B e) ?Q ?L"
    if "runs (\<lambda>w. ?L w \<and> serves m t k v w) A ?Q ?L" "\<And>e. runs ?L (B e) ?Q ?L" for r :: "unit result" and A B
    using that by (cases r) simp_all
  show ?thesis
    unfolding set_attempt_body_def
    by (rule runs_bind [OF runs_observed_set [OF sc t]], rule runs_then [OF outcome], rule runs_then [OF clean],
        rule finish [OF commit refused])
qed

lemma runs_set_rung:
  assumes sc: "minds pl sound m k sc" and t: "has_tier m t"
  shows "runs (ladder_ok pl sound m) (set_rung sc m k v None t n)
    (\<lambda>s w. ladder_ok pl sound m w \<and> (s = Returned (Ok ()) \<longrightarrow> committed pl m k v w)) (ladder_ok pl sound m)"
    (is "runs ?L _ ?Q ?L")
proof (induction n)
  case (Suc n)
  have prep: "runs ?L (plane_call sc (\<lambda>now. cp_prepare now k None t IK_Write))
      (\<lambda>r w. ?L w \<and> (\<forall>token. r = Inr token \<longrightarrow> ct_address token = address_of pl k \<and> ct_target_tier token = as_u8 t)) ?L"
  proof (rule runsI)
    fix w r w' assume w: "?L w" and c: "plane_call sc (\<lambda>now. cp_prepare now k None t IK_Write) w = (Done r, w')"
    have "?L (tick sc w)" by (rule steady_tick [OF steady_ladder(1) [OF sc] w])
    then have ok: "plane_ok pl (w_plane (tick sc w))" by (simp add: ladder_ok_def)
    have L: "?L w'"
      using upholdsD [OF ladder_plane_call [OF sc] w, of "\<lambda>now. cp_prepare now k None t IK_Write"] c
      by (simp add: plane_ok_calls)
    have "r = fst (cp_prepare (w_now (tick sc w)) k None t IK_Write (w_plane (tick sc w)))"
      using c by (auto simp: plane_call_def Let_def case_prod_unfold)
    then have "ct_address token = address_of pl k \<and> ct_target_tier token = as_u8 t" if "r = Inr token" for token
      using that plane_ok_with_or_create(3) [OF ok keeps_steps(7), of "address_of pl k"] plane_entry_address [OF ok]
      by (auto simp: cp_prepare_def plane_okD(4) [OF ok] entry_prepare_def Let_def split: if_splits)
    with L show "?L w' \<and> (\<forall>token. r = Inr token \<longrightarrow> ct_address token = address_of pl k \<and> ct_target_tier token = as_u8 t)"
      by blast
  qed (auto simp: plane_call_def Let_def case_prod_unfold)
  have "runs ?L (guarded (intent_guard_drop sc token) (set_attempt_body sc m k v None t last token))
      (\<lambda>x w. ?L w \<and> (x = Finished (Returned (Ok ())) \<longrightarrow> committed pl m k v w)) ?L"
    if "ct_address token = address_of pl k" "ct_target_tier token = as_u8 t" for token last
    by (rule runs_guarded, rule runs_weaken [OF runs_attempt [OF sc t that]])
       (auto intro: ladder_intent(3) [OF sc])
  then have body: "runs ?L (bind_task (guarded (intent_guard_drop sc token) (set_attempt_body sc m k v None t last token))
      (\<lambda>a. case a of Finished s \<Rightarrow> ret s | LostRace \<Rightarrow> set_rung sc m k v None t n)) ?Q ?L"
    if "ct_address token = address_of pl k" "ct_target_tier token = as_u8 t" for token last
    by (rule runs_bind) (use that Suc.IH in \<open>auto elim: runs_weaken split: set_attempt.split\<close>)
  have "runs (\<lambda>w. ?L w \<and> (\<forall>token. r = Inr token \<longrightarrow> ct_address token = address_of pl k \<and> ct_target_tier token = as_u8 t))
      (case r of Inl e \<Rightarrow> ret (Returned (Err e))
       | Inr token \<Rightarrow> bind_task (guarded (intent_guard_drop sc token) (set_attempt_body sc m k v None t (n = 0) token))
           (\<lambda>a. case a of Finished s \<Rightarrow> ret s | LostRace \<Rightarrow> set_rung sc m k v None t n)) ?Q ?L" for r
  proof (cases r)
    case (Inr token)
    show ?thesis
    proof (cases "ct_address token = address_of pl k \<and> ct_target_tier token = as_u8 t")
      case True
      with body [of token "n = 0"] Inr show ?thesis by simp
    qed (auto simp: Inr runs_def)
  qed (auto simp: runs_ret)
  then show ?case
    unfolding set_rung.simps by (rule runs_bind [OF prep])
qed (auto simp: runs_def ret_def)

lemma runs_set_walk:
  assumes sc: "minds pl sound m k sc"
  shows "runs (ladder_ok pl sound m) (set_walk sc m k v None t e)
    (\<lambda>(r, e) w. ladder_ok pl sound m w \<and> (r = Some (Ok ()) \<longrightarrow> committed pl m k v w)) (ladder_ok pl sound m)"
    (is "runs ?L _ ?Q ?L")
proof (induction "rungs_left t" arbitrary: t e rule: less_induct)
  case less
  have next_rung: "runs ?L (set_walk sc m k v None (previous_rung t) e') ?Q ?L" if "is_cache_rung t" for e'
    by (rule less [OF previous_rung_decreases [OF that]])
  have here: "runs ?L (bind_task (set_rung sc m k v None t MAX_COMMIT_ATTEMPTS) (\<lambda>s. case s of
      Returned r \<Rightarrow> ret (Some r, e) | NextRung e' \<Rightarrow> set_walk sc m k v None (previous_rung t) e')) ?Q ?L"
    if "is_cache_rung t" "has_tier m t"
    by (rule runs_bind [OF runs_set_rung [OF sc that(2)]])
       (use next_rung [OF that(1)] in \<open>auto intro!: runs_ret split: rung_step.split\<close>)
  show ?case
    unfolding set_walk.simps [of sc m k v None t e] using next_rung here by (auto intro!: runs_ret)
qed

lemma ladder_try_free:
  assumes sc: "minds pl sound m k sc"
  shows "upholds (ladder_ok pl sound m) (try_free_from sc m ts n)"
proof -
  have nominate: "upholds (ladder_ok pl sound m) (tier_sync sc i (t_eviction_candidate (m_tiers m ! i)))" for i
    by (rule upholds_tier_sync [OF steady_ladder(1) [OF sc]])
       (auto simp: ladder_ok_def rung_contract.inv_evict [OF rung] intro!: stores_sound_update)
  have remove: "upholds (ladder_ok pl sound m) (tier_sync sc i (\<lambda>now cursor s.
      case t_remove_if_address (m_tiers m ! i) a s of (x, s') \<Rightarrow> (x, cursor, s')))" for i a
    by (rule upholds_tier_sync [OF steady_ladder(1) [OF sc]])
       (auto simp: ladder_ok_def rung_contract.inv_remove_if [OF rung] case_prod_unfold intro!: stores_sound_update)
  have "upholds (ladder_ok pl sound m) (try_evict_at_rung sc m t n)" for t n
    by (induction n)
       (auto intro!: upholds_bind nominate remove ladder_plane_call [OF sc] simp: plane_ok_calls
          split: option.split sum.split bool.split)
  then show ?thesis by (induction ts arbitrary: n) (auto intro!: upholds_bind split: prod.split)
qed

lemma runs_set_passes:
  assumes sc: "minds pl sound m k sc"
  shows "runs (ladder_ok pl sound m) (set_passes sc m k v None t n e)
    (\<lambda>r w. ladder_ok pl sound m w \<and> (r = Ok () \<longrightarrow> committed pl m k v w)) (ladder_ok pl sound m)"
    (is "runs ?L _ ?Q ?L")
proof (induction n arbitrary: e)
  case (Suc n)
  have "runs ?L (bind_task (try_free_somewhere_in_the_ladder sc m) (\<lambda>freed.
      if freed then set_passes sc m k v None t n e' else ret (Err e'))) ?Q ?L" for e'
    unfolding try_free_somewhere_in_the_ladder_def
    by (rule runs_bind [OF upholds_runs [OF ladder_try_free [OF sc]]]) (use Suc.IH in \<open>auto intro!: runs_ret\<close>)
  then show ?case
    unfolding set_passes.simps
    by (intro runs_bind [OF runs_set_walk [OF sc]]) (auto intro!: runs_ret split: option.split)
qed (auto intro!: runs_ret)

text \<open>A write without TTL that reports success has been committed on a rung that serves it.\<close>

lemma set_op_commits:
  assumes k: "encode_key key ctx = Ok k" "ctx_ttl ctx = None" and sc: "minds pl sound m k sc"
    and w: "ladder_ok pl sound m w" and r: "set_op sc m key v ctx w = (Done (Ok ()), w')"
  shows "ladder_ok pl sound m w' \<and> committed pl m k v w'"
proof -
  note st = steady_ladder(1) [OF sc]
  have "runs (ladder_ok pl sound m) (set_op sc m key v ctx)
      (\<lambda>r w. ladder_ok pl sound m w \<and> (r = Ok () \<longrightarrow> committed pl m k v w)) (ladder_ok pl sound m)"
    unfolding set_op_def k
    by (auto intro!: runs_try_pure runs_try [OF upholds_runs [OF upholds_peek [OF st]]]
        runs_bind [OF upholds_runs [OF upholds_resolve [OF st]]] runs_set_passes [OF sc] runs_ret
        simp del: set_passes.simps)
  from runsD(1) [OF this w r] show ?thesis by simp
qed

end

subsection \<open>Reading a committed value\<close>

definition entry_is :: "placement \<Rightarrow> key_address \<Rightarrow> control_entry \<Rightarrow> 's world \<Rightarrow> bool" where
  "entry_is pl a e w \<longleftrightarrow> plane_ok pl (w_plane w) \<and> plane_lookup (w_plane w) a = Some e"

lemma steady_entry_is: "leaves_entry pl a sc \<Longrightarrow> steady sc (entry_is pl a e)"
  by (simp add: steady_def blind_def entry_is_def leaves_entry_def)

lemma undropped_rung_get:
  assumes "\<And>n. \<not> sc_drop sc n" "rung_holds m t k (tick sc w) (Some v)"
  shows "\<exists>w'. observed_read sc m op k t (rung_get sc m t k) w = (Done (Ok (Some v)), w')"
  using assms
  by (auto simp: observed_read_def bounded_def rung_get_def tier_call_def bind_task_def then_task_def suspend_def
      read_now_def read_backend_def emit_def ret_def rung_holds_def Let_def case_prod_unfold)

lemma get_hit:
  assumes k: "encode_key key ctx = Ok k" and auth: "check_auth ctx = Ok ()"
    "authorize (resolve m (request_for OpGet key ctx) ctx) = Ok ()"
    and sc: "minds pl sound m k sc" "\<And>n. \<not> sc_drop sc n"
    and w: "ladder_ok pl sound m w" "committed pl m k v w"
  shows "fst (get_op sc m key ctx w) = Done (Ok (Some v))"
proof -
  let ?a = "address_of pl k" and ?t = "tick sc w"
  have t: "ladder_ok pl sound m ?t" "committed pl m k v ?t"
    using steady_tick [OF steady_ladder(3) [OF sc(1)]] w by simp_all
  then obtain e where ok: "plane_ok pl (w_plane ?t)" and e: "plane_lookup (w_plane ?t) ?a = Some e"
    "e_state e = Ready" "e_ttl e = None" and srv: "serves m (e_tier e) k v ?t"
    by (auto simp: committed_def)
  define s where "s = snapshot_of (w_now ?t) e Ready (ce_generation e) (e_tier e) (ce_population_owner e)
    (e_population_timestamp e)"
  have peek: "plane_peek sc k w = (Done (Ok s), ?t)"
    using cp_peek_Some [OF ok e(1)] e(2) by (simp add: plane_peek_eq s_def)
  have s: "cs_state s = Ready" "\<not> cs_expired s" "cs_tier s = e_tier e"
    by (simp_all add: s_def snapshot_of_def e_is_expired_def e(3))
  have "serves m (e_tier e) k v (tick sc ?t)"
    using steady_tick [OF steady_ladder(2) [OF sc(1)], of ?t "e_tier e" v] t(1) srv by simp
  then have "rung_holds m (cs_tier s) k (tick sc ?t) (Some v)" by (simp add: serves_def rung_holds_def s)
  from undropped_rung_get [OF sc(2) this] obtain w1
    where read: "observed_read sc m Tel_Get k (cs_tier s) (rung_get sc m (cs_tier s) k) ?t = (Done (Ok (Some v)), w1)"
    by blast
  have at: "entry_is pl ?a e ?t" using ok e(1) by (simp add: entry_is_def)
  note stead = steady_entry_is [OF minds_leaves [OF sc(1)], of e]
  have "upholds (entry_is pl ?a e) (observed_read sc m Tel_Get k (cs_tier s) (rung_get sc m (cs_tier s) k))"
    unfolding rung_get_def
    by (intro upholds_observed(1) steady_blind [OF stead] upholds_tier_call [OF stead]) (simp add: entry_is_def)
  from upholdsD [OF this at] read have w1: "entry_is pl ?a e w1" by simp
  obtain w2 where rec: "record_outcome sc (cs_tier s) (Ok (Some v)) w1 = (Done (), w2)"
    by (simp add: record_outcome_def registry_call_def Let_def)
  from upholdsD [OF upholds_record_outcome [OF stead] w1] rec have "entry_is pl ?a e w2" by (metis snd_conv)
  then have "entry_is pl ?a e (tick sc w2)" by (rule steady_tick [OF stead])
  then have again: "plane_peek sc k w2 = (Done (Ok (snapshot_of (w_now (tick sc w2)) e Ready (ce_generation e) (e_tier e)
      (ce_population_owner e) (e_population_timestamp e))), tick sc w2)"
    using cp_peek_Some [of pl "w_plane (tick sc w2)" k e] e(2) by (simp add: plane_peek_eq entry_is_def)
  have "get_ready sc m k s (w_now w) ?t = (Done (Ok (Some v)), tick sc w2)"
    using srv
    by (simp add: get_ready_def s serves_def bind_Done [where m = "observed_read _ _ _ _ _ _", OF read [unfolded s(3)]]
        then_Done [where m = "record_outcome _ _ _", OF rec [unfolded s(3)]] bind_Done [where m = "plane_peek _ _", OF again] snapshot_of_def ret_def)
  then show ?thesis
    using s by (simp add: get_op_def bind_task_def [of read_now] read_now_def k auth Let_def
        try_Done [where m = "plane_peek _ _", OF peek])
qed

subsection \<open>The shipped ladder\<close>

definition stub_tiers :: "(bytes \<Rightarrow> u64) \<Rightarrow> ('v \<Rightarrow> content_digest) \<Rightarrow> ('v sharded_tier, 'v) tier_ops list" where
  "stub_tiers hasher dg =
     [l0_ops hasher dg, l1_ops hasher dg, l2_ops hasher dg, l3_ops hasher dg, l4_ops hasher dg, l5_ops hasher dg]"

lemma stub_tiers_contract: "i < length (stub_tiers hasher dg) \<Longrightarrow> rung_contract (stub_tiers hasher dg ! i) sharded_wf"
  using stub_rung.rung_contract_axioms
  by (auto simp: stub_tiers_def l0_ops_def l1_ops_def l2_ops_def l3_ops_def l4_ops_def l5_ops_def less_Suc_eq)

interpretation stub_ladder: ladder_contract "manager_with_timeout policy (stub_tiers hasher dg) timeout" sharded_wf
  for policy :: "(bytes, 'v) cache_policy" and hasher dg timeout
  by (rule ladder_contract.intro) (simp add: manager_with_timeout_def stub_tiers_contract)

lemma quiet_minds: "minds pl sound m k quiet"
  by (simp add: minds_def leaves_entry_def quiet_def)

text \<open>A write on an undisturbed world whose first rung accepts it succeeds.\<close>

text \<open>Only the store of \<open>t\<close> changed, and the entry is committed there.\<close>

definition written_at :: "placement \<Rightarrow> ('s, 'v) manager \<Rightarrow> bytes \<Rightarrow> tier_id \<Rightarrow> 's world \<Rightarrow> 's world \<Rightarrow> bool" where
  "written_at pl m k t w w' \<longleftrightarrow> (\<forall>i. i \<noteq> as_usize t \<longrightarrow> w_stores w' ! i = w_stores w ! i) \<and>
     (\<exists>e. plane_lookup (w_plane w') (address_of pl k) = Some e \<and> e_tier e = t)"

lemma quiet_set_rung:
  assumes ok: "plane_ok pl (w_plane w)" "plane_admits (w_plane w) (address_of pl k)" and t: "has_tier m t"
    and store: "as_usize t < length (w_stores w)"
    and set: "\<And>now. fst (t_set (m_tiers m ! as_usize t) now k v ttl (w_stores w ! as_usize t)) = Returns (Ok ())"
  shows "\<exists>w'. set_rung quiet m k v ttl t (Suc n) w = (Done (Returned (Ok ())), w') \<and> written_at pl m k t w w'"
proof -
  obtain tok p1 e1 where p: "cp_prepare (w_now w) k None t IK_Write (w_plane w) = (Ok tok, p1)"
    and p1: "plane_ok pl p1" "plane_lookup p1 = (plane_lookup (w_plane w))(address_of pl k \<mapsto> e1)"
    and e1: "e_state e1 = Prepared" "ce_generation e1 = ct_generation tok" and a: "ct_address tok = address_of pl k"
    and target: "ct_target_tier tok = as_u8 t"
    by (rule cp_prepare_ok [OF ok])
  have "fst (cp_commit now tok ttl p1) = Ok ()" for now
    using cp_commit_Some(1) [OF p1(1), of tok e1] p1(2) e1 a
    by (simp add: entry_commit_def token_expired_by_def Let_def)
  moreover define p2 where "p2 now = snd (cp_commit now tok ttl p1)" for now
  ultimately have commit: "cp_commit now tok ttl p1 = (Ok (), p2 now)" for now by (simp add: prod_eq_iff)
  have "\<exists>e. plane_lookup (p2 now) (address_of pl k) = Some e \<and> e_tier e = t" for now
    using cp_commit_Some(3) [OF p1(1), of tok e1 now ttl] p1(2) e1 a target
    by (auto simp: p2_def entry_commit_def token_expired_by_def Let_def)
  then show ?thesis
    using set
    by (simp add: written_at_def bind_task_def plane_call_def p guarded_def set_attempt_body_def observed_write_def bounded_def
        rung_set_def tier_call_def then_task_def suspend_def read_now_def read_backend_def record_outcome_def registry_call_def
        emit_def ret_def Let_def quiet_def tick_def case_prod_unfold commit)
qed

lemma quiet_set_passes:
  assumes "plane_ok pl (w_plane w)" "plane_admits (w_plane w) (address_of pl k)" "has_tier m t" "is_cache_rung t"
    and "as_usize t < length (w_stores w)"
    and "\<And>now. fst (t_set (m_tiers m ! as_usize t) now k v ttl (w_stores w ! as_usize t)) = Returns (Ok ())"
  shows "\<exists>w'. set_passes quiet m k v ttl t (Suc n) e w = (Done (Ok ()), w') \<and> written_at pl m k t w w'"
proof -
  have "MAX_COMMIT_ATTEMPTS = Suc 63" by (simp add: MAX_COMMIT_ATTEMPTS_def)
  with quiet_set_rung [OF assms(1-3,5,6), of 63] obtain w'
    where w': "set_rung quiet m k v ttl t MAX_COMMIT_ATTEMPTS w = (Done (Returned (Ok ())), w')" "written_at pl m k t w w'"
    by auto
  then have "set_walk quiet m k v ttl t e w = (Done (Some (Ok ()), e), w')"
    using assms(3,4) by (subst set_walk.simps) (simp add: bind_task_def ret_def)
  with w'(2) show ?thesis by (simp add: bind_task_def ret_def)
qed

text \<open>Two shipped rungs over small tables, and a first write to them.\<close>

definition demo_manager :: "(bytes sharded_tier, bytes) manager" where
  "demo_manager =
     manager_with_timeout default_select (stub_tiers (\<lambda>k. of_nat (length k)) digest_of_bytes) 5000000000"

definition demo_world :: "bytes sharded_tier world" where
  "demo_world = idle_world (replicate 6 demo_sharded)"

lemma demo_world_ok: "ladder_ok AllToZero sharded_wf demo_manager demo_world"
  by (simp add: ladder_ok_def stores_sound_def demo_world_def idle_world_def demo_plane_ok demo_sharded_wf
      demo_manager_def manager_with_timeout_def stub_tiers_def)

lemma demo_set:
  "\<exists>w'. set_op quiet demo_manager [107] v demo_context demo_world = (Done (Ok ()), w') \<and>
     written_at AllToZero demo_manager [116, 0, 107] L1 demo_world w'"
proof -
  let ?k = "[116, 0, 107] :: bytes" and ?w = "demo_world\<lparr>w_step := 2\<rparr>"
  have peek: "plane_peek quiet ?k demo_world = (Done (Ok absent_snapshot), demo_world\<lparr>w_step := Suc 0\<rparr>)"
    by (simp add: plane_peek_eq demo_world_def idle_world_def cp_peek_None [OF demo_plane_ok] demo_plane_lookup)
  have res: "resolve_with_snapshot quiet demo_manager (request_for OpSet [107] demo_context) demo_context absent_snapshot
      (demo_world\<lparr>w_step := Suc 0\<rparr>) =
      (Done (default_select (request_for OpSet [107] demo_context :: (bytes, bytes) cache_request)
         (from_snapshot absent_snapshot default_health) (ctx_identity demo_context)), ?w)"
    by (simp add: resolve_with_snapshot_def demo_world_def idle_world_def Let_def demo_registry absent_snapshot_def
        demo_manager_def manager_with_timeout_def)
  have "\<exists>w'. set_passes quiet demo_manager ?k v ttl L1 (Suc n) e ?w = (Done (Ok ()), w') \<and>
      written_at AllToZero demo_manager ?k L1 ?w w'" for n ttl e
    by (rule quiet_set_passes [where pl = AllToZero])
       (simp_all add: demo_world_def idle_world_def demo_plane_ok demo_plane_admits demo_manager_def
          manager_with_timeout_def stub_tiers_def has_tier_def is_cache_rung_iff l1_ops_def demo_sharded_set)
  moreover have "m_authority_tier demo_manager = L6"
    by (simp add: demo_manager_def manager_with_timeout_def AUTHORITY_TIER_def)
  ultimately show ?thesis
    by (simp add: set_op_def demo_key demo_auth try_Done [where m = "plane_peek _ _", OF peek]
        bind_Done [where m = "resolve_with_snapshot _ _ _ _ _", OF res] authorize_def demo_set_decision written_at_def
        del: set_passes.simps)
qed

lemma demo_set_committed:
  obtains w where "set_op quiet demo_manager [107] v demo_context demo_world = (Done (Ok ()), w)"
    "ladder_ok AllToZero sharded_wf demo_manager w" "committed AllToZero demo_manager [116, 0, 107] v w"
    "written_at AllToZero demo_manager [116, 0, 107] L1 demo_world w"
proof -
  from demo_set obtain w where w: "set_op quiet demo_manager [107] v demo_context demo_world = (Done (Ok ()), w)"
    "written_at AllToZero demo_manager [116, 0, 107] L1 demo_world w" by blast
  have "ctx_ttl demo_context = None" by (simp add: demo_context_def context_new_def)
  from stub_ladder.set_op_commits [OF demo_key this quiet_minds demo_world_ok [unfolded demo_manager_def]
      w(1) [unfolded demo_manager_def]] that [OF w(1)] w(2)
  show ?thesis by (simp add: demo_manager_def)
qed

lemma demo_get_authorized: "authorize (resolve demo_manager (request_for OpGet [107] demo_context) demo_context) = Ok ()"
  by (simp add: demo_manager_def manager_with_timeout_def resolve_def authorize_def)

text \<open>
  C1: Read your write. On a ladder whose rungs keep their contract, a write without TTL that reports
  success is returned by the next \<open>get\<close> of the key: through authentication, tenant framing, the
  policy, the two-phase commit on the control plane, the walk down the ladder, retries and evictions,
  with other tasks doing anything meanwhile, and between the write and the read, that leaves this key
  alone. The caller may drop the write only after it has returned, and does not drop the read.
\<close>

theorem manager_read_your_write:
  assumes "ladder_contract m sound" "encode_key key ctx = Ok k" "ctx_ttl ctx = None"
    and "minds pl sound m k sc" "minds pl sound m k sc'" "\<forall>n. \<not> sc_drop sc' n"
    and "ladder_ok pl sound m w" "set_op sc m key v ctx w = (Done (Ok ()), w')"
    and "authorize (resolve m (request_for OpGet key ctx) ctx) = Ok ()"
  shows "fst (get_op sc' m key ctx w') = Done (Ok (Some v))"
proof -
  have "check_auth ctx = Ok ()"
    using assms(8) by (cases "check_auth ctx") (simp_all add: set_op_def ret_def)
  moreover have "ladder_ok pl sound m w'" "committed pl m k v w'"
    using ladder_contract.set_op_commits [OF assms(1,2,3,4,7,8)] by simp_all
  ultimately show ?thesis using assms(2,5,6,9) by (intro get_hit) simp_all
qed

theorem manager_read_your_write_witness:
  "fst (get_op quiet demo_manager [107] demo_context
     (snd (set_op quiet demo_manager [107] [7, 8] demo_context demo_world))) = Done (Ok (Some [7, 8]))"
proof -
  from demo_set obtain w' where w': "set_op quiet demo_manager [107] [7, 8] demo_context demo_world = (Done (Ok ()), w')"
    by blast
  have "fst (get_op quiet demo_manager [107] demo_context w') = Done (Ok (Some [7, 8]))"
  proof (rule manager_read_your_write [OF _ demo_key _ quiet_minds quiet_minds _ demo_world_ok w'])
    show "ladder_contract demo_manager sharded_wf"
      unfolding demo_manager_def by (rule stub_ladder.ladder_contract_axioms)
  qed (simp_all add: demo_context_def context_new_def quiet_def demo_get_authorized [unfolded demo_context_def context_new_def])
  with w' show ?thesis by simp
qed

text \<open>
  C6: A value that \<open>get\<close> returns was committed when its rung was read. Whatever the schedule and the
  rungs do, an answer means that the control plane described the entry as committed in some state of
  the call, and that the rung named there answered with this value at the next step. There are two
  ways. Usually that state is the first look: then the entry was also unexpired, and the plane still
  described it as committed when \<open>get\<close> looked again at the end, so that an abort, an invalidation or an
  eviction that lands while the rung is read turns the answer into a miss. Otherwise \<open>get\<close> had met an
  entry in flight or prepared that nobody owns, waited, and looked again: then the entry carried no
  error, but this arm compares no expiry and takes no second look.
\<close>

theorem get_serves_committed:
  assumes "encode_key key ctx = Ok k" "get_op sc m key ctx w = (Done (Ok x), w')"
  shows "\<exists>u s. cp_peek (w_now u) k (w_plane u) = Ok s \<and> cs_state s = Ready \<and>
    rung_holds m (cs_tier s) k (tick sc u) x \<and>
    (u = tick sc w \<and> \<not> cs_expired s \<and>
       (\<forall>after. cp_peek (w_now w') k (w_plane w') = Ok after \<longrightarrow> cs_state after = Ready) \<or>
     (\<exists>first v. cp_peek (w_now (tick sc w)) k (w_plane (tick sc w)) = Ok first \<and>
       cs_state first \<in> {InFlight, Prepared} \<and> \<not> cs_population_owner first \<and>
       wait_for_population sc m k (tick sc w) = (Done (Ok ()), v) \<and> u = tick sc v \<and> cs_last_error s = None))"
proof -
  obtain first where f: "cp_peek (w_now (tick sc w)) k (w_plane (tick sc w)) = Ok first"
    and arm: "cs_state first = Ready \<and> \<not> cs_expired first \<and>
        get_ready sc m k first (w_now w) (tick sc w) = (Done (Ok x), w') \<or>
      cs_state first \<in> {InFlight, Prepared} \<and> \<not> cs_population_owner first \<and>
        get_waiting sc m k (tick sc w) = (Done (Ok x), w')"
    using assms
    by (auto simp: get_op_def bind_task_def read_now_def read_backend_def try_task_def plane_peek_eq ret_def Let_def
        elim!: then_DoneE split: sum.splits if_splits)
  from arm show ?thesis
  proof (elim disjE conjE)
    assume "cs_state first = Ready" "\<not> cs_expired first" "get_ready sc m k first (w_now w) (tick sc w) = (Done (Ok x), w')"
    with f get_ready_answered show ?thesis by blast
  next
    assume st: "cs_state first \<in> {InFlight, Prepared}" "\<not> cs_population_owner first"
      and wait: "get_waiting sc m k (tick sc w) = (Done (Ok x), w')"
    from wait obtain v s where "wait_for_population sc m k (tick sc w) = (Done (Ok ()), v)"
      "cp_peek (w_now (tick sc v)) k (w_plane (tick sc v)) = Ok s" "cs_state s = Ready" "cs_last_error s = None"
      "rung_holds m (cs_tier s) k (tick sc (tick sc v)) x"
      by (rule get_waiting_answered)
    with f st show ?thesis by blast
  qed
qed

theorem get_serves_committed_witness:
  "\<exists>w'. get_op quiet demo_manager [107] demo_context
       (snd (set_op quiet demo_manager [107] [7, 8] demo_context demo_world)) = (Done (Ok (Some [7, 8])), w') \<and>
     (\<exists>u s. cp_peek (w_now u) [116, 0, 107] (w_plane u) = Ok s \<and> cs_state s = Ready \<and>
        rung_holds demo_manager (cs_tier s) [116, 0, 107] (tick quiet u) (Some [7, 8]))"
proof -
  let ?k = "[116, 0, 107] :: bytes"
  obtain w where w: "set_op quiet demo_manager [107] [7, 8] demo_context demo_world = (Done (Ok ()), w)"
    and ok: "ladder_ok AllToZero sharded_wf demo_manager w" "committed AllToZero demo_manager ?k [7, 8] w"
    by (rule demo_set_committed)
  have "fst (get_op quiet demo_manager [107] demo_context w) = Done (Ok (Some [7, 8]))"
    by (rule get_hit [OF demo_key demo_auth demo_get_authorized quiet_minds _ ok]) (simp add: quiet_def)
  then obtain w' where g: "get_op quiet demo_manager [107] demo_context w = (Done (Ok (Some [7, 8])), w')"
    by (metis prod.collapse)
  from get_serves_committed [OF demo_key g] g show ?thesis unfolding w by auto
qed

text \<open>
  While somebody populates or commits a key, the entry is owned, and the waiting arm asks for an entry
  that is not: a read of a key that is being populated answers a miss at once and does not wait.
\<close>

theorem get_never_joins_an_owner:
  assumes "encode_key key ctx = Ok k" "check_auth ctx = Ok ()"
    and "authorize (resolve m (request_for OpGet key ctx) ctx) = Ok ()"
    and "cp_peek (w_now (tick sc w)) k (w_plane (tick sc w)) = Ok s"
    and "cs_state s \<in> {InFlight, Prepared}" "cs_population_owner s"
  shows "fst (get_op sc m key ctx w) = Done (Err Miss)"
  using assms
  by (auto simp: get_op_def bind_task_def read_now_def try_task_def plane_peek_eq ret_def Let_def then_task_def
      observed_control_only_def emit_def)

text \<open>
  C20: A refresh never passes a stored value off as a new one. When \<open>refresh_detailed\<close> answers
  \<open>Fresh\<close>, the value is one that the caller's fetch returned; when it answers \<open>Stale\<close> with a value,
  the value is the one that the rung named by the plane held when the refresh began, and the plane
  then described the entry as readable. This holds for every schedule and every rung, also when the
  policy's fail-open mode would have allowed a copy from another rung.
\<close>

theorem refresh_freshness_honest:
  assumes "encode_key key ctx = Ok k" "refresh_detailed sc m key ctx fetch w = (Done (Ok l), w')"
  shows "case lu_freshness l of
      Fresh \<Rightarrow> \<exists>v. lu_value l = Some v \<and> fetched fetch v
    | StaleValue \<Rightarrow> \<forall>v. lu_value l = Some v \<longrightarrow>
        (\<exists>before. cp_peek (w_now (tick sc w)) k (w_plane (tick sc w)) = Ok before \<and>
           is_readable (cs_state before) \<and> rung_holds m (cs_tier before) k (tick sc (tick sc w)) (Some v))"
proof -
  have "\<exists>before current w2. cp_peek (w_now (tick sc w)) k (w_plane (tick sc w)) = Ok before \<and>
      refresh_current sc m k before (tick sc w) = (Done current, w2) \<and>
      (lu_freshness l = StaleValue \<and> lu_value l = current \<or>
       lu_freshness l = Fresh \<and> (\<exists>v. lu_value l = Some v \<and> fetched fetch v))"
    using assms unfolding refresh_detailed_def Let_def try_pure_def
    by (auto simp: ret_def plane_peek_eq elim!: try_DoneE bind_DoneE then_DoneE split: sum.splits if_splits
        dest!: refreshed_fetched)
  then obtain before current w2 where "cp_peek (w_now (tick sc w)) k (w_plane (tick sc w)) = Ok before"
    and "refresh_current sc m k before (tick sc w) = (Done current, w2)"
    and "lu_freshness l = StaleValue \<and> lu_value l = current \<or>
      lu_freshness l = Fresh \<and> (\<exists>v. lu_value l = Some v \<and> fetched fetch v)"
    by blast
  with refresh_current_answered [of sc m k before "tick sc w"] show ?thesis
    by (cases "lu_freshness l") auto
qed

text \<open>A population on an undisturbed world whose fetch and rung both answer.\<close>

lemma quiet_populate_once:
  assumes ok: "plane_ok pl (w_plane w)" "plane_lookup (w_plane w) (address_of pl k) = Some e" "ce_generation e = g"
    and k: "encode_key key ctx = Ok k" and t: "nearest_bound_rung m (pd_tier decision) = Some t"
    and fetch: "\<And>n. fetch n = Returns (Ok v)"
    and set: "\<And>now. fst (t_set (m_tiers m ! as_usize t) now k v (ctx_ttl ctx) (w_stores w ! as_usize t)) = Returns (Ok ())"
  shows "\<exists>w'. populate_once quiet m key k g ctx fetch decision w = (Done (Ok v), w')"
proof -
  have "fst (cp_publish now k g t ttl (w_plane w)) = Ok ()" for now ttl
    using plane_ok_with_entry(3) [OF ok(1) keeps_steps(1)] ok(2,3) plane_okD(4) [OF ok(1)]
    by (simp add: cp_publish_def entry_publish_def generation_is_stale_def)
  moreover define p2 where "p2 now ttl = snd (cp_publish now k g t ttl (w_plane w))" for now ttl
  ultimately have pub: "cp_publish now k g t ttl (w_plane w) = (Ok (), p2 now ttl)" for now ttl
    by (simp add: prod_eq_iff)
  show ?thesis
    using set nearest_bound_rung_cache(2) [OF t]
    by (simp add: populate_once_def try_task_def bounded_def fetch_call_def bind_task_def then_task_def suspend_def
        fetch k t observed_write_def rung_set_def tier_call_def read_now_def read_backend_def record_outcome_def registry_call_def
        emit_def ret_def plane_call_def pub Let_def quiet_def tick_def case_prod_unfold)
qed

lemma demo_refresh:
  "\<exists>w'. refresh_detailed quiet demo_manager [107] demo_context (\<lambda>_. Returns (Ok v)) demo_world =
     (Done (Ok \<lparr>lu_value = Some v, lu_freshness = Fresh\<rparr>), w')"
proof -
  let ?k = "[116, 0, 107] :: bytes" and ?a = "address_of AllToZero [116, 0, 107]"
  let ?d = "resolve demo_manager (request_for OpRefresh [107] demo_context) demo_context\<lparr>pd_fail_mode := FailClosed\<rparr>"
  have d: "pd_tier ?d = L0" "authorize (resolve demo_manager (request_for OpRefresh [107] demo_context) demo_context) = Ok ()"
    by (simp_all add: demo_manager_def manager_with_timeout_def resolve_def authorize_def default_select_tier
        cache_state_new_def request_for_def demo_context_def context_new_def request_new_def healthy_fallback_def
        capacity_fallback_def default_health_def health_circuit_open_def)
  have peek: "plane_peek quiet ?k demo_world = (Done (Ok absent_snapshot), demo_world\<lparr>w_step := Suc 0\<rparr>)"
    by (simp add: plane_peek_eq demo_world_def idle_world_def cp_peek_None [OF demo_plane_ok] demo_plane_lookup)
  let ?acq = "cp_acquire 0 ?k L0 demo_plane" and ?e = "snd (entry_acquire 0 L0 (entry_new ?a))"
  note acq = plane_ok_with_or_create [OF demo_plane_ok keeps_acquire, of ?a 0 L0]
  have a: "fst ?acq = fst (entry_acquire 0 L0 (entry_new ?a))" "plane_ok AllToZero (snd ?acq)"
    "plane_lookup (snd ?acq) ?a = Some ?e"
    using acq by (simp_all add: cp_acquire_def plane_okD(4) [OF demo_plane_ok] demo_plane_admits plane_entry_def
        demo_plane_lookup)
  obtain s where s: "fst (entry_acquire 0 L0 (entry_new ?a)) = Ok s" "cs_population_owner s" "cs_generation s = ce_generation ?e"
    by (simp add: entry_acquire_def entry_new_def e_state_def state_of_u8_def state_try_from_def
        e_compare_exchange_state_def snapshot_of_def Let_def)
  let ?w = "demo_world\<lparr>w_step := 2, w_plane := snd ?acq\<rparr>"
  have acquire: "plane_call quiet (\<lambda>now. cp_acquire now ?k L0) (demo_world\<lparr>w_step := Suc 0\<rparr>) = (Done (Ok s), ?w)"
    using a(1) s(1) by (simp add: plane_call_def demo_world_def idle_world_def Let_def case_prod_unfold)
  have "nearest_bound_rung demo_manager L0 = Some L0"
    by (simp add: nearest_bound_rung_def is_cache_rung_iff from_index_def from_usize_def has_tier_def demo_manager_def
        manager_with_timeout_def stub_tiers_def)
  then have "\<exists>w'. populate_once quiet demo_manager [107] ?k (cs_generation s) demo_context (\<lambda>_. Returns (Ok v)) ?d ?w =
      (Done (Ok v), w')"
    using a(2,3) s(3) d(1)
    by (intro quiet_populate_once [where pl = AllToZero and t = L0, OF _ _ _ demo_key])
       (simp_all add: demo_manager_def manager_with_timeout_def stub_tiers_def l0_ops_def demo_world_def idle_world_def
          demo_sharded_set)
  then obtain w' where pop: "populate_once quiet demo_manager [107] ?k (cs_generation s) demo_context
      (\<lambda>_. Returns (Ok v)) ?d ?w = (Done (Ok v), w')" by blast
  have "MAX_POPULATE_ATTEMPTS - 1 = Suc 1" by (simp add: MAX_POPULATE_ATTEMPTS_def)
  with pop have own: "become_population_owner quiet demo_manager [107] ?k (cs_generation s) demo_context ?d
      (\<lambda>_. Returns (Ok v)) ?w = (Done (Ok v), w')"
    by (simp add: become_population_owner_def bind_task_def guarded_def ret_def)
  show ?thesis
    using d s(2)
    by (simp add: refresh_detailed_def demo_key demo_auth Let_def try_Done [where m = "plane_peek _ _", OF peek]
        refresh_current_def absent_snapshot_def try_Done [where m = "plane_call _ _", OF acquire]
        bind_Done [where m = "become_population_owner _ _ _ _ _ _ _ _", OF own] ret_def)
qed

theorem refresh_freshness_honest_witness:
  "fst (refresh_detailed quiet demo_manager [107] demo_context (\<lambda>_. Returns (Ok [9])) demo_world) =
     Done (Ok \<lparr>lu_value = Some [9], lu_freshness = Fresh\<rparr>) \<and> fetched (\<lambda>_. Returns (Ok [9 :: u8])) [9]"
proof -
  from demo_refresh obtain w' where r: "refresh_detailed quiet demo_manager [107] demo_context (\<lambda>_. Returns (Ok [9])) demo_world =
      (Done (Ok \<lparr>lu_value = Some [9], lu_freshness = Fresh\<rparr>), w')" by blast
  with refresh_freshness_honest [OF demo_key r] show ?thesis by simp
qed

end
