(* ===== verification/Manager_Effects.thy ===== *)
theory Manager_Effects
  imports Manager_Visibility
begin

section \<open>What refreshes, moves and removals make visible\<close>

text \<open>
  The counterpart of read your write for the other operations that change an entry: a value that
  \<open>refresh\<close> reports as fresh is what the next \<open>get\<close> returns, a promotion or demotion that reports success
  keeps the value readable on its new rung, and a removed or invalidated key reads as a miss. Then
  two things a move does to an entry that its documentation does not say.
\<close>

subsection \<open>Publishing\<close>

context ladder_contract
begin

lemma runs_publish:
  assumes sc: "minds pl sound m k sc"
  shows "runs (\<lambda>w. ladder_ok pl sound m w \<and> serves m t k v w)
    (plane_call sc (\<lambda>now. cp_publish now k expected t None))
    (\<lambda>r w. ladder_ok pl sound m w \<and> (r = Ok () \<longrightarrow> committed pl m k v w)) D"
proof (rule runsI)
  let ?a = "address_of pl k"
  fix w r w'
  assume w: "ladder_ok pl sound m w \<and> serves m t k v w"
    and c: "plane_call sc (\<lambda>now. cp_publish now k expected t None) w = (Done r, w')"
  let ?t = "tick sc w" and ?f = "entry_publish (w_now (tick sc w)) expected t None"
  have t: "ladder_ok pl sound m ?t" "serves m t k v ?t"
    using steady_tick [OF steady_ladder(2) [OF sc] w] by simp_all
  then have ok: "plane_ok pl (w_plane ?t)" by (simp add: ladder_ok_def)
  note p = plane_ok_with_entry [OF ok keeps_steps(1) [of "w_now ?t" expected t None], of ?a "Err Miss"]
  have r: "r = fst (with_entry ?a (Err Miss) ?f (w_plane ?t))"
    and w': "w' = ?t\<lparr>w_plane := snd (with_entry ?a (Err Miss) ?f (w_plane ?t))\<rparr>"
    using c by (auto simp: plane_call_def cp_publish_def plane_okD(4) [OF ok] Let_def case_prod_unfold)
  have "ladder_ok pl sound m w'" using t(1) p(1) by (simp add: w' ladder_ok_def stores_sound_def)
  moreover have "committed pl m k v w'" if "r = Ok ()"
  proof (cases "plane_lookup (w_plane ?t) ?a")
    case None
    with that r p(3) show ?thesis by simp
  next
    case (Some e)
    have "e_state (snd (?f e)) = Ready" "e_tier (snd (?f e)) = t" "e_ttl (snd (?f e)) = None"
      using that r p(3) Some by (auto simp: entry_publish_def Let_def e_ttl_def split: if_splits)
    with p(1,2) Some t(2) show ?thesis by (simp add: w' committed_def serves_def)
  qed
  ultimately show "ladder_ok pl sound m w' \<and> (r = Ok () \<longrightarrow> committed pl m k v w')" by blast
qed (auto simp: plane_call_def Let_def case_prod_unfold)

text \<open>The breaker registry is none of the ladder's business.\<close>

lemma runs_outcome_serves:
  assumes sc: "minds pl sound m k sc"
  shows "runs (\<lambda>w. ladder_ok pl sound m w \<and> (P \<longrightarrow> serves m t k v w)) (record_outcome sc t' r)
    (\<lambda>_ w. ladder_ok pl sound m w \<and> (P \<longrightarrow> serves m t k v w)) (ladder_ok pl sound m)"
  using steady_ladder(1) [OF sc] steady_ladder(2) [OF sc, of t v]
  by (cases P) (auto intro!: upholds_runs upholds_record_outcome)

lemma runs_populate:
  assumes sc: "minds pl sound m k sc" and k: "encode_key key ctx = Ok k" "ctx_ttl ctx = None"
  shows "runs (ladder_ok pl sound m) (populate_once sc m key k expected ctx fetch decision)
    (\<lambda>r w. ladder_ok pl sound m w \<and> (\<forall>v. r = Ok v \<longrightarrow> committed pl m k v w)) (ladder_ok pl sound m)"
    (is "runs ?L _ ?Q ?L")
proof -
  note st = steady_ladder(1) [OF sc]
  have fetched: "runs ?L (bounded m (fetch_call sc fetch)) (\<lambda>_. ?L) ?L"
    by (rule upholds_runs) (auto intro!: upholds_bounded upholds_fetch_call st steady_blind [OF st])
  have stored: "runs ?L (bind_task (observed_write sc m Tel_GetOrFetch k t (rung_set sc m t k v None)) (\<lambda>r.
      then_task (record_outcome sc t r) (try_pure r (\<lambda>_.
        try_task (plane_call sc (\<lambda>now. cp_publish now k expected t None)) (\<lambda>_. ret (Ok v)))))) ?Q ?L"
    if t: "has_tier m t" for t v
  proof (rule runs_bind [OF runs_observed_set [OF sc t]], rule runs_then [OF runs_outcome_serves [OF sc]])
    show "runs (\<lambda>w. ?L w \<and> (r = Ok () \<longrightarrow> serves m t k v w)) (try_pure r (\<lambda>_.
        try_task (plane_call sc (\<lambda>now. cp_publish now k expected t None)) (\<lambda>_. ret (Ok v)))) ?Q ?L" for r
      by (cases r) (auto intro!: runs_try [OF runs_publish [OF sc]])
  qed
  show ?thesis
    unfolding populate_once_def k try_pure_simps
    by (rule runs_try [OF fetched]) (auto intro!: stored split: option.split)
qed

lemma ladder_fail:
  assumes sc: "minds pl sound m k sc"
  shows "upholds (ladder_ok pl sound m) (plane_call sc (\<lambda>now. cp_fail_with_error key e))"
  unfolding cp_fail_with_error_def
  by (rule ladder_plane_call [OF sc]) (rule plane_ok_with_entry(1), simp_all)

lemma runs_populate_attempts:
  assumes sc: "minds pl sound m k sc" and k: "encode_key key ctx = Ok k" "ctx_ttl ctx = None"
  shows "runs (ladder_ok pl sound m) (populate_loop sc m key k expected ctx decision fetch n backoff)
    (\<lambda>(armed, r) w. ladder_ok pl sound m w \<and> (\<forall>v. r = Ok v \<longrightarrow> \<not> armed \<and> committed pl m k v w)) (ladder_ok pl sound m)"
    (is "runs ?L _ ?Q ?L")
proof -
  note st = steady_ladder(1) [OF sc]
  have kept: "upholds ?L (population_failed sc m k decision e :: ('s, bool \<times> 'v result) io)" for e
    unfolding population_failed_def
    by (intro upholds_bind upholds_then upholds_read_now upholds_read_backend upholds_emit steady_blind [OF st]
        ladder_fail [OF sc] upholds_ret)
  have err: "snd x = Err e" if "population_failed sc m k decision e w = (Done x, w')"
    for e w w' and x :: "bool \<times> 'v result"
    using that by (auto simp: population_failed_def bind_task_def then_task_def ret_def split: prod.splits flow.splits)
  have failed: "runs ?L (population_failed sc m k decision e) ?Q ?L" for e
  proof (rule runsI)
    show "?Q x w'" if "?L w" "population_failed sc m k decision e w = (Done x, w')" for w x w'
      using upholdsD [OF kept that(1), of e] err [OF that(2)] that(2) by (cases x) simp
    show "?L w'" if "?L w" "(population_failed sc m k decision e :: ('s, bool \<times> 'v result) io) w = (Dropped, w')" for w w'
      using upholdsD [OF kept that(1), of e] that(2) by simp
  qed
  have slept: "runs ?L (sleep sc d) (\<lambda>_. ?L) ?L" for d
    by (rule upholds_runs [OF upholds_sleep [OF st]]) simp
  show ?thesis
    by (induction n arbitrary: backoff)
       (auto intro!: runs_bind [OF runs_populate [OF sc k]] runs_then [OF slept] runs_ret
          intro: runs_weaken [OF failed] elim!: runs_weaken split: sum.split)
qed

lemma runs_owner_closed:
  assumes sc: "minds pl sound m k sc" and k: "encode_key key ctx = Ok k" "ctx_ttl ctx = None"
    and closed: "pd_fail_mode decision = FailClosed"
  shows "runs (ladder_ok pl sound m) (become_population_owner sc m key k expected ctx decision fetch)
    (\<lambda>r w. ladder_ok pl sound m w \<and> (\<forall>v. r = Ok v \<longrightarrow> committed pl m k v w)) (ladder_ok pl sound m)"
    (is "runs ?L _ ?Q ?L")
proof -
  have drop: "?L (population_guard_drop sc k w)" if "?L w" for w
    unfolding population_guard_drop_def using upholdsD [OF ladder_fail [OF sc] that] by simp
  have "runs ?L (guarded (population_guard_drop sc k)
      (populate_loop sc m key k expected ctx decision fetch (MAX_POPULATE_ATTEMPTS - 1) RETRY_BASE_BACKOFF)) ?Q ?L"
    by (rule runs_guarded, rule runs_weaken [OF runs_populate_attempts [OF sc k]]) (auto intro: drop)
  then show ?thesis
    unfolding become_population_owner_def closed by (rule runs_bind) (auto split: sum.split)
qed

subsection \<open>Refreshing\<close>

lemma runs_refresh:
  assumes sc: "minds pl sound m k sc" and k: "encode_key key ctx = Ok k" "ctx_ttl ctx = None"
  shows "runs (ladder_ok pl sound m) (refresh_detailed sc m key ctx fetch)
    (\<lambda>r w. ladder_ok pl sound m w \<and> (\<forall>l. r = Ok l \<and> lu_freshness l = Fresh \<longrightarrow>
       (\<exists>v. lu_value l = Some v \<and> committed pl m k v w))) (ladder_ok pl sound m)"
    (is "runs ?L _ ?Q ?L")
proof -
  note st = steady_ladder(1) [OF sc]
  have get: "upholds ?L (rung_get sc m t key)" for t key
    unfolding rung_get_def by (rule ladder_tier_call [OF sc]) (simp add: rung_contract.inv_get [OF rung])
  have current: "runs ?L (refresh_current sc m k before) (\<lambda>_. ?L) ?L" for before
    unfolding refresh_current_def
    by (rule upholds_runs) (auto intro!: upholds_bind upholds_bounded get steady_blind [OF st])
  have stale: "runs ?L (if b then then_task (plane_call sc (\<lambda>now. cp_set_state k Stale)) (ret ()) else ret ())
      (\<lambda>_. ?L) ?L" for b
    unfolding cp_set_state_def
    by (auto intro!: upholds_runs upholds_then ladder_plane_call [OF sc] plane_ok_with_or_create(1))
  have claim: "runs ?L (plane_call sc (\<lambda>now. cp_acquire now k t)) (\<lambda>_. ?L) ?L" for t
    unfolding cp_acquire_def
    by (rule upholds_runs [OF ladder_plane_call [OF sc]]) (auto intro!: plane_ok_with_or_create(1))
  have noted: "runs ?L (record_telemetry_refresh_failure k s e) (\<lambda>_. ?L) ?L" for s e
    unfolding record_telemetry_refresh_failure_def
    by (rule upholds_runs) (auto intro!: upholds_bind upholds_read_now upholds_emit steady_blind [OF st])
  have last: "runs ?L (bind_task (become_population_owner sc m key k g ctx (d\<lparr>pd_fail_mode := FailClosed\<rparr>) fetch)
      (\<lambda>out. case out of
          Inr v \<Rightarrow> ret (Ok \<lparr>lu_value = Some v, lu_freshness = Fresh\<rparr>)
        | Inl e \<Rightarrow> if current \<noteq> None
            then then_task (record_telemetry_refresh_failure k s e) (ret (Ok \<lparr>lu_value = current, lu_freshness = StaleValue\<rparr>))
            else ret (Err e))) ?Q ?L" for g d s current
  proof (rule runs_bind [OF runs_owner_closed [OF sc k]])
    show "runs (\<lambda>w. ?L w \<and> (\<forall>v. out = Ok v \<longrightarrow> committed pl m k v w)) (case out of
          Inr v \<Rightarrow> ret (Ok \<lparr>lu_value = Some v, lu_freshness = Fresh\<rparr>)
        | Inl e \<Rightarrow> if current \<noteq> None
            then then_task (record_telemetry_refresh_failure k s e) (ret (Ok \<lparr>lu_value = current, lu_freshness = StaleValue\<rparr>))
            else ret (Err e)) ?Q ?L" for out
      by (cases out) (auto intro!: runs_ret runs_then [OF noted])
  qed simp
  have peek: "runs ?L (plane_peek sc k) (\<lambda>_. ?L) ?L"
    by (rule upholds_runs [OF upholds_peek [OF st]]) simp
  show ?thesis
    unfolding refresh_detailed_def k Let_def
    by (auto intro!: runs_try_pure runs_try [OF peek] runs_bind [OF current] runs_then [OF stale] runs_try [OF claim]
        last runs_ret simp del: not_None_eq)
qed

subsection \<open>Moving\<close>

lemma runs_rung_get:
  assumes sc: "minds pl sound m k sc"
  shows "runs (\<lambda>w. ladder_ok pl sound m w \<and> serves m t k v w) (bounded m (rung_get sc m t k))
    (\<lambda>r w. ladder_ok pl sound m w \<and> r = Ok (Some v)) (ladder_ok pl sound m)"
proof -
  let ?i = "as_usize t" and ?L = "ladder_ok pl sound m"
  let ?S = "\<lambda>w. ?L w \<and> serves m t k v w"
  let ?f = "\<lambda>now. t_get (m_tiers m ! ?i) now k"
  have act: "runs ?S (\<lambda>w. case ?f (w_now w) (w_stores w ! ?i) of
      (r, s) \<Rightarrow> (Done r, w\<lparr>w_stores := (w_stores w)[?i := s]\<rparr>)) (\<lambda>r w. ?L w \<and> r = Returns (Ok (Some v))) ?L"
  proof (rule runsI)
    fix w r w' assume w: "?S w" and "(case ?f (w_now w) (w_stores w ! ?i) of
      (r, s) \<Rightarrow> (Done r, w\<lparr>w_stores := (w_stores w)[?i := s]\<rparr>)) = (Done r, w')"
    then obtain s where s: "?f (w_now w) (w_stores w ! ?i) = (r, s)"
      and w': "w' = w\<lparr>w_stores := (w_stores w)[?i := s]\<rparr>" by (auto split: prod.splits)
    have "sound s" if "?i < length (m_tiers m)" "sound (w_stores w ! ?i)"
      using rung_contract.inv_get [OF rung [OF that(1)] that(2), of "w_now w" k] s by simp
    then have "?L w'" using w by (auto simp: w' ladder_ok_def intro!: stores_sound_update)
    moreover have "r = Returns (Ok (Some v))" using w s by (auto simp: serves_def dest!: spec [of _ "w_now w"])
    ultimately show "?L w' \<and> r = Returns (Ok (Some v))" by simp
  qed (auto split: prod.splits)
  have first: "runs ?S (suspend sc) (\<lambda>_. ?S) ?L"
    by (rule upholds_runs [OF upholds_suspend [OF steady_ladder(2) [OF sc]]]) simp
  have last: "runs (\<lambda>w. ?L w \<and> r = Returns (Ok (Some v))) (then_task (suspend sc) (ret r))
      (\<lambda>r w. ?L w \<and> r = Returns (Ok (Some v))) ?L" for r :: "'v option reply"
    by (rule runs_then [OF upholds_runs [OF upholds_suspend]])
       (use steady_ladder(1) [OF sc] in \<open>auto simp: steady_def blind_def\<close>)
  have "runs ?S (rung_get sc m t k) (\<lambda>r w. ?L w \<and> r = Returns (Ok (Some v))) ?L"
    unfolding rung_get_def tier_call_def by (rule runs_then [OF first], rule runs_bind [OF act last])
  then show ?thesis
    unfolding bounded_def
    by (rule runs_bind) (auto simp: runs_def ret_def split: reply.split)
qed

text \<open>Removing a key from one rung leaves what another rung serves.\<close>

lemma serves_other_remove:
  assumes sc: "minds pl sound m k sc" and ne: "i \<noteq> as_usize t"
  shows "upholds (\<lambda>w. ladder_ok pl sound m w \<and> serves m t k v w) (rung_remove sc m i key)"
  unfolding rung_remove_def
  by (rule upholds_tier_call [OF steady_ladder(2) [OF sc]])
     (use ne in \<open>auto simp: ladder_ok_def serves_def rung_contract.inv_remove [OF rung] intro!: stores_sound_update\<close>)

lemma runs_prepare_target:
  assumes sc: "minds pl sound m k sc"
  shows "runs (\<lambda>w. ladder_ok pl sound m w \<and> serves m f k v w) (plane_call sc (\<lambda>now. cp_prepare now k None t kind))
    (\<lambda>r w. (ladder_ok pl sound m w \<and> serves m f k v w) \<and>
       (\<forall>token. r = Inr token \<longrightarrow> ct_address token = address_of pl k \<and> ct_target_tier token = as_u8 t))
    (ladder_ok pl sound m)"
proof (rule runsI)
  let ?S = "\<lambda>w. ladder_ok pl sound m w \<and> serves m f k v w"
  fix w r w' assume w: "?S w" and c: "plane_call sc (\<lambda>now. cp_prepare now k None t kind) w = (Done r, w')"
  have S: "?S (tick sc w)" by (rule steady_tick [OF steady_ladder(2) [OF sc] w])
  then have ok: "plane_ok pl (w_plane (tick sc w))" by (simp add: ladder_ok_def)
  have r: "r = fst (cp_prepare (w_now (tick sc w)) k None t kind (w_plane (tick sc w)))"
    and w': "w' = (tick sc w)\<lparr>w_plane := snd (cp_prepare (w_now (tick sc w)) k None t kind (w_plane (tick sc w)))\<rparr>"
    using c by (auto simp: plane_call_def Let_def case_prod_unfold)
  have "?S w'" using S plane_ok_calls(1) [OF ok] by (simp add: w' ladder_ok_def stores_sound_def serves_def)
  moreover have "ct_address token = address_of pl k \<and> ct_target_tier token = as_u8 t" if "r = Inr token" for token
    using that r plane_ok_with_or_create(3) [OF ok keeps_steps(7), of "address_of pl k"] plane_entry_address [OF ok]
    by (auto simp: cp_prepare_def plane_okD(4) [OF ok] entry_prepare_def Let_def split: if_splits)
  ultimately show "?S w' \<and> (\<forall>token. r = Inr token \<longrightarrow> ct_address token = address_of pl k \<and> ct_target_tier token = as_u8 t)"
    by blast
qed (auto simp: plane_call_def Let_def case_prod_unfold)

lemma runs_move:
  assumes sc: "minds pl sound m k sc" and k: "encode_key key ctx = Ok k" "ctx_ttl ctx = None" and ne: "f \<noteq> t"
    and tok: "ct_address token = address_of pl k" "ct_target_tier token = as_u8 t"
  shows "runs (\<lambda>w. ladder_ok pl sound m w \<and> serves m f k v w) (move_body sc m key k f t ctx token)
    (\<lambda>(armed, r) w. ladder_ok pl sound m w \<and> (r = Ok () \<longrightarrow> \<not> armed \<and> committed pl m k v w)) (ladder_ok pl sound m)"
    (is "runs ?S _ ?Q ?L")
proof -
  note st = steady_ladder(1) [OF sc]
  have bad: "runs ?L (then_task x (then_task (intent_guard_abort sc token e) (ret (False, Err e)))) ?Q ?L"
    if "upholds ?L x" for x :: "('s, 'a) io" and e
    by (rule runs_then [OF upholds_runs [OF that]], simp, rule runs_then [OF upholds_runs [OF ladder_intent(1) [OF sc]]]) auto
  have abort: "runs ?L (then_task (intent_guard_abort sc token e) (ret (False, Err e))) ?Q ?L" for e
    by (rule runs_then [OF upholds_runs [OF ladder_intent(1) [OF sc]]]) auto
  let ?T = "\<lambda>w. ?L w \<and> serves m t k v w"
  have commit: "runs ?T (bind_task (plane_call sc (\<lambda>now. cp_commit now token None)) (\<lambda>c. case c of
        Inr _ \<Rightarrow> ret (False, Ok ())
      | Inl e \<Rightarrow> then_task (unbounded (rung_remove sc m (as_usize t) k))
          (then_task (intent_guard_abort sc token e) (ret (False, Err e))))) ?Q ?L"
    by (rule runs_bind [OF runs_commit_set [OF sc tok]])
       (auto intro!: runs_ret bad upholds_unbounded ladder_remove [OF sc] split: sum.split)
  have remove: "runs ?T (unbounded (rung_remove sc m (as_usize f) k)) (\<lambda>_. ?T) ?L"
    by (rule upholds_runs) (use ne in \<open>auto intro!: upholds_unbounded serves_other_remove [OF sc] simp: as_usize_inject\<close>)
  have outcome: "runs ?T (record_outcome sc f x) (\<lambda>_. ?T) ?L" for x :: "unit result"
    using runs_outcome_serves [OF sc, of True t v f x] by simp
  have stored: "runs (\<lambda>w. ?L w \<and> (r = Ok () \<longrightarrow> serves m t k v w)) (case r of
        Inl e \<Rightarrow> then_task (intent_guard_abort sc token e) (ret (False, Err e))
      | Inr _ \<Rightarrow> bind_task (unbounded (rung_remove sc m (as_usize f) k)) (\<lambda>x.
          then_task (record_outcome sc f x) (bind_task (plane_call sc (\<lambda>now. cp_commit now token None)) (\<lambda>c. case c of
            Inr _ \<Rightarrow> ret (False, Ok ())
          | Inl e \<Rightarrow> then_task (unbounded (rung_remove sc m (as_usize t) k))
              (then_task (intent_guard_abort sc token e) (ret (False, Err e))))))) ?Q ?L" for r :: "unit result"
    by (cases r) (auto intro!: abort runs_bind [OF remove] runs_then [OF outcome] commit)
  have read: "runs (\<lambda>w. ?L w \<and> r = Ok (Some v)) (case r of
        Inl e \<Rightarrow> then_task (intent_guard_abort sc token e) (ret (False, Err e))
      | Inr None \<Rightarrow> then_task (intent_guard_abort sc token Miss) (ret (False, Err Miss))
      | Inr (Some x) \<Rightarrow> B x) ?Q ?L" if "runs ?L (B v) ?Q ?L" for r B
    using that by (cases "r = Ok (Some v)") (auto simp: runs_def)
  show ?thesis
    unfolding move_body_def k sum.case
    by (auto intro!: runs_ret runs_bind [OF runs_rung_get [OF sc]] read runs_bind [OF runs_observed_set [OF sc]]
        runs_then [OF runs_outcome_serves [OF sc]] stored)
qed

lemma runs_peek_committed:
  assumes sc: "minds pl sound m k sc"
  shows "runs (\<lambda>w. ladder_ok pl sound m w \<and> committed pl m k v w) (plane_peek sc k)
    (\<lambda>r w. (ladder_ok pl sound m w \<and> committed pl m k v w) \<and> (\<forall>s. r = Inr s \<longrightarrow> serves m (cs_tier s) k v w))
    (ladder_ok pl sound m)"
proof (rule runsI)
  let ?C = "\<lambda>w. ladder_ok pl sound m w \<and> committed pl m k v w"
  fix w r w' assume w: "?C w" and c: "plane_peek sc k w = (Done r, w')"
  have C: "?C (tick sc w)" by (rule steady_tick [OF steady_ladder(3) [OF sc] w])
  then obtain e where e: "plane_lookup (w_plane (tick sc w)) (address_of pl k) = Some e"
    and srv: "serves m (e_tier e) k v (tick sc w)" by (auto simp: committed_def)
  have ok: "plane_ok pl (w_plane (tick sc w))" using C by (simp add: ladder_ok_def)
  have "w' = tick sc w" "r = cp_peek (w_now (tick sc w)) k (w_plane (tick sc w))"
    using c by (auto simp: plane_peek_eq)
  with C srv cp_peek_Some [OF ok e] show "?C w' \<and> (\<forall>s. r = Inr s \<longrightarrow> serves m (cs_tier s) k v w')"
    by (simp add: snapshot_of_def)
qed (simp add: plane_peek_eq)

lemma runs_move_entry:
  assumes sc: "minds pl sound m k sc" and k: "encode_key key ctx = Ok k" "ctx_ttl ctx = None" and ne: "cs_tier s \<noteq> t"
  shows "runs (\<lambda>w. ladder_ok pl sound m w \<and> serves m (cs_tier s) k v w) (move_entry sc m key k s t ctx)
    (\<lambda>r w. ladder_ok pl sound m w \<and> (r = Ok () \<longrightarrow> committed pl m k v w)) (ladder_ok pl sound m)"
    (is "runs ?S _ ?Q ?L")
proof -
  have body: "runs (\<lambda>w. ?S w \<and> (\<forall>tok. Inr token = (Inr tok :: commit_token result) \<longrightarrow>
        ct_address tok = address_of pl k \<and> ct_target_tier tok = as_u8 t))
      (guarded (intent_guard_drop sc token) (move_body sc m key k (cs_tier s) t ctx token)) ?Q ?L" for token
  proof (cases "ct_address token = address_of pl k \<and> ct_target_tier token = as_u8 t")
    case True
    then have tok: "ct_address token = address_of pl k" "ct_target_tier token = as_u8 t" by simp_all
    show ?thesis
      by (rule runs_guarded, rule runs_weaken [OF runs_move [OF sc k ne tok]])
         (auto intro: ladder_intent(3) [OF sc])
  qed (auto simp: runs_def)
  show ?thesis
    unfolding move_entry_def by (rule runs_try [OF runs_prepare_target [OF sc] body]) auto
qed

lemma move_keeps_committed:
  assumes k: "encode_key key ctx = Ok k" "ctx_ttl ctx = None" and sc: "minds pl sound m k sc"
    and op: "op = promote_op \<or> op = demote_op"
    and w: "ladder_ok pl sound m w" "committed pl m k v w" and r: "op sc m key ctx w = (Done (Ok ()), w')"
  shows "ladder_ok pl sound m w' \<and> committed pl m k v w'"
proof -
  let ?L = "ladder_ok pl sound m" and ?C = "\<lambda>w. ladder_ok pl sound m w \<and> committed pl m k v w"
  let ?Q = "\<lambda>r w. ?L w \<and> (r = Ok () \<longrightarrow> committed pl m k v w)"
  have step: "runs (\<lambda>w. ?L w \<and> committed pl m k v w \<and> serves m (cs_tier s) k v w)
      (move_entry sc m key k s t ctx) ?Q ?L" if "cs_tier s \<noteq> t" for s t
    by (rule runs_weaken [OF runs_move_entry [OF sc k that]]) auto
  have up: "cs_tier s \<noteq> t" if "from_usize (as_usize (cs_tier s) - Suc 0) = Some t" "0 < as_usize (cs_tier s)" for s t
    using from_usize_SomeD [OF that(1)] that(2) by auto
  have down: "cs_tier s \<noteq> t" if "from_usize (Suc (as_usize (cs_tier s))) = Some t" for s t
    using from_usize_SomeD [OF that] by auto
  have "runs ?C (promote_op sc m key ctx) ?Q ?L"
    unfolding promote_op_def k try_pure_simps
    by (auto intro!: runs_try_pure runs_try [OF runs_peek_committed [OF sc]] runs_ret step split: option.split dest: up)
  moreover have "runs ?C (demote_op sc m key ctx) ?Q ?L"
    unfolding demote_op_def k try_pure_simps
    by (auto intro!: runs_try_pure runs_try [OF runs_peek_committed [OF sc]] runs_ret step split: option.split dest: down)
  ultimately have "runs ?C (op sc m key ctx) ?Q ?L" using op by auto
  from runsD(1) [OF this _ r] w show ?thesis by simp
qed

lemma refresh_commits:
  assumes k: "encode_key key ctx = Ok k" "ctx_ttl ctx = None" and sc: "minds pl sound m k sc"
    and w: "ladder_ok pl sound m w"
    and r: "refresh_detailed sc m key ctx fetch w = (Done (Ok \<lparr>lu_value = Some v, lu_freshness = Fresh\<rparr>), w')"
  shows "ladder_ok pl sound m w' \<and> committed pl m k v w'"
  using runsD(1) [OF runs_refresh [OF sc k] w r] by auto

end

subsection \<open>Histories of one key\<close>

text \<open>
  The operations on a key that reported success, one after another. Each may come from another
  caller: it has its own schedule, its own context and its own spelling of the key, as long as these
  frame to the same bytes and the context sets no TTL. Writes and fresh refreshes start over with a
  new value, moves keep it.
\<close>

inductive key_history ::
  "placement \<Rightarrow> ('s \<Rightarrow> bool) \<Rightarrow> ('s, 'v) manager \<Rightarrow> bytes \<Rightarrow> 'v \<Rightarrow> 's world \<Rightarrow> bool"
  for pl sound m k
where
  wrote: "ladder_ok pl sound m w \<Longrightarrow> minds pl sound m k sc \<Longrightarrow> encode_key key ctx = Ok k \<Longrightarrow> ctx_ttl ctx = None \<Longrightarrow>
    set_op sc m key v ctx w = (Done (Ok ()), w') \<Longrightarrow> key_history pl sound m k v w'"
| refreshed: "ladder_ok pl sound m w \<Longrightarrow> minds pl sound m k sc \<Longrightarrow> encode_key key ctx = Ok k \<Longrightarrow> ctx_ttl ctx = None \<Longrightarrow>
    refresh_detailed sc m key ctx fetch w = (Done (Ok \<lparr>lu_value = Some v, lu_freshness = Fresh\<rparr>), w') \<Longrightarrow>
    key_history pl sound m k v w'"
| promoted: "key_history pl sound m k v w \<Longrightarrow> minds pl sound m k sc \<Longrightarrow> encode_key key ctx = Ok k \<Longrightarrow> ctx_ttl ctx = None \<Longrightarrow>
    promote_op sc m key ctx w = (Done (Ok ()), w') \<Longrightarrow> key_history pl sound m k v w'"
| demoted: "key_history pl sound m k v w \<Longrightarrow> minds pl sound m k sc \<Longrightarrow> encode_key key ctx = Ok k \<Longrightarrow> ctx_ttl ctx = None \<Longrightarrow>
    demote_op sc m key ctx w = (Done (Ok ()), w') \<Longrightarrow> key_history pl sound m k v w'"

lemma key_history_committed:
  assumes "key_history pl sound m k v w" "ladder_contract m sound"
  shows "ladder_ok pl sound m w \<and> committed pl m k v w"
  using assms(1)
proof (induction rule: key_history.induct)
  case (wrote w sc key ctx v w')
  then show ?case using ladder_contract.set_op_commits [OF assms(2)] by blast
next
  case (refreshed w sc key ctx fetch v w')
  then show ?case using ladder_contract.refresh_commits [OF assms(2)] by blast
next
  case (promoted v w sc key ctx w')
  then show ?case using ladder_contract.move_keeps_committed [OF assms(2), where op = promote_op] by blast
next
  case (demoted v w sc key ctx w')
  then show ?case using ladder_contract.move_keeps_committed [OF assms(2), where op = demote_op] by blast
qed

text \<open>
  C2: A read returns what the last successful operation left. Over any history of successful writes,
  fresh refreshes, promotions and demotions of a key, by any callers whose contexts frame it to the
  same bytes and set no TTL, and with any activity of other tasks that leaves the key alone, the next
  \<open>get\<close> by any authenticated and authorized caller of the key returns the value of the last write or
  refresh: a move carries it to its new rung and never loses, duplicates or changes it.
\<close>

theorem last_success_is_read:
  assumes "ladder_contract m sound" "key_history pl sound m k v w"
    and "encode_key key ctx = Ok k" "check_auth ctx = Ok ()"
    and "authorize (resolve m (request_for OpGet key ctx) ctx) = Ok ()"
    and "minds pl sound m k sc" "\<forall>n. \<not> sc_drop sc n"
  shows "fst (get_op sc m key ctx w) = Done (Ok (Some v))"
  using key_history_committed [OF assms(2,1)] assms(7) by (intro get_hit [OF assms(3-6)]) simp_all

text \<open>A move on an undisturbed world whose rungs all answer.\<close>

lemma quiet_outcome:
  "record_outcome quiet t (r :: 'r result) w =
     (Done (), (if \<exists>e. r = Err e \<and> e \<noteq> TierUnavailable then w
        else w\<lparr>w_step := Suc (w_step w), w_registry := (if r = Err TierUnavailable then registry_fail (w_now w) t (w_registry w)
                 else registry_recover t (w_registry w))\<rparr>))"
  by (cases r) (simp_all add: record_outcome_def registry_call_def ret_def quiet_def tick_def Let_def)

lemma quiet_move_entry:
  assumes ok: "plane_ok pl (w_plane w)" "plane_lookup (w_plane w) (address_of pl k) = Some e"
    and k: "encode_key key ctx = Ok k" and t: "has_tier m (cs_tier s)" "has_tier m t" "cs_tier s \<noteq> t"
    and get: "\<And>now. fst (t_get (m_tiers m ! as_usize (cs_tier s)) now k (w_stores w ! as_usize (cs_tier s))) =
        Returns (Ok (Some v))"
    and set: "\<And>now. fst (t_set (m_tiers m ! as_usize t) now k v (ctx_ttl ctx) (w_stores w ! as_usize t)) = Returns (Ok ())"
    and remove: "\<And>now st. fst (t_remove (m_tiers m ! as_usize (cs_tier s)) now k st) = Returns (r now st)"
  shows "\<exists>w' e'. move_entry quiet m key k s t ctx w = (Done (Ok ()), w') \<and>
    plane_lookup (w_plane w') (address_of pl k) = Some e' \<and> e_state e' = Ready \<and> e_tier e' = t \<and>
    ce_expiration_nanos e' = (case ctx_ttl ctx of None \<Rightarrow> 0 | Some d \<Rightarrow> of_nat d)"
proof -
  have adm: "plane_admits (w_plane w) (address_of pl k)" using ok(2) by (simp add: plane_admits_def)
  obtain tok p1 e1 where p: "cp_prepare (w_now w) k None t IK_Move (w_plane w) = (Ok tok, p1)"
    and p1: "plane_ok pl p1" "plane_lookup p1 = (plane_lookup (w_plane w))(address_of pl k \<mapsto> e1)"
    and e1: "e_state e1 = Prepared" "ce_generation e1 = ct_generation tok" and a: "ct_address tok = address_of pl k"
    and target: "ct_target_tier tok = as_u8 t"
    by (rule cp_prepare_ok [OF ok(1) adm])
  have "fst (cp_commit now tok ttl p1) = Ok ()" for now ttl
    using cp_commit_Some(1) [OF p1(1), of tok e1] p1(2) e1 a
    by (simp add: entry_commit_def token_expired_by_def Let_def)
  moreover define p2 where "p2 now ttl = snd (cp_commit now tok ttl p1)" for now ttl
  ultimately have commit: "cp_commit now tok ttl p1 = (Ok (), p2 now ttl)" for now ttl by (simp add: prod_eq_iff)
  have ttl: "ce_expiration_nanos (e_set_ttl d x) = (case d of None \<Rightarrow> 0 | Some n \<Rightarrow> of_nat n)" for d x
    by (simp add: e_set_ttl_def)
  have fin: "\<exists>e'. plane_lookup (p2 now ttl) (address_of pl k) = Some e' \<and> e_state e' = Ready \<and> e_tier e' = t \<and>
      ce_expiration_nanos e' = (case ttl of None \<Rightarrow> 0 | Some d \<Rightarrow> of_nat d)" for now ttl
    using cp_commit_Some(3) [OF p1(1), of tok e1 now ttl] p1(2) e1 a target
    by (auto simp: p2_def entry_commit_def token_expired_by_def Let_def ttl)
  have ne: "as_usize (cs_tier s) \<noteq> as_usize t" using t(3) by (simp add: as_usize_inject)
  show ?thesis
    using set fin
    by (simp add: move_entry_def move_body_def try_task_def bind_task_def plane_call_def p guarded_def observed_write_def
        bounded_def unbounded_def rung_get_def rung_set_def rung_remove_def tier_call_def then_task_def suspend_def read_now_def
        read_backend_def quiet_outcome [unfolded quiet_def] emit_def ret_def Let_def quiet_def tick_def case_prod_unfold
        commit k t get remove ne nth_list_update_neq)
qed

text \<open>
  A move whose destination refuses the value leaves the committed entry failed, so reads miss
  although the source rung still holds it; and a move that succeeds gives the entry the lifetime of
  the mover's context, whatever lifetime it had.
\<close>

lemma refused_move_hides_value:
  assumes ok: "plane_ok pl (w_plane w)" "plane_lookup (w_plane w) (address_of pl k) = Some e"
    and k: "encode_key key ctx = Ok k" and t: "has_tier m (cs_tier s)" "has_tier m t" "cs_tier s \<noteq> t"
    and get: "\<And>now. fst (t_get (m_tiers m ! as_usize (cs_tier s)) now k (w_stores w ! as_usize (cs_tier s))) =
        Returns (Ok (Some v))"
    and set: "\<And>now. fst (t_set (m_tiers m ! as_usize t) now k v (ctx_ttl ctx) (w_stores w ! as_usize t)) = Returns (Err x)"
  shows "\<exists>w' e'. move_entry quiet m key k s t ctx w = (Done (Err x), w') \<and>
    plane_lookup (w_plane w') (address_of pl k) = Some e' \<and> e_state e' = Failed"
proof -
  have adm: "plane_admits (w_plane w) (address_of pl k)" using ok(2) by (simp add: plane_admits_def)
  obtain tok p1 e1 where p: "cp_prepare (w_now w) k None t IK_Move (w_plane w) = (Ok tok, p1)"
    and p1: "plane_ok pl p1" "plane_lookup p1 = (plane_lookup (w_plane w))(address_of pl k \<mapsto> e1)"
    and e1: "e_state e1 = Prepared" and a: "ct_address tok = address_of pl k"
    by (rule cp_prepare_ok [OF ok(1) adm])
  define p2 where "p2 y = snd (cp_abort tok y p1)" for y
  have abort: "cp_abort tok y p1 = (Ok (), p2 y)" for y
    using cp_abort_Some(1) [OF p1(1), of tok e1] p1(2) a by (simp add: p2_def prod_eq_iff)
  have fin: "\<exists>e'. plane_lookup (p2 y) (address_of pl k) = Some e' \<and> e_state e' = Failed" for y
    using cp_abort_Some(3) [OF p1(1), of tok e1 y] p1(2) e1 a by (simp add: p2_def entry_abort_inner_def Let_def)
  have ne: "as_usize (cs_tier s) \<noteq> as_usize t" using t(3) by (simp add: as_usize_inject)
  show ?thesis
    using set fin
    by (simp add: move_entry_def move_body_def intent_guard_abort_def try_task_def bind_task_def plane_call_def p guarded_def
        observed_write_def bounded_def unbounded_def rung_get_def rung_set_def tier_call_def then_task_def suspend_def
        read_now_def read_backend_def quiet_outcome [unfolded quiet_def] emit_def ret_def Let_def quiet_def tick_def
        case_prod_unfold abort k t get ne nth_list_update_neq)
qed

lemma move_replaces_lifetime:
  assumes "plane_ok pl (w_plane w)" "plane_lookup (w_plane w) (address_of pl k) = Some e"
    and "encode_key key ctx = Ok k" "has_tier m (cs_tier s)" "has_tier m t" "cs_tier s \<noteq> t"
    and "\<And>now. fst (t_get (m_tiers m ! as_usize (cs_tier s)) now k (w_stores w ! as_usize (cs_tier s))) =
        Returns (Ok (Some v))"
    and "\<And>now. fst (t_set (m_tiers m ! as_usize t) now k v (ctx_ttl ctx) (w_stores w ! as_usize t)) = Returns (Ok ())"
    and "\<And>now st. fst (t_remove (m_tiers m ! as_usize (cs_tier s)) now k st) = Returns (r now st)"
    and "e_ttl e = Some d" "ctx_ttl ctx = None"
  shows "\<exists>w' e'. move_entry quiet m key k s t ctx w = (Done (Ok ()), w') \<and>
    plane_lookup (w_plane w') (address_of pl k) = Some e' \<and> e_ttl e' = None"
  using quiet_move_entry [OF assms(1-9)] assms(11) by (auto simp: e_ttl_def)

text \<open>The shipped ladder after a write: the value is on \<open>L1\<close> and \<open>L0\<close> has room for it.\<close>

lemma demo_authorized:
  "authorize (resolve demo_manager (request_for op [107] demo_context) demo_context) = Ok ()"
  by (simp add: demo_manager_def manager_with_timeout_def resolve_def authorize_def)

lemma demo_after_set:
  obtains w e s where "set_op quiet demo_manager [107] v demo_context demo_world = (Done (Ok ()), w)"
    "plane_ok AllToZero (w_plane w)" "plane_lookup (w_plane w) (address_of AllToZero [116, 0, 107]) = Some e"
    "e_state e = Ready" "serves demo_manager L1 [116, 0, 107] v w" "w_stores w ! 0 = demo_sharded"
    "plane_peek quiet [116, 0, 107] w = (Done (Ok s), tick quiet w)" "cs_state s = Ready" "cs_tier s = L1"
proof -
  obtain w where w: "set_op quiet demo_manager [107] v demo_context demo_world = (Done (Ok ()), w)"
    and ok: "ladder_ok AllToZero sharded_wf demo_manager w" "committed AllToZero demo_manager [116, 0, 107] v w"
    "written_at AllToZero demo_manager [116, 0, 107] L1 demo_world w"
    by (rule demo_set_committed)
  then obtain e where e: "plane_ok AllToZero (w_plane w)" "plane_lookup (w_plane w) (address_of AllToZero [116, 0, 107]) = Some e"
    "e_state e = Ready" "e_tier e = L1" "serves demo_manager L1 [116, 0, 107] v w"
    by (auto simp: committed_def written_at_def)
  moreover from ok(3) have "w_stores w ! 0 = demo_sharded" by (simp add: written_at_def demo_world_def idle_world_def)
  moreover obtain s where "plane_peek quiet [116, 0, 107] w = (Done (Ok s), tick quiet w)" "cs_state s = Ready" "cs_tier s = L1"
    using cp_peek_Some [OF e(1,2)] e(3,4) by (simp add: plane_peek_eq snapshot_of_def)
  ultimately show ?thesis using that w by blast
qed

text \<open>Another caller of the same tenant, as the governor's census is one.\<close>

definition mover_context :: cache_context where
  "mover_context = context_new \<lparr>principal = [103], roles = [], tenant = [116]\<rparr>"

lemma mover_facts:
  "encode_key [107] mover_context = Ok [116, 0, 107]" "check_auth mover_context = Ok ()" "ctx_ttl mover_context = None"
  "authorize (resolve demo_manager (request_for op [107] mover_context) mover_context) = Ok ()"
  by (simp_all add: encode_key_eq mover_context_def context_new_def MANAGER_MAX_KEY_SIZE_def TENANT_SEPARATOR_def
      check_auth_def context_authenticated_def identity_authenticated_def demo_manager_def manager_with_timeout_def
      resolve_def authorize_def)

lemma demo_promote:
  assumes "plane_ok AllToZero (w_plane w)" "plane_lookup (w_plane w) (address_of AllToZero [116, 0, 107]) = Some e"
    and "serves demo_manager L1 [116, 0, 107] v w" "w_stores w ! 0 = demo_sharded"
    and peek: "plane_peek quiet [116, 0, 107] w = (Done (Ok s), tick quiet w)" "cs_state s = Ready" "cs_tier s = L1"
  shows "\<exists>w'. promote_op quiet demo_manager [107] mover_context w = (Done (Ok ()), w')"
proof -
  let ?r = "\<lambda>now st. fst (sharded_remove (\<lambda>k. of_nat (length k)) now [116, 0, 107] (st :: bytes sharded_tier))"
  have "\<exists>w'. move_entry quiet demo_manager [107] [116, 0, 107] s L0 mover_context (tick quiet w) = (Done (Ok ()), w')"
    using quiet_move_entry [of AllToZero "tick quiet w" "[116, 0, 107]" e "[107]" mover_context demo_manager s L0 v ?r]
      assms mover_facts(1)
    by (simp add: serves_def demo_manager_def manager_with_timeout_def stub_tiers_def has_tier_def l0_ops_def l1_ops_def
        stub_ops_def answer_def case_prod_unfold demo_sharded_set) blast
  then show ?thesis
    by (simp add: promote_op_def mover_facts try_Done [where m = "plane_peek _ _", OF peek(1)] peek
        is_cache_rung_iff from_usize_def)
qed

text \<open>One caller writes, another promotes, and the first reads what it wrote.\<close>

theorem last_success_is_read_witness:
  "\<exists>w w'. set_op quiet demo_manager [107] [7, 8] demo_context demo_world = (Done (Ok ()), w) \<and>
     promote_op quiet demo_manager [107] mover_context w = (Done (Ok ()), w') \<and>
     fst (get_op quiet demo_manager [107] demo_context w') = Done (Ok (Some [7, 8])) \<and> mover_context \<noteq> demo_context"
proof -
  obtain w e s where w: "set_op quiet demo_manager [107] [7, 8] demo_context demo_world = (Done (Ok ()), w)"
    and at: "plane_ok AllToZero (w_plane w)" "plane_lookup (w_plane w) (address_of AllToZero [116, 0, 107]) = Some e"
      "e_state e = Ready" "serves demo_manager L1 [116, 0, 107] [7, 8] w" "w_stores w ! 0 = demo_sharded"
      "plane_peek quiet [116, 0, 107] w = (Done (Ok s), tick quiet w)" "cs_state s = Ready" "cs_tier s = L1"
    by (rule demo_after_set)
  from demo_promote [OF at(1,2,4-8)] obtain w' where w': "promote_op quiet demo_manager [107] mover_context w = (Done (Ok ()), w')"
    by blast
  have ttl: "ctx_ttl demo_context = None" by (simp add: demo_context_def context_new_def)
  have h: "key_history AllToZero sharded_wf demo_manager [116, 0, 107] [7, 8] w'"
    by (rule promoted [OF wrote [OF demo_world_ok quiet_minds demo_key ttl w] quiet_minds mover_facts(1,3) w'])
  have l: "ladder_contract demo_manager sharded_wf"
    unfolding demo_manager_def by (rule stub_ladder.ladder_contract_axioms)
  have "fst (get_op quiet demo_manager [107] demo_context w') = Done (Ok (Some [7, 8]))"
    by (rule last_success_is_read [OF l h demo_key demo_auth demo_authorized quiet_minds]) (simp add: quiet_def)
  moreover have "mover_context \<noteq> demo_context" by (simp add: mover_context_def demo_context_def context_new_def)
  ultimately show ?thesis using w w' by blast
qed

subsection \<open>Removing\<close>

text \<open>Without an entry, or with an invalidated one, both kinds of read answer from the plane alone.\<close>

definition entry_gone :: "control_entry \<Rightarrow> bool" where
  "entry_gone e \<longleftrightarrow> e_state e = Absent"

lemma runs_invalidated:
  assumes sc: "leaves_entry pl (address_of pl k) sc" and op: "op = cp_release k \<or> op = cp_invalidate k"
  shows "runs (at_entry pl (address_of pl k) (\<lambda>_. True)) (plane_call sc (\<lambda>now. op))
    (\<lambda>_. at_entry pl (address_of pl k) entry_gone) D"
proof -
  have "runs (at_entry pl (address_of pl k) (\<lambda>_. True))
      (plane_call sc (\<lambda>now p. with_entry (plane_address_of p k) (Ok ()) entry_invalidate p))
      (\<lambda>_. at_entry pl (address_of pl k) entry_gone) D"
    by (rule runs_with_entry [OF sc]) (simp_all add: plane_okD(4) entry_gone_def entry_invalidate_def)
  moreover have "op = (\<lambda>p. with_entry (plane_address_of p k) (Ok ()) entry_invalidate p)"
    using op by (auto simp: cp_release_def cp_invalidate_def)
  ultimately show ?thesis by simp
qed

lemma runs_removal:
  assumes sc: "leaves_entry pl (address_of pl k) sc" and k: "encode_key key ctx = Ok k"
    and op: "op = remove_op \<or> op = invalidate_op"
  shows "runs (at_entry pl (address_of pl k) (\<lambda>_. True)) (op sc m key ctx)
    (\<lambda>r w. r = Ok () \<longrightarrow> at_entry pl (address_of pl k) entry_gone w) (\<lambda>_. True)"
proof -
  let ?T = "at_entry pl (address_of pl k) (\<lambda>_. True)"
  note plane = runs_invalidated [OF sc, where D = "\<lambda>_. True"]
  have "upholds ?T (remove_from_rungs sc m k is)" for "is"
    by (induction "is") (auto intro!: upholds_then upholds_unbounded upholds_rungs_entry [OF sc])
  then have rungs: "runs ?T (remove_from_rungs sc m k is) (\<lambda>_. ?T) (\<lambda>_. True)" for "is"
    by (intro runs_weaken [OF upholds_runs]) auto
  have "runs ?T (remove_op sc m key ctx) (\<lambda>r w. r = Ok () \<longrightarrow> at_entry pl (address_of pl k) entry_gone w) (\<lambda>_. True)"
    unfolding remove_op_def k try_pure_simps
    by (auto intro!: runs_try_pure runs_then [OF rungs] runs_try [OF plane] runs_ret)
  moreover have "runs ?T (invalidate_op sc m key ctx)
      (\<lambda>r w. r = Ok () \<longrightarrow> at_entry pl (address_of pl k) entry_gone w) (\<lambda>_. True)"
    unfolding invalidate_op_def k try_pure_simps
    by (auto intro!: runs_try_pure runs_try [OF plane] runs_ret)
  ultimately show ?thesis using op by auto
qed

lemma peek_gone:
  assumes "leaves_entry pl (address_of pl k) sc" "at_entry pl (address_of pl k) entry_gone w"
  obtains s where "plane_peek sc k w = (Done (Ok s), tick sc w)" "cs_state s = Absent"
proof -
  have ok: "at_entry pl (address_of pl k) entry_gone (tick sc w)"
    by (rule steady_tick [OF steady_at_entry [OF assms(1)] assms(2)])
  have "\<exists>s. cp_peek (w_now (tick sc w)) k (w_plane (tick sc w)) = Ok s \<and> cs_state s = Absent"
    using ok cp_peek_Some [of pl "w_plane (tick sc w)" k] cp_peek_None [of pl "w_plane (tick sc w)" k]
    by (cases "plane_lookup (w_plane (tick sc w)) (address_of pl k)")
       (auto simp: at_entry_def entry_gone_def snapshot_of_def absent_snapshot_def)
  then show ?thesis using that by (auto simp: plane_peek_eq)
qed

text \<open>
  C8: A removed key is gone. After a \<open>remove\<close> or an \<open>invalidate\<close> that reports success, \<open>get\<close> answers a
  miss and \<open>exists\<close> answers no, whatever the rungs hold: also when a rung failed to remove its copy,
  for every schedule of the other tasks that leaves this key alone, and without waiting on any rung.
\<close>

theorem removed_is_gone:
  assumes "encode_key key ctx = Ok k" "plane_ok pl (w_plane w)"
    and "leaves_entry pl (address_of pl k) sc" "leaves_entry pl (address_of pl k) sc'"
    and "op = remove_op \<or> op = invalidate_op" "op sc m key ctx w = (Done (Ok ()), w')"
    and "authorize (resolve m (request_for OpGet key ctx) ctx) = Ok ()"
    and "authorize (resolve m (request_for OpExists key ctx) ctx) = Ok ()"
  shows "fst (get_op sc' m key ctx w') = Done (Err Miss) \<and> fst (exists_op sc' m key ctx w') = Done (Ok False)"
proof -
  have auth: "check_auth ctx = Ok ()"
    using assms(5,6) by (cases "check_auth ctx") (auto simp: remove_op_def invalidate_op_def ret_def)
  have "at_entry pl (address_of pl k) entry_gone w'"
    using runsD(1) [OF runs_removal [OF assms(3,1,5)] _ assms(6)] assms(2) by (simp add: at_entry_def)
  then obtain s where s: "plane_peek sc' k w' = (Done (Ok s), tick sc' w')" "cs_state s = Absent"
    by (rule peek_gone [OF assms(4)])
  show ?thesis
    by (simp add: try_Done [where m = "plane_peek _ _", OF s(1)] s(2) get_op_def exists_op_def assms(1,7,8) auth bind_task_def [of read_now] read_now_def Let_def
        observed_control_only_def then_task_def emit_def ret_def bind_task_def)
qed

theorem removed_is_gone_witness:
  "\<exists>w w'. set_op quiet demo_manager [107] [7, 8] demo_context demo_world = (Done (Ok ()), w) \<and>
     invalidate_op quiet demo_manager [107] demo_context w = (Done (Ok ()), w') \<and>
     fst (get_op quiet demo_manager [107] demo_context w') = Done (Err Miss)"
proof -
  obtain w e s where w: "set_op quiet demo_manager [107] [7, 8] demo_context demo_world = (Done (Ok ()), w)"
    and at: "plane_ok AllToZero (w_plane w)" "plane_lookup (w_plane w) (address_of AllToZero [116, 0, 107]) = Some e"
      "e_state e = Ready" "serves demo_manager L1 [116, 0, 107] [7, 8] w" "w_stores w ! 0 = demo_sharded"
      "plane_peek quiet [116, 0, 107] w = (Done (Ok s), tick quiet w)" "cs_state s = Ready" "cs_tier s = L1"
    by (rule demo_after_set)
  have "fst (cp_invalidate [116, 0, 107] (w_plane w)) = Ok ()"
    using plane_ok_with_entry(3) [OF at(1) keeps_steps(3)] at(2) plane_okD(4) [OF at(1)]
    by (simp add: cp_invalidate_def entry_invalidate_def)
  then obtain w' where w': "invalidate_op quiet demo_manager [107] demo_context w = (Done (Ok ()), w')"
    by (simp add: invalidate_op_def demo_key demo_auth demo_authorized try_task_def bind_task_def plane_call_def ret_def
        quiet_def tick_def Let_def case_prod_unfold)
  have "leaves_entry AllToZero (address_of AllToZero [116, 0, 107]) (quiet :: bytes sharded_tier schedule)"
    by (rule minds_leaves [OF quiet_minds])
  from removed_is_gone [where op = invalidate_op, OF demo_key at(1) this this _ w' demo_authorized demo_authorized] w w' show ?thesis by blast
qed

end
