(* ===== verification/Manager_Recovery.thy ===== *)
theory Manager_Recovery
  imports Manager_Claims
begin

section \<open>Recovery of interrupted commits\<close>

text \<open>
  \<open>recover_older_than\<close> (\<open>src/manager.rs\<close>) walks the intents that are older than a threshold: a write
  is aborted, a move only loses its claim and is reported. Here the pass is proved exact: what it
  counts, what it does to each entry, and what a second pass finds.
\<close>

subsection \<open>The entries of a plane\<close>

lemma somes_simps [simp]:
  "List.map_filter id [] = []" "List.map_filter id (None # xs) = List.map_filter id xs"
  "List.map_filter id (Some b # xs) = b # List.map_filter id xs"
  by (simp_all add: List.map_filter_def)

lemma somes_set: "set (List.map_filter id xs) = {x. Some x \<in> set xs}"
proof (induction xs)
  case (Cons a xs)
  then show ?case by (cases a) auto
qed simp

lemma shard_entries_set: "e \<in> set (shard_entries l) \<longleftrightarrow> \<not> lk_poisoned l \<and> (\<exists>i. entry_at (lk_value l) i e)"
  by (simp add: shard_entries_def entry_at_def somes_set in_set_conv_nth [of "Some e"])

lemma somes_distinct:
  assumes "\<And>i j x y. i < length xs \<Longrightarrow> j < length xs \<Longrightarrow> xs ! i = Some x \<Longrightarrow> xs ! j = Some y \<Longrightarrow> f x = f y \<Longrightarrow> i = j"
  shows "distinct (map f (List.map_filter id xs))"
  using assms
proof (induction xs)
  case (Cons a xs)
  have tail: "distinct (map f (List.map_filter id xs))"
  proof (rule Cons.IH)
    fix i j x y
    assume "i < length xs" "j < length xs" "xs ! i = Some x" "xs ! j = Some y" "f x = f y"
    with Cons.prems [of "Suc i" "Suc j" x y] show "i = j" by simp
  qed
  have "f b \<noteq> f x" if "a = Some b" "Some x \<in> set xs" for b x
  proof
    assume eq: "f b = f x"
    from that(2) obtain j where "j < length xs" "xs ! j = Some x" by (auto simp: in_set_conv_nth)
    with Cons.prems [of 0 "Suc j" b x] that(1) eq show False by simp
  qed
  then have new: "f b \<notin> set (map f (List.map_filter id xs))" if "a = Some b" for b
    using that by (auto simp: somes_set)
  show ?case
  proof (cases a)
    case None
    with tail show ?thesis by (simp only: somes_simps)
  next
    case (Some b)
    show ?thesis
      unfolding Some somes_simps list.map(2) distinct.simps(2) using new [OF Some] tail by blast
  qed
qed simp

lemma plane_entries_lookup:
  assumes "plane_ok pl p"
  shows "e \<in> set (plane_entries p) \<longleftrightarrow> plane_lookup p (ce_address e) = Some e"
proof -
  have wf: "plane_wf p" and up: "\<And>l. l \<in> set (cl_shards p) \<Longrightarrow> \<not> lk_poisoned l"
    using assms by (auto simp: plane_ok_def)
  let ?i = "plane_shard_for p (ce_address e)"
  have i: "?i < length (cl_shards p)" by (rule plane_shard_for_less_length [OF wf])
  have "shard_wf (lk_value (cl_shards p ! ?i))" using wf i by (simp add: plane_wf_def)
  then have "plane_lookup p (ce_address e) = Some e \<longleftrightarrow> (\<exists>k. entry_at (lk_value (cl_shards p ! ?i)) k e)"
    by (simp add: plane_lookup_def find_entry_Some_iff)
  also have "\<dots> \<longleftrightarrow> (\<exists>j < length (cl_shards p). \<exists>k. entry_at (lk_value (cl_shards p ! j)) k e)"
  proof
    assume "\<exists>j < length (cl_shards p). \<exists>k. entry_at (lk_value (cl_shards p ! j)) k e"
    then obtain j k where j: "j < length (cl_shards p)" "entry_at (lk_value (cl_shards p ! j)) k e" by blast
    with wf have "j = ?i" by (auto simp: plane_wf_def)
    with j show "\<exists>k. entry_at (lk_value (cl_shards p ! ?i)) k e" by blast
  qed (use i in blast)
  also have "\<dots> \<longleftrightarrow> (\<exists>l \<in> set (cl_shards p). \<exists>k. entry_at (lk_value l) k e)"
    by (metis in_set_conv_nth)
  also have "\<dots> \<longleftrightarrow> e \<in> set (plane_entries p)"
    using up by (auto simp: plane_entries_def shard_entries_set)
  finally show ?thesis by simp
qed

lemma plane_entries_distinct:
  assumes "plane_ok pl p"
  shows "distinct (map ce_address (plane_entries p))"
proof -
  have wf: "plane_wf p" using assms by (simp add: plane_ok_def)
  have shard: "distinct (map ce_address (shard_entries (cl_shards p ! i)))" if "i < length (cl_shards p)" for i
  proof -
    have "shard_wf (lk_value (cl_shards p ! i))" using wf that by (simp add: plane_wf_def)
    from shard_unique_entry [OF this] show ?thesis
      by (auto simp: shard_entries_def entry_at_def intro!: somes_distinct)
  qed
  have apart: "i = j" if "i < length (cl_shards p)" "j < length (cl_shards p)"
    "x \<in> set (shard_entries (cl_shards p ! i))" "y \<in> set (shard_entries (cl_shards p ! j))" "ce_address x = ce_address y"
    for i j x y
  proof -
    have "plane_shard_for p (ce_address x) = i" "plane_shard_for p (ce_address y) = j"
      using wf that(1-4) by (auto simp: plane_wf_def shard_entries_set)
    with that(5) show ?thesis by simp
  qed
  have "distinct (concat (map (map ce_address) (map shard_entries (take n (cl_shards p)))))" for n
  proof (induction n)
    case (Suc n)
    show ?case
    proof (cases "n < length (cl_shards p)")
      case True
      have away: "ce_address x \<noteq> ce_address y"
        if "x \<in> set (shard_entries (cl_shards p ! n))" "l \<in> set (take n (cl_shards p))" "y \<in> set (shard_entries l)" for x y l
      proof -
        note here = that
        obtain j where "j < n" "l = cl_shards p ! j" using here(2) True by (auto simp: in_set_conv_nth)
        with apart [of j n y x] here True show ?thesis by force
      qed
      have "set (map ce_address (shard_entries (cl_shards p ! n))) \<inter>
          set (concat (map (map ce_address) (map shard_entries (take n (cl_shards p))))) = {}"
        using away by (fastforce simp: image_iff)
      with Suc shard [OF True] True show ?thesis by (simp add: take_Suc_conv_app_nth) blast
    qed (use Suc in simp)
  qed simp
  from this [of "length (cl_shards p)"] show ?thesis by (simp add: plane_entries_def map_concat)
qed

subsection \<open>The intents a pass finds\<close>

definition old_intent :: "instant \<Rightarrow> u64 \<Rightarrow> control_entry \<Rightarrow> commit_intent \<Rightarrow> bool" where
  "old_intent now age e i \<longleftrightarrow>
     e_intent e = Some i \<and> ci_started_nanos i \<le> saturating_sub_u64 (instant_to_nanos now) age"

lemma stale_intents_set:
  assumes "plane_ok pl p"
  shows "(a, i) \<in> set (cp_stale_intents now age p) \<longleftrightarrow> (\<exists>e. plane_lookup p a = Some e \<and> old_intent now age e i)"
proof -
  have addr: "ce_address e = a" if "plane_lookup p a = Some e" for e
    using plane_lookup_wf [OF plane_okD(1) [OF assms] that] by simp
  have "(a, i) \<in> set (cp_stale_intents now age p) \<longleftrightarrow>
      (\<exists>e \<in> set (plane_entries p). ce_address e = a \<and> old_intent now age e i)"
    by (force simp: cp_stale_intents_def old_intent_def map_filter_def Let_def split: option.splits if_splits)
  then show ?thesis using addr plane_entries_lookup [OF assms] by metis
qed

lemma map_filter_fst_distinct:
  "distinct (map f xs) \<Longrightarrow> (\<And>x y. g x = Some y \<Longrightarrow> fst y = f x) \<Longrightarrow> distinct (map fst (List.map_filter g xs))"
proof (induction xs)
  case (Cons x xs)
  have "fst ` set (List.map_filter g xs) \<subseteq> f ` set xs"
    using Cons.prems(2) by (auto simp: map_filter_def image_iff) metis
  with Cons show ?case by (cases "g x") (auto simp: map_filter_def)
qed (simp add: map_filter_def)

lemma stale_intents_distinct:
  assumes "plane_ok pl p"
  shows "distinct (map fst (cp_stale_intents now age p))"
  unfolding cp_stale_intents_def Let_def
  by (rule map_filter_fst_distinct [OF plane_entries_distinct [OF assms]])
     (auto split: option.splits if_splits)

subsection \<open>One pass\<close>

definition recover_step :: "commit_intent \<Rightarrow> control_entry \<Rightarrow> bool result \<times> control_entry" where
  "recover_step i =
     (case ci_kind i of IK_Write \<Rightarrow> entry_abort_intent UncommittedIntent | IK_Move \<Rightarrow> entry_release_population_claim)"

definition acted :: "cachelito \<Rightarrow> intent_kind \<Rightarrow> key_address \<times> commit_intent \<Rightarrow> bool" where
  "acted p kind x \<longleftrightarrow> ci_kind (snd x) = kind \<and>
     (\<exists>e. plane_lookup p (fst x) = Some e \<and> fst (recover_step (snd x) e) = Ok True)"

definition tally :: "cachelito \<Rightarrow> (key_address \<times> commit_intent) list \<Rightarrow> recovery_report \<Rightarrow> recovery_report" where
  "tally p S report =
     \<lparr>rr_recovered = rr_recovered report + length (filter (acted p IK_Write) S), rr_failed = rr_failed report,
      rr_needs_reconciliation = rr_needs_reconciliation report + length (filter (\<lambda>x. ci_kind (snd x) = IK_Move) S),
      rr_released_for_reconciliation =
        rr_released_for_reconciliation report + length (filter (acted p IK_Move) S)\<rparr>"

lemma keeps_recover_step [simp]: "keeps (recover_step i)"
  by (cases "ci_kind i") (simp_all add: recover_step_def)

lemma recover_step_Ok: "\<exists>b. fst (recover_step i e) = Ok b"
  by (cases "ci_kind i")
     (auto simp: recover_step_def entry_abort_intent_def entry_release_population_claim_def)

text \<open>The call a pass makes for one intent.\<close>

lemma recover_all_Cons:
  assumes ok: "plane_ok pl (w_plane w)" and e: "plane_lookup (w_plane w) a = Some e"
  obtains w1 where "recover_all quiet ((a, i) # S) report w = recover_all quiet S (tally (w_plane w) [(a, i)] report) w1"
    "w_now w1 = w_now w" "plane_ok pl (w_plane w1)"
    "plane_lookup (w_plane w1) = (plane_lookup (w_plane w))(a \<mapsto> snd (recover_step i e))"
proof -
  let ?call = "with_entry a (Ok False) (recover_step i) (w_plane w)"
  let ?w = "w\<lparr>w_step := Suc (w_step w), w_plane := snd ?call\<rparr>"
  note c = plane_ok_with_entry [OF ok keeps_recover_step, of a "Ok False" i]
  obtain b where b: "fst (recover_step i e) = Ok b" using recover_step_Ok by blast
  have "recover_all quiet ((a, i) # S) report w = recover_all quiet S (tally (w_plane w) [(a, i)] report) ?w"
    using b c(3) e
    by (cases report; cases "ci_kind i"; cases b)
       (simp_all add: recover_step_def bind_task_def plane_call_def cp_abort_intent_by_address_def
          cp_release_population_claim_def tally_def acted_def Let_def case_prod_unfold)
  then show thesis
    by (rule that) (use c e in simp_all)
qed

lemma tally_Cons: "tally p (x # S) report = tally p S (tally p [x] report)"
  by (simp add: tally_def)

lemma recover_all_quiet:
  assumes "plane_ok pl (w_plane w)" "distinct (map fst S)" "\<forall>x\<in>set S. plane_lookup (w_plane w) (fst x) \<noteq> None"
  shows "\<exists>w'. recover_all quiet S report w = (Done (tally (w_plane w) S report), w') \<and> w_now w' = w_now w \<and>
    plane_ok pl (w_plane w') \<and>
    (\<forall>a. plane_lookup (w_plane w') a =
       (case map_of S a of None \<Rightarrow> plane_lookup (w_plane w) a
        | Some i \<Rightarrow> map_option (snd \<circ> recover_step i) (plane_lookup (w_plane w) a)))"
  using assms
proof (induction S arbitrary: w report)
  case Nil
  then show ?case by (simp add: ret_def tally_def)
next
  case (Cons x S)
  obtain a i where x: "x = (a, i)" by (cases x)
  from Cons.prems(3) obtain e where e: "plane_lookup (w_plane w) a = Some e" by (auto simp: x)
  obtain w1 where r: "recover_all quiet ((a, i) # S) report w = recover_all quiet S (tally (w_plane w) [(a, i)] report) w1"
    and w1: "w_now w1 = w_now w" "plane_ok pl (w_plane w1)"
      "plane_lookup (w_plane w1) = (plane_lookup (w_plane w))(a \<mapsto> snd (recover_step i e))"
    by (rule recover_all_Cons [OF Cons.prems(1) e])
  have far: "fst y \<noteq> a" if "y \<in> set S" for y using Cons.prems(2) that by (auto simp: x)
  then have "filter (acted (w_plane w1) k) S = filter (acted (w_plane w) k) S" for k
    by (intro filter_cong) (auto simp: acted_def w1(3))
  then have tally: "tally (w_plane w1) S rep = tally (w_plane w) S rep" for rep by (simp add: tally_def)
  have "\<forall>y\<in>set S. plane_lookup (w_plane w1) (fst y) \<noteq> None" using Cons.prems(3) far by (auto simp: w1(3))
  from Cons.IH [OF w1(2) _ this] Cons.prems(2) obtain w'
    where "recover_all quiet S (tally (w_plane w) [x] report) w1 = (Done (tally (w_plane w1) S (tally (w_plane w) [x] report)), w')"
      "w_now w' = w_now w1" "plane_ok pl (w_plane w')"
      "\<forall>b. plane_lookup (w_plane w') b =
         (case map_of S b of None \<Rightarrow> plane_lookup (w_plane w1) b
          | Some i \<Rightarrow> map_option (snd \<circ> recover_step i) (plane_lookup (w_plane w1) b))"
    by force
  moreover have "map_of S a = None" using far by (auto simp: map_of_eq_None_iff)
  ultimately show ?case
    using r w1 e by (auto simp: x tally tally_Cons [of _ "(a, i)" S] split: option.split)
qed

subsection \<open>What a pass does\<close>

text \<open>The keys whose old intent is a write that is still prepared, a move, and a move that still holds its claim.\<close>

definition lost_writes :: "instant \<Rightarrow> u64 \<Rightarrow> cachelito \<Rightarrow> key_address set" where
  "lost_writes now age p =
     {a. \<exists>e i. plane_lookup p a = Some e \<and> old_intent now age e i \<and> ci_kind i = IK_Write \<and> e_state e = Prepared}"

definition lost_moves :: "instant \<Rightarrow> u64 \<Rightarrow> cachelito \<Rightarrow> key_address set" where
  "lost_moves now age p =
     {a. \<exists>e i. plane_lookup p a = Some e \<and> old_intent now age e i \<and> ci_kind i = IK_Move}"

definition held_moves :: "instant \<Rightarrow> u64 \<Rightarrow> cachelito \<Rightarrow> key_address set" where
  "held_moves now age p =
     {a. \<exists>e i. plane_lookup p a = Some e \<and> old_intent now age e i \<and> ci_kind i = IK_Move \<and>
        e_state e = Prepared \<and> ce_population_owner e}"

text \<open>An entry after its write was aborted, and after its move lost the claim.\<close>

definition abandoned :: "control_entry \<Rightarrow> control_entry \<Rightarrow> bool" where
  "abandoned e e' \<longleftrightarrow> e_state e' = Failed \<and> \<not> ce_population_owner e' \<and> ce_generation e' = ce_generation e + 1"

lemma length_filter_card:
  assumes "distinct (map fst S)"
  shows "length (filter P S) = card {a. \<exists>i. (a, i) \<in> set S \<and> P (a, i)}"
proof -
  have "{a. \<exists>i. (a, i) \<in> set S \<and> P (a, i)} = fst ` set (filter P S)" by force
  moreover have "distinct (map fst (filter P S))" using assms by (rule distinct_map_filter)
  ultimately show ?thesis using distinct_card [of "map fst (filter P S)"] by simp
qed

lemma recover_pass:
  assumes ok: "plane_ok pl (w_plane w)"
  obtains w' where "recover_older_than quiet age w =
      (Done \<lparr>rr_recovered = card (lost_writes (w_now w) (of_nat age) (w_plane w)), rr_failed = 0,
             rr_needs_reconciliation = card (lost_moves (w_now w) (of_nat age) (w_plane w)),
             rr_released_for_reconciliation = card (held_moves (w_now w) (of_nat age) (w_plane w))\<rparr>, w')"
    "w_now w' = w_now w" "plane_ok pl (w_plane w')"
    "\<forall>a e. plane_lookup (w_plane w) a = Some e \<longrightarrow> plane_lookup (w_plane w') a =
       Some (case e_intent e of
           Some i \<Rightarrow> if old_intent (w_now w) (of_nat age) e i then snd (recover_step i e) else e
         | None \<Rightarrow> e)"
    "\<forall>a. plane_lookup (w_plane w) a = None \<longrightarrow> plane_lookup (w_plane w') a = None"
proof -
  define w1 where "w1 = w\<lparr>w_step := Suc (w_step w)\<rparr>"
  let ?now = "w_now w" and ?age = "of_nat age :: u64" and ?p = "w_plane w"
  define S where "S = cp_stale_intents ?now ?age ?p"
  have S: "(a, i) \<in> set S \<longleftrightarrow> (\<exists>e. plane_lookup ?p a = Some e \<and> old_intent ?now ?age e i)" for a i
    unfolding S_def by (rule stale_intents_set [OF ok])
  have dist: "distinct (map fst S)" unfolding S_def by (rule stale_intents_distinct [OF ok])
  have same: "w_plane w1 = ?p" "w_now w1 = ?now" by (simp_all add: w1_def)
  have "\<forall>x\<in>set S. plane_lookup (w_plane w1) (fst x) \<noteq> None" using S by (force simp: same)
  from recover_all_quiet [OF ok [folded same(1)] dist this, of empty_recovery_report, unfolded same] obtain w'
    where r: "recover_all quiet S empty_recovery_report w1 = (Done (tally ?p S empty_recovery_report), w')"
      and w': "w_now w' = ?now" "plane_ok pl (w_plane w')"
      and look: "\<And>a. plane_lookup (w_plane w') a = (case map_of S a of None \<Rightarrow> plane_lookup ?p a
        | Some i \<Rightarrow> map_option (snd \<circ> recover_step i) (plane_lookup ?p a))"
    by blast
  have uniq: "map_of S a = Some i \<longleftrightarrow> (a, i) \<in> set S" for a i using dist by (rule map_of_eq_Some_iff)
  have "{a. \<exists>i. (a, i) \<in> set S \<and> acted ?p IK_Write (a, i)} = lost_writes ?now ?age ?p"
    "{a. \<exists>i. (a, i) \<in> set S \<and> ci_kind (snd (a, i)) = IK_Move} = lost_moves ?now ?age ?p"
    "{a. \<exists>i. (a, i) \<in> set S \<and> acted ?p IK_Move (a, i)} = held_moves ?now ?age ?p"
    by (auto simp: S acted_def lost_writes_def lost_moves_def held_moves_def recover_step_def old_intent_def
        entry_abort_intent_def entry_release_population_claim_def split: if_splits)
  with length_filter_card [OF dist, of "acted ?p IK_Write"] length_filter_card [OF dist, of "\<lambda>x. ci_kind (snd x) = IK_Move"]
    length_filter_card [OF dist, of "acted ?p IK_Move"]
  have "tally ?p S empty_recovery_report =
      \<lparr>rr_recovered = card (lost_writes ?now ?age ?p), rr_failed = 0,
       rr_needs_reconciliation = card (lost_moves ?now ?age ?p),
       rr_released_for_reconciliation = card (held_moves ?now ?age ?p)\<rparr>"
    by (simp add: tally_def empty_recovery_report_def)
  with r have run: "recover_older_than quiet age w =
      (Done \<lparr>rr_recovered = card (lost_writes ?now ?age ?p), rr_failed = 0,
             rr_needs_reconciliation = card (lost_moves ?now ?age ?p),
             rr_released_for_reconciliation = card (held_moves ?now ?age ?p)\<rparr>, w')"
    by (simp add: recover_older_than_def bind_task_def plane_call_def Let_def S_def w1_def)
  have found: "map_of S a = (case e_intent e of
      Some i \<Rightarrow> if old_intent ?now ?age e i then Some i else None | None \<Rightarrow> None)"
    if "plane_lookup ?p a = Some e" for a e
  proof (cases "map_of S a")
    case None
    then have "(a, i) \<notin> set S" for i using uniq by (metis option.distinct(1))
    with None that S show ?thesis by (auto split: option.split)
  next
    case (Some i)
    with uniq S that have "old_intent ?now ?age e i" by auto
    with Some show ?thesis by (simp add: old_intent_def)
  qed
  show thesis
  proof (rule that [OF run w'], intro allI impI)
    show "plane_lookup (w_plane w') a = Some (case e_intent e of
        Some i \<Rightarrow> if old_intent ?now ?age e i then snd (recover_step i e) else e | None \<Rightarrow> e)"
      if "plane_lookup ?p a = Some e" for a e
      using look [of a] found [OF that] that by (auto split: option.split)
    show "\<forall>a. plane_lookup ?p a = None \<longrightarrow> plane_lookup (w_plane w') a = None"
      using look by (simp split: option.split)
  qed
qed

lemma recovered_entry:
  assumes "old_intent now age e i"
  shows "ci_kind i = IK_Write \<Longrightarrow> e_state e = Prepared \<Longrightarrow>
      abandoned e (snd (recover_step i e)) \<and> e_intent (snd (recover_step i e)) = None"
    "ci_kind i = IK_Write \<Longrightarrow> e_state e \<noteq> Prepared \<Longrightarrow> snd (recover_step i e) = e"
    "ci_kind i = IK_Move \<Longrightarrow> e_state e = Prepared \<and> ce_population_owner e \<Longrightarrow>
      abandoned e (snd (recover_step i e)) \<and> e_intent (snd (recover_step i e)) = Some i"
    "ci_kind i = IK_Move \<Longrightarrow> \<not> (e_state e = Prepared \<and> ce_population_owner e) \<Longrightarrow> snd (recover_step i e) = e"
  using assms
  by (auto simp: recover_step_def old_intent_def abandoned_def entry_abort_intent_def entry_release_population_claim_def)



end
