(* ===== verification/Hot_Rung.thy ===== *)
theory Hot_Rung
  imports Rungs
begin

section \<open>A rung whose backend can be replaced (\<open>src/tier/hot_rung.rs\<close>)\<close>

text \<open>
  \<open>HotRungTier\<close>: a wrapper with a fixed rung around a lock that holds the current backend, that is a
  method table and its store. Every method forwards to the backend that is bound when it is called.
  The wrapper keeps the contract of a rung across replacements as long as each backend keeps it.
\<close>

record ('s, 'v) hot_rung =
  hr_rung :: tier_id
  hr_inner :: "(('s, 'v) tier_ops \<times> 's) lock"

definition hot_new :: "tier_id \<Rightarrow> ('s, 'v) tier_ops \<Rightarrow> 's \<Rightarrow> ('s, 'v) hot_rung result" where
  "hot_new rung initial s =
     (if t_tier_id initial \<noteq> rung then Err ConfigurationError
      else Ok \<lparr>hr_rung = rung, hr_inner = new_lock (initial, s)\<rparr>)"

definition hot_swap ::
  "('s, 'v) tier_ops \<times> 's \<Rightarrow> ('s, 'v) hot_rung \<Rightarrow> (('s, 'v) tier_ops \<times> 's) result \<times> ('s, 'v) hot_rung"
where
  "hot_swap replacement h =
     (if t_tier_id (fst replacement) \<noteq> hr_rung h then (Err ConfigurationError, h)
      else if lk_poisoned (hr_inner h) then (Err ConfigurationError, h)
      else (Ok (lk_value (hr_inner h)), h\<lparr>hr_inner := (hr_inner h)\<lparr>lk_value := replacement\<rparr>\<rparr>))"

definition hot_current :: "('s, 'v) hot_rung \<Rightarrow> (('s, 'v) tier_ops \<times> 's) result" where
  "hot_current h = (if lk_poisoned (hr_inner h) then Err ConfigurationError else Ok (lk_value (hr_inner h)))"

text \<open>The backend's store after a call that went to it.\<close>

definition hot_store :: "'s \<Rightarrow> ('s, 'v) hot_rung \<Rightarrow> ('s, 'v) hot_rung" where
  "hot_store s h = h\<lparr>hr_inner := (hr_inner h)\<lparr>lk_value := (fst (lk_value (hr_inner h)), s)\<rparr>\<rparr>"

text \<open>An asynchronous method: \<open>let inner = self.current()?\<close>, then the call on it.\<close>

definition hot_forward ::
  "(('s, 'v) tier_ops \<Rightarrow> 's \<Rightarrow> 'a reply \<times> 's) \<Rightarrow> ('s, 'v) hot_rung \<Rightarrow> 'a reply \<times> ('s, 'v) hot_rung"
where
  "hot_forward call h =
     (case hot_current h of
        Inl e \<Rightarrow> (Returns (Err e), h)
      | Inr (ops, s) \<Rightarrow> (case call ops s of (r, s') \<Rightarrow> (r, hot_store s' h)))"

definition hot_ops :: "tier_id \<Rightarrow> (('s, 'v) hot_rung, 'v) tier_ops" where
  "hot_ops rung =
     \<lparr>t_name = (\<lambda>h. case hot_current h of Inr (ops, s) \<Rightarrow> t_name ops s | Inl _ \<Rightarrow> ''hot-rung-poisoned''),
      t_backend = (\<lambda>h. case hot_current h of Inr (ops, s) \<Rightarrow> t_backend ops s | Inl _ \<Rightarrow> BK_Unavailable),
      t_capability = (\<lambda>h. case hot_current h of Inr (ops, s) \<Rightarrow> t_capability ops s | Inl _ \<Rightarrow> capability_unbound),
      t_eviction_candidate = (\<lambda>now c h. case hot_current h of
          Inr (ops, s) \<Rightarrow> (case t_eviction_candidate ops now c s of (a, c', s') \<Rightarrow> (a, c', hot_store s' h))
        | Inl _ \<Rightarrow> (None, c, h)),
      t_capacity = (\<lambda>h. case hot_current h of Inr (ops, s) \<Rightarrow> t_capacity ops s | Inl _ \<Rightarrow> None),
      t_remove_if_address = (\<lambda>a h. case hot_current h of
          Inr (ops, s) \<Rightarrow> (case t_remove_if_address ops a s of (r, s') \<Rightarrow> (r, hot_store s' h))
        | Inl e \<Rightarrow> (Err e, h)),
      t_get = (\<lambda>now k. hot_forward (\<lambda>ops. t_get ops now k)),
      t_set = (\<lambda>now k v ttl. hot_forward (\<lambda>ops. t_set ops now k v ttl)),
      t_remove = (\<lambda>now k. hot_forward (\<lambda>ops. t_remove ops now k)),
      t_contains = (\<lambda>now k. hot_forward (\<lambda>ops. t_contains ops now k)),
      t_health = (\<lambda>now h. case hot_current h of Inr (ops, s) \<Rightarrow> t_health ops now s | Inl _ \<Rightarrow> default_health),
      t_tier_id = rung\<rparr>"

subsection \<open>The wrapper keeps the contract of its backend\<close>

definition hot_sound :: "('s \<Rightarrow> bool) \<Rightarrow> ('s, 'v) hot_rung \<Rightarrow> bool" where
  "hot_sound sound h \<longleftrightarrow> \<not> lk_poisoned (hr_inner h) \<and>
     rung_contract (fst (lk_value (hr_inner h))) sound \<and> sound (snd (lk_value (hr_inner h)))"

lemma hot_store_inner [simp]:
  "lk_poisoned (hr_inner (hot_store s h)) = lk_poisoned (hr_inner h)"
  "lk_value (hr_inner (hot_store s h)) = (fst (lk_value (hr_inner h)), s)" "hr_rung (hot_store s h) = hr_rung h"
  by (simp_all add: hot_store_def)

lemma hot_forward_open:
  "\<not> lk_poisoned (hr_inner h) \<Longrightarrow> hot_forward call h =
     (fst (call (fst (lk_value (hr_inner h))) (snd (lk_value (hr_inner h)))),
      hot_store (snd (call (fst (lk_value (hr_inner h))) (snd (lk_value (hr_inner h))))) h)"
  by (simp add: hot_forward_def hot_current_def case_prod_unfold)

interpretation hot: rung_contract "hot_ops rung :: (('s, 'v) hot_rung, 'v) tier_ops" "hot_sound sound"
  for rung and sound :: "'s \<Rightarrow> bool"
proof
  fix h h' :: "('s, 'v) hot_rung" and now now' k v ttl c a e
  assume h: "hot_sound sound h"
  let ?ops = "fst (lk_value (hr_inner h))" and ?s = "snd (lk_value (hr_inner h))"
  have up: "\<not> lk_poisoned (hr_inner h)" and con: "rung_contract ?ops sound" and s: "sound ?s"
    using h by (simp_all add: hot_sound_def)
  note laws = rung_contract.get_answers [OF con s] rung_contract.set_answers [OF con s]
    rung_contract.remove_answers [OF con s] rung_contract.inv_get [OF con s] rung_contract.inv_set [OF con s]
    rung_contract.inv_remove [OF con s] rung_contract.inv_evict [OF con s] rung_contract.inv_remove_if [OF con s]
  show "\<exists>r. fst (t_get (hot_ops rung) now k h) = Returns r" "\<exists>r. fst (t_set (hot_ops rung) now k v ttl h) = Returns r"
    "\<exists>r. fst (t_remove (hot_ops rung) now k h) = Returns r"
    using laws(1,2,3) by (simp_all add: hot_ops_def hot_forward_open [OF up])
  show "hot_sound sound (snd (t_get (hot_ops rung) now k h))" "hot_sound sound (snd (t_set (hot_ops rung) now k v ttl h))"
    "hot_sound sound (snd (t_remove (hot_ops rung) now k h))"
    using laws(4,5,6) con up by (simp_all add: hot_ops_def hot_forward_open [OF up] hot_sound_def)
  show "hot_sound sound (snd (snd (t_eviction_candidate (hot_ops rung) now c h)))"
    "hot_sound sound (snd (t_remove_if_address (hot_ops rung) a h))"
    using laws(7,8) con up by (simp_all add: hot_ops_def hot_current_def hot_sound_def case_prod_unfold)
  show "fst (t_get (hot_ops rung) now' k h') = Returns (Ok (if unexpired ttl now now' then Some v else None))"
    if "t_set (hot_ops rung) now k v ttl h = (Returns (Ok ()), h')"
  proof -
    have set: "t_set ?ops now k v ttl ?s = (Returns (Ok ()), snd (t_set ?ops now k v ttl ?s))"
      and h': "h' = hot_store (snd (t_set ?ops now k v ttl ?s)) h"
      using that by (auto simp: hot_ops_def hot_forward_open [OF up] prod_eq_iff)
    from rung_contract.get_after_set [OF con s set] up show ?thesis
      by (simp add: h' hot_ops_def hot_forward_open)
  qed
  show "snd (t_set (hot_ops rung) now k v ttl h) = h" if "fst (t_set (hot_ops rung) now k v ttl h) = Returns (Err e)"
    using rung_contract.set_refused [OF con s, of now k v ttl e] that
    by (simp add: hot_ops_def hot_forward_open [OF up] hot_store_def)
qed

subsection \<open>Replacement is honest\<close>

text \<open>
  The life of a wrapper: it is built over a first backend, then swaps and calls interleave in any
  order. A refused swap is a step too. The lock is never poisoned along the way, because no method
  panics while it holds the guard.
\<close>

inductive hot_reachable :: "tier_id \<Rightarrow> ('s, 'v) hot_rung \<Rightarrow> bool" for rung where
  hot_start: "hot_new rung initial s = Ok h \<Longrightarrow> hot_reachable rung h"
| hot_swapped: "hot_reachable rung h \<Longrightarrow> hot_reachable rung (snd (hot_swap replacement h))"
| hot_read: "hot_reachable rung h \<Longrightarrow> hot_reachable rung (snd (t_get (hot_ops rung) now k h))"
| hot_wrote: "hot_reachable rung h \<Longrightarrow> hot_reachable rung (snd (t_set (hot_ops rung) now k v ttl h))"
| hot_dropped: "hot_reachable rung h \<Longrightarrow> hot_reachable rung (snd (t_remove (hot_ops rung) now k h))"
| hot_asked: "hot_reachable rung h \<Longrightarrow> hot_reachable rung (snd (t_contains (hot_ops rung) now k h))"
| hot_evicted: "hot_reachable rung h \<Longrightarrow>
    hot_reachable rung (snd (snd (t_eviction_candidate (hot_ops rung) now c h)))"
| hot_removed: "hot_reachable rung h \<Longrightarrow>
    hot_reachable rung (snd (t_remove_if_address (hot_ops rung) a h))"

lemma hot_reachable_inner:
  "hot_reachable rung h \<Longrightarrow>
     \<not> lk_poisoned (hr_inner h) \<and> hr_rung h = rung \<and> t_tier_id (fst (lk_value (hr_inner h))) = rung"
proof (induction rule: hot_reachable.induct)
  case (hot_start initial s h)
  then show ?case by (auto simp: hot_new_def new_lock_def split: if_splits)
next
  case (hot_swapped h replacement)
  then show ?case by (simp add: hot_swap_def)
qed (simp_all add: hot_ops_def hot_forward_open hot_current_def case_prod_unfold)

text \<open>
  C22: a rebindable rung stays honest. After any interleaving of swaps and calls the bound backend
  claims the wrapper's rung, and the wrapper reports that backend's name, kind, capability and
  capacity. A backend that claims another rung is refused with a configuration error and nothing
  changes. A backend that claims the rung is accepted, the displaced one is handed back unchanged,
  and from then on reads are answered by the replacement, never by the displaced store.
\<close>

theorem hot_rung_honest:
  assumes "hot_reachable rung h" and "lk_value (hr_inner h) = (inner, s)"
  shows "t_tier_id inner = rung \<and>
    t_name (hot_ops rung) h = t_name inner s \<and> t_backend (hot_ops rung) h = t_backend inner s \<and>
    t_capability (hot_ops rung) h = t_capability inner s \<and> t_capacity (hot_ops rung) h = t_capacity inner s \<and>
    (t_tier_id ops' \<noteq> rung \<longrightarrow> hot_swap (ops', s') h = (Err ConfigurationError, h)) \<and>
    (t_tier_id ops' = rung \<longrightarrow>
      (\<exists>h'. hot_swap (ops', s') h = (Ok (inner, s), h') \<and> hot_reachable rung h' \<and>
        fst (t_get (hot_ops rung) now k h') = fst (t_get ops' now k s')))"
proof (intro conjI impI)
  note h = hot_reachable_inner [OF assms(1)] assms(2)
  then show "t_tier_id inner = rung"
    "t_name (hot_ops rung) h = t_name inner s" "t_backend (hot_ops rung) h = t_backend inner s"
    "t_capability (hot_ops rung) h = t_capability inner s" "t_capacity (hot_ops rung) h = t_capacity inner s"
    by (simp_all add: hot_ops_def hot_current_def)
  show "hot_swap (ops', s') h = (Err ConfigurationError, h)" if "t_tier_id ops' \<noteq> rung"
    using h that by (simp add: hot_swap_def)
  show "\<exists>h'. hot_swap (ops', s') h = (Ok (inner, s), h') \<and> hot_reachable rung h' \<and>
        fst (t_get (hot_ops rung) now k h') = fst (t_get ops' now k s')" if "t_tier_id ops' = rung"
    using h that hot_swapped [OF assms(1), of "(ops', s')"]
    by (auto simp: hot_swap_def hot_ops_def hot_forward_open)
qed

text \<open>A wrapper on \<open>L3\<close> over the in-memory fallback.\<close>

definition demo_hot :: "(bytes sharded_tier, bytes) hot_rung" where
  "demo_hot = \<lparr>hr_rung = L3, hr_inner = new_lock (l3_ops (\<lambda>_. 0) digest_of_bytes, demo_sharded)\<rparr>"

lemma demo_hot_built: "hot_new L3 (l3_ops (\<lambda>_. 0) digest_of_bytes) demo_sharded = Ok demo_hot"
  by (simp add: hot_new_def demo_hot_def l3_ops_def stub_ops_def)

theorem hot_rung_honest_witness:
  "t_name (hot_ops L3) demo_hot = ''L3-in-memory-fallback'' \<and>
   hot_swap (l2_ops (\<lambda>_. 0) digest_of_bytes, demo_sharded) demo_hot = (Err ConfigurationError, demo_hot)"
proof -
  let ?l2 = "l2_ops (\<lambda>_. 0) digest_of_bytes :: (bytes sharded_tier, bytes) tier_ops"
  have "lk_value (hr_inner demo_hot) = (l3_ops (\<lambda>_. 0) digest_of_bytes, demo_sharded)"
    by (simp add: demo_hot_def new_lock_def)
  note honest = hot_rung_honest [OF hot_start [OF demo_hot_built] this, of ?l2 demo_sharded]
  have "t_tier_id ?l2 \<noteq> L3" by (simp add: l2_ops_def stub_ops_def)
  moreover have "t_name (l3_ops (\<lambda>_. 0) digest_of_bytes) demo_sharded = ''L3-in-memory-fallback''"
    by (simp add: l3_ops_def stub_ops_def)
  ultimately show ?thesis using honest by simp
qed

subsection \<open>Ladders with fixed and rebindable rungs\<close>

text \<open>
  A ladder is a list of \<open>Arc<dyn CacheTier>\<close>: some rungs are bound for good, others through a wrapper.
  A cell of the world is one or the other, and a method table for what is inside a cell is lifted to
  the cell.
\<close>

datatype ('b, 'v) rung_store = Plain (plain_of: 'b) | Hot (hot_of: "('b, 'v) hot_rung")

definition lift_ops :: "('s \<Rightarrow> 'b) \<Rightarrow> ('b \<Rightarrow> 's) \<Rightarrow> ('b, 'v) tier_ops \<Rightarrow> ('s, 'v) tier_ops" where
  "lift_ops out into ops =
     \<lparr>t_name = (\<lambda>s. t_name ops (out s)), t_backend = (\<lambda>s. t_backend ops (out s)),
      t_capability = (\<lambda>s. t_capability ops (out s)),
      t_eviction_candidate = (\<lambda>now c s. case t_eviction_candidate ops now c (out s) of (a, c', b) \<Rightarrow> (a, c', into b)),
      t_capacity = (\<lambda>s. t_capacity ops (out s)),
      t_remove_if_address = (\<lambda>a s. map_prod id into (t_remove_if_address ops a (out s))),
      t_get = (\<lambda>now k s. map_prod id into (t_get ops now k (out s))),
      t_set = (\<lambda>now k v ttl s. map_prod id into (t_set ops now k v ttl (out s))),
      t_remove = (\<lambda>now k s. map_prod id into (t_remove ops now k (out s))),
      t_contains = (\<lambda>now k s. map_prod id into (t_contains ops now k (out s))),
      t_health = (\<lambda>now s. t_health ops now (out s)), t_tier_id = t_tier_id ops\<rparr>"

definition plain_rung :: "('b, 'v) tier_ops \<Rightarrow> (('b, 'v) rung_store, 'v) tier_ops" where
  "plain_rung = lift_ops plain_of Plain"

definition hot_rung_at :: "tier_id \<Rightarrow> (('b, 'v) rung_store, 'v) tier_ops" where
  "hot_rung_at rung = lift_ops hot_of Hot (hot_ops rung)"

text \<open>A lifted method table keeps the contract of the one below, on cells of its kind.\<close>

lemma lift_contract:
  assumes con: "rung_contract ops sound" and out: "\<And>b. out (into b) = b"
  shows "rung_contract (lift_ops out into ops) (\<lambda>s. into (out s) = s \<and> sound (out s))"
proof
  fix s s' now now' k v ttl c a e
  assume "into (out s) = s \<and> sound (out s)"
  then have s: "sound (out s)" and again: "into (out s) = s" by simp_all
  note laws = rung_contract.get_answers [OF con s] rung_contract.set_answers [OF con s]
    rung_contract.remove_answers [OF con s] rung_contract.inv_get [OF con s] rung_contract.inv_set [OF con s]
    rung_contract.inv_remove [OF con s] rung_contract.inv_evict [OF con s] rung_contract.inv_remove_if [OF con s]
  let ?ops = "lift_ops out into ops" and ?ok = "\<lambda>s. into (out s) = s \<and> sound (out s)"
  show "\<exists>r. fst (t_get ?ops now k s) = Returns r" "\<exists>r. fst (t_set ?ops now k v ttl s) = Returns r"
    "\<exists>r. fst (t_remove ?ops now k s) = Returns r"
    using laws(1-3) by (simp_all add: lift_ops_def)
  show "?ok (snd (t_get ?ops now k s))" "?ok (snd (t_set ?ops now k v ttl s))" "?ok (snd (t_remove ?ops now k s))"
    "?ok (snd (snd (t_eviction_candidate ?ops now c s)))" "?ok (snd (t_remove_if_address ?ops a s))"
    using laws(4-8) by (simp_all add: lift_ops_def out case_prod_unfold)
  show "fst (t_get ?ops now' k s') = Returns (Ok (if unexpired ttl now now' then Some v else None))"
    if "t_set ?ops now k v ttl s = (Returns (Ok ()), s')"
  proof -
    from that have "t_set ops now k v ttl (out s) = (Returns (Ok ()), out s')"
      by (auto simp: lift_ops_def prod_eq_iff out)
    from rung_contract.get_after_set [OF con s this] show ?thesis by (simp add: lift_ops_def)
  qed
  show "snd (t_set ?ops now k v ttl s) = s" if "fst (t_set ?ops now k v ttl s) = Returns (Err e)"
    using rung_contract.set_refused [OF con s, of now k v ttl e] that by (simp add: lift_ops_def again)
qed

interpretation plain_stub: rung_contract "plain_rung (stub_ops hasher dg name b f t)"
    "\<lambda>s. Plain (plain_of s) = s \<and> sharded_wf (plain_of s)"
  for hasher :: "bytes \<Rightarrow> u64" and dg :: "'v \<Rightarrow> content_digest" and name b f t
  unfolding plain_rung_def by (rule lift_contract [OF stub_rung.rung_contract_axioms]) simp

interpretation hot_rung_cell: rung_contract "hot_rung_at rung" "\<lambda>s. Hot (hot_of s) = s \<and> hot_sound sound (hot_of s)"
  for rung and sound :: "'s \<Rightarrow> bool"
  unfolding hot_rung_at_def by (rule lift_contract [OF hot.rung_contract_axioms]) simp

end
