(* ===== verification/Census.thy ===== *)
theory Census
  imports Manager_Logic
begin

section \<open>The movable keys (\<open>src/governor/census.rs\<close>)\<close>

text \<open>
  \<open>KeyCensus\<close>: the keys the application lets the governor move. An entry keeps the key, the framed
  bytes under which the control plane knows it and the identity under which telemetry counts it. The
  property says that the frame is the one the manager computes, so that what the governor looks up is
  the entry that its promotions and demotions will act on.
\<close>

definition MANAGER_KEY_BUDGET :: nat where
  "MANAGER_KEY_BUDGET = 256"

record census_key =
  ck_key :: bytes
  ck_framed :: bytes
  ck_identity :: key_identity

record key_census =
  cn_context :: cache_context
  cn_entries :: "census_key list lock"

definition census_new :: "cache_context \<Rightarrow> key_census" where
  "census_new context = \<lparr>cn_context = context, cn_entries = new_lock []\<rparr>"

definition census_register :: "bytes \<Rightarrow> key_census \<Rightarrow> census_key result \<times> key_census" where
  "census_register key c =
     (case try_then (key_encode key (replicate MANAGER_KEY_BUDGET 0)) (\<lambda>(encoded, raw).
             try_then (frame_tenant_key (tenant (ctx_identity (cn_context c))) (take encoded raw)
                        (replicate MANAGER_KEY_BUDGET 0)) (\<lambda>(len, framed).
               let framed = take len framed in
               Ok \<lparr>ck_key = key, ck_framed = framed, ck_identity = key_identity_of framed\<rparr>)) of
        Inl e \<Rightarrow> (Err e, c)
      | Inr entry \<Rightarrow>
          if lk_poisoned (cn_entries c) then (Err ConfigurationError, c)
          else (Ok entry, c\<lparr>cn_entries := (cn_entries c)\<lparr>lk_value := lk_value (cn_entries c) @ [entry]\<rparr>\<rparr>))"

definition census_entries :: "key_census \<Rightarrow> census_key list" where
  "census_entries c = (if lk_poisoned (cn_entries c) then [] else lk_value (cn_entries c))"

definition census_len :: "key_census \<Rightarrow> nat" where
  "census_len c = (if lk_poisoned (cn_entries c) then 0 else length (lk_value (cn_entries c)))"

definition census_is_empty :: "key_census \<Rightarrow> bool" where
  "census_is_empty c \<longleftrightarrow> census_len c = 0"

definition census_default :: key_census where
  "census_default = census_new context_anonymous"

subsection \<open>What a census holds\<close>

text \<open>The life of a census: registrations, and perhaps a caller that panics with the lock held.\<close>

inductive census_reachable :: "cache_context \<Rightarrow> key_census \<Rightarrow> bool" for ctx where
  census_start: "census_reachable ctx (census_new ctx)"
| census_grown: "census_reachable ctx c \<Longrightarrow> census_reachable ctx (snd (census_register key c))"
| census_poisoned: "census_reachable ctx c \<Longrightarrow>
    census_reachable ctx (c\<lparr>cn_entries := (cn_entries c)\<lparr>lk_poisoned := True\<rparr>\<rparr>)"

definition census_key_ok :: "cache_context \<Rightarrow> census_key \<Rightarrow> bool" where
  "census_key_ok ctx e \<longleftrightarrow>
     encode_key (ck_key e) ctx = Ok (ck_framed e) \<and> ck_identity e = key_identity_of (ck_framed e)"

lemma census_register_eq:
  "census_register key c =
     (case encode_key key (cn_context c) of
        Inl e \<Rightarrow> (Err e, c)
      | Inr framed \<Rightarrow>
          if lk_poisoned (cn_entries c) then (Err ConfigurationError, c)
          else (let e = \<lparr>ck_key = key, ck_framed = framed, ck_identity = key_identity_of framed\<rparr> in
                (Ok e, c\<lparr>cn_entries := (cn_entries c)\<lparr>lk_value := lk_value (cn_entries c) @ [e]\<rparr>\<rparr>)))"
  by (auto simp: Let_def census_register_def encode_key_def MANAGER_KEY_BUDGET_def MANAGER_MAX_KEY_SIZE_def try_then_def
      split: sum.splits prod.splits)

lemma census_reachable_ok:
  "census_reachable ctx c \<Longrightarrow> cn_context c = ctx \<and> list_all (census_key_ok ctx) (lk_value (cn_entries c))"
  by (induction rule: census_reachable.induct)
     (auto simp: census_new_def new_lock_def census_register_eq census_key_ok_def Let_def split: sum.splits)

text \<open>
  C26: A census holds only keys the manager can address. In every census that registrations can build,
  each entry's frame is what the manager computes for its key under the census context, and its
  identity is the telemetry identity of that frame. A registration is refused exactly when the
  manager would refuse the key or the registry is poisoned; it then changes nothing. An accepted one
  appends its entry, so the positions a plan refers to stay valid.
\<close>

theorem census_addresses_like_manager:
  assumes "census_reachable ctx c"
  shows "list_all (census_key_ok ctx) (census_entries c) \<and> census_len c = length (census_entries c) \<and>
    fst (census_register key c) =
      (case encode_key key ctx of
         Inl e \<Rightarrow> Err e
       | Inr framed \<Rightarrow>
           if lk_poisoned (cn_entries c) then Err ConfigurationError
           else Ok \<lparr>ck_key = key, ck_framed = framed, ck_identity = key_identity_of framed\<rparr>) \<and>
    census_entries (snd (census_register key c)) =
      census_entries c @ (case fst (census_register key c) of Inr e \<Rightarrow> [e] | Inl _ \<Rightarrow> [])"
  using census_reachable_ok [OF assms]
  by (auto simp: census_entries_def census_len_def census_register_eq Let_def split: sum.splits)

theorem census_addresses_like_manager_witness:
  "fst (census_register [107] (census_new \<lparr>ctx_identity = \<lparr>principal = [112], roles = [], tenant = [116]\<rparr>, ctx_ttl = None\<rparr>)) =
   Ok \<lparr>ck_key = [107], ck_framed = [116, 0, 107], ck_identity = key_identity_of [116, 0, 107]\<rparr>"
proof -
  let ?ctx = "\<lparr>ctx_identity = \<lparr>principal = [112], roles = [], tenant = [116]\<rparr>, ctx_ttl = None\<rparr>"
  have "encode_key [107] ?ctx = Ok [116, 0, 107]"
    by (simp add: encode_key_eq TENANT_SEPARATOR_def MANAGER_MAX_KEY_SIZE_def)
  moreover have "\<not> lk_poisoned (cn_entries (census_new ?ctx))" by (simp add: census_new_def new_lock_def)
  ultimately show ?thesis
    using census_addresses_like_manager [OF census_start, of ?ctx "[107]"] by simp
qed

end
