(* ===== verification/Governor.thy ===== *)
theory Governor
  imports Manager_Ops Census Hot_Rung "HOL-Library.AList" "HOL-Library.Product_Lexorder"
begin

section \<open>The governor (\<open>src/governor/mod.rs\<close>, \<open>src/governor/task.rs\<close>)\<close>

text \<open>
  The maintenance loop: one tick observes the ladder, plans, and at the configured level of autonomy
  executes the plan through the manager's operations. A hot rung of the governor is the address of a
  cell of the world; the census and the heat ring are shared with other tasks, so each is read from
  the world as it is when the code reads it. The rebinder is the caller's closure, a parameter: what
  it answers may depend on when it is called. Ratios and thresholds are reals.
\<close>

datatype governor_mode = Manual | SemiAutonomous | FullyAutonomous

definition executes_maintenance :: "governor_mode \<Rightarrow> bool" where
  "executes_maintenance mode \<longleftrightarrow> mode \<in> {SemiAutonomous, FullyAutonomous}"

definition executes_moves :: "governor_mode \<Rightarrow> bool" where
  "executes_moves mode \<longleftrightarrow> mode = FullyAutonomous"

record governor_settings =
  gs_mode :: governor_mode
  gs_interval :: duration
  gs_max_moves_per_tick :: nat
  gs_max_rebinds_per_tick :: nat
  gs_pressure_threshold :: real
  gs_hot_heat :: u64
  gs_recover_after :: "duration option"

text \<open>Thirty seconds, in nanoseconds.\<close>

definition default_settings :: governor_settings where
  "default_settings =
     \<lparr>gs_mode = Manual, gs_interval = 30000000000, gs_max_moves_per_tick = 8, gs_max_rebinds_per_tick = 2,
      gs_pressure_threshold = 85 / 100, gs_hot_heat = 8, gs_recover_after = None\<rparr>"

datatype skip = NoHeatSource | NoCensus

record governor_plan =
  gp_recovery_sweep :: bool
  gp_expire_sweep :: bool
  gp_rebind :: "tier_id list"
  gp_promote :: "nat list"
  gp_demote :: "nat list"
  gp_skipped :: "skip list"

record governor_report =
  gr_plan :: governor_plan
  gr_recovered_intents :: nat
  gr_needs_reconciliation :: nat
  gr_expired_demoted :: nat
  gr_rebinds_done :: nat
  gr_rebind_failures :: nat
  gr_rebinding_not_configured :: bool
  gr_promoted :: nat
  gr_demoted :: nat
  gr_move_failures :: nat

definition default_report :: "governor_plan \<Rightarrow> governor_report" where
  "default_report plan =
     \<lparr>gr_plan = plan, gr_recovered_intents = 0, gr_needs_reconciliation = 0, gr_expired_demoted = 0,
      gr_rebinds_done = 0, gr_rebind_failures = 0, gr_rebinding_not_configured = False,
      gr_promoted = 0, gr_demoted = 0, gr_move_failures = 0\<rparr>"

type_synonym ('b, 'v) rebinder = "nat \<Rightarrow> tier_id \<Rightarrow> (('b, 'v) tier_ops \<times> 'b) option reply"

record ('b, 'v) governor =
  g_manager :: "(('b, 'v) rung_store, 'v) manager"
  g_settings :: governor_settings
  g_census :: "(('b, 'v) rung_store world \<Rightarrow> key_census) option"
  g_heat :: "(('b, 'v) rung_store world \<Rightarrow> ring_telemetry) option"
  g_hot_rungs :: "nat list"
  g_rebinder :: "('b, 'v) rebinder option"

definition governor_new ::
  "(('b, 'v) rung_store, 'v) manager \<Rightarrow> governor_settings \<Rightarrow> ('b, 'v) governor"
where
  "governor_new m settings =
     \<lparr>g_manager = m, g_settings = settings, g_census = None, g_heat = None, g_hot_rungs = [], g_rebinder = None\<rparr>"

definition with_census ::
  "(('b, 'v) rung_store world \<Rightarrow> key_census) \<Rightarrow> ('b, 'v) governor \<Rightarrow> ('b, 'v) governor"
where
  "with_census census g = g\<lparr>g_census := Some census\<rparr>"

definition with_heat ::
  "(('b, 'v) rung_store world \<Rightarrow> ring_telemetry) \<Rightarrow> ('b, 'v) governor \<Rightarrow> ('b, 'v) governor"
where
  "with_heat ring g = g\<lparr>g_heat := Some ring\<rparr>"

definition with_hot_rung :: "nat \<Rightarrow> ('b, 'v) governor \<Rightarrow> ('b, 'v) governor" where
  "with_hot_rung cell g = g\<lparr>g_hot_rungs := g_hot_rungs g @ [cell]\<rparr>"

definition with_rebinder :: "('b, 'v) rebinder \<Rightarrow> ('b, 'v) governor \<Rightarrow> ('b, 'v) governor" where
  "with_rebinder rebinder g = g\<lparr>g_rebinder := Some rebinder\<rparr>"

subsection \<open>Observing\<close>

record census_entry_view =
  cv_index :: nat
  cv_identity :: key_identity
  cv_tier :: tier_id
  cv_state :: entry_state

record observation =
  ob_stats :: plane_stats
  ob_rung_capacity :: "nat option list"
  ob_rung_state :: "continuity_state list"
  ob_census :: "census_entry_view list"

text \<open>A read of shared state.\<close>

definition look :: "'s schedule \<Rightarrow> ('s world \<Rightarrow> 'a) \<Rightarrow> ('s, 'a) io" where
  "look sc f w0 = (let w = tick sc w0 in (Done (f w), w))"

fun observe_rungs ::
  "'s schedule \<Rightarrow> ('s, 'v) manager \<Rightarrow> continuity_report \<Rightarrow> tier_id list \<Rightarrow> nat option list
     \<Rightarrow> continuity_state list \<Rightarrow> ('s, nat option list \<times> continuity_state list) io"
where
  "observe_rungs sc m report [] capacity state = ret (capacity, state)"
| "observe_rungs sc m report (tier # rest) capacity state =
     (let state = (case map_of report tier of Some s \<Rightarrow> state[as_usize tier := s] | None \<Rightarrow> state) in
      case bound_tier m tier of
        Some bound \<Rightarrow>
          bind_task (look sc (\<lambda>w. t_capacity bound (w_stores w ! as_usize tier))) (\<lambda>c.
            observe_rungs sc m report rest (capacity[as_usize tier := c]) state)
      | None \<Rightarrow> observe_rungs sc m report rest capacity state)"

fun observe_census :: "'s schedule \<Rightarrow> nat \<Rightarrow> census_key list \<Rightarrow> ('s, census_entry_view list) io" where
  "observe_census sc idx [] = ret []"
| "observe_census sc idx (entry # rest) =
     bind_task (plane_peek sc (ck_framed entry)) (\<lambda>r.
       let view = (case r of
             Inr s \<Rightarrow> \<lparr>cv_index = idx, cv_identity = ck_identity entry, cv_tier = cs_tier s, cv_state = cs_state s\<rparr>
           | Inl _ \<Rightarrow> \<lparr>cv_index = idx, cv_identity = ck_identity entry, cv_tier = L0, cv_state = Absent\<rparr>)
       in bind_task (observe_census sc (Suc idx) rest) (\<lambda>views. ret (view # views)))"

definition observe ::
  "('b, 'v) rung_store schedule \<Rightarrow> ('b, 'v) governor \<Rightarrow> (('b, 'v) rung_store, observation) io"
where
  "observe sc g =
     bind_task (manager_plane_stats sc) (\<lambda>stats.
     bind_task (look sc (continuity (g_manager g))) (\<lambda>report.
     bind_task (observe_rungs sc (g_manager g) report (rev tier_ALL) (replicate 7 None) (replicate 7 CS_Healthy))
       (\<lambda>(capacity, state).
     bind_task
       (case g_census g of
          None \<Rightarrow> ret []
        | Some census \<Rightarrow> bind_task (look sc (census_entries \<circ> census)) (observe_census sc 0))
       (\<lambda>views.
       ret \<lparr>ob_stats = stats, ob_rung_capacity = capacity, ob_rung_state = state, ob_census = views\<rparr>))))"

type_synonym heat_map = "(key_identity \<times> u64) list"

definition heat_of :: "heat_map \<Rightarrow> key_identity \<Rightarrow> u64" where
  "heat_of heat k = (case map_of heat k of Some n \<Rightarrow> n | None \<Rightarrow> 0)"

definition counts_as_heat :: "operation_record \<Rightarrow> bool" where
  "counts_as_heat r \<longleftrightarrow>
     or_outcome r = Out_Served \<and> or_operation r \<in> {Tel_Get, Tel_GetOrFetch, Tel_Refresh}"

definition heat_add :: "operation_record \<Rightarrow> heat_map \<Rightarrow> heat_map" where
  "heat_add r heat =
     (if counts_as_heat r then AList.update (or_key r) (heat_of heat (or_key r) + 1) heat else heat)"

definition measure_heat ::
  "('b, 'v) rung_store schedule \<Rightarrow> ('b, 'v) governor \<Rightarrow> (('b, 'v) rung_store, heat_map) io"
where
  "measure_heat sc g =
     (case g_heat g of
        None \<Rightarrow> ret []
      | Some ring \<Rightarrow>
          bind_task (look sc (ring_records \<circ> ring)) (\<lambda>records. ret (fold heat_add records [])))"

subsection \<open>Planning\<close>

definition u32_of_usize :: "nat \<Rightarrow> nat" where
  "u32_of_usize n = (if n < 2 ^ 32 then n else 2 ^ 32 - 1)"

definition rung_occupancy :: "observation \<Rightarrow> tier_id \<Rightarrow> real option" where
  "rung_occupancy ob rung =
     (case ob_rung_capacity ob ! as_usize rung of
        None \<Rightarrow> None
      | Some cap \<Rightarrow>
          if cap = 0 then None
          else Some (real (u32_of_usize (ps_by_tier (ob_stats ob) ! as_usize rung)) / real (u32_of_usize cap)))"

text \<open>\<open>sort_by_key(|x| Reverse(key(x)))\<close>: stable, largest key first.\<close>

definition sort_desc :: "('a \<Rightarrow> 'k :: linorder) \<Rightarrow> 'a list \<Rightarrow> 'a list" where
  "sort_desc key xs = rev (sort_key key (rev xs))"

definition F64_EPSILON :: real where
  "F64_EPSILON = 1 / 2 ^ 52"

definition degraded_rungs :: "observation \<Rightarrow> tier_id list" where
  "degraded_rungs ob =
     sort_desc as_usize
       (filter (\<lambda>t. is_cache_rung t \<and> ob_rung_state ob ! as_usize t \<in> {CS_Degraded, CS_Unavailable}) tier_ALL)"

definition promotable :: "heat_map \<Rightarrow> governor_settings \<Rightarrow> census_entry_view \<Rightarrow> bool" where
  "promotable heat settings v \<longleftrightarrow>
     cv_state v = Ready \<and> is_cache_rung (cv_tier v) \<and> as_usize (cv_tier v) > 0 \<and>
     heat_of heat (cv_identity v) \<ge> gs_hot_heat settings"

fun take_moves :: "nat \<Rightarrow> census_entry_view list \<Rightarrow> nat list \<times> nat" where
  "take_moves budget [] = ([], budget)"
| "take_moves budget (view # rest) =
     (if budget = 0 then ([], 0)
      else case take_moves (budget - 1) rest of (promoted, left) \<Rightarrow> (cv_index view # promoted, left))"

definition rung_pressure :: "observation \<Rightarrow> governor_settings \<Rightarrow> tier_id list" where
  "rung_pressure ob settings =
     filter (\<lambda>t. case rung_occupancy ob t of
                   Some ratio \<Rightarrow> ratio + F64_EPSILON \<ge> gs_pressure_threshold settings
                 | None \<Rightarrow> False)
       (filter is_cache_rung tier_ALL)"

definition demotable :: "observation \<Rightarrow> heat_map \<Rightarrow> governor_settings \<Rightarrow> census_entry_view \<Rightarrow> bool" where
  "demotable ob heat settings v \<longleftrightarrow>
     cv_state v = Ready \<and> is_cache_rung (cv_tier v) \<and> as_usize (cv_tier v) < as_usize LAST_CACHE_TIER \<and>
     cv_tier v \<in> set (rung_pressure ob settings) \<and> heat_of heat (cv_identity v) = 0"

definition plan_tick :: "observation \<Rightarrow> heat_map \<Rightarrow> governor_settings \<Rightarrow> governor_plan" where
  "plan_tick ob heat settings =
     (let plan = \<lparr>gp_recovery_sweep = True, gp_expire_sweep = True,
                  gp_rebind = take (gs_max_rebinds_per_tick settings) (degraded_rungs ob),
                  gp_promote = [], gp_demote = [], gp_skipped = []\<rparr> in
      if ob_census ob = [] then plan\<lparr>gp_skipped := [NoCensus]\<rparr>
      else if heat = [] then plan\<lparr>gp_skipped := [NoHeatSource]\<rparr>
      else
        (let hot = sort_desc (\<lambda>v. (heat_of heat (cv_identity v), cv_index v))
                     (filter (promotable heat settings) (ob_census ob));
             (promoted, budget) = take_moves (gs_max_moves_per_tick settings) hot;
             plan = plan\<lparr>gp_promote := promoted\<rparr>
         in if budget > 0
            then plan\<lparr>gp_demote := map cv_index (filter (demotable ob heat settings) (ob_census ob))\<rparr>
            else plan))"

definition governor_plan_of ::
  "('b, 'v) rung_store schedule \<Rightarrow> ('b, 'v) governor \<Rightarrow> (('b, 'v) rung_store, governor_plan) io"
where
  "governor_plan_of sc g =
     bind_task (observe sc g) (\<lambda>ob. bind_task (measure_heat sc g) (\<lambda>heat.
       ret (plan_tick ob heat (g_settings g))))"

subsection \<open>Executing\<close>

text \<open>\<open>spawn_blocking(move || rebinder(rung)).await\<close>; a panic of the closure reads as \<open>Cancelled\<close>.\<close>

definition rebinder_call ::
  "'s schedule \<Rightarrow> ('b, 'v) rebinder \<Rightarrow> tier_id \<Rightarrow> ('s, (('b, 'v) tier_ops \<times> 'b) option result) io"
where
  "rebinder_call sc rebinder rung =
     unbounded (then_task (suspend sc)
       (bind_task (\<lambda>w. (Done (rebinder (w_step w) rung), w)) (\<lambda>r. then_task (suspend sc) (ret r))))"

definition cell_rung :: "('b, 'v) rung_store \<Rightarrow> tier_id option" where
  "cell_rung s = (case s of Hot h \<Rightarrow> Some (hr_rung h) | Plain _ \<Rightarrow> None)"

definition swap_cell ::
  "('b, 'v) rung_store schedule \<Rightarrow> nat \<Rightarrow> ('b, 'v) tier_ops \<times> 'b
     \<Rightarrow> (('b, 'v) rung_store, (('b, 'v) tier_ops \<times> 'b) result) io"
where
  "swap_cell sc i replacement =
     tier_sync sc i (\<lambda>now cursor s.
       case hot_swap replacement (hot_of s) of (r, h) \<Rightarrow> (r, cursor, Hot h))"

definition rebind_outcome :: "'a result \<Rightarrow> governor_report \<Rightarrow> governor_report" where
  "rebind_outcome r report =
     (case r of
        Inr _ \<Rightarrow> report\<lparr>gr_rebinds_done := gr_rebinds_done report + 1\<rparr>
      | Inl _ \<Rightarrow> report\<lparr>gr_rebind_failures := gr_rebind_failures report + 1\<rparr>)"

definition rebind_cell ::
  "('b, 'v) rung_store schedule \<Rightarrow> ('b, 'v) rebinder \<Rightarrow> tier_id \<Rightarrow> governor_report \<Rightarrow> nat
     \<Rightarrow> (('b, 'v) rung_store, governor_report) io"
where
  "rebind_cell sc rebinder rung report i =
     bind_task (rebinder_call sc rebinder rung) (\<lambda>outcome.
       case outcome of
         Inr (Some replacement) \<Rightarrow>
           bind_task (swap_cell sc i replacement) (\<lambda>r. ret (rebind_outcome r report))
       | Inr None \<Rightarrow> ret (report\<lparr>gr_rebinding_not_configured := True\<rparr>)
       | Inl e \<Rightarrow> ret (report\<lparr>gr_rebind_failures := gr_rebind_failures report + 1\<rparr>))"

definition rebind_rung ::
  "('b, 'v) rung_store schedule \<Rightarrow> ('b, 'v) governor \<Rightarrow> ('b, 'v) rebinder \<Rightarrow> tier_id \<Rightarrow> governor_report
     \<Rightarrow> (('b, 'v) rung_store, governor_report) io"
where
  "rebind_rung sc g rebinder rung report =
     bind_task (look sc (\<lambda>w. find (\<lambda>i. cell_rung (w_stores w ! i) = Some rung) (g_hot_rungs g))) (\<lambda>hot.
       case hot of None \<Rightarrow> ret report | Some i \<Rightarrow> rebind_cell sc rebinder rung report i)"

fun rebind_all ::
  "('b, 'v) rung_store schedule \<Rightarrow> ('b, 'v) governor \<Rightarrow> ('b, 'v) rebinder \<Rightarrow> tier_id list \<Rightarrow> governor_report
     \<Rightarrow> (('b, 'v) rung_store, governor_report) io"
where
  "rebind_all sc g rebinder [] report = ret report"
| "rebind_all sc g rebinder (rung # rest) report =
     bind_task (rebind_rung sc g rebinder rung report) (rebind_all sc g rebinder rest)"

text \<open>The demote and the promote loops, with the budget that is left.\<close>

fun demote_all ::
  "'s schedule \<Rightarrow> ('s, 'v) manager \<Rightarrow> cache_context \<Rightarrow> census_key list \<Rightarrow> nat list \<Rightarrow> nat \<Rightarrow> governor_report
     \<Rightarrow> ('s, nat \<times> governor_report) io"
where
  "demote_all sc m ctx entries [] budget report = ret (budget, report)"
| "demote_all sc m ctx entries (idx # rest) budget report =
     (if budget = 0 then ret (budget, report)
      else if idx \<ge> length entries then demote_all sc m ctx entries rest budget report
      else
        bind_task (demote_op sc m (ck_key (entries ! idx)) ctx) (\<lambda>r.
          case r of
            Inr _ \<Rightarrow>
              demote_all sc m ctx entries rest (budget - 1) (report\<lparr>gr_demoted := gr_demoted report + 1\<rparr>)
          | Inl e \<Rightarrow>
              if e = CapacityExhausted
              then ret (budget, report\<lparr>gr_move_failures := gr_move_failures report + 1\<rparr>)
              else
                demote_all sc m ctx entries rest (budget - 1)
                  (report\<lparr>gr_move_failures := gr_move_failures report + 1\<rparr>)))"

fun promote_all ::
  "'s schedule \<Rightarrow> ('s, 'v) manager \<Rightarrow> cache_context \<Rightarrow> census_key list \<Rightarrow> nat list \<Rightarrow> nat \<Rightarrow> governor_report
     \<Rightarrow> ('s, governor_report) io"
where
  "promote_all sc m ctx entries [] budget report = ret report"
| "promote_all sc m ctx entries (idx # rest) budget report =
     (if budget = 0 then ret report
      else if idx \<ge> length entries then promote_all sc m ctx entries rest budget report
      else
        bind_task (promote_op sc m (ck_key (entries ! idx)) ctx) (\<lambda>r.
          case r of
            Inr _ \<Rightarrow>
              promote_all sc m ctx entries rest (budget - 1) (report\<lparr>gr_promoted := gr_promoted report + 1\<rparr>)
          | Inl _ \<Rightarrow>
              promote_all sc m ctx entries rest budget
                (report\<lparr>gr_move_failures := gr_move_failures report + 1\<rparr>)))"

text \<open>The three legs of \<open>apply_plan\<close>: maintenance sweeps, rebinding, moves.\<close>

definition sweep_leg ::
  "('b, 'v) rung_store schedule \<Rightarrow> ('b, 'v) governor \<Rightarrow> governor_plan \<Rightarrow> governor_report
     \<Rightarrow> (('b, 'v) rung_store, governor_report) io"
where
  "sweep_leg sc g plan report =
     bind_task
       (if gp_recovery_sweep plan
        then
          (let age = (case gs_recover_after (g_settings g) of Some d \<Rightarrow> d | None \<Rightarrow> INTENT_RECOVERY_AGE) in
           bind_task (recover_older_than sc age) (\<lambda>r.
             ret (report\<lparr>gr_recovered_intents := rr_recovered r,
                         gr_needs_reconciliation := rr_needs_reconciliation r\<rparr>)))
        else ret report)
       (\<lambda>report.
         if gp_expire_sweep plan
         then bind_task (manager_sweep_expired sc) (\<lambda>n. ret (report\<lparr>gr_expired_demoted := n\<rparr>))
         else ret report)"

definition rebind_leg ::
  "('b, 'v) rung_store schedule \<Rightarrow> ('b, 'v) governor \<Rightarrow> governor_plan \<Rightarrow> governor_report
     \<Rightarrow> (('b, 'v) rung_store, governor_report) io"
where
  "rebind_leg sc g plan report =
     (case g_rebinder g of
        None \<Rightarrow>
          ret (report\<lparr>gr_rebinding_not_configured := (gr_rebinding_not_configured report \<or> gp_rebind plan \<noteq> [])\<rparr>)
      | Some rebinder \<Rightarrow> rebind_all sc g rebinder (gp_rebind plan) report)"

definition move_leg ::
  "('b, 'v) rung_store schedule \<Rightarrow> ('b, 'v) governor \<Rightarrow> governor_plan \<Rightarrow> governor_report
     \<Rightarrow> (('b, 'v) rung_store, governor_report) io"
where
  "move_leg sc g plan report =
     (case g_census g of
        None \<Rightarrow> ret report
      | Some census \<Rightarrow>
          bind_task (look sc (\<lambda>w. (census_entries (census w), cn_context (census w)))) (\<lambda>(entries, ctx).
          bind_task (demote_all sc (g_manager g) ctx entries (gp_demote plan)
                       (gs_max_moves_per_tick (g_settings g)) report) (\<lambda>(budget, report).
            promote_all sc (g_manager g) ctx entries (gp_promote plan) budget report)))"

definition apply_plan ::
  "('b, 'v) rung_store schedule \<Rightarrow> ('b, 'v) governor \<Rightarrow> governor_plan
     \<Rightarrow> (('b, 'v) rung_store, governor_report) io"
where
  "apply_plan sc g plan =
     (let report = default_report plan in
      if \<not> executes_maintenance (gs_mode (g_settings g)) then ret report
      else
        bind_task (sweep_leg sc g plan report) (\<lambda>report.
        bind_task (rebind_leg sc g plan report) (\<lambda>report.
          if \<not> executes_moves (gs_mode (g_settings g)) then ret report
          else move_leg sc g plan report)))"

definition governor_tick ::
  "('b, 'v) rung_store schedule \<Rightarrow> ('b, 'v) governor \<Rightarrow> (('b, 'v) rung_store, governor_report result) io"
where
  "governor_tick sc g =
     bind_task (governor_plan_of sc g) (\<lambda>plan.
       if executes_maintenance (gs_mode (g_settings g))
       then bind_task (apply_plan sc g plan) (\<lambda>report. ret (Ok report))
       else ret (Ok (default_report plan)))"

subsection \<open>The spawned loop\<close>

text \<open>
  \<open>spawn\<close> refuses a governor that is not fully autonomous and otherwise starts a loop that sleeps and
  ticks until it is aborted. What is observable of the loop is any finite number of its rounds.
\<close>

definition governor_spawn :: "('b, 'v) governor \<Rightarrow> duration result" where
  "governor_spawn g =
     (if gs_mode (g_settings g) \<noteq> FullyAutonomous then Err ConfigurationError
      else Ok (max (gs_interval (g_settings g)) 1000000))"

fun governor_rounds ::
  "('b, 'v) rung_store schedule \<Rightarrow> ('b, 'v) governor \<Rightarrow> duration \<Rightarrow> nat \<Rightarrow> (('b, 'v) rung_store, unit) io"
where
  "governor_rounds sc g interval 0 = ret ()"
| "governor_rounds sc g interval (Suc n) =
     then_task (sleep sc interval) (then_task (governor_tick sc g) (governor_rounds sc g interval n))"

end
