(* ===== verification/Governor_Plan.thy ===== *)
theory Governor_Plan
  imports Governor
begin

section \<open>What a tick plans and what it may do\<close>

text \<open>
  The planner is a function of the observation, the heat and the settings; its plan is characterised
  exactly. The executor is bounded for every schedule, every rung and every rebinder: the report of a
  tick never counts more moves or rebinds than the settings allow.
\<close>

subsection \<open>The plan\<close>

lemma set_sort_desc [simp]: "set (sort_desc f xs) = set xs"
  by (simp add: sort_desc_def)

lemma length_sort_desc [simp]: "length (sort_desc f xs) = length xs"
  by (simp add: sort_desc_def)

lemma sorted_sort_desc: "sorted_wrt (\<lambda>x y. f x \<ge> f y) (sort_desc f xs)"
proof -
  have "sorted_wrt (\<lambda>x y. f x \<le> f y) (sort_key f (rev xs))"
    using sorted_sort_key [of f "rev xs"] by (simp add: sorted_wrt_map)
  then show ?thesis by (simp add: sort_desc_def sorted_wrt_rev)
qed

lemma sort_desc_filter: "sort_desc f (filter P xs) = filter P (sort_desc f xs)"
  by (simp add: sort_desc_def filter_sort rev_filter [symmetric])

lemma degraded_rungs_eq:
  "degraded_rungs ob =
     filter (\<lambda>t. ob_rung_state ob ! as_usize t \<in> {CS_Degraded, CS_Unavailable}) [L5, L4, L3, L2, L1, L0]"
proof -
  have "sort_desc as_usize tier_ALL = [L6, L5, L4, L3, L2, L1, L0]"
    by (simp add: sort_desc_def tier_ALL_def)
  then show ?thesis
    by (simp add: degraded_rungs_def sort_desc_filter is_cache_rung_def LAST_CACHE_RUNG_INDEX_def)
qed

lemma take_moves_eq: "take_moves budget vs = (map cv_index (take budget vs), budget - length vs)"
  by (induction budget vs rule: take_moves.induct) (auto simp: take_Cons' split: prod.split)

text \<open>The hot views, hottest first.\<close>

definition hot_views :: "observation \<Rightarrow> heat_map \<Rightarrow> governor_settings \<Rightarrow> census_entry_view list" where
  "hot_views ob heat settings =
     sort_desc (\<lambda>v. (heat_of heat (cv_identity v), cv_index v)) (filter (promotable heat settings) (ob_census ob))"

lemma plan_tick_fields:
  shows "gp_recovery_sweep (plan_tick ob heat st)" "gp_expire_sweep (plan_tick ob heat st)"
    and "gp_rebind (plan_tick ob heat st) = take (gs_max_rebinds_per_tick st) (degraded_rungs ob)"
    and "gp_promote (plan_tick ob heat st) =
      (if ob_census ob = [] \<or> heat = [] then []
       else map cv_index (take (gs_max_moves_per_tick st) (hot_views ob heat st)))"
    and "gp_demote (plan_tick ob heat st) =
      (if ob_census ob = [] \<or> heat = [] \<or> gs_max_moves_per_tick st \<le> length (hot_views ob heat st) then []
       else map cv_index (filter (demotable ob heat st) (ob_census ob)))"
    and "gp_skipped (plan_tick ob heat st) =
      (if ob_census ob = [] then [NoCensus] else if heat = [] then [NoHeatSource] else [])"
  by (simp_all add: plan_tick_def hot_views_def Let_def take_moves_eq)

lemma distinct_index_eq:
  "distinct (map f xs) \<Longrightarrow> x \<in> set xs \<Longrightarrow> y \<in> set xs \<Longrightarrow> f x = f y \<Longrightarrow> x = y"
  by (auto simp: distinct_map inj_on_def)

lemma hot_views_set: "set (hot_views ob heat st) = {v \<in> set (ob_census ob). promotable heat st v}"
  by (auto simp: hot_views_def)

text \<open>A hot view that the budget leaves out is no hotter than one it takes.\<close>

lemma hot_views_take:
  assumes "v \<in> set (hot_views ob heat st)" "v \<notin> set (take n (hot_views ob heat st))"
    and "u \<in> set (take n (hot_views ob heat st))"
  shows "heat_of heat (cv_identity v) \<le> heat_of heat (cv_identity u)"
proof -
  let ?h = "hot_views ob heat st" and ?k = "\<lambda>v. (heat_of heat (cv_identity v), cv_index v)"
  have "sorted_wrt (\<lambda>x y. ?k x \<ge> ?k y) (take n ?h @ drop n ?h)"
    using sorted_sort_desc [of ?k] by (simp add: hot_views_def)
  moreover have "v \<in> set (drop n ?h)"
    using assms(1,2) by (metis append_take_drop_id Un_iff set_append)
  ultimately have "?k v \<le> ?k u" using assms(3) unfolding sorted_wrt_append by blast
  then show ?thesis by (auto simp: less_eq_prod_def)
qed

text \<open>What makes an entry worth a move, rung by rung.\<close>

definition worth_promoting :: "heat_map \<Rightarrow> governor_settings \<Rightarrow> census_entry_view \<Rightarrow> bool" where
  "worth_promoting heat st v \<longleftrightarrow>
     cv_state v = Ready \<and> cv_tier v \<in> {L1, L2, L3, L4, L5} \<and> gs_hot_heat st \<le> heat_of heat (cv_identity v)"

definition worth_demoting :: "observation \<Rightarrow> heat_map \<Rightarrow> governor_settings \<Rightarrow> census_entry_view \<Rightarrow> bool" where
  "worth_demoting ob heat st v \<longleftrightarrow>
     cv_state v = Ready \<and> cv_tier v \<in> {L0, L1, L2, L3, L4} \<and> cv_tier v \<in> set (rung_pressure ob st) \<and>
     heat_of heat (cv_identity v) = 0"

lemma worth_moving:
  "worth_promoting heat st = promotable heat st" "worth_demoting ob heat st = demotable ob heat st"
proof -
  have "is_cache_rung t \<and> 0 < as_usize t \<longleftrightarrow> t \<in> {L1, L2, L3, L4, L5}"
    "is_cache_rung t \<and> as_usize t < as_usize LAST_CACHE_TIER \<longleftrightarrow> t \<in> {L0, L1, L2, L3, L4}" for t
    by (cases t; simp add: is_cache_rung_iff LAST_CACHE_TIER_def)+
  then show "worth_promoting heat st = promotable heat st" "worth_demoting ob heat st = demotable ob heat st"
    by (auto simp: fun_eq_iff worth_promoting_def worth_demoting_def promotable_def demotable_def)
qed

text \<open>
  C24: The planner is exact. It always plans both sweeps. It rebinds the degraded and unavailable cache
  rungs, deepest first, as many as the budget allows and never the authority. Given a census and heat,
  it promotes committed entries that sit on a cache rung below the top and are hot, hottest first, as
  many as the move budget allows: an entry is left out only when the budget is spent on entries that
  are at least as hot. Only when promotion leaves budget, it demotes: the committed entries with no
  heat at all that sit above the last cache rung on a rung under pressure. When the setting for hot
  is positive, nothing is both promoted and demoted. When it is zero, an entry without heat counts as
  hot and as cold, and may be planned for both.
\<close>

theorem plan_tick_exact:
  assumes "distinct (map cv_index (ob_census ob))" and "plan = plan_tick ob heat st"
  shows "gp_recovery_sweep plan \<and> gp_expire_sweep plan \<and>
    gp_rebind plan =
      take (gs_max_rebinds_per_tick st)
        (filter (\<lambda>t. ob_rung_state ob ! as_usize t \<in> {CS_Degraded, CS_Unavailable}) [L5, L4, L3, L2, L1, L0]) \<and>
    length (gp_promote plan) \<le> gs_max_moves_per_tick st \<and>
    set (gp_promote plan) \<subseteq> cv_index ` {v \<in> set (ob_census ob). worth_promoting heat st v} \<and>
    (\<forall>v \<in> set (ob_census ob). ob_census ob \<noteq> [] \<and> heat \<noteq> [] \<and> worth_promoting heat st v \<and>
        cv_index v \<notin> set (gp_promote plan) \<longrightarrow>
      length (gp_promote plan) = gs_max_moves_per_tick st \<and>
      (\<forall>u \<in> set (ob_census ob). cv_index u \<in> set (gp_promote plan) \<longrightarrow>
         heat_of heat (cv_identity v) \<le> heat_of heat (cv_identity u))) \<and>
    gp_demote plan =
      (if ob_census ob = [] \<or> heat = [] \<or> length (gp_promote plan) = gs_max_moves_per_tick st then []
       else map cv_index (filter (worth_demoting ob heat st) (ob_census ob))) \<and>
    (0 < gs_hot_heat st \<longrightarrow> set (gp_promote plan) \<inter> set (gp_demote plan) = {})"
  unfolding worth_moving
proof (intro conjI ballI impI)
  let ?h = "hot_views ob heat st" and ?n = "gs_max_moves_per_tick st"
  note plan = plan_tick_fields [of ob heat st] assms(2)
  note one = distinct_index_eq [OF assms(1)]
  show "gp_recovery_sweep plan" "gp_expire_sweep plan"
    "gp_rebind plan =
      take (gs_max_rebinds_per_tick st)
        (filter (\<lambda>t. ob_rung_state ob ! as_usize t \<in> {CS_Degraded, CS_Unavailable}) [L5, L4, L3, L2, L1, L0])"
    "length (gp_promote plan) \<le> ?n"
    by (simp_all only: plan degraded_rungs_eq) simp
  have taken: "set (take ?n ?h) \<subseteq> {v \<in> set (ob_census ob). promotable heat st v}"
    using set_take_subset [of ?n ?h] by (simp add: hot_views_set)
  then show "set (gp_promote plan) \<subseteq> cv_index ` {v \<in> set (ob_census ob). promotable heat st v}"
    by (auto simp: plan)
  show "gp_demote plan =
      (if ob_census ob = [] \<or> heat = [] \<or> length (gp_promote plan) = ?n then []
       else map cv_index (filter (demotable ob heat st) (ob_census ob)))"
    by (auto simp: plan)
  have inside: "v \<in> set (take ?n ?h)" if "v \<in> set (ob_census ob)" "cv_index v \<in> set (gp_promote plan)" for v
  proof -
    from that(2) obtain u where u: "u \<in> set (take ?n ?h)" "cv_index u = cv_index v"
      by (auto simp: plan split: if_splits)
    with taken one [OF that(1), of u] show ?thesis by auto
  qed
  show "set (gp_promote plan) \<inter> set (gp_demote plan) = {}" if "0 < gs_hot_heat st"
  proof -
    have "cv_index v \<notin> set (gp_promote plan)" if "v \<in> set (ob_census ob)" "demotable ob heat st v" for v
      using inside [OF that(1)] taken that(2) \<open>0 < gs_hot_heat st\<close> by (auto simp: promotable_def demotable_def)
    moreover have "set (gp_demote plan) \<subseteq> cv_index ` {v \<in> set (ob_census ob). demotable ob heat st v}"
      by (auto simp: plan)
    ultimately show ?thesis by auto
  qed
  fix v assume v: "v \<in> set (ob_census ob)"
    and out: "ob_census ob \<noteq> [] \<and> heat \<noteq> [] \<and> promotable heat st v \<and> cv_index v \<notin> set (gp_promote plan)"
  then have hot: "v \<in> set ?h" "v \<notin> set (take ?n ?h)" by (auto simp: hot_views_set plan)
  then have "?n \<le> length ?h" by (metis nat_le_linear take_all)
  with out show "length (gp_promote plan) = ?n" by (simp add: plan)
  fix u assume "u \<in> set (ob_census ob)" "cv_index u \<in> set (gp_promote plan)"
  from hot_views_take [OF hot inside [OF this]]
  show "heat_of heat (cv_identity v) \<le> heat_of heat (cv_identity u)" .
qed

text \<open>
  A ladder with a hot entry and a cold one on a rung that is nine tenths full.
\<close>

definition demo_view :: "nat \<Rightarrow> bytes \<Rightarrow> census_entry_view" where
  "demo_view i key = \<lparr>cv_index = i, cv_identity = key_identity_of key, cv_tier = L2, cv_state = Ready\<rparr>"

definition demo_observation :: "census_entry_view list \<Rightarrow> observation" where
  "demo_observation views =
     \<lparr>ob_stats = \<lparr>ps_capacity = 64, ps_occupied = 9, ps_by_state = [0, 0, 0, 9, 0, 0],
        ps_by_tier = [0, 0, 9, 0, 0, 0, 0], ps_population_owned = 0, ps_intents_outstanding = 0,
        ps_expired_ready = 0\<rparr>,
      ob_rung_capacity = [None, None, Some 10, None, None, None, None],
      ob_rung_state = [CS_Healthy, CS_Degraded, CS_Healthy, CS_Unavailable, CS_Healthy, CS_Degraded, CS_Healthy],
      ob_census = views\<rparr>"

lemma demo_fields [simp]:
  "ob_census (demo_observation views) = views" "cv_index (demo_view i k) = i"
  "cv_identity (demo_view i k) = key_identity_of k" "cv_tier (demo_view i k) = L2" "cv_state (demo_view i k) = Ready"
  by (simp_all add: demo_observation_def demo_view_def)

lemma demo_pressure: "L2 \<in> set (rung_pressure (demo_observation views) default_settings)"
  by (simp add: rung_pressure_def rung_occupancy_def demo_observation_def u32_of_usize_def tier_ALL_def
      is_cache_rung_def LAST_CACHE_RUNG_INDEX_def F64_EPSILON_def default_settings_def)

lemma demo_cold: "key_identity_of [1] \<noteq> key_identity_of []"
  by (simp add: key_identity_of_def)

theorem plan_tick_exact_witness:
  "gp_rebind (plan_tick (demo_observation [demo_view 0 [], demo_view 1 [1]]) [(key_identity_of [], 20)] default_settings)
     = [L5, L3] \<and>
   gp_promote (plan_tick (demo_observation [demo_view 0 [], demo_view 1 [1]]) [(key_identity_of [], 20)] default_settings)
     = [0] \<and>
   gp_demote (plan_tick (demo_observation [demo_view 0 [], demo_view 1 [1]]) [(key_identity_of [], 20)] default_settings)
     = [1]"
proof -
  let ?ob = "demo_observation [demo_view 0 [], demo_view 1 [1]]" and ?heat = "[(key_identity_of [], 20 :: u64)]"
  let ?plan = "plan_tick ?ob ?heat default_settings"
  have cold: "heat_of ?heat (key_identity_of [1]) = 0" "heat_of ?heat (key_identity_of []) = 20"
    using demo_cold by (simp_all add: heat_of_def)
  have p: "promotable ?heat default_settings (demo_view 0 [])" "\<not> promotable ?heat default_settings (demo_view 1 [1])"
    by (simp_all add: promotable_def cold default_settings_def is_cache_rung_def LAST_CACHE_RUNG_INDEX_def)
  have d: "\<not> demotable ?ob ?heat default_settings (demo_view 0 [])" "demotable ?ob ?heat default_settings (demo_view 1 [1])"
    using demo_pressure [of "[demo_view 0 [], demo_view 1 [1]]"]
    by (simp_all add: demotable_def cold is_cache_rung_def LAST_CACHE_RUNG_INDEX_def LAST_CACHE_TIER_def)
  have "distinct (map cv_index (ob_census ?ob))" by simp
  note exact = plan_tick_exact [OF this refl, of ?heat default_settings, unfolded worth_moving]
  have promote: "gp_promote ?plan = [0]"
    using p by (simp add: plan_tick_fields hot_views_def sort_desc_def default_settings_def)
  moreover have "gp_rebind ?plan = [L5, L3]"
    using exact by (simp add: demo_observation_def default_settings_def)
  moreover have "gp_demote ?plan = [1]"
    using exact promote d by (simp add: default_settings_def)
  ultimately show ?thesis by blast
qed

text \<open>
  The plan itself does not bound the demotions: with nine cold entries on a full rung and one hot key
  elsewhere, the default settings allow eight moves and the plan lists nine.
\<close>

lemma planned_demotions_exceed_budget:
  "length (gp_demote (plan_tick (demo_observation (map (\<lambda>i. demo_view i [1]) [0..<9]))
     [(key_identity_of [], 20)] default_settings)) = 9 \<and> gs_max_moves_per_tick default_settings = 8"
proof -
  let ?vs = "map (\<lambda>i. demo_view i [1]) [0..<9]"
  let ?ob = "demo_observation ?vs" and ?heat = "[(key_identity_of [], 20 :: u64)]"
  have cold: "heat_of ?heat (key_identity_of [1]) = 0" using demo_cold by (simp add: heat_of_def)
  have "demotable ?ob ?heat default_settings (demo_view i [1])" for i
    using demo_pressure [of ?vs]
    by (simp add: demotable_def cold is_cache_rung_def LAST_CACHE_RUNG_INDEX_def LAST_CACHE_TIER_def)
  moreover have "\<not> promotable ?heat default_settings (demo_view i [1])" for i
    by (simp add: promotable_def cold default_settings_def)
  ultimately show ?thesis
    by (simp add: plan_tick_fields hot_views_def sort_desc_def default_settings_def filter_map
        filter_empty_conv o_def)
qed

text \<open>
  With the setting for hot at zero the planner contradicts itself: one entry without heat, on a rung
  under pressure, is planned for promotion and for demotion in the same tick.
\<close>

theorem zero_hot_heat_plans_both:
  "let plan = plan_tick (demo_observation [demo_view 0 [1]]) [(key_identity_of [], 20)] (default_settings\<lparr>gs_hot_heat := 0\<rparr>)
   in gp_promote plan = [0] \<and> gp_demote plan = [0]"
proof -
  let ?ob = "demo_observation [demo_view 0 [1]]" and ?heat = "[(key_identity_of [], 20 :: u64)]"
  let ?st = "default_settings\<lparr>gs_hot_heat := 0\<rparr>"
  have cold: "heat_of ?heat (key_identity_of [1]) = 0" using demo_cold by (simp add: heat_of_def)
  have "promotable ?heat ?st (demo_view 0 [1])"
    by (simp add: promotable_def is_cache_rung_def LAST_CACHE_RUNG_INDEX_def)
  moreover have "rung_pressure ?ob ?st = rung_pressure ?ob default_settings"
    unfolding rung_pressure_def by (rule filter_cong) (auto simp: default_settings_def split: option.split)
  then have "demotable ?ob ?heat ?st (demo_view 0 [1])"
    using demo_pressure [of "[demo_view 0 [1]]"]
    by (simp add: demotable_def cold is_cache_rung_def LAST_CACHE_RUNG_INDEX_def LAST_CACHE_TIER_def)
  ultimately show ?thesis
    by (simp add: Let_def plan_tick_fields hot_views_def sort_desc_def default_settings_def)
qed

end
