(* ===== verification/Governor_Safety.thy ===== *)
theory Governor_Safety
  imports Governor_Plan Manager_Safety
begin

section \<open>What a tick may do\<close>

text \<open>
  Statements about \<open>tick\<close> for every schedule, every rung, every census, heat source and rebinder: the
  budgets bound what a report counts, a manual tick is a mere observation, the authority is out of
  reach, and a loop that is aborted anywhere leaves no key claimed.
\<close>

subsection \<open>Budgets\<close>

lemma demote_all_budget:
  "demote_all sc m ctx es idxs b r w = (Done (b', r'), w') \<Longrightarrow>
     gr_demoted r' + b' \<le> gr_demoted r + b \<and> gr_promoted r' = gr_promoted r \<and>
     gr_rebinds_done r' = gr_rebinds_done r \<and> gr_rebind_failures r' = gr_rebind_failures r \<and>
     gr_plan r' = gr_plan r \<and> gr_demoted r' + gr_move_failures r' \<le> gr_demoted r + gr_move_failures r + length idxs"
  by (induction idxs arbitrary: b r w)
     (fastforce simp: ret_def elim!: bind_DoneE split: if_splits sum.splits)+

lemma promote_all_budget:
  "promote_all sc m ctx es idxs b r w = (Done r', w') \<Longrightarrow>
     gr_promoted r' \<le> gr_promoted r + b \<and> gr_demoted r' = gr_demoted r \<and>
     gr_rebinds_done r' = gr_rebinds_done r \<and> gr_rebind_failures r' = gr_rebind_failures r \<and>
     gr_plan r' = gr_plan r \<and>
     gr_promoted r' + gr_move_failures r' \<le> gr_promoted r + gr_move_failures r + length idxs"
  by (induction idxs arbitrary: b r w)
     (fastforce simp: ret_def elim!: bind_DoneE split: if_splits sum.splits)+

definition rebound :: "nat \<Rightarrow> governor_report \<Rightarrow> governor_report \<Rightarrow> bool" where
  "rebound n r r' \<longleftrightarrow>
     gr_rebinds_done r' + gr_rebind_failures r' \<le> gr_rebinds_done r + gr_rebind_failures r + n \<and>
     gr_promoted r' = gr_promoted r \<and> gr_demoted r' = gr_demoted r \<and> gr_move_failures r' = gr_move_failures r \<and>
     gr_plan r' = gr_plan r"

lemma rebind_rung_budget: "rebind_rung sc g rb t r w = (Done r', w') \<Longrightarrow> rebound 1 r r'"
  by (auto simp: rebind_rung_def rebind_cell_def rebind_outcome_def rebound_def ret_def elim!: bind_DoneE
      split: option.splits sum.splits)

lemma rebind_all_budget: "rebind_all sc g rb ts r w = (Done r', w') \<Longrightarrow> rebound (length ts) r r'"
proof (induction ts arbitrary: r w)
  case (Cons t ts)
  from Cons.prems obtain r1 w1 where 1: "rebind_rung sc g rb t r w = (Done r1, w1)"
      "rebind_all sc g rb ts r1 w1 = (Done r', w')"
    by (auto elim!: bind_DoneE)
  from rebind_rung_budget [OF 1(1)] Cons.IH [OF 1(2)] show ?case by (simp add: rebound_def)
qed (simp add: rebound_def ret_def)

definition only_swept :: "governor_report \<Rightarrow> governor_report \<Rightarrow> bool" where
  "only_swept r r' \<longleftrightarrow> gr_promoted r' = gr_promoted r \<and> gr_demoted r' = gr_demoted r \<and>
     gr_move_failures r' = gr_move_failures r \<and> gr_plan r' = gr_plan r \<and>
     gr_rebinds_done r' = gr_rebinds_done r \<and> gr_rebind_failures r' = gr_rebind_failures r"

lemma sweep_leg_fields: "sweep_leg sc g plan r w = (Done r', w') \<Longrightarrow> only_swept r r'"
  by (auto simp: sweep_leg_def only_swept_def ret_def Let_def elim!: bind_DoneE split: if_splits)

lemma apply_plan_bounds:
  assumes "apply_plan sc g plan w = (Done r, w')"
  shows "gr_plan r = plan \<and>
    gr_promoted r + gr_demoted r \<le> gs_max_moves_per_tick (g_settings g) \<and>
    gr_rebinds_done r + gr_rebind_failures r \<le> length (gp_rebind plan) \<and>
    gr_promoted r + gr_demoted r + gr_move_failures r \<le> length (gp_promote plan) + length (gp_demote plan) \<and>
    (gs_mode (g_settings g) \<noteq> FullyAutonomous \<longrightarrow> gr_promoted r + gr_demoted r + gr_move_failures r = 0)"
proof (cases "executes_maintenance (gs_mode (g_settings g))")
  case False
  with assms show ?thesis by (auto simp: apply_plan_def default_report_def ret_def)
next
  case True
  let ?d = "default_report plan"
  from assms True obtain r1 w1 r2 w2
    where s: "sweep_leg sc g plan ?d w = (Done r1, w1)" and b: "rebind_leg sc g plan r1 w1 = (Done r2, w2)"
      and m: "(if \<not> executes_moves (gs_mode (g_settings g)) then ret r2 else move_leg sc g plan r2) w2 = (Done r, w')"
    by (auto simp: apply_plan_def Let_def elim!: bind_DoneE)
  have r1: "only_swept ?d r1" by (rule sweep_leg_fields [OF s])
  have r2: "rebound (length (gp_rebind plan)) r1 r2"
    using b by (auto simp: rebind_leg_def ret_def rebound_def split: option.splits dest: rebind_all_budget [unfolded rebound_def])
  show ?thesis
  proof (cases "executes_moves (gs_mode (g_settings g)) \<and> g_census g \<noteq> None")
    case False
    with m have "r = r2" by (auto simp: move_leg_def ret_def split: if_splits)
    with r1 r2 show ?thesis by (simp add: only_swept_def rebound_def default_report_def)
  next
    case True
    with m obtain es ctx b3 r3 w3 w4
      where d: "demote_all sc (g_manager g) ctx es (gp_demote plan) (gs_max_moves_per_tick (g_settings g)) r2 w3 =
          (Done (b3, r3), w4)"
        and p: "promote_all sc (g_manager g) ctx es (gp_promote plan) b3 r3 w4 = (Done r, w')"
      by (auto simp: move_leg_def elim!: bind_DoneE)
    from True have "gs_mode (g_settings g) = FullyAutonomous" by (simp add: executes_moves_def)
    with demote_all_budget [OF d] promote_all_budget [OF p] r1 r2
    show ?thesis by (simp add: only_swept_def rebound_def default_report_def)
  qed
qed

lemma governor_plan_is:
  "governor_plan_of sc g w = (Done plan, w') \<Longrightarrow> \<exists>ob heat. plan = plan_tick ob heat (g_settings g)"
  unfolding governor_plan_of_def ret_def by (elim bind_DoneE) blast

subsection \<open>A manual tick observes\<close>

lemma upholds_look [upheld]: "steady sc I \<Longrightarrow> upholds I (look sc f)"
  by (simp add: upholds_def look_def Let_def steady_tick)

lemma upholds_observe_rungs [upheld]:
  "steady sc I \<Longrightarrow> upholds I (observe_rungs sc m report ts caps states)"
  by (induction ts arbitrary: caps states) (auto intro!: upheld split: option.split)

lemma upholds_observe_census [upheld]: "steady sc I \<Longrightarrow> upholds I (observe_census sc i es)"
  by (induction es arbitrary: i) (auto intro!: upheld simp: Let_def)

lemma upholds_governor_plan [upheld]:
  assumes "steady sc I"
  shows "upholds I (governor_plan_of sc g)"
proof -
  have "upholds I (manager_plane_stats sc)"
    unfolding manager_plane_stats_def by (rule upholds_plane_call [OF assms]) simp
  then show ?thesis
    unfolding governor_plan_of_def observe_def measure_heat_def
    by (auto intro!: upheld assms split: option.split)
qed

text \<open>
  C23: A tick stays within its settings. However the tick interleaves with other tasks and however the
  rungs and the rebinder behave, a report counts at most \<open>max_moves_per_tick\<close> promotions and demotions
  together and at most \<open>max_rebinds_per_tick\<close> rebind attempts; only a fully autonomous governor moves
  anything or tries to; and a manual tick keeps every predicate of the world that the other tasks
  keep, so it changes nothing itself, and reports nothing but its plan.
\<close>

theorem governor_tick_bounded:
  assumes "governor_tick sc g w = (Done (Ok r), w')"
  shows "gr_promoted r + gr_demoted r \<le> gs_max_moves_per_tick (g_settings g) \<and>
    gr_rebinds_done r + gr_rebind_failures r \<le> gs_max_rebinds_per_tick (g_settings g) \<and>
    (gs_mode (g_settings g) \<noteq> FullyAutonomous \<longrightarrow>
       gr_promoted r = 0 \<and> gr_demoted r = 0 \<and> gr_move_failures r = 0) \<and>
    (gs_mode (g_settings g) = Manual \<longrightarrow>
       r = default_report (gr_plan r) \<and> (\<forall>I. steady sc I \<longrightarrow> I w \<longrightarrow> I w'))"
proof -
  let ?st = "g_settings g"
  from assms obtain plan w1 where plan: "governor_plan_of sc g w = (Done plan, w1)"
      and rest: "(if executes_maintenance (gs_mode ?st)
        then bind_task (apply_plan sc g plan) (\<lambda>report. ret (Ok report)) else ret (Ok (default_report plan))) w1
        = (Done (Ok r), w')"
    by (auto simp: governor_tick_def elim!: bind_DoneE)
  obtain ob heat where p: "plan = plan_tick ob heat ?st" using governor_plan_is [OF plan] by blast
  have rebinds: "length (gp_rebind plan) \<le> gs_max_rebinds_per_tick ?st" by (simp add: p plan_tick_fields)
  show ?thesis
  proof (cases "executes_maintenance (gs_mode ?st)")
    case True
    with rest have "apply_plan sc g plan w1 = (Done r, w')" by (auto simp: ret_def elim!: bind_DoneE)
    from apply_plan_bounds [OF this] rebinds True show ?thesis by (auto simp: executes_maintenance_def)
  next
    case False
    then have "gs_mode ?st = Manual" by (cases "gs_mode ?st") (auto simp: executes_maintenance_def)
    moreover from False rest have "r = default_report plan" "w' = w1" by (auto simp: ret_def)
    moreover have "I w1" if "steady sc I" "I w" for I
      using upholdsD [OF upholds_governor_plan [OF that(1), of g] that(2)] plan by simp
    ultimately show ?thesis by (auto simp: default_report_def)
  qed
qed

subsection \<open>The authority\<close>

lemma upholds_bind_when:
  assumes "upholds I m" "\<And>x w w'. I w \<Longrightarrow> m w = (Done x, w') \<Longrightarrow> I (snd (f x w'))"
  shows "upholds I (bind_task m f)"
  unfolding upholds_def
proof (intro allI impI)
  fix w assume w: "I w"
  with upholdsD [OF assms(1)] assms(2) [OF w] show "I (snd (bind_task m f w))"
    by (auto simp: bind_task_def split: prod.split flow.split)
       (metis snd_conv)+
qed

lemma upholds_rebinder [upheld]:
  assumes "steady sc I"
  shows "upholds I (rebinder_call sc rb t)"
proof -
  have "upholds I (\<lambda>w. (Done (rb (w_step w) t), w))" by (simp add: upholds_def)
  then show ?thesis
    unfolding rebinder_call_def by (intro upheld assms steady_blind [OF assms])
qed

lemma authority_swap:
  "spares_authority sc \<Longrightarrow> i \<noteq> AUTHORITY_RUNG_INDEX \<Longrightarrow> upholds (authority_is s) (swap_cell sc i x)"
  unfolding swap_cell_def by (rule upholds_tier_sync [OF steady_authority]) (simp_all add: authority_is_def)

lemma authority_rebind_cell:
  assumes "spares_authority sc" "i \<noteq> AUTHORITY_RUNG_INDEX"
  shows "upholds (authority_is s) (rebind_cell sc rb t r i)"
  unfolding rebind_cell_def by (intro upheld authority_swap assms steady_authority)

lemma authority_rebind_rung:
  assumes sc: "spares_authority sc" and s: "cell_rung s \<in> {None, Some L6}" and t: "is_cache_rung t"
  shows "upholds (authority_is s) (rebind_rung sc g rb t r)"
  unfolding rebind_rung_def
proof (rule upholds_bind_when [OF upholds_look [OF steady_authority [OF sc]]])
  fix hot w w'
  assume "authority_is s w"
    and "look sc (\<lambda>w. find (\<lambda>i. cell_rung (w_stores w ! i) = Some t) (g_hot_rungs g)) w = (Done hot, w')"
  then have w': "authority_is s w'" and hot: "hot = find (\<lambda>i. cell_rung (w_stores w' ! i) = Some t) (g_hot_rungs g)"
    using steady_tick [OF steady_authority [OF sc]] by (auto simp: look_def Let_def)
  have "t \<noteq> L6" using t by (auto simp: is_cache_rung_def LAST_CACHE_RUNG_INDEX_def)
  moreover have "cell_rung (w_stores w' ! i) = Some t" if "hot = Some i" for i
    using that unfolding hot by (auto simp: find_Some_iff)
  ultimately have "hot = None \<or> (\<exists>i. hot = Some i \<and> i \<noteq> AUTHORITY_RUNG_INDEX)"
    using s w' by (cases hot) (auto simp: authority_is_def)
  then have "upholds (authority_is s) (case hot of None \<Rightarrow> ret r | Some i \<Rightarrow> rebind_cell sc rb t r i)"
    by (auto intro: authority_rebind_cell [OF sc])
  from upholdsD [OF this w'] show "authority_is s (snd ((case hot of None \<Rightarrow> ret r | Some i \<Rightarrow> rebind_cell sc rb t r i) w'))" .
qed

lemma authority_rebind:
  assumes "spares_authority sc" "cell_rung s \<in> {None, Some L6}" "list_all is_cache_rung ts"
  shows "upholds (authority_is s) (rebind_all sc g rb ts r)"
  using assms(3) by (induction ts arbitrary: r) (auto intro!: upholds_bind authority_rebind_rung [OF assms(1,2)])

lemma authority_moves:
  assumes "spares_authority sc"
  shows "upholds (authority_is s) (demote_all sc m ctx es idxs b r)"
    and "upholds (authority_is s) (promote_all sc m ctx es idxs b' r')"
proof -
  show "upholds (authority_is s) (demote_all sc m ctx es idxs b r)"
    by (induction idxs arbitrary: b r) (auto intro!: upholds_bind authority_writers [OF assms] split: sum.split)
  show "upholds (authority_is s) (promote_all sc m ctx es idxs b' r')"
    by (induction idxs arbitrary: b' r') (auto intro!: upholds_bind authority_writers [OF assms] split: sum.split)
qed

lemma planned_rebinds_cache: "list_all is_cache_rung (gp_rebind (plan_tick ob heat st))"
  using set_take_subset [of "gs_max_rebinds_per_tick st" "degraded_rungs ob"]
  by (auto simp: plan_tick_fields degraded_rungs_def list_all_iff)

lemma authority_apply_plan:
  assumes sc: "spares_authority sc" and s: "cell_rung s \<in> {None, Some L6}" and ts: "list_all is_cache_rung (gp_rebind plan)"
  shows "upholds (authority_is s) (apply_plan sc g plan)"
proof -
  note steady = steady_authority [OF sc]
  have rec: "upholds (authority_is s) (recover_all sc is report)" for "is" report
    by (induction "is" arbitrary: report)
       (auto intro!: upholds_bind authority_plane_call [OF sc] simp: Let_def split: intent_kind.split)
  show ?thesis
    unfolding apply_plan_def sweep_leg_def rebind_leg_def move_leg_def recover_older_than_def manager_sweep_expired_def Let_def
    by (auto intro!: upheld authority_plane_call [OF sc] rec authority_rebind [OF sc s ts]
        authority_moves [OF sc] steady split: option.split prod.split)
qed

lemma authority_tick:
  assumes "spares_authority sc" "cell_rung s \<in> {None, Some L6}"
  shows "upholds (authority_is s) (governor_tick sc g)"
  unfolding governor_tick_def
proof (rule upholds_bind_when [OF upholds_governor_plan [OF steady_authority [OF assms(1)]]])
  fix plan w w'
  assume w: "authority_is s w" and p: "governor_plan_of sc g w = (Done plan, w')"
  have "authority_is s w'"
    using upholdsD [OF upholds_governor_plan [where g = g, OF steady_authority [OF assms(1)]] w] p by simp
  moreover have "list_all is_cache_rung (gp_rebind plan)"
    using governor_plan_is [OF p] planned_rebinds_cache by auto
  ultimately show "authority_is s (snd ((if executes_maintenance (gs_mode (g_settings g))
      then bind_task (apply_plan sc g plan) (\<lambda>report. ret (Ok report)) else ret (Ok (default_report plan))) w'))"
    by (intro upholdsD [where I = "authority_is s"]) (auto intro!: upholds_bind authority_apply_plan [OF assms])
qed

lemma upholds_rounds:
  assumes "steady sc I" "upholds I (governor_tick sc g)"
  shows "upholds I (governor_rounds sc g d n)"
  by (induction n) (auto intro!: upholds_then upholds_sleep assms)

subsection \<open>Claims\<close>

text \<open>Moving another key leaves the entry at \<open>a\<close> alone.\<close>

lemma upholds_other_entry:
  assumes "leaves_entry pl a sc" "\<And>now. keeps (f now)" "b \<noteq> a"
  shows "upholds (at_entry pl a P) (plane_call sc (\<lambda>now p. with_entry b ab (f now) p))"
  by (rule upholds_plane_call [OF steady_at_entry [OF assms(1)]], rule at_entry_with_entry) (use assms in auto)

lemma upholds_prepare_other:
  assumes "leaves_entry pl a sc" "address_of pl key_ref \<noteq> a"
  shows "upholds (at_entry pl a P) (plane_call sc (\<lambda>now. cp_prepare now key_ref None rung kind))"
proof (rule upholds_plane_call [OF steady_at_entry [OF assms(1)]])
  fix w :: "'a world" and now assume w: "at_entry pl a P w"
  then have "plane_address_of (w_plane w) key_ref = address_of pl key_ref" by (simp add: at_entry_def plane_okD(4))
  then show "at_entry pl a P (w\<lparr>w_plane := snd (cp_prepare now key_ref None rung kind (w_plane w))\<rparr>)"
    unfolding cp_prepare_def using assms(2) by (auto intro!: at_entry_with_or_create [OF w])
qed

lemma prepared_address:
  assumes "leaves_entry pl a sc" "at_entry pl a P w"
    and "plane_call sc (\<lambda>now. cp_prepare now key_ref None rung kind) w = (Done (Ok token), w')"
  shows "ct_address token = address_of pl key_ref"
proof -
  let ?t = "tick sc w"
  have "at_entry pl a P ?t" by (rule steady_tick [OF steady_at_entry [OF assms(1)] assms(2)])
  then have ok: "plane_ok pl (w_plane ?t)" by (simp add: at_entry_def)
  let ?b = "address_of pl key_ref"
  have "fst (with_or_create ?b (entry_prepare (w_now ?t) None rung kind) (w_plane ?t)) = Ok token"
    using assms(3) plane_okD(4) [OF ok] by (auto simp: plane_call_def cp_prepare_def Let_def case_prod_unfold)
  then have "fst (entry_prepare (w_now ?t) None rung kind (plane_entry (w_plane ?t) ?b)) = Ok token"
    using plane_ok_with_or_create [OF ok keeps_steps(7), of ?b "w_now ?t" None rung kind]
    by (auto simp: plane_admits_def split: if_splits)
  then show ?thesis using plane_entry_address [OF ok, of ?b] by (auto simp: entry_prepare_def Let_def)
qed

lemma move_other:
  assumes sc: "leaves_entry pl a sc" and b: "address_of pl key_ref \<noteq> a"
  shows "upholds (at_entry pl a P) (move_entry sc m key key_ref snapshot t ctx)"
  unfolding move_entry_def try_task_def
proof (rule upholds_bind_when [OF upholds_prepare_other [OF sc b]])
  fix r w w'
  assume w: "at_entry pl a P w"
    and p: "plane_call sc (\<lambda>now. cp_prepare now key_ref None t IK_Move) w = (Done r, w')"
  have w': "at_entry pl a P w'"
    using upholdsD [OF upholds_prepare_other [OF sc b] w, of t IK_Move] p by simp
  have "upholds (at_entry pl a P) (guarded (intent_guard_drop sc token)
      (move_body sc m key key_ref (cs_tier snapshot) t ctx token))" if "r = Inr token" for token
  proof -
    have tok: "ct_address token \<noteq> a" using prepared_address [OF sc w p [unfolded that]] b by simp
    note aside = upholds_other_entry [OF sc _ tok]
    have abort: "upholds (at_entry pl a P) (plane_call sc (\<lambda>now. cp_abort token e))" for e
      unfolding cp_abort_def by (rule aside) simp
    have commit: "upholds (at_entry pl a P) (plane_call sc (\<lambda>now. cp_commit now token ttl))" for ttl
      unfolding cp_commit_def by (rule aside) simp
    have drop: "at_entry pl a P (intent_guard_drop sc token w)" if "at_entry pl a P w" for w
      using upholdsD [OF abort that] by (simp add: intent_guard_drop_def)
    show ?thesis
      unfolding move_body_def intent_guard_abort_def
      by (intro upheld abort commit drop sc steady_at_entry steady_blind [OF steady_at_entry [OF sc]])
  qed
  then show "at_entry pl a P (snd ((case r of Inl e \<Rightarrow> ret (Inl e)
      | Inr token \<Rightarrow> guarded (intent_guard_drop sc token)
          (move_body sc m key key_ref (cs_tier snapshot) t ctx token)) w'))"
    by (intro upholdsD [where I = "at_entry pl a P"] w') (auto split: sum.split)
qed

lemma settles_any_move:
  assumes sc: "leaves_entry pl a sc"
  shows "settles pl a (move_entry sc m key key_ref snapshot t ctx)"
  using settles_move [of pl key_ref sc] settles_upholds [OF move_other [OF sc]] sc
  by (cases "address_of pl key_ref = a") auto

lemma settles_any_promote:
  assumes sc: "leaves_entry pl a sc"
  shows "settles pl a (promote_op sc m key ctx)" "settles pl a (demote_op sc m key ctx)"
  unfolding promote_op_def demote_op_def
  by (auto intro!: settles_intros settles_aside(10) [OF sc] settles_any_move [OF sc] split: option.split)

lemma settles_moves:
  assumes sc: "leaves_entry pl a sc"
  shows "settles pl a (demote_all sc m ctx es idxs b r)" and "settles pl a (promote_all sc m ctx es idxs b' r')"
proof -
  show "settles pl a (demote_all sc m ctx es idxs b r)"
    by (induction idxs arbitrary: b r) (auto intro!: settles_bind settles_any_promote [OF sc] split: sum.split)
  show "settles pl a (promote_all sc m ctx es idxs b' r')"
    by (induction idxs arbitrary: b' r') (auto intro!: settles_bind settles_any_promote [OF sc] split: sum.split)
qed

lemma settles_sweep:
  assumes sc: "leaves_entry pl a sc"
  shows "settles pl a (manager_sweep_expired sc)"
  unfolding manager_sweep_expired_def
proof (rule settles_upholds, rule upholds_plane_call [OF steady_at_entry [OF sc]])
  fix w :: "'a world" and now assume "at_entry pl a settled w"
  then have ok: "plane_ok pl (w_plane w)" and e: "plane_lookup (w_plane w) a = Some e \<Longrightarrow> settled e" for e
    by (simp_all add: at_entry_def)
  have "settled (snd (entry_expire now e))" if "settled e" for e
    using that by (auto simp: entry_expire_def settled_def)
  with plane_ok_sweep [OF ok, of now] e show "at_entry pl a settled (w\<lparr>w_plane := snd (cp_sweep_expired now (w_plane w))\<rparr>)"
    by (auto simp: at_entry_def)
qed

lemma settles_rebind:
  assumes sc: "leaves_entry pl a sc"
  shows "settles pl a (rebind_all sc g rb ts r)"
proof (induction ts arbitrary: r)
  case (Cons t ts)
  have cell: "settles pl a (rebind_cell sc rb t r i)" for i r
    unfolding rebind_cell_def swap_cell_def
    by (auto intro!: settles_bind settles_tier_sync [OF sc] settles_upholds [OF upholds_rebinder [OF steady_at_entry [OF sc]]]
        split: sum.split option.split)
  have "settles pl a (rebind_rung sc g rb t r)" for r
    unfolding rebind_rung_def
    by (auto intro!: settles_bind cell settles_upholds [OF upholds_look [OF steady_at_entry [OF sc]]] split: option.split)
  with Cons show ?case by (auto intro!: settles_bind)
qed simp

lemma settles_tick:
  assumes sc: "leaves_entry pl a sc"
  shows "settles pl a (governor_tick sc g)"
proof -
  note look = settles_upholds [OF upholds_look [OF steady_at_entry [OF sc]]]
  have "settles pl a (apply_plan sc g plan)" for plan
    unfolding apply_plan_def sweep_leg_def rebind_leg_def move_leg_def Let_def
    by (auto intro!: settles_bind settles_simple_ops(4) [OF sc] settles_sweep [OF sc] settles_rebind [OF sc]
        settles_moves [OF sc] look split: option.split prod.split)
  then show ?thesis
    unfolding governor_tick_def
    by (auto intro!: settles_bind settles_upholds [OF upholds_governor_plan [OF steady_at_entry [OF sc]]])
qed

lemma settles_rounds:
  assumes sc: "leaves_entry pl a sc"
  shows "settles pl a (governor_rounds sc g d n)"
  by (induction n) (auto intro!: settles_then settles_aside(9) [OF sc] settles_tick [OF sc])

subsection \<open>Rounds end\<close>

definition rebinder_answers :: "('b, 'v) governor \<Rightarrow> bool" where
  "rebinder_answers g \<longleftrightarrow> (\<forall>rb n t. g_rebinder g = Some rb \<longrightarrow> rb n t \<noteq> Hangs)"

lemma completes_look [simp]: "completes (look sc f)"
  by (simp add: completes_def look_def Let_def)

lemma completes_rebinder:
  assumes "\<And>n t. rb n t \<noteq> Hangs"
  shows "completes (rebinder_call sc rb t)"
  using assms
  by (auto simp: completes_def rebinder_call_def unbounded_def then_task_def bind_task_def suspend_def ret_def
      split: reply.split)

lemma completes_governor_plan [simp]: "completes (governor_plan_of sc g)"
proof -
  have "completes (observe_rungs sc m report ts caps states)" for m report ts caps states
    by (induction ts arbitrary: caps states) (auto intro!: completes_bind split: option.split)
  moreover have "completes (observe_census sc i es)" for i es
    by (induction es arbitrary: i) (auto intro!: completes_bind simp: Let_def)
  ultimately show ?thesis
    unfolding governor_plan_of_def observe_def measure_heat_def manager_plane_stats_def
    by (auto intro!: completes_bind split: option.split prod.split)
qed

lemma completes_moves:
  assumes "removals_answer m"
  shows "completes (demote_all sc m ctx es idxs b r)" and "completes (promote_all sc m ctx es idxs b' r')"
proof -
  show "completes (demote_all sc m ctx es idxs b r)"
    by (induction idxs arbitrary: b r) (auto intro!: completes_bind completes_writers [OF assms] split: sum.split)
  show "completes (promote_all sc m ctx es idxs b' r')"
    by (induction idxs arbitrary: b' r') (auto intro!: completes_bind completes_writers [OF assms] split: sum.split)
qed

lemma completes_rounds:
  assumes "removals_answer (g_manager g)" "rebinder_answers g"
  shows "completes (governor_rounds sc g d n)"
proof -
  have rebind: "completes (rebind_all sc g rb ts r)" if "g_rebinder g = Some rb" for rb ts r
    by (induction ts arbitrary: r)
       (use that assms(2) in \<open>auto simp: rebind_rung_def rebind_cell_def swap_cell_def rebinder_answers_def
          intro!: completes_bind completes_rebinder split: option.split sum.split\<close>)
  have "completes (apply_plan sc g plan)" for plan
    unfolding apply_plan_def sweep_leg_def rebind_leg_def move_leg_def manager_sweep_expired_def Let_def
    by (auto intro!: completes_bind completes_readers completes_moves [OF assms(1)] rebind
        split: option.split prod.split)
  then have "completes (governor_tick sc g)" unfolding governor_tick_def by (auto intro!: completes_bind)
  then show ?thesis by (induction n) (auto simp: sleep_def intro!: completes_then)
qed

text \<open>
  C15: The maintenance loop is safe to run and to abort. Take any number of rounds of the spawned loop,
  with any settings, census, heat, rebinder and rungs, dropped at any suspension point, while other
  tasks run. The store of the authority rung is the one it was, unless another task changed it. A key
  that was at rest when the loop started, registered for movement or not, is at rest when the loop
  has been dropped: no tick leaves it owned, in flight or prepared with nobody to finish the work. And
  the rounds end, or are dropped, as soon as no rung's \<open>remove\<close> and no rebinding hangs.
\<close>

theorem governor_loop_safe:
  assumes "cell_rung (w_stores w ! AUTHORITY_RUNG_INDEX) \<in> {None, Some L6}"
  shows "(spares_authority sc \<longrightarrow>
      w_stores (snd (governor_rounds sc g d n w)) ! AUTHORITY_RUNG_INDEX = w_stores w ! AUTHORITY_RUNG_INDEX) \<and>
    (leaves_entry pl a sc \<and> at_entry pl a settled w \<and> fst (governor_rounds sc g d n w) \<noteq> Hung \<longrightarrow>
      at_entry pl a settled (snd (governor_rounds sc g d n w))) \<and>
    (removals_answer (g_manager g) \<and> rebinder_answers g \<longrightarrow> fst (governor_rounds sc g d n w) \<noteq> Hung)"
proof (intro conjI impI)
  assume sc: "spares_authority sc"
  have "upholds (authority_is (w_stores w ! AUTHORITY_RUNG_INDEX)) (governor_rounds sc g d n)"
    by (rule upholds_rounds [OF steady_authority [OF sc] authority_tick [OF sc assms]])
  from upholdsD [OF this, of w] show "w_stores (snd (governor_rounds sc g d n w)) ! AUTHORITY_RUNG_INDEX =
      w_stores w ! AUTHORITY_RUNG_INDEX"
    by (simp add: authority_is_def)
next
  assume "leaves_entry pl a sc \<and> at_entry pl a settled w \<and> fst (governor_rounds sc g d n w) \<noteq> Hung"
  then show "at_entry pl a settled (snd (governor_rounds sc g d n w))"
    by (blast intro: settlesD settles_rounds)
next
  assume "removals_answer (g_manager g) \<and> rebinder_answers g"
  then show "fst (governor_rounds sc g d n w) \<noteq> Hung" using completesD [OF completes_rounds] by blast
qed

text \<open>A fully autonomous governor with an empty census over a ladder of in-memory rungs.\<close>

definition demo_governor :: "(bytes sharded_tier, bytes) governor" where
  "demo_governor =
     with_census (\<lambda>_. census_new demo_context)
       (governor_new (manager_new default_select (replicate 7 (plain_rung (l2_ops (\<lambda>_. 0) digest_of_bytes))))
         (default_settings\<lparr>gs_mode := FullyAutonomous\<rparr>))"

definition demo_cells :: "(bytes sharded_tier, bytes) rung_store list" where
  "demo_cells = replicate 7 (Plain demo_sharded)"

theorem governor_loop_safe_witness:
  "let w = governor_rounds (drop_at 9) demo_governor 1000000 5 (idle_world demo_cells) in
   fst w \<noteq> Hung \<and> w_stores (snd w) ! AUTHORITY_RUNG_INDEX = Plain demo_sharded \<and>
   at_entry AllToZero (address_of AllToZero [107]) settled (snd w)"
proof -
  have cell: "w_stores (idle_world demo_cells) ! AUTHORITY_RUNG_INDEX = Plain demo_sharded"
    by (simp add: demo_cells_def AUTHORITY_RUNG_INDEX_def idle_world_def)
  have "removals_answer (g_manager demo_governor) \<and> rebinder_answers demo_governor"
    by (auto simp: demo_governor_def governor_new_def with_census_def manager_new_def
        manager_with_timeout_def removals_answer_def rebinder_answers_def plain_rung_def lift_ops_def l2_ops_def)
  with governor_loop_safe [of "idle_world demo_cells" "drop_at 9" demo_governor 1000000 5 AllToZero
      "address_of AllToZero [107]"] cell idle_world_settled [of "address_of AllToZero [107]" demo_cells]
  show ?thesis
    by (simp add: cell_rung_def quiet_spares Let_def)
qed

text \<open>The same governor returns a report: it has no suspension point to be dropped at.\<close>

definition unsuspended :: "('s, 'a) io \<Rightarrow> bool" where
  "unsuspended m \<longleftrightarrow> (\<forall>w. \<exists>x w'. m w = (Done x, w'))"

lemma unsuspended_bind: "unsuspended m \<Longrightarrow> (\<And>x. unsuspended (f x)) \<Longrightarrow> unsuspended (bind_task m f)"
  unfolding unsuspended_def by (metis bind_Done)

lemma unsuspended_steps [simp]:
  "unsuspended (ret x)" "unsuspended (look sc f)" "unsuspended (plane_call sc h)" "unsuspended (plane_peek sc key)"
  by (simp_all add: unsuspended_def ret_def look_def plane_call_def plane_peek_def Let_def case_prod_unfold)

lemma unsuspended_sweeps: "unsuspended (recover_older_than sc age)" "unsuspended (sweep_leg sc g plan r)"
proof -
  have "unsuspended (recover_all sc is report)" for "is" report
    by (induction "is" arbitrary: report) (auto intro!: unsuspended_bind simp: Let_def split: intent_kind.split)
  then show rec: "unsuspended (recover_older_than sc age)" for age
    unfolding recover_older_than_def by (auto intro!: unsuspended_bind)
  then show "unsuspended (sweep_leg sc g plan r)"
    unfolding sweep_leg_def manager_sweep_expired_def Let_def by (auto intro!: unsuspended_bind)
qed

lemma unsuspended_plan: "unsuspended (governor_plan_of sc g)"
proof -
  have "unsuspended (observe_rungs sc m report ts caps states)" for m report ts caps states
    by (induction ts arbitrary: caps states) (auto intro!: unsuspended_bind split: option.split)
  moreover have "unsuspended (observe_census sc i es)" for i es
    by (induction es arbitrary: i) (auto intro!: unsuspended_bind simp: Let_def)
  ultimately show ?thesis
    unfolding governor_plan_of_def observe_def measure_heat_def manager_plane_stats_def
    by (auto intro!: unsuspended_bind split: option.split prod.split)
qed

lemma unsuspended_look: "(\<And>w. unsuspended (k (f w))) \<Longrightarrow> unsuspended (bind_task (look sc f) k)"
  by (simp add: unsuspended_def bind_task_def look_def Let_def)

lemma demo_governor_fields:
  "g_census demo_governor = Some (\<lambda>_. census_new demo_context)" "g_rebinder demo_governor = None"
  "gs_mode (g_settings demo_governor) = FullyAutonomous" "gs_max_moves_per_tick (g_settings demo_governor) = 8"
  by (simp_all add: demo_governor_def governor_new_def with_census_def default_settings_def)

lemma no_entries_no_moves:
  "demote_all sc m ctx [] idxs b r = ret (b, r)" "promote_all sc m ctx [] idxs b r = ret r"
  by (induction idxs arbitrary: b r) auto

lemma demo_governor_returns: "\<exists>r w'. governor_tick quiet demo_governor w = (Done (Ok r), w')"
proof -
  have "unsuspended (move_leg quiet demo_governor plan r)" for plan r
    by (auto simp: move_leg_def demo_governor_fields census_new_def census_entries_def new_lock_def
        no_entries_no_moves intro!: unsuspended_look)
  then have act: "unsuspended (apply_plan quiet demo_governor plan)" for plan
    unfolding apply_plan_def rebind_leg_def Let_def
    by (auto intro!: unsuspended_bind unsuspended_sweeps simp: demo_governor_fields)
  obtain plan w1 where "governor_plan_of quiet demo_governor w = (Done plan, w1)"
    using unsuspended_plan unfolding unsuspended_def by blast
  moreover obtain r w2 where "apply_plan quiet demo_governor plan w1 = (Done r, w2)"
    using act unfolding unsuspended_def by blast
  ultimately show ?thesis
    by (simp add: governor_tick_def bind_task_def ret_def demo_governor_fields executes_maintenance_def)
qed

theorem governor_tick_bounded_witness:
  "\<exists>r w'. governor_tick quiet demo_governor (idle_world demo_cells) = (Done (Ok r), w') \<and>
     gr_promoted r + gr_demoted r \<le> 8"
proof -
  obtain r w' where "governor_tick quiet demo_governor (idle_world demo_cells) = (Done (Ok r), w')"
    using demo_governor_returns by blast
  with governor_tick_bounded [OF this] show ?thesis by (auto simp: demo_governor_fields)
qed

end
