(* ===== verification/Utf8.thy ===== *)
theory Utf8
  imports Prelude
begin

section \<open>Strings and their bytes\<close>

text \<open>
  A \<open>String\<close> of the source is a sequence of Unicode scalar values, and \<open>as_bytes\<close> and \<open>from_utf8\<close> are its
  UTF-8 encoding and the validation of it. The decoder accepts exactly the encodings: no overlong
  form, no surrogate, nothing above the last scalar value.
\<close>

definition is_scalar :: "nat \<Rightarrow> bool" where
  "is_scalar n \<longleftrightarrow> n < 0xD800 \<or> (0xE000 \<le> n \<and> n < 0x110000)"

definition utf8_char :: "nat \<Rightarrow> nat list" where
  "utf8_char n =
     (if n < 0x80 then [n]
      else if n < 0x800 then [0xC0 + n div 64, 0x80 + n mod 64]
      else if n < 0x10000 then [0xE0 + n div 4096, 0x80 + n div 64 mod 64, 0x80 + n mod 64]
      else [0xF0 + n div 262144, 0x80 + n div 4096 mod 64, 0x80 + n div 64 mod 64, 0x80 + n mod 64])"

definition is_cont :: "nat \<Rightarrow> bool" where
  "is_cont b \<longleftrightarrow> 0x80 \<le> b \<and> b < 0xC0"

text \<open>One scalar value at the front of a byte sequence, with what follows it.\<close>

definition utf8_next :: "nat list \<Rightarrow> (nat \<times> nat list) option" where
  "utf8_next bs =
     (case bs of
        [] \<Rightarrow> None
      | a # bs1 \<Rightarrow>
          if a < 0x80 then Some (a, bs1)
          else (case bs1 of
             [] \<Rightarrow> None
           | b # bs2 \<Rightarrow>
               if 0xC2 \<le> a \<and> a < 0xE0
               then (if is_cont b then Some ((a - 0xC0) * 64 + (b - 0x80), bs2) else None)
               else (case bs2 of
                  [] \<Rightarrow> None
                | c # bs3 \<Rightarrow>
                    if 0xE0 \<le> a \<and> a < 0xF0
                    then (let n = (a - 0xE0) * 4096 + (b - 0x80) * 64 + (c - 0x80) in
                          if is_cont b \<and> is_cont c \<and> 0x800 \<le> n \<and> is_scalar n then Some (n, bs3) else None)
                    else (case bs3 of
                       [] \<Rightarrow> None
                     | d # bs4 \<Rightarrow>
                         (let n = (a - 0xF0) * 262144 + (b - 0x80) * 4096 + (c - 0x80) * 64 + (d - 0x80) in
                          if 0xF0 \<le> a \<and> a < 0xF5 \<and> is_cont b \<and> is_cont c \<and> is_cont d \<and> 0x10000 \<le> n \<and> is_scalar n
                          then Some (n, bs4) else None)))))"

lemma base64_digits:
  "(n :: nat) div 64 * 64 + n mod 64 = n"
  "n div 4096 * 4096 + n div 64 mod 64 * 64 + n mod 64 = n"
  "n div 262144 * 262144 + n div 4096 mod 64 * 4096 + n div 64 mod 64 * 64 + n mod 64 = n"
proof -
  have up: "n div 4096 = n div 64 div 64" "n div 262144 = n div 4096 div 64" by (simp_all flip: div_mult2_eq)
  have 1: "n div 64 * 64 + n mod 64 = n" "n div 64 div 64 * 64 + n div 64 mod 64 = n div 64"
    "n div 4096 div 64 * 64 + n div 4096 mod 64 = n div 4096" by (rule div_mult_mod_eq)+
  then show "n div 64 * 64 + n mod 64 = n"
    "n div 4096 * 4096 + n div 64 mod 64 * 64 + n mod 64 = n"
    "n div 262144 * 262144 + n div 4096 mod 64 * 4096 + n div 64 mod 64 * 64 + n mod 64 = n"
    unfolding up by linarith+
qed

lemma base64_number:
  assumes "y < 64" "z < 64" "w < (64 :: nat)"
  shows "(x * 64 + y) div 64 = x" "(x * 64 + y) mod 64 = y"
    and "(x * 4096 + y * 64 + z) div 4096 = x" "(x * 4096 + y * 64 + z) div 64 mod 64 = y" "(x * 4096 + y * 64 + z) mod 64 = z"
    and "(x * 262144 + y * 4096 + z * 64 + w) div 262144 = x" "(x * 262144 + y * 4096 + z * 64 + w) div 4096 mod 64 = y"
      "(x * 262144 + y * 4096 + z * 64 + w) div 64 mod 64 = z" "(x * 262144 + y * 4096 + z * 64 + w) mod 64 = w"
proof -
  have 1: "(p * 64 + q) div 64 = p \<and> (p * 64 + q) mod 64 = q" if "q < 64" for p q :: nat
    using that by simp
  have 2: "x * 4096 + y * 64 + z = (x * 64 + y) * 64 + z" by simp
  have 3: "x * 262144 + y * 4096 + z * 64 + w = ((x * 64 + y) * 64 + z) * 64 + w" by simp
  have up: "n div 4096 = n div 64 div 64" "n div 262144 = n div 64 div 64 div 64" for n :: nat
    by (simp_all flip: div_mult2_eq)
  show "(x * 64 + y) div 64 = x" "(x * 64 + y) mod 64 = y"
    "(x * 4096 + y * 64 + z) div 4096 = x" "(x * 4096 + y * 64 + z) div 64 mod 64 = y" "(x * 4096 + y * 64 + z) mod 64 = z"
    "(x * 262144 + y * 4096 + z * 64 + w) div 262144 = x" "(x * 262144 + y * 4096 + z * 64 + w) div 4096 mod 64 = y"
    "(x * 262144 + y * 4096 + z * 64 + w) div 64 mod 64 = z" "(x * 262144 + y * 4096 + z * 64 + w) mod 64 = w"
    using assms by (simp_all only: 2 3 up 1)
qed

lemma utf8_next_char:
  assumes "is_scalar n"
  shows "utf8_next (utf8_char n @ rest) = Some (n, rest)"
proof -
  have top: "n < 0x110000" using assms by (auto simp: is_scalar_def)
  consider "n < 0x80" | "0x80 \<le> n" "n < 0x800" | "0x800 \<le> n" "n < 0x10000" | "0x10000 \<le> n" by linarith
  then show ?thesis
  proof cases
    case 2
    then have "2 \<le> n div 64" "n div 64 < 32" by linarith+
    with 2 base64_digits(1) [of n] show ?thesis by (simp add: utf8_char_def utf8_next_def is_cont_def)
  next
    case 3
    then have "n div 4096 < 16" by linarith
    with 3 base64_digits(2) [of n] assms show ?thesis by (simp add: utf8_char_def utf8_next_def is_cont_def Let_def)
  next
    case 4
    with top have "n div 262144 < 5" by linarith
    with 4 base64_digits(3) [of n] assms show ?thesis by (simp add: utf8_char_def utf8_next_def is_cont_def Let_def)
  qed (simp add: utf8_char_def utf8_next_def)
qed

lemma cont_split: "is_cont b \<Longrightarrow> \<exists>y < 64. b = 0x80 + y"
  by (rule exI [of _ "b - 0x80"]) (auto simp: is_cont_def)

lemma utf8_next_cases:
  assumes nx: "utf8_next bs = Some (n, rest)"
  obtains (one) "bs = n # rest" "n < 0x80"
    | (two) a b where "bs = (0xC0 + a) # b # rest" "2 \<le> a" "a < 32" "is_cont b" "n = a * 64 + (b - 0x80)"
    | (three) a b c where "bs = (0xE0 + a) # b # c # rest" "a < 16" "is_cont b" "is_cont c"
        "n = a * 4096 + (b - 0x80) * 64 + (c - 0x80)" "0x800 \<le> n" "is_scalar n"
    | (four) a b c d where "bs = (0xF0 + a) # b # c # d # rest" "a < 5" "is_cont b" "is_cont c" "is_cont d"
        "n = a * 262144 + (b - 0x80) * 4096 + (c - 0x80) * 64 + (d - 0x80)" "0x10000 \<le> n" "is_scalar n"
proof -
  obtain a bs1 where bs: "bs = a # bs1" using nx by (cases bs) (simp_all add: utf8_next_def)
  show thesis
  proof (cases "a < 0x80")
    case True
    then show ?thesis using nx one by (simp add: utf8_next_def bs)
  next
    case False
    then obtain b bs2 where bs1: "bs1 = b # bs2" using nx by (cases bs1) (simp_all add: utf8_next_def bs)
    show ?thesis
    proof (cases "0xC2 \<le> a \<and> a < 0xE0")
      case True
      then show ?thesis using nx two [of "a - 0xC0" b] by (simp add: utf8_next_def bs bs1 split: if_splits)
    next
      case C2: False
      then obtain c bs3 where bs2: "bs2 = c # bs3"
        using nx False by (cases bs2) (auto simp: utf8_next_def bs bs1)
      show ?thesis
      proof (cases "0xE0 \<le> a \<and> a < 0xF0")
        case True
        then show ?thesis
          using nx three [of "a - 0xE0" b c] by (simp add: utf8_next_def bs bs1 bs2 Let_def split: if_splits)
      next
        case E0: False
        then obtain d bs4 where bs3: "bs3 = d # bs4"
          using nx False C2 by (cases bs3) (auto simp: utf8_next_def bs bs1 bs2)
        then show ?thesis
          using nx False C2 E0 four [of "a - 0xF0" b c d]
          by (auto simp: utf8_next_def bs bs1 bs2 Let_def split: if_splits)
      qed
    qed
  qed
qed

lemma utf8_next_sound:
  assumes "utf8_next bs = Some (n, rest)"
  shows "is_scalar n \<and> bs = utf8_char n @ rest"
  using assms
proof (cases rule: utf8_next_cases)
    case one
    then show ?thesis by (simp add: is_scalar_def utf8_char_def)
  next
    case (two a b)
    from cont_split [OF two(4)] obtain y where y: "y < 64" "b = 0x80 + y" by blast
    have "0x80 \<le> n" "n < 0x800" using two y by simp_all
    then show ?thesis using two y base64_number [of y 0 0 a] by (simp add: utf8_char_def is_scalar_def)
  next
    case (three a b c)
    from cont_split [OF three(3)] cont_split [OF three(4)] obtain y z
      where y: "y < 64" "b = 0x80 + y" "z < 64" "c = 0x80 + z" by blast
    have "n < 0x10000" using three y by simp
    moreover from y three(5) have "n = a * 4096 + y * 64 + z" by (simp only: add_diff_cancel_left')
    with base64_number(3-5) [OF y(1,3,1), of a]
    have "n div 4096 = a" "n div 64 mod 64 = y" "n mod 64 = z" by (simp_all only:)
    ultimately show ?thesis using three(1,6,7) y(2,4) by (simp add: utf8_char_def)
  next
    case (four a b c d)
    from cont_split [OF four(3)] cont_split [OF four(4)] cont_split [OF four(5)] obtain y z w
      where y: "y < 64" "b = 0x80 + y" "z < 64" "c = 0x80 + z" "w < 64" "d = 0x80 + w" by blast
    moreover from y four(6) have "n = a * 262144 + y * 4096 + z * 64 + w" by (simp only: add_diff_cancel_left')
    with base64_number(6-9) [OF y(1,3,5), of a]
    have "n div 262144 = a" "n div 4096 mod 64 = y" "n div 64 mod 64 = z" "n mod 64 = w" by (simp_all only:)
    ultimately show ?thesis using four(1,7,8) by (simp add: utf8_char_def)
qed

lemma utf8_char_length: "utf8_char n \<noteq> []"
  by (simp add: utf8_char_def)

function utf8_scalars :: "nat list \<Rightarrow> nat list option" where
  "utf8_scalars bs =
     (if bs = [] then Some []
      else case utf8_next bs of
        None \<Rightarrow> None
      | Some (n, rest) \<Rightarrow> map_option (Cons n) (utf8_scalars rest))"
  by pat_completeness auto

termination
  by (relation "measure length") (auto dest!: utf8_next_sound simp: utf8_char_length)

declare utf8_scalars.simps [simp del]

lemma utf8_scalars_encoding: "list_all is_scalar s \<Longrightarrow> utf8_scalars (concat (map utf8_char s)) = Some s"
  by (induction s) (subst utf8_scalars.simps, simp add: utf8_next_char utf8_char_length)+

lemma utf8_scalars_sound: "utf8_scalars bs = Some s \<Longrightarrow> list_all is_scalar s \<and> bs = concat (map utf8_char s)"
proof (induction bs arbitrary: s rule: utf8_scalars.induct)
  case (1 bs)
  show ?case
  proof (cases "bs = []")
    case True
    then show ?thesis using "1.prems" by (simp add: utf8_scalars.simps)
  next
    case False
    then obtain n rest s' where nx: "utf8_next bs = Some (n, rest)" "utf8_scalars rest = Some s'" "s = n # s'"
      using "1.prems" by (subst (asm) utf8_scalars.simps) (auto split: option.splits)
    then show ?thesis using "1.IH" [OF False nx(1) refl nx(2)] utf8_next_sound [OF nx(1)] by simp
  qed
qed

subsection \<open>The type of strings\<close>

typedef utf8_string = "{s :: nat list. list_all is_scalar s}"
  by (rule exI [of _ "[]"]) simp

setup_lifting type_definition_utf8_string

lift_definition scalars :: "utf8_string \<Rightarrow> nat list" is "\<lambda>s. s" .

lift_definition from_byte_values :: "nat list \<Rightarrow> utf8_string option" is utf8_scalars
  using utf8_scalars_sound by (auto simp: option.pred_set)

definition from_utf8 :: "bytes \<Rightarrow> utf8_string option" where
  "from_utf8 bs = from_byte_values (map unat bs)"

definition as_bytes :: "utf8_string \<Rightarrow> bytes" where
  "as_bytes s = map of_nat (concat (map utf8_char (scalars s)))"

lemma scalars_valid: "list_all is_scalar (scalars s)"
  by transfer

lemma utf8_char_bytes: "is_scalar n \<Longrightarrow> b \<in> set (utf8_char n) \<Longrightarrow> b < 256"
proof -
  assume "is_scalar n"
  then have "n < 0x110000" by (auto simp: is_scalar_def)
  then have "n div 262144 < 5" "n < 0x800 \<Longrightarrow> n div 64 < 32" "n < 0x10000 \<Longrightarrow> n div 4096 < 16" by linarith+
  then show "b \<in> set (utf8_char n) \<Longrightarrow> b < 256" by (auto simp: utf8_char_def split: if_splits)
qed

lemma unat_as_bytes: "map unat (as_bytes s) = concat (map utf8_char (scalars s))"
proof -
  have "list_all is_scalar (scalars s)" by (rule scalars_valid)
  then have "\<forall>b \<in> set (concat (map utf8_char (scalars s))). b < 256"
    using utf8_char_bytes by (auto simp: list_all_iff)
  then show ?thesis by (auto simp: as_bytes_def unat_of_nat simp del: map_concat intro!: map_idI)
qed

text \<open>A string is the only one with its bytes, and only bytes of a string are accepted.\<close>

lemma from_utf8_exact: "from_utf8 bs = Some s \<longleftrightarrow> bs = as_bytes s"
proof -
  have "from_byte_values ns = Some s \<longleftrightarrow> utf8_scalars ns = Some (scalars s)" for ns
    by transfer simp
  moreover note scalars_valid [of s]
  ultimately have "from_utf8 bs = Some s \<longleftrightarrow> map unat bs = map unat (as_bytes s)"
    using utf8_scalars_encoding utf8_scalars_sound by (auto simp: from_utf8_def unat_as_bytes)
  then show ?thesis by (simp add: inj_map_eq_map inj_onI word_unat_eq_iff)
qed

subsection \<open>Lossy decoding\<close>

text \<open>
  \<open>from_utf8_lossy\<close> replaces each maximal prefix of a sequence that cannot be continued by one
  replacement character.
\<close>

definition second_ok :: "nat \<Rightarrow> nat \<Rightarrow> bool" where
  "second_ok a b \<longleftrightarrow>
     (if a = 0xE0 then 0xA0 \<le> b \<and> b < 0xC0
      else if a = 0xED then 0x80 \<le> b \<and> b < 0xA0
      else if a = 0xF0 then 0x90 \<le> b \<and> b < 0xC0
      else if a = 0xF4 then 0x80 \<le> b \<and> b < 0x90
      else 0xE0 < a \<and> a < 0xF4 \<and> is_cont b)"

fun bad_len :: "nat list \<Rightarrow> nat" where
  "bad_len (a # b # c # _) = (if second_ok a b then (if 0xF0 \<le> a \<and> is_cont c then 3 else 2) else 1)"
| "bad_len [a, b] = (if second_ok a b then 2 else 1)"
| "bad_len _ = 1"

lemma bad_len_pos: "0 < bad_len bs"
  by (cases bs rule: bad_len.cases) simp_all

function utf8_lossy :: "nat list \<Rightarrow> nat list" where
  "utf8_lossy bs =
     (if bs = [] then []
      else case utf8_next bs of
        Some (n, rest) \<Rightarrow> n # utf8_lossy rest
      | None \<Rightarrow> 0xFFFD # utf8_lossy (drop (bad_len bs) bs))"
  by pat_completeness auto

termination
  by (relation "measure length") (auto dest!: utf8_next_sound simp: utf8_char_length bad_len_pos)

declare utf8_lossy.simps [simp del]

lemma utf8_lossy_Nil [simp]: "utf8_lossy bs = [] \<longleftrightarrow> bs = []"
  by (subst utf8_lossy.simps) (auto split: option.split)

lemma utf8_lossy_empty [simp]: "utf8_lossy [] = []"
  by simp

lemma utf8_lossy_scalars: "list_all is_scalar (utf8_lossy bs)"
proof (induction bs rule: utf8_lossy.induct)
  case (1 bs)
  have "is_scalar 0xFFFD" by (simp add: is_scalar_def)
  with 1 show ?case
    by (subst utf8_lossy.simps) (auto split: option.split dest: utf8_next_sound)
qed

lemma utf8_lossy_prefix:
  "list_all is_scalar s \<Longrightarrow> utf8_lossy (concat (map utf8_char s) @ rest) = s @ utf8_lossy rest"
proof (induction s)
  case (Cons n s)
  then show ?case by (subst utf8_lossy.simps) (simp add: utf8_next_char utf8_char_length)
qed simp

lift_definition from_byte_values_lossy :: "nat list \<Rightarrow> utf8_string" is utf8_lossy
  by (rule utf8_lossy_scalars)

definition from_utf8_lossy :: "bytes \<Rightarrow> utf8_string" where
  "from_utf8_lossy bs = from_byte_values_lossy (map unat bs)"

lemma scalars_lossy [simp]: "scalars (from_utf8_lossy bs) = utf8_lossy (map unat bs)"
  by (simp add: from_utf8_lossy_def from_byte_values_lossy.rep_eq scalars.rep_eq)

text \<open>
  Bytes that differ from the encoding of one scalar value never decode to it alone, unless they are
  the malformed sequence that stands for the replacement character itself.
\<close>

lemma utf8_lossy_single:
  assumes "utf8_lossy bs = [n]"
  shows "bs = utf8_char n \<or> n = 0xFFFD \<and> drop (bad_len bs) bs = []"
proof -
  have "bs \<noteq> []" using assms by auto
  then show ?thesis
    using assms by (subst (asm) utf8_lossy.simps) (auto split: option.splits dest: utf8_next_sound)
qed

end
