(* ===== verification/Rust_Text.thy ===== *)
theory Rust_Text
  imports Utf8 "HOL-Library.Sublist"
begin

section \<open>The text functions of the standard library\<close>

text \<open>
  The methods of \<open>str\<close> that the crate, its test kit and its gate runner call, on the list of a string's
  Unicode scalar values: trimming, searching, splitting and cutting into lines. Searching is shown to
  find the first occurrence, and splitting and cutting into lines to lose nothing.
\<close>

definition ascii :: "string \<Rightarrow> utext" where
  "ascii s = map of_char s"

lemma ascii_inject: "ascii s = ascii t \<longleftrightarrow> s = t"
  by (simp add: ascii_def inj_map_eq_map inj_def)

text \<open>\<open>char::is_whitespace\<close>, the characters that \<open>trim\<close> removes.\<close>

definition is_whitespace :: "nat \<Rightarrow> bool" where
  "is_whitespace c \<longleftrightarrow>
     (9 \<le> c \<and> c \<le> 13) \<or> c = 32 \<or> c = 0x85 \<or> c = 0xa0 \<or> c = 0x1680 \<or> (0x2000 \<le> c \<and> c \<le> 0x200a) \<or>
     c = 0x2028 \<or> c = 0x2029 \<or> c = 0x202f \<or> c = 0x205f \<or> c = 0x3000"

definition trimmed_empty :: "utext \<Rightarrow> bool" where
  "trimmed_empty s \<longleftrightarrow> list_all is_whitespace s"

definition trim_start :: "utext \<Rightarrow> utext" where
  "trim_start s = dropWhile is_whitespace s"

definition trim :: "utext \<Rightarrow> utext" where
  "trim s = rev (dropWhile is_whitespace (rev (trim_start s)))"

lemma trim_eq_Nil: "trim s = [] \<longleftrightarrow> trimmed_empty s"
proof -
  have "dropWhile is_whitespace (rev (trim_start s)) = [] \<longleftrightarrow> (\<forall>c\<in>set (trim_start s). is_whitespace c)"
    by (simp add: dropWhile_eq_Nil_conv)
  moreover have "(\<forall>c\<in>set (trim_start s). is_whitespace c) \<longleftrightarrow> (\<forall>c\<in>set s. is_whitespace c)"
    by (induction s) (auto simp: trim_start_def)
  ultimately show ?thesis by (simp add: trim_def trimmed_empty_def list_all_iff)
qed

subsection \<open>Searching\<close>

definition starts_with :: "utext \<Rightarrow> utext \<Rightarrow> bool" where
  "starts_with p s \<longleftrightarrow> take (length p) s = p"

definition ends_with :: "utext \<Rightarrow> utext \<Rightarrow> bool" where
  "ends_with p s \<longleftrightarrow> length p \<le> length s \<and> drop (length s - length p) s = p"

definition strip_prefix :: "utext \<Rightarrow> utext \<Rightarrow> utext option" where
  "strip_prefix p s = (if take (length p) s = p then Some (drop (length p) s) else None)"

lemma strip_prefix_shorter:
  assumes "strip_prefix p s = Some rest" "p \<noteq> []"
  shows "length rest < length s"
proof -
  have "take (length p) s = p" "rest = drop (length p) s" using assms(1) by (auto simp: strip_prefix_def split: if_splits)
  moreover from this(1) assms(2) have "s \<noteq> []" by auto
  ultimately show ?thesis using assms(2) by simp
qed

text \<open>The position of the first occurrence.\<close>

fun find_text :: "utext \<Rightarrow> utext \<Rightarrow> nat option" where
  "find_text p [] = (if p = [] then Some 0 else None)"
| "find_text p (c # s) = (if starts_with p (c # s) then Some 0 else map_option Suc (find_text p s))"

definition contains_text :: "utext \<Rightarrow> utext \<Rightarrow> bool" where
  "contains_text p s \<longleftrightarrow> find_text p s \<noteq> None"

lemma starts_with_prefix: "starts_with p s \<longleftrightarrow> prefix p s"
  by (auto simp: starts_with_def prefix_def) (metis append_take_drop_id)

lemma find_text_Some:
  assumes "find_text p s = Some n"
  shows "prefix p (drop n s) \<and> (\<forall>m < n. \<not> prefix p (drop m s)) \<and> n \<le> length s"
  using assms
proof (induction s arbitrary: n)
  case (Cons c s)
  show ?case
  proof (cases "prefix p (c # s)")
    case False
    with Cons.prems obtain m where m: "n = Suc m" "find_text p s = Some m" by (auto simp: starts_with_prefix)
    with Cons.IH False show ?thesis by (auto simp: less_Suc_eq_0_disj)
  qed (use Cons.prems in \<open>simp add: starts_with_prefix\<close>)
qed (simp split: if_splits)

lemma find_text_None: "find_text p s = None \<longleftrightarrow> \<not> sublist p s"
  by (induction s) (auto simp: sublist_Cons_right starts_with_prefix)

lemma contains_text_sublist: "contains_text p s \<longleftrightarrow> sublist p s"
  by (auto simp: contains_text_def find_text_None)

subsection \<open>Splitting\<close>

text \<open>\<open>split_once\<close> on a character and on a string.\<close>

definition split_once :: "nat \<Rightarrow> utext \<Rightarrow> (utext \<times> utext) option" where
  "split_once c s =
     (case dropWhile (\<lambda>x. x \<noteq> c) s of
        [] \<Rightarrow> None
      | _ # rest \<Rightarrow> Some (takeWhile (\<lambda>x. x \<noteq> c) s, rest))"

definition split_once_text :: "utext \<Rightarrow> utext \<Rightarrow> (utext \<times> utext) option" where
  "split_once_text p s = map_option (\<lambda>n. (take n s, drop (n + length p) s)) (find_text p s)"

lemma split_once_Some: "split_once c s = Some (a, b) \<longleftrightarrow> s = a @ c # b \<and> c \<notin> set a"
proof
  assume *: "split_once c s = Some (a, b)"
  then obtain x rest where d: "dropWhile (\<lambda>x. x \<noteq> c) s = x # rest" by (auto simp: split_once_def split: list.splits)
  then have "x = c" by (metis (mono_tags, lifting) hd_dropWhile list.distinct(1) list.sel(1))
  with * d show "s = a @ c # b \<and> c \<notin> set a"
    using takeWhile_dropWhile_id [of "\<lambda>x. x \<noteq> c" s] set_takeWhileD [of c "\<lambda>x. x \<noteq> c" s]
    by (auto simp: split_once_def)
next
  assume s: "s = a @ c # b \<and> c \<notin> set a"
  then have "dropWhile (\<lambda>x. x \<noteq> c) (a @ c # b) = c # b" "takeWhile (\<lambda>x. x \<noteq> c) (a @ c # b) = a"
    by (induction a arbitrary: s) auto
  with s show "split_once c s = Some (a, b)" by (simp add: split_once_def)
qed

lemma split_once_None: "split_once c s = None \<longleftrightarrow> c \<notin> set s"
proof
  show "split_once c s = None" if "c \<notin> set s"
    using that by (cases "split_once c s") (auto simp: split_once_Some)
  show "c \<notin> set s" if "split_once c s = None"
    using that by (metis option.distinct(1) split_list_first split_once_Some)
qed

lemma split_once_text_Some:
  assumes "split_once_text p s = Some (a, b)"
  shows "s = a @ p @ b"
proof -
  from assms obtain n where n: "find_text p s = Some n" "a = take n s" "b = drop (n + length p) s"
    by (auto simp: split_once_text_def)
  then have "prefix p (drop n s)" using find_text_Some by blast
  then obtain r where r: "drop n s = p @ r" by (auto simp: prefix_def)
  moreover have "drop (length p) (drop n s) = b" by (simp add: n(3) add.commute)
  ultimately have "b = r" by simp
  with r show ?thesis using append_take_drop_id [of n s] by (simp add: n(2))
qed

fun split_on :: "nat \<Rightarrow> utext \<Rightarrow> utext list" where
  "split_on c [] = [[]]"
| "split_on c (x # s) =
     (if x = c then [] # split_on c s
      else case split_on c s of [] \<Rightarrow> [[x]] | p # ps \<Rightarrow> (x # p) # ps)"

lemma split_on_not_Nil [simp]: "split_on c s \<noteq> []"
  by (cases s) (auto split: list.split)

lemma split_on_free: "c \<notin> set s \<Longrightarrow> split_on c s = [s]"
  by (induction s) auto

lemma split_on_append: "c \<notin> set a \<Longrightarrow> split_on c (a @ c # s) = a # split_on c s"
  by (induction a) auto

text \<open>At most \<open>n\<close> pieces, the last of them uncut.\<close>

fun splitn :: "nat \<Rightarrow> nat \<Rightarrow> utext \<Rightarrow> utext list" where
  "splitn 0 c s = []"
| "splitn (Suc 0) c s = [s]"
| "splitn (Suc (Suc n)) c s =
     (case split_once c s of None \<Rightarrow> [s] | Some (a, b) \<Rightarrow> a # splitn (Suc n) c b)"

text \<open>\<open>join\<close> of a vector of strings.\<close>

fun join :: "utext \<Rightarrow> utext list \<Rightarrow> utext" where
  "join sep [] = []"
| "join sep [s] = s"
| "join sep (s # t # ts) = s @ sep @ join sep (t # ts)"

lemma join_split_on: "join [c] (split_on c s) = s"
proof (induction s)
  case (Cons x s)
  obtain p ps where p: "split_on c s = p # ps" by (cases "split_on c s") auto
  have "join [c] ((x # p) # ps) = x # join [c] (p # ps)" by (cases ps) simp_all
  moreover have "join [c] ([] # p # ps) = c # join [c] (p # ps)" by simp
  ultimately show ?case using Cons p by simp
qed simp

text \<open>
  \<open>split_inclusive\<close> and \<open>lines\<close>: a line ends at a line feed, which is removed together with a carriage
  return before it; text after the last line feed is a line if there is any, and keeps its carriage
  return.
\<close>

fun split_inclusive :: "nat \<Rightarrow> utext \<Rightarrow> utext list" where
  "split_inclusive c [] = []"
| "split_inclusive c (x # s) =
     (if x = c then [x] # split_inclusive c s
      else case split_inclusive c s of [] \<Rightarrow> [[x]] | p # ps \<Rightarrow> (x # p) # ps)"

lemma concat_split_inclusive: "concat (split_inclusive c s) = s"
  by (induction s) (auto split: list.split)

definition strip_suffix :: "nat \<Rightarrow> utext \<Rightarrow> utext option" where
  "strip_suffix c s = (if s \<noteq> [] \<and> last s = c then Some (butlast s) else None)"

definition line_of :: "utext \<Rightarrow> utext" where
  "line_of l =
     (case strip_suffix 10 l of
        None \<Rightarrow> l
      | Some l1 \<Rightarrow> (case strip_suffix 13 l1 of None \<Rightarrow> l1 | Some l2 \<Rightarrow> l2))"

definition lines :: "utext \<Rightarrow> utext list" where
  "lines s = map line_of (split_inclusive 10 s)"

text \<open>A prefix of \<open>n\<close> bytes; \<open>None\<close> is the panic of a cut inside a character or beyond the end.\<close>

fun byte_prefix :: "nat \<Rightarrow> utext \<Rightarrow> utext option" where
  "byte_prefix 0 s = Some []"
| "byte_prefix (Suc n) [] = None"
| "byte_prefix (Suc n) (c # s) =
     (if length (utf8_char c) \<le> Suc n then map_option (Cons c) (byte_prefix (Suc n - length (utf8_char c)) s) else None)"

definition byte_length :: "utext \<Rightarrow> nat" where
  "byte_length s = sum_list (map (length \<circ> utf8_char) s)"

lemma byte_prefix_ascii:
  assumes "\<forall>c\<in>set s. c < 128" "n \<le> length s"
  shows "byte_prefix n s = Some (take n s)" "byte_length s = length s"
proof -
  show "byte_prefix n s = Some (take n s)"
    using assms by (induction n s rule: byte_prefix.induct) (auto simp: utf8_char_def)
  show "byte_length s = length s"
    using assms(1) by (induction s) (auto simp: byte_length_def utf8_char_def)
qed

subsection \<open>Paths\<close>

text \<open>\<open>Path::join\<close> and \<open>Path::file_name\<close> on a Unix path.\<close>

definition path_join :: "utext \<Rightarrow> utext \<Rightarrow> utext" where
  "path_join base p =
     (if starts_with (ascii ''/'') p then p
      else if base = [] \<or> ends_with (ascii ''/'') base then base @ p
      else base @ ascii ''/'' @ p)"

definition file_name :: "utext \<Rightarrow> utext option" where
  "file_name p =
     (let cs = filter (\<lambda>c. c \<noteq> [] \<and> c \<noteq> ascii ''.'') (split_on 47 p)
      in if cs = [] \<or> last cs = ascii ''..'' then None else Some (last cs))"

end
