(* ===== verification/Bootstrap.thy ===== *)
theory Bootstrap
  imports Errors Tier_Id Rust_Text
begin

section \<open>Assembling a ladder from the environment (\<open>src/governor/bootstrap.rs\<close>)\<close>

text \<open>
  Detection of a Redis endpoint and assembly of the six cache rungs. A Rust string is the list of its
  Unicode scalar values. The tiers of a ladder are shared pointers, and which pointer a rebindable
  rung is reached through matters, so the tiers are addresses into a heap of objects: a stub, a
  connected Redis backend, or a rebindable wrapper around another object. Whether a connection
  attempt succeeds is a parameter.
\<close>

definition ENV_THESIX_REDIS_URL :: utext where
  "ENV_THESIX_REDIS_URL = ascii ''THESIX_REDIS_URL''"

definition ENV_THESIX_VALKEY_URL :: utext where
  "ENV_THESIX_VALKEY_URL = ascii ''THESIX_VALKEY_URL''"

definition ENV_REDIS_URL :: utext where
  "ENV_REDIS_URL = ascii ''REDIS_URL''"

definition ENV_VALKEY_URL :: utext where
  "ENV_VALKEY_URL = ascii ''VALKEY_URL''"

text \<open>
  A source is what its \<open>lookup\<close> answers. \<open>vars\<close> are the variables of the process whose value is valid
  Unicode, or the entries of a \<open>MapEnv\<close>.
\<close>

type_synonym env_source = "utext \<Rightarrow> utext option"

definition env_filter :: "utext option \<Rightarrow> utext option" where
  "env_filter x = (case x of Some v \<Rightarrow> if trimmed_empty v then None else Some v | None \<Rightarrow> None)"

definition process_env :: "(utext \<rightharpoonup> utext) \<Rightarrow> env_source" where
  "process_env vars name = env_filter (vars name)"

definition map_env_new :: "utext \<rightharpoonup> utext" where
  "map_env_new = Map.empty"

definition map_env_with :: "utext \<Rightarrow> utext \<Rightarrow> (utext \<rightharpoonup> utext) \<Rightarrow> (utext \<rightharpoonup> utext)" where
  "map_env_with name v m = m(name \<mapsto> v)"

definition map_env_lookup :: "(utext \<rightharpoonup> utext) \<Rightarrow> env_source" where
  "map_env_lookup m name = env_filter (m name)"

record detected_url =
  du_normalized :: utext
  du_valkey :: bool

definition normalize_url :: "utext \<Rightarrow> bool \<Rightarrow> detected_url result" where
  "normalize_url raw valkey_by_name =
     (case strip_prefix (ascii ''valkey://'') raw of
        Some rest \<Rightarrow> Ok \<lparr>du_normalized = ascii ''redis://'' @ rest, du_valkey = True\<rparr>
      | None \<Rightarrow>
          (case strip_prefix (ascii ''valkeys://'') raw of
             Some rest \<Rightarrow> Ok \<lparr>du_normalized = ascii ''rediss://'' @ rest, du_valkey = True\<rparr>
           | None \<Rightarrow>
               if strip_prefix (ascii ''redis://'') raw \<noteq> None \<or> strip_prefix (ascii ''rediss://'') raw \<noteq> None
               then Ok \<lparr>du_normalized = raw, du_valkey = valkey_by_name\<rparr>
               else Err ConfigurationError))"

fun detect_from :: "env_source \<Rightarrow> (utext \<times> bool) list \<Rightarrow> detected_url option result" where
  "detect_from env [] = Ok None"
| "detect_from env ((name, valkey_by_name) # rest) =
     (case env name of
        Some raw \<Rightarrow> try_then (normalize_url raw valkey_by_name) (\<lambda>d. Ok (Some d))
      | None \<Rightarrow> detect_from env rest)"

definition detect_redis_endpoint :: "env_source \<Rightarrow> detected_url option result" where
  "detect_redis_endpoint env =
     detect_from env
       [(ENV_THESIX_REDIS_URL, False), (ENV_THESIX_VALKEY_URL, True), (ENV_REDIS_URL, False), (ENV_VALKEY_URL, True)]"

datatype l3_binding =
    NotConfigured
  | Redis utext bool
  | RedisDegradedToMemory utext bool string

record binding_report =
  br_l3 :: "l3_binding option"

subsection \<open>Ladders of shared tiers\<close>

datatype tier_object = StubObject tier_id | RedisObject utext | HotObject tier_id nat

type_synonym heap = "tier_object list"

text \<open>\<open>tier_id\<close> of an object; the Redis backend claims \<open>L3\<close>.\<close>

fun object_rung :: "tier_object \<Rightarrow> tier_id" where
  "object_rung (StubObject t) = t"
| "object_rung (RedisObject url) = L3"
| "object_rung (HotObject t inner) = t"

text \<open>The backend that answers a call of the object at an address.\<close>

definition serving :: "heap \<Rightarrow> nat \<Rightarrow> tier_object" where
  "serving h a = (case h ! a of HotObject t inner \<Rightarrow> h ! inner | x \<Rightarrow> x)"

definition alloc :: "tier_object \<Rightarrow> heap \<Rightarrow> nat \<times> heap" where
  "alloc x h = (length h, h @ [x])"

definition alloc_hot :: "tier_id \<Rightarrow> nat \<Rightarrow> heap \<Rightarrow> (nat \<times> heap) result" where
  "alloc_hot rung inner h =
     (if object_rung (h ! inner) \<noteq> rung then Err ConfigurationError else Ok (alloc (HotObject rung inner) h))"

text \<open>\<open>hot_swap\<close> on the wrapper at an address, with the replacement at another.\<close>

definition swap_object :: "nat \<Rightarrow> nat \<Rightarrow> heap \<Rightarrow> unit result \<times> heap" where
  "swap_object hot replacement h =
     (case h ! hot of
        HotObject rung inner \<Rightarrow>
          if object_rung (h ! replacement) \<noteq> rung then (Err ConfigurationError, h)
          else (Ok (), h[hot := HotObject rung replacement])
      | _ \<Rightarrow> (Err ConfigurationError, h))"

text \<open>A connection attempt: the attempt's number and the URL, answered by success or an error.\<close>

type_synonym connector = "nat \<Rightarrow> utext \<Rightarrow> unit result"

type_synonym redis_rebinder_fun = "nat \<Rightarrow> tier_id \<Rightarrow> tier_object option result"

record ladder =
  ld_heap :: heap
  ld_tiers :: "nat list"
  ld_hot_rungs :: "nat list"
  ld_rebinder :: "redis_rebinder_fun option"
  ld_report :: binding_report

definition redis_rebinder :: "connector \<Rightarrow> detected_url \<Rightarrow> redis_rebinder_fun" where
  "redis_rebinder connect endpoint attempt rung =
     (if rung \<noteq> L3 then Ok None
      else case connect attempt (du_normalized endpoint) of
        Inr _ \<Rightarrow> Ok (Some (RedisObject (du_normalized endpoint)))
      | Inl e \<Rightarrow> Err e)"

definition bind_l3 :: "connector \<Rightarrow> detected_url \<Rightarrow> nat list \<Rightarrow> heap \<Rightarrow> ladder result" where
  "bind_l3 connect detected tiers h =
     (case connect 0 (du_normalized detected) of
        Inr _ \<Rightarrow>
          (let (backend, h) = alloc (RedisObject (du_normalized detected)) h in
           try_then (alloc_hot L3 backend h) (\<lambda>(hot, h).
             Ok \<lparr>ld_heap = h, ld_tiers = tiers[3 := hot], ld_hot_rungs = [hot],
                 ld_rebinder = Some (redis_rebinder connect detected),
                 ld_report = \<lparr>br_l3 = Some (Redis (du_normalized detected) (du_valkey detected))\<rparr>\<rparr>))
      | Inl _ \<Rightarrow>
          try_then (alloc_hot L3 (tiers ! 3) h) (\<lambda>(hot, h).
            Ok \<lparr>ld_heap = h, ld_tiers = tiers, ld_hot_rungs = [hot],
                ld_rebinder = Some (redis_rebinder connect detected),
                ld_report = \<lparr>br_l3 = Some (RedisDegradedToMemory (du_normalized detected) (du_valkey detected)
                   ''the redis server did not accept a connection'')\<rparr>\<rparr>))"

text \<open>The build without the \<open>redis\<close> feature.\<close>

definition bind_l3_without_redis :: "detected_url \<Rightarrow> nat list \<Rightarrow> heap \<Rightarrow> ladder result" where
  "bind_l3_without_redis detected tiers h =
     Ok \<lparr>ld_heap = h, ld_tiers = tiers, ld_hot_rungs = [], ld_rebinder = None,
         ld_report = \<lparr>br_l3 = Some (RedisDegradedToMemory (du_normalized detected) (du_valkey detected)
           ''the redis feature is not compiled in'')\<rparr>\<rparr>"

definition assemble_ladder :: "bool \<Rightarrow> connector \<Rightarrow> env_source \<Rightarrow> ladder result" where
  "assemble_ladder redis connect env =
     try_then (detect_redis_endpoint env) (\<lambda>endpoint.
       let h = map StubObject [L0, L1, L2, L3, L4, L5]; tiers = [0, 1, 2, 3, 4, 5] in
       case endpoint of
         None \<Rightarrow>
           Ok \<lparr>ld_heap = h, ld_tiers = tiers, ld_hot_rungs = [], ld_rebinder = None,
               ld_report = \<lparr>br_l3 = Some NotConfigured\<rparr>\<rparr>
       | Some detected \<Rightarrow>
           if redis then bind_l3 connect detected tiers h else bind_l3_without_redis detected tiers h)"

subsection \<open>Detection\<close>

lemma strip_prefix_Some [simp]: "strip_prefix p s = Some r \<longleftrightarrow> s = p @ r"
  by (auto simp: strip_prefix_def) (metis append_take_drop_id)

lemma strip_prefix_None: "strip_prefix p s = None \<longleftrightarrow> (\<nexists>r. s = p @ r)"
  by (metis option.exhaust option.distinct(1) strip_prefix_Some)

text \<open>The first of the four variables that is set decides, also when its URL is refused.\<close>

lemma detect_first_present:
  "detect_redis_endpoint env =
     (case List.find (\<lambda>(n, v). env n \<noteq> None)
        [(ENV_THESIX_REDIS_URL, False), (ENV_THESIX_VALKEY_URL, True), (ENV_REDIS_URL, False), (ENV_VALKEY_URL, True)] of
        None \<Rightarrow> Ok None
      | Some (n, v) \<Rightarrow> try_then (normalize_url (the (env n)) v) (\<lambda>d. Ok (Some d)))"
  by (auto simp: detect_redis_endpoint_def split: option.split)

text \<open>What a URL becomes: the scheme the client parses with the rest unchanged, and nothing else is accepted.\<close>

lemma normalize_url_cases:
  "normalize_url raw by_name = Ok d \<longleftrightarrow>
     (\<exists>rest. raw = ascii ''valkey://'' @ rest \<and> d = \<lparr>du_normalized = ascii ''redis://'' @ rest, du_valkey = True\<rparr>) \<or>
     (\<exists>rest. raw = ascii ''valkeys://'' @ rest \<and> d = \<lparr>du_normalized = ascii ''rediss://'' @ rest, du_valkey = True\<rparr>) \<or>
     (\<exists>rest. (raw = ascii ''redis://'' @ rest \<or> raw = ascii ''rediss://'' @ rest) \<and>
        d = \<lparr>du_normalized = raw, du_valkey = by_name\<rparr>)"
  by (auto simp: normalize_url_def ascii_def strip_prefix_None split: option.splits if_splits)

subsection \<open>The ladder\<close>

definition stub_ladder_objects :: "tier_object list" where
  "stub_ladder_objects = map StubObject [L0, L1, L2, L3, L4, L5]"

text \<open>What every tier of a ladder is served by, and the same after a replacement is put on a hot rung.\<close>

definition ladder_serves :: "ladder \<Rightarrow> tier_object list" where
  "ladder_serves L = map (serving (ld_heap L)) (ld_tiers L)"

definition ladder_swap :: "nat \<Rightarrow> tier_object \<Rightarrow> ladder \<Rightarrow> unit result \<times> ladder" where
  "ladder_swap hot x L =
     (case alloc x (ld_heap L) of (a, h) \<Rightarrow>
        (case swap_object hot a h of (r, h') \<Rightarrow> (r, L\<lparr>ld_heap := h'\<rparr>)))"

definition redis_bound :: "bool \<Rightarrow> connector \<Rightarrow> detected_url option \<Rightarrow> bool" where
  "redis_bound redis connect endpoint \<longleftrightarrow>
     redis \<and> (case endpoint of Some d \<Rightarrow> is_ok (connect 0 (du_normalized d)) | None \<Rightarrow> False)"

lemmas ladder_defs = ladder_serves_def ladder_swap_def stub_ladder_objects_def serving_def alloc_def alloc_hot_def
  swap_object_def

lemma assemble_unbound:
  assumes "detect_redis_endpoint env = Ok endpoint" "\<not> redis_bound redis connect endpoint"
  obtains L where "assemble_ladder redis connect env = Ok L" "ladder_serves L = stub_ladder_objects"
    "ld_rebinder L \<noteq> None \<longleftrightarrow> redis \<and> endpoint \<noteq> None" "ld_hot_rungs L = (if redis \<and> endpoint \<noteq> None then [6] else [])"
    "\<forall>x hot. object_rung x = L3 \<and> hot \<in> set (ld_hot_rungs L) \<longrightarrow>
       fst (ladder_swap hot x L) = Ok () \<and> ladder_serves (snd (ladder_swap hot x L)) = stub_ladder_objects"
  using assms
  by (cases endpoint; cases redis)
     (fastforce simp: assemble_ladder_def bind_l3_def bind_l3_without_redis_def redis_bound_def ladder_defs is_ok_def
       nth_append numeral_eq_Suc split: sum.splits)+

lemma assemble_bound:
  assumes "detect_redis_endpoint env = Ok (Some d)" "redis_bound redis connect (Some d)"
  obtains L where "assemble_ladder redis connect env = Ok L"
    "ladder_serves L = stub_ladder_objects[3 := RedisObject (du_normalized d)]"
    "ld_rebinder L = Some (redis_rebinder connect d)" "ld_hot_rungs L = [7]"
    "\<forall>x. object_rung x = L3 \<longrightarrow>
       fst (ladder_swap 7 x L) = Ok () \<and> ladder_serves (snd (ladder_swap 7 x L)) = stub_ladder_objects[3 := x]"
  using assms
  by (fastforce simp: assemble_ladder_def bind_l3_def redis_bound_def ladder_defs is_ok_def
       nth_append numeral_eq_Suc split: sum.splits)

text \<open>
  C25: Assembly binds exactly what it reports, and rebinding repairs only a ladder that was connected.
  Detection decides whether there is a ladder: a refused URL refuses it, everything else builds one.
  Every rung is its stub, except that \<open>L3\<close> is the Redis backend when the feature is there, a URL was
  detected and the first connection succeeded. A rebinder exists exactly with the feature and a URL,
  and every hot rung accepts a replacement for \<open>L3\<close>. When the connection had succeeded, the replacement
  is what \<open>L3\<close> of the ladder serves from then on. When it had failed, it never is: the hot rung
  handed to the governor is not among the tiers handed to the manager, so the ladder keeps its stub.
\<close>

theorem assembled_ladder_exact:
  "case detect_redis_endpoint env of
     Inl e \<Rightarrow> assemble_ladder redis connect env = Err e
   | Inr endpoint \<Rightarrow>
       \<exists>L. assemble_ladder redis connect env = Ok L \<and>
         ladder_serves L =
           (if redis_bound redis connect endpoint
            then stub_ladder_objects[3 := RedisObject (du_normalized (the endpoint))] else stub_ladder_objects) \<and>
         (ld_rebinder L \<noteq> None \<longleftrightarrow> redis \<and> endpoint \<noteq> None) \<and>
         (ld_hot_rungs L \<noteq> [] \<longleftrightarrow> redis \<and> endpoint \<noteq> None) \<and>
         (\<forall>x hot. object_rung x = L3 \<and> hot \<in> set (ld_hot_rungs L) \<longrightarrow>
            fst (ladder_swap hot x L) = Ok () \<and>
            ladder_serves (snd (ladder_swap hot x L)) =
              (if redis_bound redis connect endpoint then stub_ladder_objects[3 := x] else stub_ladder_objects))"
proof (cases "detect_redis_endpoint env")
  case (Inl e)
  then show ?thesis by (simp add: assemble_ladder_def)
next
  case (Inr endpoint)
  show ?thesis
  proof (cases "redis_bound redis connect endpoint")
    case False
    show ?thesis
    proof (rule assemble_unbound [OF Inr False])
      fix L assume "assemble_ladder redis connect env = Ok L" "ladder_serves L = stub_ladder_objects"
        "ld_rebinder L \<noteq> None \<longleftrightarrow> redis \<and> endpoint \<noteq> None"
        "ld_hot_rungs L = (if redis \<and> endpoint \<noteq> None then [6] else [])"
        "\<forall>x hot. object_rung x = L3 \<and> hot \<in> set (ld_hot_rungs L) \<longrightarrow>
           fst (ladder_swap hot x L) = Ok () \<and> ladder_serves (snd (ladder_swap hot x L)) = stub_ladder_objects"
      with Inr False show ?thesis by auto
    qed
  next
    case True
    then obtain d where d: "endpoint = Some d" "redis" by (auto simp: redis_bound_def split: option.splits)
    from assemble_bound [OF Inr [unfolded d(1)] True [unfolded d(1)]] obtain L where
      L: "assemble_ladder redis connect env = Ok L"
        "ladder_serves L = stub_ladder_objects[3 := RedisObject (du_normalized d)]"
        "ld_rebinder L = Some (redis_rebinder connect d)" "ld_hot_rungs L = [7]"
        "\<forall>x. object_rung x = L3 \<longrightarrow>
           fst (ladder_swap 7 x L) = Ok () \<and> ladder_serves (snd (ladder_swap 7 x L)) = stub_ladder_objects[3 := x]"
      by metis
    with True Inr d show ?thesis by auto
  qed
qed

text \<open>A server that is down at start and up at the second attempt: the rebinder's backend never serves.\<close>

theorem assembled_ladder_exact_witness:
  "\<exists>L hot x. assemble_ladder True (\<lambda>n _. if n = 0 then Err TierUnavailable else Ok ())
       (map_env_lookup (map_env_with ENV_REDIS_URL (ascii ''redis://h'') map_env_new)) = Ok L \<and>
     hot \<in> set (ld_hot_rungs L) \<and> the (ld_rebinder L) 1 L3 = Ok (Some x) \<and>
     ladder_serves (snd (ladder_swap hot x L)) = stub_ladder_objects"
proof -
  let ?c = "\<lambda>(n :: nat) (_ :: utext). if n = 0 then Err TierUnavailable else Ok ()"
  let ?env = "map_env_lookup (map_env_with ENV_REDIS_URL (ascii ''redis://h'') map_env_new)"
  let ?d = "\<lparr>du_normalized = ascii ''redis://h'', du_valkey = False\<rparr>"
  have d: "detect_redis_endpoint ?env = Ok (Some ?d)"
    by (simp add: detect_redis_endpoint_def map_env_lookup_def map_env_with_def map_env_new_def env_filter_def
        trimmed_empty_def is_whitespace_def normalize_url_def strip_prefix_def ascii_def
        ENV_THESIX_REDIS_URL_def ENV_THESIX_VALKEY_URL_def ENV_REDIS_URL_def ENV_VALKEY_URL_def)
  have un: "\<not> redis_bound True ?c (Some ?d)" by (simp add: redis_bound_def is_ok_def)
  from assembled_ladder_exact [where env = ?env and redis = True and connect = ?c] d un obtain L where
    L: "assemble_ladder True ?c ?env = Ok L" "ld_hot_rungs L \<noteq> []"
      "\<forall>x hot. object_rung x = L3 \<and> hot \<in> set (ld_hot_rungs L) \<longrightarrow>
         ladder_serves (snd (ladder_swap hot x L)) = stub_ladder_objects"
    by auto
  moreover have "the (ld_rebinder L) 1 L3 = Ok (Some (RedisObject (ascii ''redis://h'')))"
    using L(1) d by (simp add: assemble_ladder_def bind_l3_def ladder_defs redis_rebinder_def split: if_splits)
      (auto simp: redis_rebinder_def)
  ultimately show ?thesis
    by (intro exI [of _ L] exI [of _ "hd (ld_hot_rungs L)"] exI [of _ "RedisObject (ascii ''redis://h'')"]) simp
qed

end
