(* ===== verification/Fault.thy ===== *)
theory Fault
  imports Prelude
begin

section \<open>Deterministic fault plans (\<open>src/fault.rs\<close>)\<close>

text \<open>
  The fault taxonomy, the generator of reproducible schedules, the plan as a queue of armed faults
  and the ledger of faults that fired. The lemmas say that the generator never degenerates, that a
  generated plan holds only faults that can fire, and what taking faults from a plan does.
\<close>

datatype op_kind = Op_Get | Op_Set | Op_Remove | Op_Contains

definition op_kind_ALL :: "op_kind list" where
  "op_kind_ALL = [Op_Get, Op_Set, Op_Remove, Op_Contains]"

definition op_kind_parse :: "string \<Rightarrow> op_kind option" where
  "op_kind_parse s =
     (if s = ''get'' \<or> s = ''read'' then Some Op_Get
      else if s = ''set'' \<or> s = ''write'' then Some Op_Set
      else if s = ''remove'' then Some Op_Remove
      else if s = ''contains'' then Some Op_Contains
      else None)"

fun op_kind_display :: "op_kind \<Rightarrow> string" where
  "op_kind_display Op_Get = ''get''"
| "op_kind_display Op_Set = ''set''"
| "op_kind_display Op_Remove = ''remove''"
| "op_kind_display Op_Contains = ''contains''"

datatype fault_class =
    FC_Latency | FC_Timeout | FC_Hang | FC_ReadFailure | FC_WriteFailure | FC_MetadataFailure | FC_Corruption
  | FC_Disconnect | FC_CapacityExhaustion | FC_FailureAfterN | FC_Cancellation | FC_PartialWrite

definition fault_class_ALL :: "fault_class list" where
  "fault_class_ALL =
     [FC_Latency, FC_Timeout, FC_Hang, FC_ReadFailure, FC_WriteFailure, FC_MetadataFailure, FC_Corruption,
      FC_Disconnect, FC_CapacityExhaustion, FC_FailureAfterN, FC_Cancellation, FC_PartialWrite]"

fun fault_class_str :: "fault_class \<Rightarrow> string" where
  "fault_class_str FC_Latency = ''latency''"
| "fault_class_str FC_Timeout = ''timeout''"
| "fault_class_str FC_Hang = ''hang''"
| "fault_class_str FC_ReadFailure = ''read_failure''"
| "fault_class_str FC_WriteFailure = ''write_failure''"
| "fault_class_str FC_MetadataFailure = ''metadata_failure''"
| "fault_class_str FC_Corruption = ''corruption''"
| "fault_class_str FC_Disconnect = ''disconnect''"
| "fault_class_str FC_CapacityExhaustion = ''capacity_exhaustion''"
| "fault_class_str FC_FailureAfterN = ''failure_after_n_operations''"
| "fault_class_str FC_Cancellation = ''cancellation''"
| "fault_class_str FC_PartialWrite = ''partial_write''"

definition is_scheduled_failure :: "fault_class \<Rightarrow> bool" where
  "is_scheduled_failure c \<longleftrightarrow>
     c \<in> {FC_Timeout, FC_ReadFailure, FC_WriteFailure, FC_MetadataFailure, FC_Corruption, FC_Disconnect,
           FC_CapacityExhaustion, FC_Cancellation}"

fun applies_to :: "fault_class \<Rightarrow> op_kind \<Rightarrow> bool" where
  "applies_to FC_Timeout op \<longleftrightarrow> op \<in> {Op_Get, Op_Contains}"
| "applies_to FC_ReadFailure op \<longleftrightarrow> op \<in> {Op_Get, Op_Contains}"
| "applies_to FC_Corruption op \<longleftrightarrow> op \<in> {Op_Get, Op_Contains}"
| "applies_to FC_WriteFailure op \<longleftrightarrow> op \<in> {Op_Set, Op_Remove}"
| "applies_to FC_CapacityExhaustion op \<longleftrightarrow> op \<in> {Op_Set, Op_Remove}"
| "applies_to FC_PartialWrite op \<longleftrightarrow> op \<in> {Op_Set, Op_Remove}"
| "applies_to FC_MetadataFailure op \<longleftrightarrow> op \<in> {Op_Get, Op_Set}"
| "applies_to _ op \<longleftrightarrow> True"

subsection \<open>The generator\<close>

record deterministic_rng =
  rng_state :: u64

definition rng_new :: "u64 \<Rightarrow> deterministic_rng" where
  "rng_new seed = \<lparr>rng_state = (if seed = 0 then 0x9E3779B97F4A7C15 else seed)\<rparr>"

definition rng_scramble :: "u64 \<Rightarrow> u64" where
  "rng_scramble x =
     (let x = x XOR drop_bit 12 x; x = x XOR push_bit 25 x in x XOR drop_bit 27 x)"

definition next_u64 :: "deterministic_rng \<Rightarrow> u64 \<times> deterministic_rng" where
  "next_u64 r =
     (let x = rng_scramble (rng_state r) in (x * 0x2545F4914F6CDD1D, r\<lparr>rng_state := x\<rparr>))"

definition rng_below :: "nat \<Rightarrow> deterministic_rng \<Rightarrow> nat \<times> deterministic_rng" where
  "rng_below len r = (case next_u64 r of (x, r') \<Rightarrow> (unat (x mod of_nat len), r'))"

subsection \<open>Plans\<close>

record armed_fault =
  af_op :: op_kind
  af_class :: fault_class
  af_amount :: u64

record fault_plan =
  fp_seed :: u64
  fp_queue :: "armed_fault list"

definition plan_new :: fault_plan where
  "plan_new = \<lparr>fp_seed = 0, fp_queue = []\<rparr>"

definition generate_fault :: "deterministic_rng \<Rightarrow> armed_fault \<times> deterministic_rng" where
  "generate_fault r =
     (let (i, r) = rng_below (length fault_class_ALL) r;
          class = fault_class_ALL ! i;
          candidates = filter (applies_to class) op_kind_ALL;
          (j, r) = rng_below (length candidates) r;
          op = candidates ! j
      in case class of
           FC_Latency \<Rightarrow>
             (case rng_below 50 r of (a, r) \<Rightarrow> (\<lparr>af_op = op, af_class = class, af_amount = 1 + of_nat a\<rparr>, r))
         | FC_FailureAfterN \<Rightarrow>
             (case rng_below 3 r of (a, r) \<Rightarrow> (\<lparr>af_op = op, af_class = class, af_amount = of_nat a\<rparr>, r))
         | _ \<Rightarrow> (\<lparr>af_op = op, af_class = class, af_amount = 0\<rparr>, r))"

fun generate_faults :: "nat \<Rightarrow> deterministic_rng \<Rightarrow> armed_fault list" where
  "generate_faults 0 r = []"
| "generate_faults (Suc n) r = (case generate_fault r of (f, r') \<Rightarrow> f # generate_faults n r')"

definition plan_from_seed :: "u64 \<Rightarrow> nat \<Rightarrow> fault_plan" where
  "plan_from_seed seed len = \<lparr>fp_seed = seed, fp_queue = generate_faults len (rng_new seed)\<rparr>"

definition plan_push :: "op_kind \<Rightarrow> fault_class \<Rightarrow> fault_plan \<Rightarrow> fault_plan" where
  "plan_push op class p = p\<lparr>fp_queue := fp_queue p @ [\<lparr>af_op = op, af_class = class, af_amount = 0\<rparr>]\<rparr>"

definition plan_push_latency_ms :: "op_kind \<Rightarrow> u64 \<Rightarrow> fault_plan \<Rightarrow> fault_plan" where
  "plan_push_latency_ms op ms p =
     p\<lparr>fp_queue := fp_queue p @ [\<lparr>af_op = op, af_class = FC_Latency, af_amount = ms\<rparr>]\<rparr>"

text \<open>The assertion on the class is a \<open>debug_assert\<close>, absent from a release build.\<close>

definition plan_push_after_n :: "op_kind \<Rightarrow> fault_class \<Rightarrow> u64 \<Rightarrow> fault_plan \<Rightarrow> fault_plan" where
  "plan_push_after_n op class n p =
     p\<lparr>fp_queue := fp_queue p @ [\<lparr>af_op = op, af_class = class, af_amount = n\<rparr>]\<rparr>"

definition plan_rearm :: "armed_fault \<Rightarrow> fault_plan \<Rightarrow> fault_plan" where
  "plan_rearm f p = p\<lparr>fp_queue := f # fp_queue p\<rparr>"

definition plan_len :: "fault_plan \<Rightarrow> nat" where
  "plan_len p = length (fp_queue p)"

definition plan_is_empty :: "fault_plan \<Rightarrow> bool" where
  "plan_is_empty p \<longleftrightarrow> fp_queue p = []"

fun queue_take :: "op_kind \<Rightarrow> armed_fault list \<Rightarrow> armed_fault option \<times> armed_fault list" where
  "queue_take op [] = (None, [])"
| "queue_take op (f # fs) =
     (if af_op f = op then (Some f, fs)
      else case queue_take op fs of (taken, rest) \<Rightarrow> (taken, f # rest))"

definition plan_take_for :: "op_kind \<Rightarrow> fault_plan \<Rightarrow> armed_fault option \<times> fault_plan" where
  "plan_take_for op p = (case queue_take op (fp_queue p) of (taken, rest) \<Rightarrow> (taken, p\<lparr>fp_queue := rest\<rparr>))"

subsection \<open>The ledger\<close>

record fault_ledger =
  fl_counts :: "u64 list"
  fl_ops :: u64

definition ledger_new :: fault_ledger where
  "ledger_new = \<lparr>fl_counts = replicate 12 0, fl_ops = 0\<rparr>"

fun ledger_index :: "fault_class \<Rightarrow> nat" where
  "ledger_index FC_Latency = 0"
| "ledger_index FC_Timeout = 1"
| "ledger_index FC_Hang = 2"
| "ledger_index FC_ReadFailure = 3"
| "ledger_index FC_WriteFailure = 4"
| "ledger_index FC_MetadataFailure = 5"
| "ledger_index FC_Corruption = 6"
| "ledger_index FC_Disconnect = 7"
| "ledger_index FC_CapacityExhaustion = 8"
| "ledger_index FC_FailureAfterN = 9"
| "ledger_index FC_Cancellation = 10"
| "ledger_index FC_PartialWrite = 11"

definition ledger_record :: "fault_class \<Rightarrow> fault_ledger \<Rightarrow> fault_ledger" where
  "ledger_record c l =
     l\<lparr>fl_counts := (fl_counts l)[ledger_index c := fl_counts l ! ledger_index c + 1]\<rparr>"

definition ledger_fired :: "fault_ledger \<Rightarrow> fault_class \<Rightarrow> u64" where
  "ledger_fired l c = fl_counts l ! ledger_index c"

definition ledger_observe_op :: "fault_ledger \<Rightarrow> fault_ledger" where
  "ledger_observe_op l = l\<lparr>fl_ops := fl_ops l + 1\<rparr>"

definition ledger_never_fired :: "fault_class list \<Rightarrow> fault_ledger \<Rightarrow> string list" where
  "ledger_never_fired armed l = map fault_class_str (filter (\<lambda>c. ledger_fired l c = 0) armed)"

subsection \<open>The generator never degenerates\<close>

lemma xor_zero_iff: "(x :: 'a :: len word) XOR y = 0 \<longleftrightarrow> x = y"
  by (metis bit.xor_self xor.left_neutral xor.assoc)

lemma drop_bit_fixed_zero:
  fixes x :: u64
  assumes "drop_bit n x = x" "0 < n"
  shows "x = 0"
proof -
  have shift: "bit x i = bit x (i + k * n)" for i k
  proof (induction k)
    case (Suc k)
    have "bit x (i + k * n) = bit (drop_bit n x) (i + k * n)" by (simp add: assms(1))
    with Suc show ?case by (simp add: bit_drop_bit_eq add.commute add.left_commute)
  qed simp
  have "\<not> bit x i" for i
  proof -
    have "64 \<le> i + 64 * n" using assms(2) by linarith
    then show ?thesis using shift [of i 64] bit_imp_le_length [of x "i + 64 * n"] by auto
  qed
  then show ?thesis by (simp add: bit_eq_iff)
qed

lemma push_bit_fixed_zero:
  fixes x :: u64
  assumes "push_bit n x = x" "0 < n"
  shows "x = 0"
proof -
  have "\<not> bit x i" for i
  proof (induction i rule: less_induct)
    case (less i)
    have "bit x i = bit (push_bit n x) i" by (simp add: assms(1))
    with less [of "i - n"] assms(2) show ?case by (auto simp: bit_push_bit_iff)
  qed
  then show ?thesis by (simp add: bit_eq_iff)
qed

lemma rng_scramble_nonzero: "x \<noteq> 0 \<Longrightarrow> rng_scramble x \<noteq> 0"
proof -
  have drop: "x XOR drop_bit n x \<noteq> 0" if "x \<noteq> 0" "0 < n" for x :: u64 and n
    using that drop_bit_fixed_zero [of n x] by (auto simp: xor_zero_iff)
  have push: "x XOR push_bit n x \<noteq> 0" if "x \<noteq> 0" "0 < n" for x :: u64 and n
    using that push_bit_fixed_zero [of n x] by (auto simp: xor_zero_iff)
  show "x \<noteq> 0 \<Longrightarrow> rng_scramble x \<noteq> 0"
    unfolding rng_scramble_def Let_def by (intro drop push) simp_all
qed

text \<open>The states that a generator goes through.\<close>

inductive rng_reachable :: "deterministic_rng \<Rightarrow> bool" where
  rng_seeded: "rng_reachable (rng_new seed)"
| rng_stepped: "rng_reachable r \<Longrightarrow> rng_reachable (snd (next_u64 r))"

lemma rng_reachable_nonzero: "rng_reachable r \<Longrightarrow> rng_state r \<noteq> 0"
  by (induction rule: rng_reachable.induct) (simp_all add: rng_new_def next_u64_def Let_def rng_scramble_nonzero)

lemma rng_below_less:
  assumes "0 < len" "len < 2 ^ 64"
  shows "fst (rng_below len r) < len"
proof -
  have "unat (of_nat len :: u64) = len" using assms(2) by (simp add: unat_of_nat)
  then show ?thesis
    using assms(1) by (simp add: rng_below_def next_u64_def Let_def unat_mod)
qed

lemma rng_reachable_below: "rng_reachable r \<Longrightarrow> rng_reachable (snd (rng_below len r))"
  by (simp add: rng_below_def case_prod_unfold rng_stepped)

subsection \<open>Generated plans\<close>

definition fault_ok :: "armed_fault \<Rightarrow> bool" where
  "fault_ok f \<longleftrightarrow>
     applies_to (af_class f) (af_op f) \<and>
     (case af_class f of
        FC_Latency \<Rightarrow> 1 \<le> af_amount f \<and> af_amount f \<le> 50
      | FC_FailureAfterN \<Rightarrow> af_amount f < 3
      | _ \<Rightarrow> af_amount f = 0)"

lemma candidates_nonempty: "0 < length (filter (applies_to c) op_kind_ALL)"
  by (cases c) (simp_all add: op_kind_ALL_def)

lemma small_amount: "a < n \<Longrightarrow> n \<le> 50 \<Longrightarrow> unat (of_nat a :: u64) = a"
  by (simp add: unat_of_nat)

lemma generate_fault_ok: "fault_ok (fst (generate_fault r))"
proof -
  obtain i r1 where 1: "rng_below (length fault_class_ALL) r = (i, r1)" by fastforce
  define c where "c = fault_class_ALL ! i"
  let ?cs = "filter (applies_to c) op_kind_ALL"
  obtain j r2 where 2: "rng_below (length ?cs) r1 = (j, r2)" by fastforce
  have "length ?cs < 2 ^ 64"
    using length_filter_le [of "applies_to c" op_kind_ALL] by (simp add: op_kind_ALL_def)
  from rng_below_less [OF candidates_nonempty this, of r1] 2 have "j < length ?cs" by simp
  from nth_mem [OF this] have op: "applies_to c (?cs ! j)" by simp
  have amounts: "1 \<le> 1 + (of_nat (fst (rng_below 50 r2)) :: u64)" "1 + (of_nat (fst (rng_below 50 r2)) :: u64) \<le> 50"
    "(of_nat (fst (rng_below 3 r2)) :: u64) < 3"
    using rng_below_less [of 50 r2] rng_below_less [of 3 r2]
    by (simp_all add: word_le_nat_alt word_less_nat_alt unat_word_ariths unat_of_nat)
  have "fst (generate_fault r) =
    \<lparr>af_op = ?cs ! j, af_class = c,
     af_amount = (case c of FC_Latency \<Rightarrow> 1 + of_nat (fst (rng_below 50 r2))
       | FC_FailureAfterN \<Rightarrow> of_nat (fst (rng_below 3 r2)) | _ \<Rightarrow> 0)\<rparr>"
    unfolding generate_fault_def 1 Let_def prod.case c_def [symmetric] 2
    by (simp add: case_prod_unfold split: fault_class.split)
  with op amounts show ?thesis by (simp add: fault_ok_def split: fault_class.split)
qed

lemma generate_faults_ok: "length (generate_faults n r) = n \<and> list_all fault_ok (generate_faults n r)"
  using generate_fault_ok by (induction n arbitrary: r) (auto simp: case_prod_unfold)

lemma queue_take_spec:
  assumes "queue_take op q = (taken, rest)"
  shows "filter (\<lambda>f. af_op f = op) q = (case taken of Some f \<Rightarrow> [f] | None \<Rightarrow> []) @ filter (\<lambda>f. af_op f = op) rest"
    and "filter (\<lambda>f. af_op f \<noteq> op) q = filter (\<lambda>f. af_op f \<noteq> op) rest"
    and "taken = None \<longleftrightarrow> (\<forall>f \<in> set q. af_op f \<noteq> op)"
  using assms by (induction q arbitrary: taken rest) (auto split: if_splits prod.splits option.splits)

text \<open>Taking faults for one operation until there are none left.\<close>

fun drain :: "op_kind \<Rightarrow> nat \<Rightarrow> fault_plan \<Rightarrow> armed_fault list \<times> fault_plan" where
  "drain op 0 p = ([], p)"
| "drain op (Suc n) p =
     (case plan_take_for op p of
        (None, p') \<Rightarrow> ([], p')
      | (Some f, p') \<Rightarrow> (case drain op n p' of (fs, p'') \<Rightarrow> (f # fs, p'')))"

lemma drain_spec:
  "fst (drain op n p) = take n (filter (\<lambda>f. af_op f = op) (fp_queue p)) \<and>
   filter (\<lambda>f. af_op f \<noteq> op) (fp_queue (snd (drain op n p))) = filter (\<lambda>f. af_op f \<noteq> op) (fp_queue p) \<and>
   fp_seed (snd (drain op n p)) = fp_seed p"
proof (induction n arbitrary: p)
  case (Suc n)
  obtain taken rest where q: "queue_take op (fp_queue p) = (taken, rest)" by fastforce
  note spec = queue_take_spec [OF q]
  show ?case
  proof (cases taken)
    case None
    have "drain op (Suc n) p = ([], p\<lparr>fp_queue := rest\<rparr>)" by (simp add: plan_take_for_def q None)
    with spec None show ?thesis by (simp del: drain.simps)
  next
    case (Some f)
    have "drain op (Suc n) p = (f # fst (drain op n (p\<lparr>fp_queue := rest\<rparr>)), snd (drain op n (p\<lparr>fp_queue := rest\<rparr>)))"
      by (simp add: plan_take_for_def q Some case_prod_unfold)
    with spec Some Suc [of "p\<lparr>fp_queue := rest\<rparr>"] show ?thesis by (simp del: drain.simps)
  qed
qed simp

text \<open>
  A seeded fault plan can fire, and fires as a script. Every seed gives a plan of the asked length
  whose every fault applies to the operation it is armed for, with an amount in the range of its
  class; the generator behind it never reaches the state it could not leave. Taking faults for an
  operation yields exactly the ones armed for it, in the order they were armed, and leaves the faults
  for other operations in place and in order.
\<close>

theorem fault_plan_script:
  "fp_seed (plan_from_seed seed len) = seed \<and> plan_len (plan_from_seed seed len) = len \<and>
   list_all fault_ok (fp_queue (plan_from_seed seed len)) \<and>
   (rng_reachable r \<longrightarrow> rng_state r \<noteq> 0) \<and>
   fst (drain op n p) = take n (filter (\<lambda>f. af_op f = op) (fp_queue p)) \<and>
   filter (\<lambda>f. af_op f \<noteq> op) (fp_queue (snd (drain op n p))) = filter (\<lambda>f. af_op f \<noteq> op) (fp_queue p)"
  using generate_faults_ok [of len "rng_new seed"] drain_spec [of op n p] rng_reachable_nonzero [of r]
  by (simp add: plan_from_seed_def plan_len_def)

theorem fault_plan_script_witness:
  "rng_state (snd (next_u64 (rng_new 0))) \<noteq> 0 \<and>
   fst (drain Op_Set 9 (plan_push Op_Set FC_WriteFailure (plan_push Op_Get FC_Hang plan_new))) =
     [\<lparr>af_op = Op_Set, af_class = FC_WriteFailure, af_amount = 0\<rparr>]"
  using fault_plan_script [where r = "snd (next_u64 (rng_new 0))" and op = Op_Set and n = 9
      and p = "plan_push Op_Set FC_WriteFailure (plan_push Op_Get FC_Hang plan_new)"] rng_stepped [OF rng_seeded, of 0]
  by (simp add: plan_push_def plan_new_def)

subsection \<open>The ledger counts\<close>

definition ledger_ok :: "fault_ledger \<Rightarrow> bool" where
  "ledger_ok l \<longleftrightarrow> length (fl_counts l) = 12"

lemma ledger_index_less [simp]: "ledger_index c < 12"
  by (cases c) simp_all

lemma ledger_index_inj: "ledger_index c = ledger_index d \<longleftrightarrow> c = d"
  by (cases c; cases d) simp_all

lemma ledger_record_fired:
  "ledger_ok l \<Longrightarrow> ledger_ok (ledger_record c l) \<and>
     ledger_fired (ledger_record c l) d = ledger_fired l d + (if c = d then 1 else 0)"
  by (auto simp: ledger_ok_def ledger_record_def ledger_fired_def ledger_index_inj)

lemma ledger_run:
  "ledger_ok l \<Longrightarrow> ledger_ok (fold ledger_record cs l) \<and>
     ledger_fired (fold ledger_record cs l) d = ledger_fired l d + of_nat (count_list cs d)"
  by (induction cs arbitrary: l) (auto simp: ledger_record_fired)

text \<open>The classes reported as never fired are exactly the armed ones that were never recorded.\<close>

lemma never_fired_exact:
  assumes "length cs < 2 ^ 64"
  shows "ledger_never_fired armed (fold ledger_record cs ledger_new) =
    map fault_class_str (filter (\<lambda>c. c \<notin> set cs) armed)"
proof -
  have ok: "ledger_ok ledger_new" by (simp add: ledger_ok_def ledger_new_def)
  have zero: "ledger_fired ledger_new c = 0" for c
    using ledger_index_less [of c] by (simp add: ledger_fired_def ledger_new_def)
  have "(of_nat (count_list cs c) :: u64) = 0 \<longleftrightarrow> c \<notin> set cs" for c
  proof -
    have "count_list cs c < 2 ^ 64" using count_le_length [of cs c] assms by linarith
    then have "unat (of_nat (count_list cs c) :: u64) = count_list cs c" by (simp add: unat_of_nat)
    moreover have "(of_nat (count_list cs c) :: u64) = 0 \<longleftrightarrow> unat (of_nat (count_list cs c) :: u64) = 0"
      by (rule unat_eq_0 [symmetric])
    ultimately show ?thesis by (simp add: count_list_0_iff)
  qed
  then show ?thesis by (simp add: ledger_never_fired_def ledger_run [OF ok] zero)
qed

end
