(* ===== verification/Record_Codec.thy ===== *)
theory Record_Codec
  imports Integrity Utf8
begin

section \<open>Codecs of the byte backends (\<open>src/tier/backends\<close>)\<close>

text \<open>
  What the adapters to byte stores put on the wire: the \<open>ByteValue\<close> codec (\<open>mod.rs\<close>), the framed
  record of the sled rung (\<open>l4_sled.rs\<close>: deadline, digest, payload) and the hexadecimal spelling of
  the Oxigraph rung (\<open>l5_oxigraph.rs\<close>). The lemmas are the round trips and what a damaged record
  decodes to.
\<close>

record 'v byte_codec =
  bv_encode :: "'v \<Rightarrow> bytes result"
  bv_decode :: "bytes \<Rightarrow> 'v result"

definition vec_codec :: "bytes byte_codec" where
  "vec_codec = \<lparr>bv_encode = Ok, bv_decode = Ok\<rparr>"

definition string_codec :: "utf8_string byte_codec" where
  "string_codec =
     \<lparr>bv_encode = (\<lambda>s. Ok (as_bytes s)),
      bv_decode = (\<lambda>bs. case from_utf8 bs of Some s \<Rightarrow> Ok s | None \<Rightarrow> Err SerializationFailed)\<rparr>"

text \<open>What the trait's documentation asks of an implementation.\<close>

definition codec_roundtrips :: "'v byte_codec \<Rightarrow> bool" where
  "codec_roundtrips c \<longleftrightarrow> (\<forall>v bs. bv_encode c v = Ok bs \<longrightarrow> bv_decode c bs = Ok v)"

lemma vec_codec_roundtrips: "codec_roundtrips vec_codec"
  by (simp add: codec_roundtrips_def vec_codec_def)

text \<open>The codec of strings round-trips, and refuses every byte string that is not one of a string.\<close>

lemma string_codec_roundtrips:
  "codec_roundtrips string_codec \<and> (is_ok (bv_decode string_codec bs) \<longleftrightarrow> bs \<in> range as_bytes)"
proof
  have "from_utf8 (as_bytes s) = Some s" for s by (simp add: from_utf8_exact)
  then show "codec_roundtrips string_codec" by (auto simp: codec_roundtrips_def string_codec_def)
  show "is_ok (bv_decode string_codec bs) \<longleftrightarrow> bs \<in> range as_bytes"
    using from_utf8_exact [of bs] by (cases "from_utf8 bs") (auto simp: string_codec_def is_ok_def)
qed

subsection \<open>Little-endian integers\<close>

definition to_le_bytes :: "nat \<Rightarrow> 'a :: len word \<Rightarrow> bytes" where
  "to_le_bytes n x = map (\<lambda>i. ucast (drop_bit (8 * i) x)) [0..<n]"

fun from_le_bytes :: "bytes \<Rightarrow> 'a :: len word" where
  "from_le_bytes [] = 0"
| "from_le_bytes (b # bs) = ucast b OR push_bit 8 (from_le_bytes bs)"

lemma length_to_le_bytes [simp]: "length (to_le_bytes n x) = n"
  by (simp add: to_le_bytes_def)

lemma bit_from_le_bytes:
  "bit (from_le_bytes bs :: 'a :: len word) i \<longleftrightarrow>
     i < LENGTH('a) \<and> i div 8 < length bs \<and> bit (bs ! (i div 8)) (i mod 8)"
proof (induction bs arbitrary: i)
  case (Cons b bs)
  show ?case
  proof (cases "i < 8")
    case True
    then show ?thesis by (auto simp: bit_or_iff bit_push_bit_iff bit_ucast_iff)
  next
    case False
    then have "i div 8 = Suc ((i - 8) div 8)" "(i - 8) mod 8 = i mod 8" "\<not> bit b i"
      using bit_imp_le_length [of b i] by (auto simp: le_div_geq le_mod_geq)
    with False Cons [of "i - 8"] show ?thesis
      by (auto simp: bit_or_iff bit_push_bit_iff bit_ucast_iff)
  qed
qed simp

lemma le_bytes_roundtrip:
  assumes "LENGTH('a :: len) \<le> 8 * n"
  shows "from_le_bytes (to_le_bytes n (x :: 'a word)) = x"
proof (rule bit_word_eqI)
  fix i assume "i < LENGTH('a)"
  moreover from this assms have "i div 8 < n" by linarith
  ultimately show "bit (from_le_bytes (to_le_bytes n x) :: 'a word) i = bit x i"
    by (simp add: bit_from_le_bytes to_le_bytes_def bit_ucast_iff bit_drop_bit_eq)
qed

subsection \<open>The record of the sled rung\<close>

definition NO_EXPIRY :: u64 where
  "NO_EXPIRY = 0"

definition EXPIRY_LEN :: nat where
  "EXPIRY_LEN = 8"

definition DIGEST_LEN :: nat where
  "DIGEST_LEN = 16"

definition PREFIX_LEN :: nat where
  "PREFIX_LEN = 24"

text \<open>\<open>as_millis() as u64\<close> keeps the low 64 bits. The clock counts from the epoch.\<close>

definition millis_of :: "nat \<Rightarrow> u64" where
  "millis_of nanos = of_nat (nanos div 1000000)"

definition record_deadline :: "u64 \<Rightarrow> duration option \<Rightarrow> u64" where
  "record_deadline now_ms ttl =
     (case ttl of None \<Rightarrow> NO_EXPIRY | Some t \<Rightarrow> saturating_add_u64 now_ms (millis_of t))"

definition record_is_expired :: "u64 \<Rightarrow> u64 \<Rightarrow> bool" where
  "record_is_expired now_ms deadline_ms \<longleftrightarrow> deadline_ms \<noteq> NO_EXPIRY \<and> now_ms \<ge> deadline_ms"

definition encode_record :: "u64 \<Rightarrow> bytes \<Rightarrow> bytes" where
  "encode_record deadline payload =
     to_le_bytes EXPIRY_LEN deadline @ to_le_bytes DIGEST_LEN (digest_of_bytes payload) @ payload"

definition decode_record :: "'v byte_codec \<Rightarrow> u64 \<Rightarrow> bytes \<Rightarrow> (u64 \<times> 'v) option result" where
  "decode_record codec now_ms raw =
     (if length raw < PREFIX_LEN then Err SerializationFailed
      else
        (let deadline = from_le_bytes (take EXPIRY_LEN raw);
             expected = from_le_bytes (take (PREFIX_LEN - EXPIRY_LEN) (drop EXPIRY_LEN raw));
             payload = drop PREFIX_LEN raw
         in if record_is_expired now_ms deadline then Ok None
            else if digest_of_bytes payload \<noteq> expected then Err Corrupted
            else try_then (bv_decode codec payload) (\<lambda>v. Ok (Some (deadline, v)))))"

lemmas record_lens = EXPIRY_LEN_def DIGEST_LEN_def PREFIX_LEN_def

lemma decode_framed:
  "decode_record codec now_ms (to_le_bytes EXPIRY_LEN d @ to_le_bytes DIGEST_LEN (g :: u128) @ payload) =
     (if record_is_expired now_ms d then Ok None
      else if digest_of_bytes payload \<noteq> g then Err Corrupted
      else try_then (bv_decode codec payload) (\<lambda>v. Ok (Some (d, v))))"
  by (simp add: decode_record_def record_lens Let_def le_bytes_roundtrip)

lemma byte_flip: "(b :: u8) XOR 0xff \<noteq> b"
  using xor_left_cancel [of b "0xff" 0] by simp

lemma digest_one_byte: "digest_of_bytes (p @ b # s) = digest_of_bytes (p @ c # s) \<longleftrightarrow> b = c"
  by (simp add: digest_of_bytes_def from_hashes_inject fnv1a_one_byte)

text \<open>
  C33: A framed record round-trips and a damaged one is refused. What the sled rung writes decodes to
  the deadline and the value it was written with, or to nothing once the deadline has passed. A record
  cut inside its frame is a serialization failure, and a record with one payload byte changed is
  corrupted: neither is ever decoded into a value.
\<close>

theorem sled_record_roundtrip:
  assumes "codec_roundtrips codec" "bv_encode codec v = Ok payload"
  shows "decode_record codec now_ms (encode_record deadline payload) =
      (if record_is_expired now_ms deadline then Ok None else Ok (Some (deadline, v))) \<and>
    (n < PREFIX_LEN \<longrightarrow> decode_record codec now_ms (take n (encode_record deadline payload)) = Err SerializationFailed) \<and>
    (payload = p @ b # s \<and> b \<noteq> c \<and> \<not> record_is_expired now_ms deadline \<longrightarrow>
      decode_record codec now_ms (take PREFIX_LEN (encode_record deadline payload) @ p @ c # s) = Err Corrupted)"
proof (intro conjI impI)
  show "decode_record codec now_ms (encode_record deadline payload) =
      (if record_is_expired now_ms deadline then Ok None else Ok (Some (deadline, v)))"
    using assms by (simp add: encode_record_def decode_framed codec_roundtrips_def)
  show "decode_record codec now_ms (take n (encode_record deadline payload)) = Err SerializationFailed"
    if "n < PREFIX_LEN"
    using that by (simp add: decode_record_def min_def)
  assume damaged: "payload = p @ b # s \<and> b \<noteq> c \<and> \<not> record_is_expired now_ms deadline"
  have "take PREFIX_LEN (encode_record deadline payload) =
      to_le_bytes EXPIRY_LEN deadline @ to_le_bytes DIGEST_LEN (digest_of_bytes payload)"
    by (simp add: encode_record_def record_lens)
  with damaged show "decode_record codec now_ms (take PREFIX_LEN (encode_record deadline payload) @ p @ c # s) =
      Err Corrupted"
    by (auto simp: decode_framed digest_one_byte)
qed

theorem sled_record_roundtrip_witness:
  "decode_record vec_codec 5 (encode_record 9 [1, 2]) = Ok (Some (9, [1, 2])) \<and>
   decode_record vec_codec 9 (encode_record 9 [1, 2]) = Ok None \<and>
   decode_record vec_codec 5 (take 23 (encode_record 9 [1, 2])) = Err SerializationFailed \<and>
   decode_record vec_codec 5 (take PREFIX_LEN (encode_record 9 [1, 2]) @ [] @ 7 # [2]) = Err Corrupted"
  using sled_record_roundtrip [OF vec_codec_roundtrips, of "[1, 2]" "[1, 2]" 5 9 23 "[]" 1 "[2]" 7]
    sled_record_roundtrip [OF vec_codec_roundtrips, of "[1, 2]" "[1, 2]" 9 9]
  by (simp add: vec_codec_def record_is_expired_def NO_EXPIRY_def PREFIX_LEN_def)

subsection \<open>Hexadecimal text\<close>

definition hex_encode :: "bytes \<Rightarrow> string" where
  "hex_encode bs = concat (map (\<lambda>b. hex_pad 2 (unat b)) bs)"

text \<open>\<open>char::to_digit(16)\<close>.\<close>

definition to_digit16 :: "char \<Rightarrow> nat option" where
  "to_digit16 c =
     (let n = of_char c :: nat in
      if 48 \<le> n \<and> n \<le> 57 then Some (n - 48)
      else if 97 \<le> n \<and> n \<le> 102 then Some (n - 87)
      else if 65 \<le> n \<and> n \<le> 70 then Some (n - 55)
      else None)"

fun hex_pairs :: "string \<Rightarrow> bytes result" where
  "hex_pairs (a # b # rest) =
     (case to_digit16 a of
        None \<Rightarrow> Err SerializationFailed
      | Some hi \<Rightarrow>
          (case to_digit16 b of
             None \<Rightarrow> Err SerializationFailed
           | Some lo \<Rightarrow> try_then (hex_pairs rest) (\<lambda>bs. Ok (of_nat (hi * 16 + lo) # bs))))"
| "hex_pairs _ = Ok []"

definition hex_decode :: "string \<Rightarrow> bytes result" where
  "hex_decode text =
     (if length text mod 2 \<noteq> 0 then Err SerializationFailed else hex_pairs text)"

lemma to_digit16_hex_char: "n < 16 \<Longrightarrow> to_digit16 (hex_char n) = Some n"
proof -
  assume n: "n < 16"
  have "of_char (hex_char n) = (if n < 10 then 48 + n else 87 + n)"
    using n by (simp add: hex_char_def)
  with n show ?thesis by (auto simp: to_digit16_def)
qed

lemma hex_pad_2: "hex_pad 2 n = [hex_char (n div 16 mod 16), hex_char (n mod 16)]"
  by (simp add: hex_pad_def numeral_2_eq_2)

lemma hex_pairs_encode: "hex_pairs (hex_encode bs) = Ok bs"
proof (induction bs)
  case (Cons b bs)
  have b: "unat b div 16 mod 16 * 16 + unat b mod 16 = unat b"
  proof -
    have "unat b < 256" using unsigned_less [of b, where ?'a = nat] by simp
    then have "unat b div 16 mod 16 = unat b div 16" by (simp add: less_mult_imp_div_less)
    then show ?thesis by simp
  qed
  have "hex_encode (b # bs) = hex_char (unat b div 16 mod 16) # hex_char (unat b mod 16) # hex_encode bs"
    by (simp add: hex_encode_def hex_pad_2)
  with Cons b show ?case by (simp add: to_digit16_hex_char)
qed (simp add: hex_encode_def)

lemma hex_roundtrip: "hex_decode (hex_encode bs) = Ok bs"
proof -
  have "length (hex_encode bs) = 2 * length bs" by (induction bs) (simp_all add: hex_encode_def)
  then show ?thesis by (simp add: hex_decode_def hex_pairs_encode)
qed

lemma hex_encode_inject: "hex_encode xs = hex_encode ys \<longleftrightarrow> xs = ys"
  by (metis hex_pairs_encode sum.inject(2))

end
