(* ===== verification/Backends.thy ===== *)
theory Backends
  imports Record_Codec Rungs
begin

section \<open>Adapters to real stores (\<open>src/tier/backends\<close>)\<close>

text \<open>
  The rungs over Redis (\<open>l3_redis.rs\<close>), sled (\<open>l4_sled.rs\<close>), an application's origin (\<open>l5_origin.rs\<close>) and
  an Oxigraph store (\<open>l5_oxigraph.rs\<close>). The stores are third-party code: each adapter takes the calls it
  makes as a record of functions on the store, which answer \<open>Inl ()\<close> for the store's own error, and
  what a property needs of them is a named predicate. The calls block the worker, so they always
  answer. One clock serves as wall clock and as the store's.
\<close>

type_synonym 'a store_result = "unit + 'a"

text \<open>\<open>succeed\<close> and \<open>fail\<close>, the same in three adapters.\<close>

definition health_succeed :: "tier_health lock \<Rightarrow> tier_health lock" where
  "health_succeed l =
     (if lk_poisoned l then l
      else l\<lparr>lk_value := (lk_value l)\<lparr>consecutive_failures := 0, health_score := 1\<rparr>\<rparr>)"

definition health_fail :: "instant \<Rightarrow> tier_health lock \<Rightarrow> tier_health lock" where
  "health_fail now l =
     (if lk_poisoned l then l
      else l\<lparr>lk_value := (lk_value l)\<lparr>consecutive_failures := consecutive_failures (lk_value l) + 1,
                 last_failure_timestamp := Some now,
                 health_score := max (health_score (lk_value l) - 1 / 10) 0\<rparr>\<rparr>)"

definition health_read :: "tier_health lock \<Rightarrow> tier_health" where
  "health_read l = (if lk_poisoned l then default_health else lk_value l)"

subsection \<open>Redis\<close>

record 'c redis_api =
  ra_get :: "instant \<Rightarrow> bytes \<Rightarrow> 'c \<Rightarrow> bytes option store_result \<times> 'c"
  ra_set :: "instant \<Rightarrow> bytes \<Rightarrow> bytes \<Rightarrow> 'c \<Rightarrow> unit store_result \<times> 'c"
  ra_set_ex :: "instant \<Rightarrow> bytes \<Rightarrow> bytes \<Rightarrow> u64 \<Rightarrow> 'c \<Rightarrow> unit store_result \<times> 'c"
  ra_del :: "instant \<Rightarrow> bytes \<Rightarrow> 'c \<Rightarrow> unit store_result \<times> 'c"
  ra_exists :: "instant \<Rightarrow> bytes \<Rightarrow> 'c \<Rightarrow> bool store_result \<times> 'c"

record 'c redis_backend =
  rb_conn :: "'c lock"
  rb_health :: "tier_health lock"

definition redis_connect ::
  "(utext \<Rightarrow> 'k store_result) \<Rightarrow> ('k \<Rightarrow> 'c store_result) \<Rightarrow> utext \<Rightarrow> 'c redis_backend result"
where
  "redis_connect open_client get_connection url =
     (case open_client url of
        Inl _ \<Rightarrow> Err ConfigurationError
      | Inr client \<Rightarrow>
          (case get_connection client of
             Inl _ \<Rightarrow> Err TierUnavailable
           | Inr conn \<Rightarrow> Ok \<lparr>rb_conn = new_lock conn, rb_health = new_lock default_health\<rparr>))"

text \<open>\<open>finish_unit\<close>, \<open>finish_bool\<close> and the tail of \<open>get\<close>: fold the answer, update the health.\<close>

definition redis_finish :: "instant \<Rightarrow> 'a store_result \<Rightarrow> 'c redis_backend \<Rightarrow> 'a result \<times> 'c redis_backend" where
  "redis_finish now r b =
     (case r of
        Inr x \<Rightarrow> (Ok x, b\<lparr>rb_health := health_succeed (rb_health b)\<rparr>)
      | Inl _ \<Rightarrow> (Err TierUnavailable, b\<lparr>rb_health := health_fail now (rb_health b)\<rparr>))"

definition redis_call ::
  "instant \<Rightarrow> ('c \<Rightarrow> 'a store_result \<times> 'c) \<Rightarrow> 'c redis_backend \<Rightarrow> 'a result \<times> 'c redis_backend"
where
  "redis_call now f b =
     (if lk_poisoned (rb_conn b) then (Err ConfigurationError, b)
      else case f (lk_value (rb_conn b)) of
        (r, c) \<Rightarrow> redis_finish now r (b\<lparr>rb_conn := (rb_conn b)\<lparr>lk_value := c\<rparr>\<rparr>))"

definition redis_get ::
  "'c redis_api \<Rightarrow> 'v byte_codec \<Rightarrow> instant \<Rightarrow> bytes \<Rightarrow> 'c redis_backend \<Rightarrow> 'v option result \<times> 'c redis_backend"
where
  "redis_get api codec now key b =
     (case redis_call now (ra_get api now key) b of
        (Inr (Some bytes), b') \<Rightarrow> (try_then (bv_decode codec bytes) (\<lambda>v. Ok (Some v)), b')
      | (Inr None, b') \<Rightarrow> (Ok None, b')
      | (Inl e, b') \<Rightarrow> (Err e, b'))"

definition redis_set ::
  "'c redis_api \<Rightarrow> 'v byte_codec \<Rightarrow> instant \<Rightarrow> bytes \<Rightarrow> 'v \<Rightarrow> duration option \<Rightarrow> 'c redis_backend
     \<Rightarrow> unit result \<times> 'c redis_backend"
where
  "redis_set api codec now key v ttl b =
     (case bv_encode codec v of
        Inl e \<Rightarrow> (Err e, b)
      | Inr bytes \<Rightarrow>
          redis_call now
            (case ttl of
               Some d \<Rightarrow> ra_set_ex api now key bytes (of_nat (d div 1000000000))
             | None \<Rightarrow> ra_set api now key bytes) b)"

definition redis_ops :: "'c redis_api \<Rightarrow> 'v byte_codec \<Rightarrow> ('c redis_backend, 'v) tier_ops" where
  "redis_ops api codec =
     \<lparr>t_name = (\<lambda>_. ''L3-redis-distributed''), t_backend = (\<lambda>_. BK_Redis),
      t_capability = (\<lambda>_. capability_new BK_Redis
         (flags_union (flags_union CF_SHARED CF_BLOCKING_IO) CF_ATOMIC_WRITE_OR_ERROR) OS_Healthy DC_Delegated),
      t_eviction_candidate = default_eviction_candidate, t_capacity = default_tier_capacity,
      t_remove_if_address = default_remove_if_address,
      t_get = (\<lambda>now key s. answer (redis_get api codec now key s)),
      t_set = (\<lambda>now key v ttl s. answer (redis_set api codec now key v ttl s)),
      t_remove = (\<lambda>now key s. answer (redis_call now (ra_del api now key) s)),
      t_contains = (\<lambda>now key s. answer (redis_call now (ra_exists api now key) s)),
      t_health = (\<lambda>now s. health_read (rb_health s)), t_tier_id = L3\<rparr>"

subsection \<open>sled\<close>

record 't tree_api =
  ta_get :: "bytes \<Rightarrow> 't \<Rightarrow> bytes option store_result"
  ta_insert :: "bytes \<Rightarrow> bytes \<Rightarrow> 't \<Rightarrow> bytes option store_result \<times> 't"
  ta_remove :: "bytes \<Rightarrow> 't \<Rightarrow> bytes option store_result \<times> 't"

record 't sled_backend =
  sb_tree :: 't
  sb_health :: "tier_health lock"

definition sled_open ::
  "('p \<Rightarrow> 'd store_result) \<Rightarrow> (bytes \<Rightarrow> 'd \<Rightarrow> 't store_result) \<Rightarrow> 'p \<Rightarrow> 't sled_backend result"
where
  "sled_open open_db open_tree path =
     (case open_db path of
        Inl _ \<Rightarrow> Err ConfigurationError
      | Inr db \<Rightarrow>
          (case open_tree (map of_char ''thesix'') db of
             Inl _ \<Rightarrow> Err ConfigurationError
           | Inr tree \<Rightarrow> Ok \<lparr>sb_tree = tree, sb_health = new_lock default_health\<rparr>))"

definition sled_succeed :: "'t sled_backend \<Rightarrow> 't sled_backend" where
  "sled_succeed b = b\<lparr>sb_health := health_succeed (sb_health b)\<rparr>"

definition sled_fail :: "instant \<Rightarrow> 't sled_backend \<Rightarrow> 't sled_backend" where
  "sled_fail now b = b\<lparr>sb_health := health_fail now (sb_health b)\<rparr>"

definition finish_mutation ::
  "instant \<Rightarrow> bytes option store_result \<times> 't \<Rightarrow> 't sled_backend \<Rightarrow> unit result \<times> 't sled_backend"
where
  "finish_mutation now rt b =
     (case rt of (r, tree) \<Rightarrow>
        (let b = b\<lparr>sb_tree := tree\<rparr> in
         case r of Inr _ \<Rightarrow> (Ok (), sled_succeed b) | Inl _ \<Rightarrow> (Err TierUnavailable, sled_fail now b)))"

definition sled_get ::
  "'t tree_api \<Rightarrow> 'v byte_codec \<Rightarrow> instant \<Rightarrow> bytes \<Rightarrow> 't sled_backend \<Rightarrow> 'v option result \<times> 't sled_backend"
where
  "sled_get api codec now key b =
     (case ta_get api key (sb_tree b) of
        Inr (Some raw) \<Rightarrow>
          (case decode_record codec (millis_of now) raw of
             Inr None \<Rightarrow> (Ok None, sled_succeed (b\<lparr>sb_tree := snd (ta_remove api key (sb_tree b))\<rparr>))
           | Inr (Some (d, v)) \<Rightarrow> (Ok (Some v), sled_succeed b)
           | Inl e \<Rightarrow> (Err e, sled_fail now b))
      | Inr None \<Rightarrow> (Ok None, sled_succeed b)
      | Inl _ \<Rightarrow> (Err TierUnavailable, sled_fail now b))"

definition sled_set ::
  "'t tree_api \<Rightarrow> 'v byte_codec \<Rightarrow> instant \<Rightarrow> bytes \<Rightarrow> 'v \<Rightarrow> duration option \<Rightarrow> 't sled_backend
     \<Rightarrow> unit result \<times> 't sled_backend"
where
  "sled_set api codec now key v ttl b =
     (case bv_encode codec v of
        Inl e \<Rightarrow> (Err e, b)
      | Inr payload \<Rightarrow>
          finish_mutation now
            (ta_insert api key (encode_record (record_deadline (millis_of now) ttl) payload) (sb_tree b)) b)"

definition sled_remove :: "'t tree_api \<Rightarrow> instant \<Rightarrow> bytes \<Rightarrow> 't sled_backend \<Rightarrow> unit result \<times> 't sled_backend" where
  "sled_remove api now key b = finish_mutation now (ta_remove api key (sb_tree b)) b"

definition sled_contains ::
  "'t tree_api \<Rightarrow> 'v byte_codec \<Rightarrow> instant \<Rightarrow> bytes \<Rightarrow> 't sled_backend \<Rightarrow> bool result \<times> 't sled_backend"
where
  "sled_contains api codec now key b =
     (case ta_get api key (sb_tree b) of
        Inr (Some raw) \<Rightarrow>
          (case decode_record codec (millis_of now) raw of
             Inr x \<Rightarrow> (Ok (x \<noteq> None), sled_succeed b)
           | Inl e \<Rightarrow> (Err e, b))
      | Inr None \<Rightarrow> (Ok False, sled_succeed b)
      | Inl _ \<Rightarrow> (Err TierUnavailable, sled_fail now b))"

definition sled_ops :: "'t tree_api \<Rightarrow> 'v byte_codec \<Rightarrow> ('t sled_backend, 'v) tier_ops" where
  "sled_ops api codec =
     \<lparr>t_name = (\<lambda>_. ''L4-sled-persistent''), t_backend = (\<lambda>_. BK_Sled),
      t_capability = (\<lambda>_. capability_new BK_Sled
         (flags_union (flags_union CF_PERSISTENT CF_BLOCKING_IO) CF_ATOMIC_WRITE_OR_ERROR) OS_Healthy DC_Delegated),
      t_eviction_candidate = default_eviction_candidate, t_capacity = default_tier_capacity,
      t_remove_if_address = default_remove_if_address,
      t_get = (\<lambda>now key s. answer (sled_get api codec now key s)),
      t_set = (\<lambda>now key v ttl s. answer (sled_set api codec now key v ttl s)),
      t_remove = (\<lambda>now key s. answer (sled_remove api now key s)),
      t_contains = (\<lambda>now key s. answer (sled_contains api codec now key s)),
      t_health = (\<lambda>now s. health_read (sb_health s)), t_tier_id = L4\<rparr>"

text \<open>The two hooks that damage a stored record.\<close>

definition truncate_record_for_test :: "'t tree_api \<Rightarrow> bytes \<Rightarrow> nat \<Rightarrow> 't sled_backend \<Rightarrow> bool \<times> 't sled_backend" where
  "truncate_record_for_test api key len b =
     (case ta_get api key (sb_tree b) of
        Inr (Some raw) \<Rightarrow>
          if length raw > len
          then (case ta_insert api key (take len raw) (sb_tree b) of
                  (Inr _, t) \<Rightarrow> (True, b\<lparr>sb_tree := t\<rparr>)
                | (Inl _, t) \<Rightarrow> (False, b\<lparr>sb_tree := t\<rparr>))
          else (False, b)
      | _ \<Rightarrow> (False, b))"

definition corrupt_payload_for_test :: "'t tree_api \<Rightarrow> bytes \<Rightarrow> nat \<Rightarrow> 't sled_backend \<Rightarrow> bool \<times> 't sled_backend" where
  "corrupt_payload_for_test api key offset b =
     (case ta_get api key (sb_tree b) of
        Inr (Some raw) \<Rightarrow>
          if length raw > PREFIX_LEN + offset
          then (let idx = PREFIX_LEN + offset in
                case ta_insert api key (raw[idx := raw ! idx XOR 0xff]) (sb_tree b) of
                  (Inr _, t) \<Rightarrow> (True, b\<lparr>sb_tree := t\<rparr>)
                | (Inl _, t) \<Rightarrow> (False, b\<lparr>sb_tree := t\<rparr>))
          else (False, b)
      | _ \<Rightarrow> (False, b))"

subsection \<open>The origin\<close>

record 'o origin_backend =
  og_fetcher :: "bytes \<Rightarrow> 'o \<Rightarrow> bytes option result \<times> 'o"
  og_writer :: "(bytes \<Rightarrow> bytes \<Rightarrow> duration option \<Rightarrow> 'o \<Rightarrow> unit result \<times> 'o) option"
  og_origin :: 'o
  og_health :: "tier_health lock"

definition origin_new :: "(bytes \<Rightarrow> 'o \<Rightarrow> bytes option result \<times> 'o) \<Rightarrow> 'o \<Rightarrow> 'o origin_backend" where
  "origin_new fetcher origin =
     \<lparr>og_fetcher = fetcher, og_writer = None, og_origin = origin, og_health = new_lock default_health\<rparr>"

definition with_writer ::
  "(bytes \<Rightarrow> bytes \<Rightarrow> duration option \<Rightarrow> 'o \<Rightarrow> unit result \<times> 'o) \<Rightarrow> 'o origin_backend \<Rightarrow> 'o origin_backend"
where
  "with_writer writer b = b\<lparr>og_writer := Some writer\<rparr>"

text \<open>A call of the application's closure, with the health it leaves.\<close>

definition origin_call ::
  "instant \<Rightarrow> ('o \<Rightarrow> 'a result \<times> 'o) \<Rightarrow> 'o origin_backend \<Rightarrow> 'a result \<times> 'o origin_backend"
where
  "origin_call now f b =
     (case f (og_origin b) of (r, o') \<Rightarrow>
        (r, b\<lparr>og_origin := o',
              og_health := (if is_ok r then health_succeed (og_health b) else health_fail now (og_health b))\<rparr>))"

definition origin_get ::
  "'v byte_codec \<Rightarrow> instant \<Rightarrow> bytes \<Rightarrow> 'o origin_backend \<Rightarrow> 'v option result \<times> 'o origin_backend"
where
  "origin_get codec now key b =
     (case origin_call now (og_fetcher b key) b of
        (Inr (Some bytes), b') \<Rightarrow> (try_then (bv_decode codec bytes) (\<lambda>v. Ok (Some v)), b')
      | (Inr None, b') \<Rightarrow> (Ok None, b')
      | (Inl e, b') \<Rightarrow> (Err e, b'))"

definition origin_set ::
  "'v byte_codec \<Rightarrow> instant \<Rightarrow> bytes \<Rightarrow> 'v \<Rightarrow> duration option \<Rightarrow> 'o origin_backend \<Rightarrow> unit result \<times> 'o origin_backend"
where
  "origin_set codec now key v ttl b =
     (case og_writer b of
        None \<Rightarrow> (Ok (), b)
      | Some writer \<Rightarrow>
          (case bv_encode codec v of
             Inl e \<Rightarrow> (Err e, b)
           | Inr bytes \<Rightarrow> origin_call now (writer key bytes ttl) b))"

definition origin_remove :: "instant \<Rightarrow> bytes \<Rightarrow> 'o origin_backend \<Rightarrow> unit result \<times> 'o origin_backend" where
  "origin_remove now key b =
     (case og_writer b of
        None \<Rightarrow> (Ok (), b)
      | Some writer \<Rightarrow> origin_call now (writer key [] None) b)"

definition origin_contains :: "instant \<Rightarrow> bytes \<Rightarrow> 'o origin_backend \<Rightarrow> bool result \<times> 'o origin_backend" where
  "origin_contains now key b =
     (case origin_call now (og_fetcher b key) b of
        (Inr x, b') \<Rightarrow> (Ok (x \<noteq> None), b')
      | (Inl e, b') \<Rightarrow> (Err e, b'))"

definition origin_ops :: "'v byte_codec \<Rightarrow> ('o origin_backend, 'v) tier_ops" where
  "origin_ops codec =
     \<lparr>t_name = (\<lambda>_. ''L5-origin-fallback''), t_backend = (\<lambda>_. BK_Origin),
      t_capability = (\<lambda>_. capability_new BK_Origin (flags_union CF_SHARED CF_AUTHORITATIVE) OS_Healthy DC_Delegated),
      t_eviction_candidate = default_eviction_candidate, t_capacity = default_tier_capacity,
      t_remove_if_address = default_remove_if_address,
      t_get = (\<lambda>now key s. answer (origin_get codec now key s)),
      t_set = (\<lambda>now key v ttl s. answer (origin_set codec now key v ttl s)),
      t_remove = (\<lambda>now key s. answer (origin_remove now key s)),
      t_contains = (\<lambda>now key s. answer (origin_contains now key s)),
      t_health = (\<lambda>now s. health_read (og_health s)), t_tier_id = L5\<rparr>"

subsection \<open>Oxigraph\<close>

datatype quad_object = Literal string | OtherTerm

record quad =
  qd_subject :: string
  qd_predicate :: string
  qd_object :: quad_object

text \<open>The calls on the store, and which strings the library accepts as an IRI.\<close>

record 's quad_api =
  xa_valid_iri :: "string \<Rightarrow> bool"
  xa_quads :: "string \<Rightarrow> 's \<Rightarrow> quad store_result list"
  xa_insert :: "quad \<Rightarrow> 's \<Rightarrow> unit store_result \<times> 's"
  xa_remove :: "quad \<Rightarrow> 's \<Rightarrow> unit store_result \<times> 's"

definition ENTRY_NS :: string where
  "ENTRY_NS = ''urn:thesix:entry:''"

definition VALUE_PRED :: string where
  "VALUE_PRED = ''urn:thesix:value''"

definition map_store_error :: "unit \<Rightarrow> cache_error" where
  "map_store_error e = PopulationFailed"

definition oxigraph_new :: "'s store_result \<Rightarrow> 's result" where
  "oxigraph_new made = (case made of Inl e \<Rightarrow> Err (map_store_error e) | Inr store \<Rightarrow> Ok store)"

definition named_node :: "'s quad_api \<Rightarrow> string \<Rightarrow> string result" where
  "named_node api iri = (if xa_valid_iri api iri then Ok iri else Err (map_store_error ()))"

definition subject_for :: "'s quad_api \<Rightarrow> bytes \<Rightarrow> string result" where
  "subject_for api key = named_node api (ENTRY_NS @ hex_encode key)"

definition value_predicate :: "'s quad_api \<Rightarrow> string result" where
  "value_predicate api = named_node api VALUE_PRED"

fun find_in :: "string \<Rightarrow> quad store_result list \<Rightarrow> string option result" where
  "find_in subject [] = Ok None"
| "find_in subject (found # rest) =
     (case found of
        Inl e \<Rightarrow> Err (map_store_error e)
      | Inr q \<Rightarrow>
          if qd_subject q = subject
          then Ok (Some (case qd_object q of Literal l \<Rightarrow> l | OtherTerm \<Rightarrow> []))
          else find_in subject rest)"

definition find_value :: "'s quad_api \<Rightarrow> bytes \<Rightarrow> 's \<Rightarrow> string option result" where
  "find_value api key s =
     try_then (subject_for api key) (\<lambda>subject. find_in subject (xa_quads api subject s))"

definition oxigraph_get :: "'s quad_api \<Rightarrow> 'v byte_codec \<Rightarrow> bytes \<Rightarrow> 's \<Rightarrow> 'v option result" where
  "oxigraph_get api codec key s =
     try_then (find_value api key s) (\<lambda>found.
       case found of
         None \<Rightarrow> Ok None
       | Some encoded \<Rightarrow>
           try_then (hex_decode encoded) (\<lambda>bytes.
           try_then (bv_decode codec bytes) (\<lambda>v. Ok (Some v))))"

definition oxigraph_set :: "'s quad_api \<Rightarrow> 'v byte_codec \<Rightarrow> bytes \<Rightarrow> 'v \<Rightarrow> 's \<Rightarrow> unit result \<times> 's" where
  "oxigraph_set api codec key v s =
     (case try_then (bv_encode codec v) (\<lambda>bytes.
             try_then (subject_for api key) (\<lambda>subject.
             try_then (value_predicate api) (\<lambda>predicate.
               Ok \<lparr>qd_subject = subject, qd_predicate = predicate, qd_object = Literal (hex_encode bytes)\<rparr>))) of
        Inl e \<Rightarrow> (Err e, s)
      | Inr quad \<Rightarrow>
          (case xa_remove api quad s of
             (Inl e, s1) \<Rightarrow> (Err (map_store_error e), s1)
           | (Inr _, s1) \<Rightarrow>
               (case xa_insert api quad s1 of
                  (Inl e, s2) \<Rightarrow> (Err (map_store_error e), s2)
                | (Inr _, s2) \<Rightarrow> (Ok (), s2))))"

fun collect_quads :: "quad store_result list \<Rightarrow> quad list result" where
  "collect_quads [] = Ok []"
| "collect_quads (Inl e # rest) = Err (map_store_error e)"
| "collect_quads (Inr q # rest) = try_then (collect_quads rest) (\<lambda>qs. Ok (q # qs))"

fun remove_quads :: "'s quad_api \<Rightarrow> quad list \<Rightarrow> 's \<Rightarrow> unit result \<times> 's" where
  "remove_quads api [] s = (Ok (), s)"
| "remove_quads api (q # qs) s =
     (case xa_remove api q s of
        (Inl e, s') \<Rightarrow> (Err (map_store_error e), s')
      | (Inr _, s') \<Rightarrow> remove_quads api qs s')"

definition oxigraph_remove :: "'s quad_api \<Rightarrow> bytes \<Rightarrow> 's \<Rightarrow> unit result \<times> 's" where
  "oxigraph_remove api key s =
     (case try_then (subject_for api key) (\<lambda>subject. collect_quads (xa_quads api subject s)) of
        Inl e \<Rightarrow> (Err e, s)
      | Inr to_remove \<Rightarrow> remove_quads api to_remove s)"

definition oxigraph_contains :: "'s quad_api \<Rightarrow> bytes \<Rightarrow> 's \<Rightarrow> bool result" where
  "oxigraph_contains api key s = try_then (find_value api key s) (\<lambda>x. Ok (x \<noteq> None))"

definition oxigraph_ops :: "'s quad_api \<Rightarrow> 'v byte_codec \<Rightarrow> ('s, 'v) tier_ops" where
  "oxigraph_ops api codec =
     \<lparr>t_name = (\<lambda>_. ''L5-oxigraph''), t_backend = (\<lambda>_. BK_Oxigraph),
      t_capability = (\<lambda>_. capability_new BK_Oxigraph CF_BLOCKING_IO OS_Healthy DC_Volatile),
      t_eviction_candidate = default_eviction_candidate, t_capacity = default_tier_capacity,
      t_remove_if_address = default_remove_if_address,
      t_get = (\<lambda>now key s. (Returns (oxigraph_get api codec key s), s)),
      t_set = (\<lambda>now key v ttl s. answer (oxigraph_set api codec key v s)),
      t_remove = (\<lambda>now key s. answer (oxigraph_remove api key s)),
      t_contains = (\<lambda>now key s. (Returns (oxigraph_contains api key s), s)),
      t_health = (\<lambda>now s. default_health), t_tier_id = L5\<rparr>"

end
