(* ===== verification/Backend_Properties.thy ===== *)
theory Backend_Properties
  imports Backends
begin

section \<open>What the adapters promise\<close>

text \<open>
  The sled rung over any tree that answers a read with the last insert: read your write, agreement of
  \<open>get\<close> and \<open>contains\<close>, detection of damage. Then three places where an adapter breaks what a rung
  promises: a sub-second TTL on Redis, a write to an origin without a writer, and a second write to
  Oxigraph.
\<close>

subsection \<open>sled\<close>

text \<open>
  The documented behaviour of a tree that is relied on: after a successful insert a read returns the
  inserted bytes, after a successful removal nothing, and other keys are not affected.
\<close>

definition tree_laws :: "'t tree_api \<Rightarrow> bool" where
  "tree_laws api \<longleftrightarrow>
     (\<forall>k v t old t'. ta_insert api k v t = (Inr old, t') \<longrightarrow>
        ta_get api k t' = Inr (Some v) \<and> (\<forall>k'. k' \<noteq> k \<longrightarrow> ta_get api k' t' = ta_get api k' t)) \<and>
     (\<forall>k t old t'. ta_remove api k t = (Inr old, t') \<longrightarrow>
        ta_get api k t' = Inr None \<and> (\<forall>k'. k' \<noteq> k \<longrightarrow> ta_get api k' t' = ta_get api k' t))"

lemma sled_get_cong: "ta_get api k (sb_tree b) = ta_get api k (sb_tree b') \<Longrightarrow>
    fst (sled_get api codec now k b) = fst (sled_get api codec now k b')"
  by (auto simp: sled_get_def split: sum.splits option.splits)

text \<open>\<open>contains\<close> says what \<open>get\<close> says, on every tree and every record.\<close>

lemma sled_contains_agrees:
  "fst (sled_contains api codec now k b) =
     (case fst (sled_get api codec now k b) of Inl e \<Rightarrow> Inl e | Inr x \<Rightarrow> Ok (x \<noteq> None))"
  by (auto simp: sled_get_def sled_contains_def split: sum.splits option.splits)

lemma sled_tree_health [simp]: "sb_tree (sled_succeed b) = sb_tree b" "sb_tree (sled_fail now b) = sb_tree b"
  by (simp_all add: sled_succeed_def sled_fail_def)

lemma sled_set_stored:
  assumes "tree_laws api" "sled_set api codec now key v ttl b = (Ok (), b')"
  obtains payload where "bv_encode codec v = Ok payload"
    "ta_get api key (sb_tree b') = Inr (Some (encode_record (record_deadline (millis_of now) ttl) payload))"
    "\<forall>k. k \<noteq> key \<longrightarrow> ta_get api k (sb_tree b') = ta_get api k (sb_tree b)"
  using assms
  by (auto simp: sled_set_def finish_mutation_def tree_laws_def Let_def split: sum.splits prod.splits)

text \<open>The hook that flips a payload byte really changes what is stored.\<close>

lemma corrupt_decodes_corrupted:
  assumes "offset < length payload" "\<not> record_is_expired now_ms d"
  shows "decode_record codec now_ms ((encode_record d payload)
      [PREFIX_LEN + offset := encode_record d payload ! (PREFIX_LEN + offset) XOR 0xff]) = Err Corrupted"
proof -
  let ?frame = "to_le_bytes EXPIRY_LEN d @ to_le_bytes DIGEST_LEN (digest_of_bytes payload)"
  have len: "length ?frame = PREFIX_LEN" by (simp add: record_lens)
  have split: "payload = take offset payload @ payload ! offset # drop (Suc offset) payload"
    using assms(1) by (rule id_take_nth_drop)
  have "(encode_record d payload)[PREFIX_LEN + offset := encode_record d payload ! (PREFIX_LEN + offset) XOR 0xff] =
      ?frame @ payload[offset := payload ! offset XOR 0xff]"
    using len by (simp add: encode_record_def list_update_append nth_append record_lens)
  moreover have "payload[offset := payload ! offset XOR 0xff] =
      take offset payload @ (payload ! offset XOR 0xff) # drop (Suc offset) payload"
    using assms(1) by (rule upd_conv_take_nth_drop)
  moreover have "digest_of_bytes (take offset payload @ (payload ! offset XOR 0xff) # drop (Suc offset) payload) \<noteq>
      digest_of_bytes payload"
    by (subst (4) split) (simp add: digest_one_byte byte_flip)
  ultimately show ?thesis using assms(2) by (simp add: decode_framed)
qed

text \<open>
  C34: The sled rung keeps what it stores. Over any tree that answers a read with the last insert and
  any codec that round-trips: after a successful write, a read returns the value until the
  millisecond deadline of its TTL and nothing afterwards, \<open>contains\<close> agrees, and other keys read as
  before. If a byte of the stored payload is flipped meanwhile, both report corruption until the
  deadline; the damaged bytes are never decoded.
\<close>

theorem sled_keeps_what_it_stores:
  assumes "tree_laws api" "codec_roundtrips codec" "sled_set api codec now key v ttl b = (Ok (), b')"
    and "gone = record_is_expired (millis_of now') (record_deadline (millis_of now) ttl)"
  shows "fst (sled_get api codec now' key b') = Ok (if gone then None else Some v) \<and>
    fst (sled_contains api codec now' key b') = Ok (\<not> gone) \<and>
    (k \<noteq> key \<longrightarrow> fst (sled_get api codec now' k b') = fst (sled_get api codec now' k b)) \<and>
    (corrupt_payload_for_test api key offset b' = (True, b'') \<and> \<not> gone \<longrightarrow>
      fst (sled_get api codec now' key b'') = Err Corrupted \<and> fst (sled_contains api codec now' key b'') = Err Corrupted)"
proof -
  let ?d = "record_deadline (millis_of now) ttl"
  obtain payload where p: "bv_encode codec v = Ok payload"
    and raw: "ta_get api key (sb_tree b') = Inr (Some (encode_record ?d payload))"
    and rest: "\<forall>k. k \<noteq> key \<longrightarrow> ta_get api k (sb_tree b') = ta_get api k (sb_tree b)"
    by (rule sled_set_stored [OF assms(1,3)])
  have "decode_record codec (millis_of now') (encode_record ?d payload) =
      (if gone then Ok None else Ok (Some (?d, v)))"
    using assms(2,4) p by (simp add: encode_record_def decode_framed codec_roundtrips_def)
  then have get: "fst (sled_get api codec now' key b') = Ok (if gone then None else Some v)"
    by (simp add: sled_get_def raw)
  moreover have "fst (sled_get api codec now' key b'') = Err Corrupted"
    if c: "corrupt_payload_for_test api key offset b' = (True, b'')" "\<not> gone"
  proof -
    let ?r = "encode_record ?d payload" and ?i = "PREFIX_LEN + offset"
    have long: "?i < length ?r"
      using c(1) by (auto simp: corrupt_payload_for_test_def raw split: if_splits)
    then have off: "offset < length payload" by (simp add: encode_record_def record_lens)
    obtain old t where i: "ta_insert api key (?r[?i := ?r ! ?i XOR 0xff]) (sb_tree b') = (Inr old, t)"
        and b'': "sb_tree b'' = t"
      using c(1) long by (auto simp: corrupt_payload_for_test_def raw Let_def split: prod.splits sum.splits)
    have "ta_get api key (sb_tree b'') = Inr (Some (?r[?i := ?r ! ?i XOR 0xff]))"
      using assms(1) i b'' unfolding tree_laws_def by blast
    then show ?thesis
      using corrupt_decodes_corrupted [OF off, of "millis_of now'" ?d codec] c(2) assms(4) by (simp add: sled_get_def)
  qed
  ultimately show ?thesis using rest sled_get_cong [of api k b' b codec now'] by (auto simp: sled_contains_agrees)
qed

text \<open>A tree held in memory keeps the laws.\<close>

definition map_tree :: "(bytes \<rightharpoonup> bytes) tree_api" where
  "map_tree =
     \<lparr>ta_get = (\<lambda>k t. Inr (t k)),
      ta_insert = (\<lambda>k v t. (Inr (t k), t(k \<mapsto> v))),
      ta_remove = (\<lambda>k t. (Inr (t k), t(k := None)))\<rparr>"

lemma map_tree_laws: "tree_laws map_tree"
  by (simp add: tree_laws_def map_tree_def)

theorem sled_keeps_what_it_stores_witness:
  "let b = \<lparr>sb_tree = Map.empty, sb_health = new_lock default_health\<rparr>;
       b' = snd (sled_set map_tree vec_codec 0 [1] [7, 8] (Some 5000000) b)
   in fst (sled_get map_tree vec_codec 4000000 [1] b') = Ok (Some [7, 8]) \<and>
      fst (sled_contains map_tree vec_codec 4000000 [1] (snd (corrupt_payload_for_test map_tree [1] 1 b'))) = Err Corrupted"
proof -
  let ?b = "\<lparr>sb_tree = Map.empty, sb_health = new_lock default_health\<rparr>"
  let ?b' = "snd (sled_set map_tree vec_codec 0 [1] [7, 8] (Some 5000000) ?b)"
  let ?b'' = "snd (corrupt_payload_for_test map_tree [1] 1 ?b')"
  have set: "sled_set map_tree vec_codec 0 [1] [7, 8] (Some 5000000) ?b = (Ok (), ?b')"
    by (simp add: sled_set_def vec_codec_def map_tree_def finish_mutation_def)
  have gone: "\<not> record_is_expired (millis_of 4000000) (record_deadline (millis_of 0) (Some 5000000))"
    by (simp add: record_is_expired_def record_deadline_def millis_of_def saturating_add_u64_def NO_EXPIRY_def)
  have hook: "corrupt_payload_for_test map_tree [1] 1 ?b' = (True, ?b'')"
    by (simp add: corrupt_payload_for_test_def sled_set_def vec_codec_def map_tree_def finish_mutation_def
        Let_def encode_record_def record_lens sled_succeed_def)
  show ?thesis
    using sled_keeps_what_it_stores [OF map_tree_laws vec_codec_roundtrips set refl,
        where now' = 4000000 and k = "[1]" and offset = 1 and b'' = ?b''] gone hook
    unfolding Let_def by simp
qed

subsection \<open>Redis\<close>

text \<open>
  The deadline goes to Redis in whole seconds, so a shorter TTL is sent as zero, and Redis refuses
  an expiry of zero: every such write fails and costs the rung a tenth of its health.
\<close>

lemma redis_subsecond_ttl_refused:
  assumes "\<forall>now k v c. ra_set_ex api now k v 0 c = (Inl (), c)"
    and "bv_encode codec v = Ok bytes" "\<not> lk_poisoned (rb_conn b)" "ttl < 1000000000"
  shows "redis_set api codec now key v (Some ttl) b = (Err TierUnavailable, b\<lparr>rb_health := health_fail now (rb_health b)\<rparr>)"
  using assms by (simp add: redis_set_def redis_call_def redis_finish_def)

text \<open>An error of the store is the only way a call turns the rung's health down.\<close>

lemma redis_call_health:
  assumes "redis_call now f b = (r, b')" "\<not> lk_poisoned (rb_conn b)"
  shows "rb_health b' = (if is_ok r then health_succeed (rb_health b) else health_fail now (rb_health b))"
  using assms by (auto simp: redis_call_def redis_finish_def is_ok_def split: prod.splits sum.splits)

lemma health_fail_bounded:
  assumes "0 \<le> health_score (lk_value l)" "health_score (lk_value l) \<le> 1"
  shows "0 \<le> health_score (lk_value (health_fail now l)) \<and> health_score (lk_value (health_fail now l)) \<le> 1"
  using assms by (simp add: health_fail_def max_def)

subsection \<open>The origin\<close>

text \<open>
  Without a writer a write is acknowledged and dropped. With one, a removal is a write of the empty
  payload, which an origin that stores what it is given then serves as a value.
\<close>

lemma origin_set_without_writer_loses:
  "og_writer b = None \<Longrightarrow> origin_set codec now key v ttl b = (Ok (), b) \<and> origin_remove now key b = (Ok (), b)"
  by (simp add: origin_set_def origin_remove_def)

lemma origin_remove_leaves_empty_value:
  assumes "og_writer b = Some (\<lambda>k bytes ttl t. (Ok (), t(k \<mapsto> bytes)))" "og_fetcher b = (\<lambda>k t. (Ok (t k), t))"
  shows "fst (origin_get vec_codec now' key (snd (origin_remove now key b))) = Ok (Some [])"
  using assms by (simp add: origin_remove_def origin_get_def origin_call_def vec_codec_def)

subsection \<open>Oxigraph\<close>

text \<open>
  The documented behaviour of the store, for the set of quads it holds: insertion and removal are of
  the given quad, and a pattern with a subject lists the quads with that subject.
\<close>

definition quad_laws :: "'s quad_api \<Rightarrow> ('s \<Rightarrow> quad set) \<Rightarrow> bool" where
  "quad_laws api contents \<longleftrightarrow>
     (\<forall>q s s'. xa_insert api q s = (Inr (), s') \<longrightarrow> contents s' = insert q (contents s)) \<and>
     (\<forall>q s s'. xa_remove api q s = (Inr (), s') \<longrightarrow> contents s' = contents s - {q}) \<and>
     (\<forall>subject s. set (xa_quads api subject s) \<subseteq> insert (Inl ()) (Inr ` {q \<in> contents s. qd_subject q = subject})) \<and>
     (\<forall>subject s. Inl () \<notin> set (xa_quads api subject s) \<longrightarrow>
        Inr ` {q \<in> contents s. qd_subject q = subject} \<subseteq> set (xa_quads api subject s))"

lemma quad_lawsD:
  assumes "quad_laws api contents"
  shows "xa_insert api q s = (Inr (), s') \<Longrightarrow> contents s' = insert q (contents s)"
    and "xa_remove api q s = (Inr (), s') \<Longrightarrow> contents s' = contents s - {q}"
    and "set (xa_quads api subject s) \<subseteq> insert (Inl ()) (Inr ` {q \<in> contents s. qd_subject q = subject})"
    and "Inl () \<notin> set (xa_quads api subject s) \<Longrightarrow>
      Inr ` {q \<in> contents s. qd_subject q = subject} \<subseteq> set (xa_quads api subject s)"
  using assms by (simp_all add: quad_laws_def)

definition entry_quad :: "bytes \<Rightarrow> bytes \<Rightarrow> quad" where
  "entry_quad key bytes =
     \<lparr>qd_subject = ENTRY_NS @ hex_encode key, qd_predicate = VALUE_PRED, qd_object = Literal (hex_encode bytes)\<rparr>"

text \<open>A successful write removes the new quad before it adds it, so it only ever adds.\<close>

lemma oxigraph_set_quad:
  assumes "bv_encode codec v = Ok bytes" "oxigraph_set api codec key v s = (Ok (), s')"
  obtains s1 where "xa_remove api (entry_quad key bytes) s = (Inr (), s1)"
    "xa_insert api (entry_quad key bytes) s1 = (Inr (), s')"
proof -
  have "named_node api VALUE_PRED = Ok VALUE_PRED \<and>
      named_node api (ENTRY_NS @ hex_encode key) = Ok (ENTRY_NS @ hex_encode key)"
    using assms by (simp add: oxigraph_set_def subject_for_def value_predicate_def named_node_def split: if_splits)
  then have "(case xa_remove api (entry_quad key bytes) s of
      (Inl e, s1) \<Rightarrow> (Err (map_store_error e), s1)
    | (Inr _, s1) \<Rightarrow> (case xa_insert api (entry_quad key bytes) s1 of
        (Inl e, s2) \<Rightarrow> (Err (map_store_error e), s2) | (Inr _, s2) \<Rightarrow> (Ok (), s2))) = (Ok (), s')"
    using assms unfolding oxigraph_set_def subject_for_def value_predicate_def entry_quad_def by simp
  then show ?thesis using that by (auto split: prod.splits sum.splits)
qed

lemma oxigraph_set_contents:
  assumes "quad_laws api contents" "bv_encode codec v = Ok bytes" "oxigraph_set api codec key v s = (Ok (), s')"
  shows "contents s' = insert (entry_quad key bytes) (contents s)"
proof -
  obtain s1 where "xa_remove api (entry_quad key bytes) s = (Inr (), s1)"
    "xa_insert api (entry_quad key bytes) s1 = (Inr (), s')"
    by (rule oxigraph_set_quad [OF assms(2,3)])
  then show ?thesis using quad_lawsD(1,2) [OF assms(1)] by simp
qed

lemma find_in_spec:
  assumes "find_in subject qs = Ok (Some x)"
  obtains q where "Inr q \<in> set qs" "qd_subject q = subject" "x = (case qd_object q of Literal l \<Rightarrow> l | OtherTerm \<Rightarrow> [])"
  using assms by (induction qs) (auto split: sum.splits if_splits)

lemma find_in_none:
  "find_in subject qs = Ok None \<Longrightarrow> Inl () \<notin> set qs \<and> (\<forall>q. Inr q \<in> set qs \<longrightarrow> qd_subject q \<noteq> subject)"
  by (induction qs) (auto split: sum.splits if_splits)

lemma oxigraph_set_accumulates:
  assumes "quad_laws api contents" "bv_encode codec v = Ok bs" "bv_encode codec w = Ok cs"
    and "oxigraph_set api codec key v s = (Ok (), s1)" "oxigraph_set api codec key w s1 = (Ok (), s2)"
  shows "{entry_quad key bs, entry_quad key cs} \<subseteq> contents s2"
  using oxigraph_set_contents [OF assms(1,2,4)] oxigraph_set_contents [OF assms(1,3,5)] by simp

text \<open>On a key with no quads the write is read back.\<close>

lemma oxigraph_fresh_write_read_back:
  assumes "quad_laws api contents" "codec_roundtrips codec" "bv_encode codec v = Ok bs"
    and fresh: "\<forall>q \<in> contents s. qd_subject q \<noteq> ENTRY_NS @ hex_encode key"
    and set: "oxigraph_set api codec key v s = (Ok (), s')" and got: "oxigraph_get api codec key s' = Ok x"
  shows "x = Some v"
proof -
  let ?subject = "ENTRY_NS @ hex_encode key"
  let ?qs = "xa_quads api ?subject s'"
  have only: "{q \<in> contents s'. qd_subject q = ?subject} = {entry_quad key bs}"
    using fresh oxigraph_set_contents [OF assms(1,3) set] by (auto simp: entry_quad_def)
  have listed: "set ?qs \<subseteq> {Inl (), Inr (entry_quad key bs)}" "Inl () \<notin> set ?qs \<longrightarrow> Inr (entry_quad key bs) \<in> set ?qs"
    using quad_lawsD(3,4) [OF assms(1), of ?subject s'] only by simp_all
  obtain found where f: "find_in ?subject ?qs = Ok found"
      and x: "(case found of None \<Rightarrow> Ok None | Some encoded \<Rightarrow>
        try_then (hex_decode encoded) (\<lambda>bytes. try_then (bv_decode codec bytes) (\<lambda>v. Ok (Some v)))) = Ok x"
    using got unfolding oxigraph_get_def find_value_def subject_for_def named_node_def
    by (cases "find_in ?subject ?qs") (auto split: if_splits)
  show ?thesis
  proof (cases found)
    case None
    then show ?thesis using find_in_none [of ?subject ?qs] f listed(2) by (auto simp: entry_quad_def)
  next
    case (Some encoded)
    then obtain q where "Inr q \<in> set ?qs" "encoded = (case qd_object q of Literal l \<Rightarrow> l | OtherTerm \<Rightarrow> [])"
      using f find_in_spec [of ?subject ?qs encoded] by auto
    then have "encoded = hex_encode bs" using listed(1) by (auto simp: entry_quad_def)
    then show ?thesis
      using x Some assms(2,3) by (simp add: hex_roundtrip codec_roundtrips_def)
  qed
qed

text \<open>A store that lists its quads in the order they came in serves the overwritten value.\<close>

definition list_store :: "quad list quad_api" where
  "list_store =
     \<lparr>xa_valid_iri = (\<lambda>_. True),
      xa_quads = (\<lambda>subject s. map Inr (filter (\<lambda>q. qd_subject q = subject) s)),
      xa_insert = (\<lambda>q s. (Inr (), if q \<in> set s then s else s @ [q])),
      xa_remove = (\<lambda>q s. (Inr (), removeAll q s))\<rparr>"

lemma list_store_laws: "quad_laws list_store set"
  by (auto simp: quad_laws_def list_store_def split: if_splits)

lemma oxigraph_serves_overwritten:
  "let s1 = snd (oxigraph_set list_store vec_codec [1] [7] []);
       (r, s2) = oxigraph_set list_store vec_codec [1] [9] s1
   in r = Ok () \<and> oxigraph_get list_store vec_codec [1] s2 = Ok (Some [7])"
  by code_simp

end
