(* ===== verification/Test_Kit.thy ===== *)
theory Test_Kit
  imports Fault Record_Codec Manager_Logic
begin

section \<open>The rungs of the test kit (\<open>testkit/src/lib.rs\<close>)\<close>

text \<open>
  The instruments the repository's own tests rely on: rungs that wrap another rung and count, stall,
  fail by a plan or misreport, and the builders of managers over them. A wrapper is a method table over
  a record that holds the wrapped rung's state. A sleep before a forwarded call moves the instant of
  that call. The mutex around a plan is never poisoned, because nothing panics while it is held.
  \<open>ThiefTier\<close>, which calls the manager from inside a rung, is in the theory \<open>Thief_Tier\<close>.
\<close>

subsection \<open>Contexts and builders\<close>

definition ascii_bytes :: "string \<Rightarrow> bytes" where
  "ascii_bytes s = map of_char s"

definition ctx_for_tenant :: "bytes \<Rightarrow> cache_context" where
  "ctx_for_tenant t =
     context_new \<lparr>principal = ascii_bytes ''test-principal'', roles = [ascii_bytes ''tester''], tenant = t\<rparr>"

definition test_ctx :: cache_context where
  "test_ctx = ctx_for_tenant (ascii_bytes ''test-tenant'')"

definition anon_ctx :: cache_context where
  "anon_ctx = context_anonymous"

definition try_framed_key :: "cache_context \<Rightarrow> bytes \<Rightarrow> bytes option" where
  "try_framed_key ctx key =
     (if length key > MAX_KEY_SIZE then None
      else case frame_tenant_key (tenant (ctx_identity ctx)) key (replicate MAX_KEY_SIZE 0) of
        Inr (n, buf) \<Rightarrow> Some (take n buf)
      | Inl _ \<Rightarrow> None)"

definition default_tiers :: "(bytes \<Rightarrow> u64) \<Rightarrow> ('v \<Rightarrow> content_digest) \<Rightarrow> ('v sharded_tier, 'v) tier_ops list" where
  "default_tiers hasher dg =
     [l0_ops hasher dg, l1_ops hasher dg, l2_ops hasher dg, l3_ops hasher dg, l4_ops hasher dg, l5_ops hasher dg]"

definition manager_from_tiers ::
  "(bytes, 'v) cache_policy \<Rightarrow> ('s, 'v) tier_ops list \<Rightarrow> duration \<Rightarrow> ('s, 'v) manager"
where
  "manager_from_tiers policy tiers timeout = manager_with_timeout policy tiers timeout"

definition make_manager_with_timeout ::
  "(bytes \<Rightarrow> u64) \<Rightarrow> ('v \<Rightarrow> content_digest) \<Rightarrow> (bytes, 'v) cache_policy \<Rightarrow> duration \<Rightarrow> ('v sharded_tier, 'v) manager"
where
  "make_manager_with_timeout hasher dg policy timeout = manager_with_timeout policy (default_tiers hasher dg) timeout"

definition make_manager ::
  "(bytes \<Rightarrow> u64) \<Rightarrow> ('v \<Rightarrow> content_digest) \<Rightarrow> (bytes, 'v) cache_policy \<Rightarrow> ('v sharded_tier, 'v) manager"
where
  "make_manager hasher dg policy = make_manager_with_timeout hasher dg policy 5000000000"

text \<open>
  A manager keeps its control plane and its sink in the world; these builders answer the manager
  together with the part of the world that they choose.
\<close>

definition manager_from_parts ::
  "(bytes, 'v) cache_policy \<Rightarrow> cachelito \<Rightarrow> ('s, 'v) tier_ops list \<Rightarrow> duration \<Rightarrow> ('s, 'v) manager \<times> cachelito"
where
  "manager_from_parts policy plane tiers timeout = (manager_with_timeout policy tiers timeout, plane)"

definition manager_with_telemetry ::
  "(bytes \<Rightarrow> u64) \<Rightarrow> ('v \<Rightarrow> content_digest) \<Rightarrow> 't sink \<Rightarrow> duration \<Rightarrow> ('v sharded_tier, 'v) manager \<times> 't sink"
where
  "manager_with_telemetry hasher dg sink timeout =
     (manager_with_timeout default_select (default_tiers hasher dg) timeout, sink)"

text \<open>\<open>tiers[slot] = build()\<close> panics past the end.\<close>

definition ladder_with ::
  "(bytes \<Rightarrow> u64) \<Rightarrow> ('v \<Rightarrow> content_digest) \<Rightarrow> nat \<Rightarrow> ('v sharded_tier, 'v) tier_ops
     \<Rightarrow> ('v sharded_tier, 'v) tier_ops list option"
where
  "ladder_with hasher dg slot built =
     (if slot < length (default_tiers hasher dg) then Some ((default_tiers hasher dg)[slot := built]) else None)"

definition address_via_manager_fingerprint :: "bytes \<Rightarrow> key_address" where
  "address_via_manager_fingerprint key = address_of PlaceDefault key"

subsection \<open>Counting, stating, stalling and misreporting\<close>

record tally =
  ty_reads :: u64
  ty_writes :: u64
  ty_removes :: u64
  ty_contains :: u64

definition tally_default :: tally where
  "tally_default = \<lparr>ty_reads = 0, ty_writes = 0, ty_removes = 0, ty_contains = 0\<rparr>"

definition tally_total :: "tally \<Rightarrow> u64" where
  "tally_total t = ty_reads t + ty_writes t + ty_removes t + ty_contains t"

text \<open>A call of the wrapped rung with a change to what the wrapper keeps beside it.\<close>

definition beside :: "('c \<Rightarrow> 'c) \<Rightarrow> ('s \<Rightarrow> 'r \<times> 's) \<Rightarrow> 's \<times> 'c \<Rightarrow> 'r \<times> ('s \<times> 'c)" where
  "beside note_call call sc = (case call (fst sc) of (r, s) \<Rightarrow> (r, (s, note_call (snd sc))))"

definition recording_ops :: "('s, 'v) tier_ops \<Rightarrow> ('s \<times> tally, 'v) tier_ops" where
  "recording_ops ops =
     \<lparr>t_name = (\<lambda>s. t_name ops (fst s)), t_backend = (\<lambda>s. t_backend ops (fst s)),
      t_capability = (\<lambda>s. default_capability (t_backend ops (fst s))),
      t_eviction_candidate = default_eviction_candidate, t_capacity = default_tier_capacity,
      t_remove_if_address = default_remove_if_address,
      t_get = (\<lambda>now k. beside (ty_reads_update (\<lambda>n. n + 1)) (t_get ops now k)),
      t_set = (\<lambda>now k v ttl. beside (ty_writes_update (\<lambda>n. n + 1)) (t_set ops now k v ttl)),
      t_remove = (\<lambda>now k. beside (ty_removes_update (\<lambda>n. n + 1)) (t_remove ops now k)),
      t_contains = (\<lambda>now k. beside (ty_contains_update (\<lambda>n. n + 1)) (t_contains ops now k)),
      t_health = (\<lambda>now s. t_health ops now (fst s)), t_tier_id = t_tier_id ops\<rparr>"

definition record_all :: "(('s, 'v) tier_ops \<times> 's) list \<Rightarrow> (('s \<times> tally, 'v) tier_ops \<times> 's \<times> tally) list" where
  "record_all tiers = map (\<lambda>(ops, s). (recording_ops ops, s, tally_default)) tiers"

definition stated_ops :: "operational_state \<Rightarrow> ('s, 'v) tier_ops \<Rightarrow> ('s, 'v) tier_ops" where
  "stated_ops state ops =
     ops\<lparr>t_name := (\<lambda>s. ''stated-'' @ t_name ops s),
         t_capability := (\<lambda>s. (t_capability ops s)\<lparr>tc_state := state\<rparr>),
         t_eviction_candidate := default_eviction_candidate, t_capacity := default_tier_capacity,
         t_remove_if_address := default_remove_if_address\<rparr>"

definition stall :: "'s \<times> u64 \<Rightarrow> 'r reply \<times> ('s \<times> u64)" where
  "stall s = (Hangs, (fst s, snd s + 1))"

definition hanging_ops :: "('s, 'v) tier_ops \<Rightarrow> ('s \<times> u64, 'v) tier_ops" where
  "hanging_ops ops =
     \<lparr>t_name = (\<lambda>_. ''hanging''), t_backend = (\<lambda>_. BK_Test), t_capability = (\<lambda>_. default_capability BK_Test),
      t_eviction_candidate = default_eviction_candidate, t_capacity = default_tier_capacity,
      t_remove_if_address = default_remove_if_address,
      t_get = (\<lambda>now k. stall), t_set = (\<lambda>now k v ttl. stall), t_remove = (\<lambda>now k. stall),
      t_contains = (\<lambda>now k. stall), t_health = (\<lambda>_ _. default_health), t_tier_id = t_tier_id ops\<rparr>"

record 's misreporting =
  ms_inner :: 's
  ms_next :: bool
  ms_stored :: u64

definition misreport_next :: "'s misreporting \<Rightarrow> 's misreporting" where
  "misreport_next m = m\<lparr>ms_next := True\<rparr>"

definition ms_through :: "('s \<Rightarrow> 'r \<times> 's) \<Rightarrow> 's misreporting \<Rightarrow> 'r \<times> 's misreporting" where
  "ms_through call m = (case call (ms_inner m) of (r, s) \<Rightarrow> (r, m\<lparr>ms_inner := s\<rparr>))"

definition misreporting_set ::
  "('s, 'v) tier_ops \<Rightarrow> instant \<Rightarrow> bytes \<Rightarrow> 'v \<Rightarrow> duration option \<Rightarrow> 's misreporting \<Rightarrow> unit reply \<times> 's misreporting"
where
  "misreporting_set ops now k v ttl m =
     (if ms_next m
      then (case ms_through (t_set ops now k v ttl) (m\<lparr>ms_next := False\<rparr>) of
              (Returns (Inr _), m') \<Rightarrow> (Returns (Err TierUnavailable), m'\<lparr>ms_stored := ms_stored m' + 1\<rparr>)
            | other \<Rightarrow> other)
      else ms_through (t_set ops now k v ttl) m)"

definition misreporting_ops :: "('s, 'v) tier_ops \<Rightarrow> ('s misreporting, 'v) tier_ops" where
  "misreporting_ops ops =
     \<lparr>t_name = (\<lambda>m. ''misreporting-'' @ t_name ops (ms_inner m)), t_backend = (\<lambda>_. BK_Test),
      t_capability = (\<lambda>_. default_capability BK_Test),
      t_eviction_candidate = default_eviction_candidate, t_capacity = default_tier_capacity,
      t_remove_if_address = default_remove_if_address,
      t_get = (\<lambda>now k. ms_through (t_get ops now k)), t_set = misreporting_set ops,
      t_remove = (\<lambda>now k. ms_through (t_remove ops now k)),
      t_contains = (\<lambda>now k. ms_through (t_contains ops now k)),
      t_health = (\<lambda>now m. t_health ops now (ms_inner m)), t_tier_id = t_tier_id ops\<rparr>"

subsection \<open>Failing by a plan\<close>

record ('s, 'v) faulty =
  fy_inner :: 's
  fy_plan :: fault_plan
  fy_ledger :: fault_ledger
  fy_remaining_ok :: u64
  fy_withholds_atomicity :: bool
  fy_window_armed :: bool
  fy_corrupt_next :: bool
  fy_corruptor :: "('v \<Rightarrow> 'v) option"

definition faulty_with_plan :: "'s \<Rightarrow> fault_plan \<Rightarrow> ('s, 'v) faulty" where
  "faulty_with_plan inner plan =
     \<lparr>fy_inner = inner, fy_plan = plan, fy_ledger = ledger_new, fy_remaining_ok = 0,
      fy_withholds_atomicity = True, fy_window_armed = False, fy_corrupt_next = False, fy_corruptor = None\<rparr>"

definition faulty_wrap :: "'s \<Rightarrow> ('s, 'v) faulty" where
  "faulty_wrap inner = faulty_with_plan inner plan_new"

definition with_corruptor :: "'s \<Rightarrow> fault_plan \<Rightarrow> ('v \<Rightarrow> 'v) \<Rightarrow> ('s, 'v) faulty" where
  "with_corruptor inner plan corruptor = (faulty_with_plan inner plan)\<lparr>fy_corruptor := Some corruptor\<rparr>"

definition faulty_arm :: "fault_plan \<Rightarrow> ('s, 'v) faulty \<Rightarrow> ('s, 'v) faulty" where
  "faulty_arm plan f = f\<lparr>fy_plan := plan, fy_remaining_ok := 0, fy_window_armed := False\<rparr>"

definition corrupt_next_write :: "('s, 'v) faulty \<Rightarrow> ('s, 'v) faulty" where
  "corrupt_next_write f = f\<lparr>fy_corrupt_next := True\<rparr>"

text \<open>\<open>next_fault\<close>: consume the next fault armed for the operation, unless its window is still open.\<close>

definition fire_fault :: "armed_fault \<Rightarrow> ('s, 'v) faulty \<Rightarrow> (fault_class \<times> u64) option \<times> ('s, 'v) faulty" where
  "fire_fault armed f =
     (Some (af_class armed, af_amount armed), f\<lparr>fy_ledger := ledger_record (af_class armed) (fy_ledger f)\<rparr>)"

definition next_fault :: "op_kind \<Rightarrow> ('s, 'v) faulty \<Rightarrow> (fault_class \<times> u64) option \<times> ('s, 'v) faulty" where
  "next_fault op f0 =
     (case plan_take_for op (fy_plan f0) of
        (taken, plan) \<Rightarrow>
          (let f = f0\<lparr>fy_ledger := ledger_observe_op (fy_ledger f0), fy_plan := plan\<rparr> in
           case taken of
             None \<Rightarrow> (None, f)
           | Some armed \<Rightarrow>
               if af_amount armed > 0 \<and> is_scheduled_failure (af_class armed)
               then (if \<not> fy_window_armed f
                     then (None, f\<lparr>fy_window_armed := True, fy_remaining_ok := saturating_sub_u64 (af_amount armed) 1,
                                   fy_plan := plan_rearm armed plan\<rparr>)
                     else if fy_remaining_ok f \<noteq> 0
                     then (None, f\<lparr>fy_remaining_ok := fy_remaining_ok f - 1, fy_plan := plan_rearm armed plan\<rparr>)
                     else fire_fault armed f)
               else fire_fault armed f))"

fun error_for :: "fault_class \<Rightarrow> cache_error" where
  "error_for FC_Timeout = Timeout"
| "error_for FC_Latency = Timeout"
| "error_for FC_ReadFailure = TierUnavailable"
| "error_for FC_Disconnect = TierUnavailable"
| "error_for FC_WriteFailure = TierUnavailable"
| "error_for FC_MetadataFailure = TierUnavailable"
| "error_for FC_CapacityExhaustion = CapacityExhausted"
| "error_for FC_Corruption = Corrupted"
| "error_for FC_Cancellation = Cancelled"
| "error_for FC_Hang = TierUnavailable"
| "error_for FC_FailureAfterN = TierUnavailable"
| "error_for FC_PartialWrite = WriteIndeterminate"

definition fy_through :: "('s \<Rightarrow> 'r \<times> 's) \<Rightarrow> ('s, 'v) faulty \<Rightarrow> 'r \<times> ('s, 'v) faulty" where
  "fy_through call f = (case call (fy_inner f) of (r, s) \<Rightarrow> (r, f\<lparr>fy_inner := s\<rparr>))"

definition faulty_get ::
  "('s, 'v) tier_ops \<Rightarrow> instant \<Rightarrow> bytes \<Rightarrow> ('s, 'v) faulty \<Rightarrow> 'v option reply \<times> ('s, 'v) faulty"
where
  "faulty_get ops now k f0 =
     (case next_fault Op_Get f0 of
        (Some (FC_Hang, _), f) \<Rightarrow> (Hangs, f)
      | (Some (FC_Latency, _), f) \<Rightarrow> fy_through (t_get ops (now + 5000000) k) f
      | (Some (fault, _), f) \<Rightarrow> (Returns (Err (error_for fault)), f)
      | (None, f) \<Rightarrow> fy_through (t_get ops now k) f)"

definition faulty_set ::
  "('s, 'v) tier_ops \<Rightarrow> instant \<Rightarrow> bytes \<Rightarrow> 'v \<Rightarrow> duration option \<Rightarrow> ('s, 'v) faulty \<Rightarrow> unit reply \<times> ('s, 'v) faulty"
where
  "faulty_set ops now k v ttl f0 =
     (case next_fault Op_Set f0 of
        (Some (FC_Hang, _), f) \<Rightarrow> (Hangs, f)
      | (Some (FC_Latency, amount), f) \<Rightarrow>
          fy_through (t_set ops (now + max (unat amount) 1 * 1000000) k v ttl) f
      | (Some (FC_PartialWrite, _), f) \<Rightarrow>
          (case fy_through (t_set ops now k v ttl) f of
             (Returns (Inr _), f') \<Rightarrow> (Returns (Err (error_for FC_PartialWrite)), f')
           | other \<Rightarrow> other)
      | (Some (fault, _), f) \<Rightarrow> (Returns (Err (error_for fault)), f)
      | (None, f) \<Rightarrow>
          if fy_corrupt_next f
          then (let f = f\<lparr>fy_corrupt_next := False\<rparr> in
                case fy_corruptor f of
                  None \<Rightarrow> fy_through (t_set ops now k v ttl) f
                | Some corruptor \<Rightarrow>
                    fy_through (t_set ops now k (corruptor v) ttl)
                      (f\<lparr>fy_ledger := ledger_record FC_Corruption (fy_ledger f)\<rparr>))
          else fy_through (t_set ops now k v ttl) f)"

text \<open>\<open>remove\<close> and \<open>contains\<close> have the same body around different calls.\<close>

definition faulty_probe ::
  "op_kind \<Rightarrow> ('s \<Rightarrow> 'r reply \<times> 's) \<Rightarrow> ('s, 'v) faulty \<Rightarrow> 'r reply \<times> ('s, 'v) faulty"
where
  "faulty_probe op call f0 =
     (case next_fault op f0 of
        (Some (FC_Hang, _), f) \<Rightarrow> (Hangs, f)
      | (Some (fault, _), f) \<Rightarrow> (Returns (Err (error_for fault)), f)
      | (None, f) \<Rightarrow> fy_through call f)"

definition faulty_capability :: "('s, 'v) tier_ops \<Rightarrow> ('s, 'v) faulty \<Rightarrow> tier_capability" where
  "faulty_capability ops f =
     (let cap = t_capability ops (fy_inner f) in
      if plan_is_empty (fy_plan f) then cap\<lparr>tc_flags := flags_without (tc_flags cap) CF_ATOMIC_WRITE_OR_ERROR\<rparr>
      else cap)"

definition faulty_health :: "('s, 'v) tier_ops \<Rightarrow> instant \<Rightarrow> ('s, 'v) faulty \<Rightarrow> tier_health" where
  "faulty_health ops now f =
     (if fl_ops (fy_ledger f) > 0
      then \<lparr>consecutive_failures = 0, last_failure_timestamp = None, health_score = 1, availability = 1\<rparr>
      else t_health ops now (fy_inner f))"

definition faulty_ops :: "('s, 'v) tier_ops \<Rightarrow> (('s, 'v) faulty, 'v) tier_ops" where
  "faulty_ops ops =
     \<lparr>t_name = (\<lambda>f. ''faulty-'' @ t_name ops (fy_inner f)), t_backend = (\<lambda>_. BK_Test),
      t_capability = faulty_capability ops,
      t_eviction_candidate = default_eviction_candidate, t_capacity = default_tier_capacity,
      t_remove_if_address = default_remove_if_address,
      t_get = faulty_get ops, t_set = faulty_set ops,
      t_remove = (\<lambda>now k. faulty_probe Op_Remove (t_remove ops now k)),
      t_contains = (\<lambda>now k. faulty_probe Op_Contains (t_contains ops now k)),
      t_health = faulty_health ops, t_tier_id = t_tier_id ops\<rparr>"

subsection \<open>Damaging a string\<close>

definition corrupt_string :: "utf8_string \<Rightarrow> utf8_string" where
  "corrupt_string s =
     (let bytes = as_bytes s in
      from_utf8_lossy (if bytes = [] then [0xff] else butlast bytes @ [last bytes XOR 0xff]))"

end
