(* ===== verification/Test_Kit_Properties.thy ===== *)
theory Test_Kit_Properties
  imports Test_Kit
begin

section \<open>What the test kit's instruments do\<close>

text \<open>
  The wrappers are transparent when nothing is armed, a scheduled failure fires after exactly the
  announced number of successes, a fired fault leaves the wrapped rung alone except for the class whose
  point is that it does not, and a damaged string is a different string. Then the places where an
  instrument does not do what its documentation says.
\<close>

subsection \<open>A rung that states another condition keeps its contract\<close>

interpretation stated_stub: rung_contract "stated_ops state (stub_ops hasher dg name b f t)" sharded_wf
  for state and hasher :: "bytes \<Rightarrow> u64" and dg :: "'v \<Rightarrow> content_digest" and name b f t
  by unfold_locales
     (auto simp: stated_ops_def default_eviction_candidate_def default_remove_if_address_def sharded_store.inv_get
        sharded_store.inv_set sharded_store.inv_remove sharded_store.get_after_set sharded_store.set_error)

text \<open>Only the reported state differs from the wrapped rung's.\<close>

lemma stated_ops_report:
  "t_capability (stated_ops state ops) s = (t_capability ops s)\<lparr>tc_state := state\<rparr> \<and>
   t_backend (stated_ops state ops) = t_backend ops \<and> t_get (stated_ops state ops) = t_get ops \<and>
   t_set (stated_ops state ops) = t_set ops \<and> t_health (stated_ops state ops) = t_health ops"
  by (simp add: stated_ops_def)

subsection \<open>Counting\<close>

text \<open>A run of calls, as a list of the kinds of operation and what each does to the wrapped rung.\<close>

datatype 'v rung_call = RGet instant bytes | RSet instant bytes 'v "duration option" | RRemove instant bytes | RContains instant bytes

fun rung_step :: "('s, 'v) tier_ops \<Rightarrow> 'v rung_call \<Rightarrow> 's \<Rightarrow> 's" where
  "rung_step ops (RGet now k) s = snd (t_get ops now k s)"
| "rung_step ops (RSet now k v ttl) s = snd (t_set ops now k v ttl s)"
| "rung_step ops (RRemove now k) s = snd (t_remove ops now k s)"
| "rung_step ops (RContains now k) s = snd (t_contains ops now k s)"

fun is_write :: "'v rung_call \<Rightarrow> bool" where
  "is_write (RSet _ _ _ _) \<longleftrightarrow> True"
| "is_write _ \<longleftrightarrow> False"

lemma recording_step:
  "fst (rung_step (recording_ops ops) c s) = rung_step ops c (fst s) \<and>
   tally_total (snd (rung_step (recording_ops ops) c s)) = tally_total (snd s) + 1 \<and>
   ty_writes (snd (rung_step (recording_ops ops) c s)) = ty_writes (snd s) + (if is_write c then 1 else 0)"
  by (cases c) (simp_all add: recording_ops_def beside_def tally_total_def case_prod_unfold)

lemma recording_exact:
  "fst (fold (rung_step (recording_ops ops)) cs s) = fold (rung_step ops) cs (fst s) \<and>
   tally_total (snd (fold (rung_step (recording_ops ops)) cs s)) = tally_total (snd s) + of_nat (length cs) \<and>
   ty_writes (snd (fold (rung_step (recording_ops ops)) cs s)) = ty_writes (snd s) + of_nat (length (filter is_write cs))"
  by (induction cs arbitrary: s) (simp_all add: recording_step)

subsection \<open>A misreported write leaves residue\<close>

lemma misreport_leaves_residue:
  assumes "rung_contract ops sound" "sound (ms_inner m)"
    and "t_set ops now k v ttl (ms_inner m) = (Returns (Ok ()), s')"
  shows "fst (t_set (misreporting_ops ops) now k v ttl (misreport_next m)) = Returns (Err TierUnavailable) \<and>
    fst (t_get (misreporting_ops ops) now' k (snd (t_set (misreporting_ops ops) now k v ttl (misreport_next m)))) =
      Returns (Ok (if unexpired ttl now now' then Some v else None))"
  using rung_contract.get_after_set [OF assms, of now'] assms(3)
  by (simp add: misreporting_ops_def misreporting_set_def misreport_next_def ms_through_def case_prod_unfold)

subsection \<open>A scheduled failure\<close>

fun fault_run :: "op_kind \<Rightarrow> nat \<Rightarrow> ('s, 'v) faulty \<Rightarrow> (fault_class \<times> u64) option list \<times> ('s, 'v) faulty" where
  "fault_run op 0 f = ([], f)"
| "fault_run op (Suc k) f =
     (case next_fault op f of (x, f') \<Rightarrow> (case fault_run op k f' of (xs, f'') \<Rightarrow> (x # xs, f'')))"

lemma next_fault_none: "fp_queue (fy_plan f) = [] \<Longrightarrow>
  next_fault op f = (None, f\<lparr>fy_ledger := ledger_observe_op (fy_ledger f)\<rparr>)"
  by (simp add: next_fault_def plan_take_for_def)

lemma fault_run_none: "fp_queue (fy_plan f) = [] \<Longrightarrow> fst (fault_run op k f) = replicate k None"
  by (induction k arbitrary: f) (simp_all add: next_fault_none case_prod_unfold)

text \<open>While the window is open, with \<open>r\<close> successes left.\<close>

definition in_window :: "armed_fault \<Rightarrow> u64 \<Rightarrow> ('s, 'v) faulty \<Rightarrow> bool" where
  "in_window a r f \<longleftrightarrow> fp_queue (fy_plan f) = [a] \<and> fy_window_armed f \<and> fy_remaining_ok f = r"

lemma next_fault_window:
  assumes "in_window a r f" "af_op a = op" "af_amount a > 0" "is_scheduled_failure (af_class a)"
  shows "r \<noteq> 0 \<Longrightarrow> fst (next_fault op f) = None \<and> in_window a (r - 1) (snd (next_fault op f))"
    and "r = 0 \<Longrightarrow> fst (next_fault op f) = Some (af_class a, af_amount a) \<and>
      fp_queue (fy_plan (snd (next_fault op f))) = []"
  using assms by (simp_all add: in_window_def next_fault_def plan_take_for_def plan_rearm_def fire_fault_def)

lemma fault_run_window:
  assumes "in_window a r f" "af_op a = op" "af_amount a > 0" "is_scheduled_failure (af_class a)"
  shows "fst (fault_run op k f) =
    replicate (min k (unat r)) None @
      (if k \<le> unat r then [] else Some (af_class a, af_amount a) # replicate (k - unat r - 1) None)"
  using assms(1)
proof (induction k arbitrary: r f)
  case (Suc k)
  note step = next_fault_window [OF Suc.prems assms(2-4)]
  show ?case
  proof (cases "r = 0")
    case True
    then show ?thesis using step(2) fault_run_none [of "snd (next_fault op f)" op k] by (simp add: case_prod_unfold)
  next
    case False
    then have "unat r = Suc (unat (r - 1))" by (metis Suc_pred' add.commute plus_1_eq_Suc unat_gt_0 unat_minus_one)
    then show ?thesis
      using False step(1) Suc.IH [of "r - 1" "snd (next_fault op f)"] by (simp add: case_prod_unfold)
  qed
qed simp

text \<open>
  \<open>push_after_n\<close> on a fresh wrapper: exactly \<open>n\<close> calls of the operation go through, the next one fires
  the class, and from then on every call goes through again.
\<close>

lemma fault_window_exact:
  assumes "n > 0" "is_scheduled_failure class"
  shows "fst (fault_run op k (faulty_with_plan s (plan_push_after_n op class n plan_new) :: ('s, 'v) faulty)) =
    replicate (min k (unat n)) None @
      (if k \<le> unat n then [] else Some (class, n) # replicate (k - unat n - 1) None)"
proof (cases k)
  case (Suc j)
  let ?f = "faulty_with_plan s (plan_push_after_n op class n plan_new) :: ('s, 'v) faulty"
  let ?a = "\<lparr>af_op = op, af_class = class, af_amount = n\<rparr>"
  have n: "unat n = Suc (unat (n - 1))"
    using assms(1) by (metis Suc_pred' add.commute plus_1_eq_Suc unat_gt_0 unat_minus_one word_gt_0)
  have "\<not> n < 1" using assms(1) by (simp add: word_less_1)
  then have first: "fst (next_fault op ?f) = None" and "in_window ?a (n - 1) (snd (next_fault op ?f))"
    using assms by (simp_all add: next_fault_def faulty_with_plan_def plan_push_after_n_def plan_new_def
        plan_take_for_def in_window_def plan_rearm_def saturating_sub_u64_def)
  from fault_run_window [OF this(2), of op j] assms first n Suc show ?thesis by (simp add: case_prod_unfold)
qed simp

subsection \<open>What a fired fault does to the wrapped rung\<close>

lemma next_fault_inner [simp]: "fy_inner (snd (next_fault op f)) = fy_inner f"
  by (simp add: next_fault_def fire_fault_def Let_def split: prod.split option.split)

text \<open>Nothing armed: every method is the wrapped one.\<close>

lemma faulty_transparent:
  assumes "fp_queue (fy_plan f) = []" "\<not> fy_corrupt_next f"
  shows "fst (t_get (faulty_ops ops) now k f) = fst (t_get ops now k (fy_inner f)) \<and>
    fst (t_set (faulty_ops ops) now k v ttl f) = fst (t_set ops now k v ttl (fy_inner f)) \<and>
    fy_inner (snd (t_set (faulty_ops ops) now k v ttl f)) = snd (t_set ops now k v ttl (fy_inner f)) \<and>
    fst (t_remove (faulty_ops ops) now k f) = fst (t_remove ops now k (fy_inner f)) \<and>
    fst (t_contains (faulty_ops ops) now k f) = fst (t_contains ops now k (fy_inner f))"
  using assms by (simp add: faulty_ops_def faulty_get_def faulty_set_def faulty_probe_def next_fault_none fy_through_def
      case_prod_unfold)

text \<open>A write that draws a fault stores nothing, unless it is delayed or a partial write.\<close>

lemma faulty_set_fired:
  assumes "fst (next_fault Op_Set f) = Some (c, amount)" "c \<notin> {FC_Latency, FC_PartialWrite}"
  shows "fst (faulty_set ops now k v ttl f) = (if c = FC_Hang then Hangs else Returns (Err (error_for c))) \<and>
    fy_inner (snd (faulty_set ops now k v ttl f)) = fy_inner f"
  using assms next_fault_inner [of Op_Set f]
  by (cases "next_fault Op_Set f"; cases c) (simp_all add: faulty_set_def)

lemma faulty_partial_write:
  assumes "fst (next_fault Op_Set f) = Some (FC_PartialWrite, amount)"
    and "t_set ops now k v ttl (fy_inner f) = (Returns (Ok ()), s')"
  shows "fst (faulty_set ops now k v ttl f) = Returns (Err WriteIndeterminate) \<and>
    fy_inner (snd (faulty_set ops now k v ttl f)) = s'"
  using assms next_fault_inner [of Op_Set f]
  by (cases "next_fault Op_Set f") (simp add: faulty_set_def fy_through_def)

subsection \<open>Damage is visible\<close>

lemma utf8_lossy_flipped:
  assumes "m \<noteq> last (utf8_char n)"
  shows "utf8_lossy (butlast (utf8_char n) @ [m]) \<noteq> [n]"
proof
  assume lossy: "utf8_lossy (butlast (utf8_char n) @ [m]) = [n]"
  have "utf8_char n \<noteq> butlast (utf8_char n) @ [m]" using assms by (metis last_snoc)
  with utf8_lossy_single [OF lossy] have "n = 0xFFFD" "drop (bad_len (butlast (utf8_char n) @ [m])) (butlast (utf8_char n) @ [m]) = []"
    by auto
  then show False by (simp add: utf8_char_def second_ok_def is_cont_def)
qed

lemma corrupt_string_changes: "corrupt_string s \<noteq> s"
proof
  assume same: "corrupt_string s = s"
  let ?bytes = "as_bytes s"
  have bytes: "map unat ?bytes = concat (map utf8_char (scalars s))" by (rule unat_as_bytes)
  show False
  proof (cases "scalars s" rule: rev_cases)
    case Nil
    then have "?bytes = []" using bytes by simp
    then have "scalars (corrupt_string s) \<noteq> []" by (simp add: corrupt_string_def)
    then show False using same Nil by simp
  next
    case (snoc p n)
    let ?m = "unat (last ?bytes XOR 0xff)"
    have ne: "?bytes \<noteq> []" using bytes snoc utf8_char_length [of n] by auto
    have last: "unat (last ?bytes) = last (utf8_char n)"
      using bytes snoc ne utf8_char_length [of n] by (metis concat.simps(1,2) concat_append last_appendR last_map list.simps(8,9) map_append append_Nil2)
    have "map unat (butlast ?bytes @ [last ?bytes XOR 0xff]) =
        concat (map utf8_char p) @ butlast (utf8_char n) @ [?m]"
      using bytes snoc utf8_char_length [of n] by (simp add: map_butlast butlast_append)
    moreover have "list_all is_scalar p" using scalars_valid [of s] snoc by simp
    ultimately have "scalars (corrupt_string s) = p @ utf8_lossy (butlast (utf8_char n) @ [?m])"
      using ne by (simp add: corrupt_string_def Let_def utf8_lossy_prefix)
    then have "utf8_lossy (butlast (utf8_char n) @ [?m]) = [n]" using same snoc by simp
    moreover have "?m \<noteq> last (utf8_char n)" using byte_flip [of "last ?bytes"] last by (metis word_unat_eq_iff)
    ultimately show False using utf8_lossy_flipped by blast
  qed
qed

subsection \<open>Where an instrument differs from its documentation\<close>

text \<open>
  A damaged value is handed to the wrapped rung, which digests what it is given: a sound rung serves
  the damaged value as good.
\<close>

lemma corruption_goes_unnoticed:
  assumes "rung_contract ops sound" "sound (fy_inner f)" "fp_queue (fy_plan f) = []" "fy_corruptor f = Some damage"
    and "t_set ops now k (damage v) ttl (fy_inner f) = (Returns (Ok ()), s')"
  shows "let (r, f') = t_set (faulty_ops ops) now k v ttl (corrupt_next_write f)
    in r = Returns (Ok ()) \<and>
       fst (t_get (faulty_ops ops) now' k f') = Returns (Ok (if unexpired ttl now now' then Some (damage v) else None))"
  using rung_contract.get_after_set [OF assms(1,2,5), of now'] assms(3-5)
  by (simp add: faulty_ops_def faulty_set_def faulty_get_def corrupt_next_write_def next_fault_none fy_through_def
      case_prod_unfold)

text \<open>The atomicity promise is withdrawn when the plan is empty and kept while faults are armed.\<close>

lemma atomicity_withheld_when_idle:
  "(plan_is_empty (fy_plan f) \<longrightarrow>
      \<not> flags_intersects (tc_flags (t_capability (faulty_ops ops) f)) CF_ATOMIC_WRITE_OR_ERROR) \<and>
   (\<not> plan_is_empty (fy_plan f) \<longrightarrow> t_capability (faulty_ops ops) f = t_capability ops (fy_inner f))"
  by (simp add: faulty_ops_def faulty_capability_def Let_def)

text \<open>The window is never closed again, so a second schedule of the same plan fires at once.\<close>

lemma second_window_fires_at_once:
  "fst (fault_run Op_Set 5 (faulty_with_plan s
     (plan_push_after_n Op_Set FC_WriteFailure 2 (plan_push_after_n Op_Set FC_WriteFailure 2 plan_new)))) =
   [None, None, Some (FC_WriteFailure, 2), Some (FC_WriteFailure, 2), None]"
  by (simp add: eval_nat_numeral next_fault_def faulty_with_plan_def plan_push_after_n_def plan_new_def plan_take_for_def
      plan_rearm_def saturating_sub_u64_def fire_fault_def is_scheduled_failure_def)

text \<open>A fault of the scheduling class itself ignores its window.\<close>

lemma failure_after_n_fires_at_once:
  assumes "fp_queue (fy_plan f) = \<lparr>af_op = op, af_class = FC_FailureAfterN, af_amount = n\<rparr> # rest"
  shows "fst (next_fault op f) = Some (FC_FailureAfterN, n)"
  using assms by (simp add: next_fault_def plan_take_for_def is_scheduled_failure_def fire_fault_def)

text \<open>The helper that frames a key accepts frames that the manager refuses.\<close>

lemma framed_key_budget_differs:
  assumes "TENANT_SEPARATOR \<notin> set (tenant (ctx_identity ctx))"
    and "256 < length (tenant (ctx_identity ctx)) + 1 + length key" "length (tenant (ctx_identity ctx)) + 1 + length key \<le> 512"
  shows "try_framed_key ctx key = Some (tenant (ctx_identity ctx) @ [TENANT_SEPARATOR] @ key) \<and>
    encode_key key ctx = Err ConfigurationError"
proof -
  let ?t = "tenant (ctx_identity ctx)"
  obtain n buf where f: "frame_tenant_key ?t key (replicate MAX_KEY_SIZE 0) = Ok (n, buf)"
    using frame_tenant_key_Ok_iff [of ?t key "replicate MAX_KEY_SIZE 0"] assms by (auto simp: MAX_KEY_SIZE_def)
  have "length key \<le> MAX_KEY_SIZE" using assms(3) by (simp add: MAX_KEY_SIZE_def)
  then show ?thesis
    using f frame_tenant_key_bytes [OF f] assms(2)
    by (simp add: try_framed_key_def encode_key_eq MANAGER_MAX_KEY_SIZE_def)
qed

end
