(* ===== verification/Telemetry_Display.thy ===== *)
theory Telemetry_Display
  imports Telemetry Tier_Id
begin

section \<open>How telemetry prints (\<open>src/telemetry.rs\<close>)\<close>

text \<open>
  The \<open>Display\<close> implementations of a key identity, an operation record and the latency percentiles,
  with the decimal numbers, the derived \<open>Debug\<close> of an error and the \<open>Debug\<close> of an optional name they
  use. A printed identity determines the identity: the line of a record can be read back.
\<close>

text \<open>A number in decimal, as \<open>{}\<close> prints it.\<close>

fun decimal :: "nat \<Rightarrow> string" where
  "decimal n = (if n < 10 then [] else decimal (n div 10)) @ [char_of (48 + n mod 10)]"

declare decimal.simps [simp del]

text \<open>The derived \<open>Debug\<close> of \<open>CacheError\<close> is the variant's name.\<close>

fun cache_error_debug :: "cache_error \<Rightarrow> string" where
  "cache_error_debug Unauthenticated = ''Unauthenticated''"
| "cache_error_debug Unauthorized = ''Unauthorized''"
| "cache_error_debug TierUnavailable = ''TierUnavailable''"
| "cache_error_debug WriteIndeterminate = ''WriteIndeterminate''"
| "cache_error_debug PolicyDenied = ''PolicyDenied''"
| "cache_error_debug Miss = ''Miss''"
| "cache_error_debug PopulationFailed = ''PopulationFailed''"
| "cache_error_debug Timeout = ''Timeout''"
| "cache_error_debug Cancelled = ''Cancelled''"
| "cache_error_debug StaleGeneration = ''StaleGeneration''"
| "cache_error_debug WriteContended = ''WriteContended''"
| "cache_error_debug SerializationFailed = ''SerializationFailed''"
| "cache_error_debug ConfigurationError = ''ConfigurationError''"
| "cache_error_debug CapacityExhausted = ''CapacityExhausted''"
| "cache_error_debug Corrupted = ''Corrupted''"
| "cache_error_debug UncommittedIntent = ''UncommittedIntent''"

text \<open>\<open>{:?}\<close> of an option: of a name, which needs no escaping, and of a variant.\<close>

definition quote :: "string \<Rightarrow> string" where
  "quote s = CHR 0x22 # s @ [CHR 0x22]"

definition option_debug :: "string option \<Rightarrow> string" where
  "option_debug x = (case x of None \<Rightarrow> ''None'' | Some s \<Rightarrow> ''Some('' @ s @ '')'')"

definition key_identity_display :: "key_identity \<Rightarrow> string" where
  "key_identity_display k = ''k'' @ hex_pad 16 (unat (ki_digest k)) @ ''/'' @ decimal (unat (ki_len k))"

definition operation_record_display :: "operation_record \<Rightarrow> string" where
  "operation_record_display r =
     ''op='' @ operation_name (or_operation r) @
     '' key='' @ key_identity_display (or_key r) @
     '' src='' @ option_debug (map_option (quote \<circ> tier_display) (or_source_tier r)) @
     '' dst='' @ option_debug (map_option (quote \<circ> tier_display) (or_destination_tier r)) @
     '' backend='' @ option_debug (map_option (quote \<circ> backend_display) (or_backend r)) @
     '' gen='' @ (case or_generation r of None \<Rightarrow> ''-'' | Some g \<Rightarrow> decimal (unat g)) @
     '' latency_us='' @ decimal (or_latency r div 1000) @
     '' outcome='' @ outcome_name (or_outcome r) @
     '' fallback='' @ (if or_fallback r then ''true'' else ''false'') @
     '' failure='' @ option_debug (map_option cache_error_debug (or_failure_class r)) @
     '' recovery='' @ option_debug (map_option (quote \<circ> continuity_name) (or_recovery_state r))"

definition percentiles_display :: "latency_percentiles \<Rightarrow> string" where
  "percentiles_display p =
     ''n='' @ decimal (lp_count p) @ '' p50='' @ decimal (unat (lp_p50 p)) @ ''us p95='' @ decimal (unat (lp_p95 p)) @
     ''us p99='' @ decimal (unat (lp_p99 p)) @ ''us p99.9='' @ decimal (unat (lp_p99_9 p)) @
     ''us max='' @ decimal (unat (lp_max p)) @ ''us''"

subsection \<open>Reading back\<close>

lemma digit_of_char: "d < 10 \<Longrightarrow> digit_of (char_of (48 + d)) = Some d"
  by (simp add: digit_of_def)

lemma parse_digits_snoc:
  "parse_digits acc (s @ [c]) =
     (case parse_digits acc s of
        None \<Rightarrow> None
      | Some v \<Rightarrow> (case digit_of c of None \<Rightarrow> None | Some d \<Rightarrow> if v * 10 + d < 2 ^ 64 then Some (v * 10 + d) else None))"
  by (induction acc s rule: parse_digits.induct) (simp_all split: option.split)

text \<open>A 64-bit number that is printed is parsed back by the crate's own reading of a number.\<close>

lemma parse_decimal: "n < 2 ^ 64 \<Longrightarrow> parse_digits 0 (decimal n) = Some n"
proof (induction n rule: decimal.induct)
  case (1 n)
  show ?case
  proof (cases "n < 10")
    case True
    then show ?thesis by (subst decimal.simps) (simp add: digit_of_char)
  next
    case False
    then have "parse_digits 0 (decimal (n div 10)) = Some (n div 10)" using 1 by simp
    moreover have "n div 10 * 10 + n mod 10 = n" by simp
    ultimately show ?thesis
      using False 1(2) by (subst decimal.simps) (simp add: parse_digits_snoc digit_of_char)
  qed
qed

lemma decimal_inject: "m < 2 ^ 64 \<Longrightarrow> n < 2 ^ 64 \<Longrightarrow> decimal m = decimal n \<longleftrightarrow> m = n"
  by (metis option.inject parse_decimal)

lemma hex_char_inject:
  assumes "m < 16" "n < 16"
  shows "hex_char m = hex_char n \<longleftrightarrow> m = n"
proof -
  have code: "of_char (hex_char x) = (if x < 10 then 48 + x else 87 + x)" if "x < 16" for x :: nat
    using that by (simp add: hex_char_def)
  have "m = n" if "of_char (hex_char m) = (of_char (hex_char n) :: nat)"
    using that unfolding code [OF assms(1)] code [OF assms(2)] by (auto split: if_splits)
  then show ?thesis by auto
qed

lemma hex_pad_inject:
  assumes "m < 16 ^ w" "n < 16 ^ w" "hex_pad w m = hex_pad w n"
  shows "m = n"
  using assms
proof (induction w arbitrary: m n)
  case (Suc w)
  have pad: "hex_pad (Suc w) x = hex_char (x div 16 ^ w mod 16) # hex_pad w (x mod 16 ^ w)" for x
  proof -
    have "x mod 16 ^ w div 16 ^ i mod 16 = x div 16 ^ i mod 16" if "i < w" for i
    proof -
      have "(16 :: nat) ^ w = 16 ^ i * 16 ^ (w - i)" using that by (simp flip: power_add)
      moreover have "(16 :: nat) dvd 16 ^ (w - i)" using that by simp
      ultimately show ?thesis by (simp add: mod_mult2_eq mod_mod_cancel)
    qed
    then show ?thesis by (simp add: hex_pad_def)
  qed
  have "m div 16 ^ w < 16" "n div 16 ^ w < 16"
    using Suc.prems(1,2) by (simp_all add: less_mult_imp_div_less)
  then have "m div 16 ^ w = n div 16 ^ w" using Suc.prems(3) by (simp add: pad hex_char_inject)
  moreover have "m mod 16 ^ w = n mod 16 ^ w" using Suc.prems(3) by (intro Suc.IH) (simp_all add: pad)
  ultimately show ?case by (metis div_mult_mod_eq)
qed simp

text \<open>
  A printed key identity determines the identity, so records of one key can be joined over logs; a
  key itself enters only through its digest and its length.
\<close>

lemma key_identity_display_inject:
  "key_identity_display k = key_identity_display l \<longleftrightarrow> (k :: key_identity) = l"
proof
  assume "key_identity_display k = key_identity_display l"
  then have h: "hex_pad 16 (unat (ki_digest k)) = hex_pad 16 (unat (ki_digest l))"
    and d: "decimal (unat (ki_len k)) = decimal (unat (ki_len l))"
    by (auto simp: key_identity_display_def hex_pad_def append_eq_append_conv)
  have "unat x < 16 ^ 16" for x :: u64 using unsigned_less [of x] by simp
  with hex_pad_inject [OF _ _ h] have "ki_digest k = ki_digest l" by (simp add: word_unat_eq_iff)
  moreover have "unat x < 2 ^ 64" for x :: u16 using unsigned_less [of x, where 'a = nat] by simp
  with d have "ki_len k = ki_len l" by (simp add: decimal_inject word_unat_eq_iff)
  ultimately show "k = l" by simp
qed simp

end
