(* ===== verification/Contract.thy ===== *)
theory Contract
  imports Rust_Text Fault "HOL-Library.Multiset"
begin

section \<open>The architectural contract (\<open>xtask/src/contract.rs\<close>)\<close>

text \<open>
  The deserialised \<open>theSix.toml\<close>, its validation and the questions the gate runner asks of a validated
  contract. Reading the file and the TOML parser are parameters. A \<open>BTreeMap\<close> is the list of its
  entries in key order. A problem that the validator reports is a value with the arguments of its
  message. The validator is shown to accept exactly the files that meet every rule it states.
\<close>

subsection \<open>The file\<close>

datatype gate_kind = GK_Tool | GK_Cargo | GK_Test | GK_Doctest | GK_Slow | GK_Nightly | GK_Tracker | GK_Authorship

definition in_default_pass :: "gate_kind \<Rightarrow> bool" where
  "in_default_pass k \<longleftrightarrow> k \<notin> {GK_Slow, GK_Nightly}"

fun gate_kind_str :: "gate_kind \<Rightarrow> string" where
  "gate_kind_str GK_Tool = ''tool''"
| "gate_kind_str GK_Cargo = ''cargo''"
| "gate_kind_str GK_Test = ''test''"
| "gate_kind_str GK_Doctest = ''doctest''"
| "gate_kind_str GK_Slow = ''slow''"
| "gate_kind_str GK_Nightly = ''nightly''"
| "gate_kind_str GK_Tracker = ''tracker''"
| "gate_kind_str GK_Authorship = ''authorship''"

record gate =
  g_name :: utext
  g_kind :: gate_kind
  g_command :: "utext list"
  g_args :: "utext list"
  g_targets :: "utext list"
  g_features :: "utext list"
  g_env :: "(utext \<times> utext) list"
  g_description :: utext

record merge_readiness_section =
  mr_tracker :: utext
  mr_expected_blocking :: "nat option"
  mr_expected_should_fix :: "nat option"

definition default_tracker :: utext where
  "default_tracker = ascii ''bugs.toml''"

text \<open>The derived \<open>Default\<close>, which stands for a missing section.\<close>

definition merge_readiness_section_default :: merge_readiness_section where
  "merge_readiness_section_default = \<lparr>mr_tracker = [], mr_expected_blocking = None, mr_expected_should_fix = None\<rparr>"

record verification_required =
  vr_fmt :: bool
  vr_check_all_targets :: bool
  vr_check_all_features :: bool
  vr_tests_all_targets :: bool
  vr_tests_all_features :: bool
  vr_doctests :: bool
  vr_clippy_warnings_as_errors :: bool
  vr_documentation :: bool
  vr_dependency_audit :: bool
  vr_dependency_hygiene :: bool
  vr_package_validation :: bool

record verification_section =
  v_gates :: "gate list"
  v_merge_readiness :: merge_readiness_section
  v_forbidden_trailers :: "utext list"
  v_gate_order :: "utext list"
  v_verification_required :: bool
  v_anti_vacuity_required :: bool
  v_required :: verification_required

record testing_section =
  te_layers :: "(utext \<times> utext list) list"
  te_negative_cases :: "utext list"
  te_faults :: "utext list"
  te_invariants :: "(utext \<times> bool) list"
  te_fuzz_targets :: "utext list"
  te_recovery_requirements :: "utext list"
  te_durability_events :: "utext list"
  te_security_requirements :: "utext list"

record contract_file =
  cf_spec_name :: utext
  cf_spec_version :: utext
  cf_verification :: verification_section
  cf_testing :: testing_section
  cf_operation_fields :: "utext list"

record expected_findings =
  ef_blocking :: "nat option"
  ef_should_fix :: "nat option"

record contract =
  con_path :: utext
  con_version :: utext
  con_gates :: "gate list"
  con_layers :: "(utext \<times> utext list) list"
  con_negative_cases :: "utext list"
  con_faults :: "utext list"
  con_property_invariants :: "(utext \<times> bool) list"
  con_fuzz_targets :: "utext list"
  con_recovery_requirements :: "utext list"
  con_durability_events :: "utext list"
  con_security_requirements :: "utext list"
  con_telemetry_fields :: "utext list"
  con_required_booleans :: "(utext \<times> bool) list"
  con_expected_findings :: expected_findings
  con_tracker :: utext
  con_forbidden_trailers :: "utext list"

subsection \<open>Validation\<close>

datatype problem =
    WrongName utext
  | OrderLength nat nat
  | OrderPosition nat utext "utext option"
  | DuplicateGate utext
  | NoCommand utext
  | NoArgs utext
  | NoTargets utext gate_kind
  | GateWithoutPolicy
  | PolicyWithoutGate
  | UnusableTrailer utext
  | UnclaimedTarget utext utext
  | RequiredFalse utext
  | VerificationNotRequired
  | AntiVacuityNotRequired
  | FaultTaxonomyDiffers "utext list" "utext list"
  | InvariantFalse utext
  | EmptySection utext

definition problem_if :: "bool \<Rightarrow> problem \<Rightarrow> problem list" where
  "problem_if b p = (if b then [p] else [])"

definition list_get :: "'a list \<Rightarrow> nat \<Rightarrow> 'a option" where
  "list_get xs i = (if i < length xs then Some (xs ! i) else None)"

text \<open>The walk over \<open>gate_order.order\<close> with its index.\<close>

fun order_problems :: "utext list \<Rightarrow> nat \<Rightarrow> utext list \<Rightarrow> problem list" where
  "order_problems declared i [] = []"
| "order_problems declared i (name # rest) =
     problem_if (list_get declared i \<noteq> Some name) (OrderPosition i name (list_get declared i)) @
     order_problems declared (Suc i) rest"

text \<open>A gate must carry the detail its kind needs.\<close>

definition detail_problem :: "gate \<Rightarrow> problem list" where
  "detail_problem g =
     (if g_kind g \<in> {GK_Tool, GK_Nightly} \<and> g_command g = [] then [NoCommand (g_name g)]
      else if g_kind g = GK_Cargo \<and> g_args g = [] then [NoArgs (g_name g)]
      else if g_kind g \<in> {GK_Test, GK_Slow} \<and> g_targets g = [] then [NoTargets (g_name g) (g_kind g)]
      else [])"

fun gate_problems :: "utext list \<Rightarrow> gate list \<Rightarrow> problem list" where
  "gate_problems seen [] = []"
| "gate_problems seen (g # rest) =
     problem_if (g_name g \<in> set seen) (DuplicateGate (g_name g)) @ detail_problem g @
     gate_problems (g_name g # seen) rest"

definition usable_trailer :: "utext \<Rightarrow> bool" where
  "usable_trailer key \<longleftrightarrow> \<not> (key = [] \<or> 58 \<in> set key \<or> list_ex is_whitespace key)"

definition attribution_problems :: "gate list \<Rightarrow> utext list \<Rightarrow> problem list" where
  "attribution_problems gates trailers =
     (let declares_gate = list_ex (\<lambda>g. g_kind g = GK_Authorship) gates
      in problem_if (declares_gate \<and> trailers = []) GateWithoutPolicy @
         problem_if (\<not> declares_gate \<and> trailers \<noteq> []) PolicyWithoutGate @
         concat (map (\<lambda>key. problem_if (\<not> usable_trailer key) (UnusableTrailer key)) trailers))"

definition layer_problems :: "gate list \<Rightarrow> (utext \<times> utext list) list \<Rightarrow> problem list" where
  "layer_problems gates layers =
     (let claimed = concat (map g_targets gates)
      in concat (map (\<lambda>(layer, targets).
           concat (map (\<lambda>t. problem_if (t \<notin> set claimed) (UnclaimedTarget layer t)) targets)) layers))"

definition required_booleans :: "verification_required \<Rightarrow> (utext \<times> bool) list" where
  "required_booleans req =
     [(ascii ''fmt'', vr_fmt req),
      (ascii ''check_all_targets'', vr_check_all_targets req),
      (ascii ''check_all_features'', vr_check_all_features req),
      (ascii ''tests_all_targets'', vr_tests_all_targets req),
      (ascii ''tests_all_features'', vr_tests_all_features req),
      (ascii ''doctests'', vr_doctests req),
      (ascii ''clippy_warnings_as_errors'', vr_clippy_warnings_as_errors req),
      (ascii ''documentation'', vr_documentation req),
      (ascii ''dependency_audit'', vr_dependency_audit req),
      (ascii ''dependency_hygiene'', vr_dependency_hygiene req),
      (ascii ''package_validation'', vr_package_validation req)]"

definition fault_classes :: "utext list" where
  "fault_classes = map (\<lambda>c. ascii (fault_class_str c)) fault_class_ALL"

definition section_lengths :: "testing_section \<Rightarrow> utext list \<Rightarrow> (utext \<times> nat) list" where
  "section_lengths t op_fields =
     [(ascii ''[testing.negative].cases'', length (te_negative_cases t)),
      (ascii ''[testing.fault_injection].faults'', length (te_faults t)),
      (ascii ''[testing.fuzz].targets'', length (te_fuzz_targets t)),
      (ascii ''[testing.property.invariants]'', length (te_invariants t)),
      (ascii ''[testing.recovery].requirements'', length (te_recovery_requirements t)),
      (ascii ''[testing.durability].events'', length (te_durability_events t)),
      (ascii ''[testing.security].requirements'', length (te_security_requirements t)),
      (ascii ''[observability.operation].fields'', length op_fields)]"

definition contract_problems :: "contract_file \<Rightarrow> problem list" where
  "contract_problems f =
     (let v = cf_verification f; t = cf_testing f;
          declared = map g_name (v_gates v); ordered = v_gate_order v
      in problem_if (cf_spec_name f \<noteq> ascii ''theSix'') (WrongName (cf_spec_name f)) @
         problem_if (length declared \<noteq> length ordered) (OrderLength (length ordered) (length declared)) @
         order_problems declared 0 ordered @
         gate_problems [] (v_gates v) @
         attribution_problems (v_gates v) (v_forbidden_trailers v) @
         layer_problems (v_gates v) (te_layers t) @
         concat (map (\<lambda>(flag, b). problem_if (\<not> b) (RequiredFalse flag)) (required_booleans (v_required v))) @
         problem_if (\<not> v_verification_required v) VerificationNotRequired @
         problem_if (\<not> v_anti_vacuity_required v) AntiVacuityNotRequired @
         problem_if (fault_classes \<noteq> te_faults t) (FaultTaxonomyDiffers (te_faults t) fault_classes) @
         concat (map (\<lambda>(name, b). problem_if (\<not> b) (InvariantFalse name)) (te_invariants t)) @
         concat (map (\<lambda>(label, len). problem_if (len = 0) (EmptySection label))
                   (section_lengths t (cf_operation_fields f))))"

definition contract_of :: "utext \<Rightarrow> contract_file \<Rightarrow> contract" where
  "contract_of path f =
     (let v = cf_verification f; t = cf_testing f; m = v_merge_readiness v
      in \<lparr>con_path = path, con_version = cf_spec_version f, con_gates = v_gates v, con_layers = te_layers t,
          con_negative_cases = te_negative_cases t, con_faults = te_faults t,
          con_property_invariants = te_invariants t, con_fuzz_targets = te_fuzz_targets t,
          con_recovery_requirements = te_recovery_requirements t, con_durability_events = te_durability_events t,
          con_security_requirements = te_security_requirements t, con_telemetry_fields = cf_operation_fields f,
          con_required_booleans = required_booleans (v_required v),
          con_expected_findings = \<lparr>ef_blocking = mr_expected_blocking m, ef_should_fix = mr_expected_should_fix m\<rparr>,
          con_tracker = mr_tracker m, con_forbidden_trailers = v_forbidden_trailers v\<rparr>)"

datatype 'e load_error = CannotRead utext 'e | BadToml utext 'e | ValidationFailed utext "problem list"

definition load ::
  "(utext \<Rightarrow> 'e + utext) \<Rightarrow> (utext \<Rightarrow> 'e + contract_file) \<Rightarrow> utext \<Rightarrow> 'e load_error + contract"
where
  "load read_to_string from_toml path =
     (case read_to_string path of
        Inl e \<Rightarrow> Inl (CannotRead path e)
      | Inr raw \<Rightarrow>
          (case from_toml raw of
             Inl e \<Rightarrow> Inl (BadToml path e)
           | Inr parsed \<Rightarrow>
               (let problems = contract_problems parsed
                in if problems \<noteq> [] then Inl (ValidationFailed path problems)
                   else Inr (contract_of path parsed))))"

subsection \<open>Questions about a contract\<close>

definition contract_gate :: "utext \<Rightarrow> contract \<Rightarrow> gate option" where
  "contract_gate name c = find (\<lambda>g. g_name g = name) (con_gates c)"

text \<open>Where the runner looks for a test target.\<close>

definition test_target_exists :: "(utext \<Rightarrow> bool) \<Rightarrow> utext \<Rightarrow> utext \<Rightarrow> bool" where
  "test_target_exists is_file root target \<longleftrightarrow>
     (let tests = path_join root (ascii ''tests''); dir = path_join tests target
      in is_file (path_join dir (ascii ''main.rs'')) \<or> is_file (path_join tests (target @ ascii ''.rs'')))"

definition validate_targets :: "(utext \<Rightarrow> bool) \<Rightarrow> utext \<Rightarrow> contract \<Rightarrow> (utext \<times> utext) list + unit" where
  "validate_targets is_file root c =
     (let problems = concat (map (\<lambda>g. concat (map (\<lambda>t.
            if \<not> test_target_exists is_file root t then [(g_name g, t)] else []) (g_targets g))) (con_gates c))
      in if problems = [] then Inr () else Inl problems)"

definition declared_case_counts :: "contract \<Rightarrow> (string \<times> nat) list" where
  "declared_case_counts c =
     [(''negative cases'', length (con_negative_cases c)),
      (''faults'', length (con_faults c)),
      (''property invariants'', length (con_property_invariants c)),
      (''fuzz targets'', length (con_fuzz_targets c)),
      (''recovery requirements'', length (con_recovery_requirements c)),
      (''durability events'', length (con_durability_events c)),
      (''security requirements'', length (con_security_requirements c)),
      (''telemetry fields'', length (con_telemetry_fields c))]"

definition default_pass :: "contract \<Rightarrow> gate list" where
  "default_pass c = filter (\<lambda>g. in_default_pass (g_kind g)) (con_gates c)"

definition deferred :: "contract \<Rightarrow> gate list" where
  "deferred c = filter (\<lambda>g. \<not> in_default_pass (g_kind g)) (con_gates c)"


subsection \<open>What the validator accepts\<close>

text \<open>The rules of the contract, as conditions on the file.\<close>

definition gate_detailed :: "gate \<Rightarrow> bool" where
  "gate_detailed g \<longleftrightarrow>
     (g_kind g \<in> {GK_Tool, GK_Nightly} \<longrightarrow> g_command g \<noteq> []) \<and> (g_kind g = GK_Cargo \<longrightarrow> g_args g \<noteq> []) \<and>
     (g_kind g \<in> {GK_Test, GK_Slow} \<longrightarrow> g_targets g \<noteq> [])"

definition mandatory_flags :: "(string \<times> (verification_required \<Rightarrow> bool)) list" where
  "mandatory_flags =
     [(''fmt'', vr_fmt), (''check_all_targets'', vr_check_all_targets), (''check_all_features'', vr_check_all_features),
      (''tests_all_targets'', vr_tests_all_targets), (''tests_all_features'', vr_tests_all_features),
      (''doctests'', vr_doctests), (''clippy_warnings_as_errors'', vr_clippy_warnings_as_errors),
      (''documentation'', vr_documentation), (''dependency_audit'', vr_dependency_audit),
      (''dependency_hygiene'', vr_dependency_hygiene), (''package_validation'', vr_package_validation)]"

definition fault_names :: "string list" where
  "fault_names =
     [''latency'', ''timeout'', ''hang'', ''read_failure'', ''write_failure'', ''metadata_failure'', ''corruption'',
      ''disconnect'', ''capacity_exhaustion'', ''failure_after_n_operations'', ''cancellation'', ''partial_write'']"

text \<open>The sections that may not be empty, with the test for it.\<close>

definition required_sections :: "(string \<times> (contract_file \<Rightarrow> bool)) list" where
  "required_sections =
     [(''[testing.negative].cases'', \<lambda>f. te_negative_cases (cf_testing f) = []),
      (''[testing.fault_injection].faults'', \<lambda>f. te_faults (cf_testing f) = []),
      (''[testing.fuzz].targets'', \<lambda>f. te_fuzz_targets (cf_testing f) = []),
      (''[testing.property.invariants]'', \<lambda>f. te_invariants (cf_testing f) = []),
      (''[testing.recovery].requirements'', \<lambda>f. te_recovery_requirements (cf_testing f) = []),
      (''[testing.durability].events'', \<lambda>f. te_durability_events (cf_testing f) = []),
      (''[testing.security].requirements'', \<lambda>f. te_security_requirements (cf_testing f) = []),
      (''[observability.operation].fields'', \<lambda>f. cf_operation_fields f = [])]"

text \<open>A trailer key that can stand before the colon of a trailer line.\<close>

definition bare_key :: "utext \<Rightarrow> bool" where
  "bare_key key \<longleftrightarrow> key \<noteq> [] \<and> (\<forall>c\<in>set key. c \<noteq> of_char CHR '':'' \<and> \<not> is_whitespace c)"

definition contract_wellformed :: "contract_file \<Rightarrow> bool" where
  "contract_wellformed f \<longleftrightarrow>
     (let v = cf_verification f; t = cf_testing f
      in cf_spec_name f = ascii ''theSix'' \<and>
         v_gate_order v = map g_name (v_gates v) \<and> distinct (map g_name (v_gates v)) \<and>
         (\<forall>g\<in>set (v_gates v). gate_detailed g) \<and>
         ((\<exists>g\<in>set (v_gates v). g_kind g = GK_Authorship) \<longleftrightarrow> v_forbidden_trailers v \<noteq> []) \<and>
         (\<forall>key\<in>set (v_forbidden_trailers v). bare_key key) \<and>
         (\<forall>(layer, targets)\<in>set (te_layers t). \<forall>x\<in>set targets. \<exists>g\<in>set (v_gates v). x \<in> set (g_targets g)) \<and>
         (\<forall>(name, flag)\<in>set mandatory_flags. flag (v_required v)) \<and>
         v_verification_required v \<and> v_anti_vacuity_required v \<and>
         te_faults t = map ascii fault_names \<and> (\<forall>(name, b)\<in>set (te_invariants t). b) \<and>
         (\<forall>(label, empty)\<in>set required_sections. \<not> empty f))"

text \<open>What each message of the validator says of the file.\<close>

fun broken :: "contract_file \<Rightarrow> problem \<Rightarrow> bool" where
  "broken f (WrongName name) \<longleftrightarrow> name = cf_spec_name f \<and> name \<noteq> ascii ''theSix''"
| "broken f (OrderLength n d) \<longleftrightarrow>
     n = length (v_gate_order (cf_verification f)) \<and> d = length (v_gates (cf_verification f)) \<and> n \<noteq> d"
| "broken f (OrderPosition i name found) \<longleftrightarrow>
     i < length (v_gate_order (cf_verification f)) \<and> name = v_gate_order (cf_verification f) ! i \<and>
     found = (if i < length (v_gates (cf_verification f)) then Some (g_name (v_gates (cf_verification f) ! i)) else None) \<and>
     found \<noteq> Some name"
| "broken f (DuplicateGate name) \<longleftrightarrow>
     (\<exists>j < length (v_gates (cf_verification f)). name = g_name (v_gates (cf_verification f) ! j) \<and>
        (\<exists>i < j. g_name (v_gates (cf_verification f) ! i) = g_name (v_gates (cf_verification f) ! j)))"
| "broken f (NoCommand name) \<longleftrightarrow>
     (\<exists>g\<in>set (v_gates (cf_verification f)). g_name g = name \<and> g_kind g \<in> {GK_Tool, GK_Nightly} \<and> g_command g = [])"
| "broken f (NoArgs name) \<longleftrightarrow>
     (\<exists>g\<in>set (v_gates (cf_verification f)). g_name g = name \<and> g_kind g = GK_Cargo \<and> g_args g = [])"
| "broken f (NoTargets name kind) \<longleftrightarrow>
     (\<exists>g\<in>set (v_gates (cf_verification f)). g_name g = name \<and> g_kind g = kind \<and> kind \<in> {GK_Test, GK_Slow} \<and> g_targets g = [])"
| "broken f GateWithoutPolicy \<longleftrightarrow>
     (\<exists>g\<in>set (v_gates (cf_verification f)). g_kind g = GK_Authorship) \<and> v_forbidden_trailers (cf_verification f) = []"
| "broken f PolicyWithoutGate \<longleftrightarrow>
     (\<forall>g\<in>set (v_gates (cf_verification f)). g_kind g \<noteq> GK_Authorship) \<and> v_forbidden_trailers (cf_verification f) \<noteq> []"
| "broken f (UnusableTrailer key) \<longleftrightarrow> key \<in> set (v_forbidden_trailers (cf_verification f)) \<and> \<not> bare_key key"
| "broken f (UnclaimedTarget layer target) \<longleftrightarrow>
     (\<exists>targets. (layer, targets) \<in> set (te_layers (cf_testing f)) \<and> target \<in> set targets) \<and>
     (\<forall>g\<in>set (v_gates (cf_verification f)). target \<notin> set (g_targets g))"
| "broken f (RequiredFalse flag) \<longleftrightarrow>
     (\<exists>(name, get)\<in>set mandatory_flags. flag = ascii name \<and> \<not> get (v_required (cf_verification f)))"
| "broken f VerificationNotRequired \<longleftrightarrow> \<not> v_verification_required (cf_verification f)"
| "broken f AntiVacuityNotRequired \<longleftrightarrow> \<not> v_anti_vacuity_required (cf_verification f)"
| "broken f (FaultTaxonomyDiffers declared known) \<longleftrightarrow>
     declared = te_faults (cf_testing f) \<and> known = map ascii fault_names \<and> declared \<noteq> known"
| "broken f (InvariantFalse name) \<longleftrightarrow> (name, False) \<in> set (te_invariants (cf_testing f))"
| "broken f (EmptySection label) \<longleftrightarrow> (\<exists>(name, empty)\<in>set required_sections. label = ascii name \<and> empty f)"

text \<open>The contract that a file declares, field by field.\<close>

definition contract_declared :: "utext \<Rightarrow> contract_file \<Rightarrow> contract \<Rightarrow> bool" where
  "contract_declared path f c \<longleftrightarrow>
     con_path c = path \<and> con_version c = cf_spec_version f \<and> con_gates c = v_gates (cf_verification f) \<and>
     con_layers c = te_layers (cf_testing f) \<and> con_negative_cases c = te_negative_cases (cf_testing f) \<and>
     con_faults c = te_faults (cf_testing f) \<and> con_property_invariants c = te_invariants (cf_testing f) \<and>
     con_fuzz_targets c = te_fuzz_targets (cf_testing f) \<and>
     con_recovery_requirements c = te_recovery_requirements (cf_testing f) \<and>
     con_durability_events c = te_durability_events (cf_testing f) \<and>
     con_security_requirements c = te_security_requirements (cf_testing f) \<and>
     con_telemetry_fields c = cf_operation_fields f \<and>
     con_required_booleans c = map (\<lambda>(name, get). (ascii name, get (v_required (cf_verification f)))) mandatory_flags \<and>
     ef_blocking (con_expected_findings c) = mr_expected_blocking (v_merge_readiness (cf_verification f)) \<and>
     ef_should_fix (con_expected_findings c) = mr_expected_should_fix (v_merge_readiness (cf_verification f)) \<and>
     con_tracker c = mr_tracker (v_merge_readiness (cf_verification f)) \<and>
     con_forbidden_trailers c = v_forbidden_trailers (cf_verification f)"

lemma contract_of_declared: "contract_declared path f (contract_of path f)"
  by (simp add: contract_declared_def contract_of_def required_booleans_def mandatory_flags_def Let_def)

lemma contract_declared_iff: "contract_declared path f c \<longleftrightarrow> c = contract_of path f"
proof
  assume "contract_declared path f c"
  with contract_of_declared [of path f] show "c = contract_of path f"
    by (cases c; cases "contract_of path f"; cases "con_expected_findings c"; cases "con_expected_findings (contract_of path f)")
       (simp add: contract_declared_def)
qed (simp add: contract_of_declared)

lemma usable_bare: "usable_trailer key \<longleftrightarrow> bare_key key"
  by (auto simp: usable_trailer_def bare_key_def list_ex_iff)

lemma fault_classes_eq: "fault_classes = map ascii fault_names"
  by (simp add: fault_classes_def fault_class_ALL_def fault_names_def)

lemma required_booleans_eq:
  "required_booleans req = map (\<lambda>(name, get). (ascii name, get req)) mandatory_flags"
  by (simp add: required_booleans_def mandatory_flags_def)

lemma section_lengths_eq:
  "map (\<lambda>(label, n). (label, n = 0)) (section_lengths (cf_testing f) (cf_operation_fields f)) =
     map (\<lambda>(name, empty). (ascii name, empty f)) required_sections"
  by (simp add: section_lengths_def required_sections_def)

lemma problem_if_Nil [simp]: "problem_if b p = [] \<longleftrightarrow> \<not> b"
  by (simp add: problem_if_def)

lemma order_problems_Nil:
  "order_problems declared i ordered = [] \<longleftrightarrow> (\<forall>j < length ordered. list_get declared (i + j) = Some (ordered ! j))"
proof (induction ordered arbitrary: i)
  case (Cons name rest)
  show ?case by (simp add: Cons All_less_Suc2)
qed simp

lemma same_order:
  "length declared = length ordered \<and> order_problems declared 0 ordered = [] \<longleftrightarrow> ordered = declared"
  by (auto simp: order_problems_Nil list_get_def intro: nth_equalityI)

lemma detail_problem_Nil: "detail_problem g = [] \<longleftrightarrow> gate_detailed g"
  by (auto simp: detail_problem_def gate_detailed_def)

lemma gate_problems_Nil:
  "gate_problems seen gates = [] \<longleftrightarrow>
     distinct (map g_name gates) \<and> set (map g_name gates) \<inter> set seen = {} \<and> (\<forall>g\<in>set gates. gate_detailed g)"
  by (induction gates arbitrary: seen) (auto simp: detail_problem_Nil)

lemma attribution_problems_Nil:
  "attribution_problems gates trailers = [] \<longleftrightarrow>
     ((\<exists>g\<in>set gates. g_kind g = GK_Authorship) \<longleftrightarrow> trailers \<noteq> []) \<and> (\<forall>key\<in>set trailers. bare_key key)"
  by (auto simp: attribution_problems_def Let_def list_ex_iff usable_bare)

lemma layer_problems_Nil:
  "layer_problems gates layers = [] \<longleftrightarrow>
     (\<forall>(layer, targets)\<in>set layers. \<forall>x\<in>set targets. \<exists>g\<in>set gates. x \<in> set (g_targets g))"
  by (auto simp: layer_problems_def)

text \<open>The messages are exactly the rules that the file breaks.\<close>

lemma problem_if_set [simp]: "p \<in> set (problem_if b q) \<longleftrightarrow> b \<and> p = q"
  by (auto simp: problem_if_def)

lemma order_problems_set:
  "p \<in> set (order_problems declared i ordered) \<longleftrightarrow>
     (\<exists>j < length ordered. list_get declared (i + j) \<noteq> Some (ordered ! j) \<and>
        p = OrderPosition (i + j) (ordered ! j) (list_get declared (i + j)))"
proof (induction ordered arbitrary: i)
  case (Cons name rest)
  show ?case by (simp add: Cons Ex_less_Suc2)
qed simp

lemma gate_problems_set:
  "p \<in> set (gate_problems seen gates) \<longleftrightarrow>
     (\<exists>j < length gates. p = DuplicateGate (g_name (gates ! j)) \<and>
        (g_name (gates ! j) \<in> set seen \<or> (\<exists>i < j. g_name (gates ! i) = g_name (gates ! j)))) \<or>
     (\<exists>g\<in>set gates. p \<in> set (detail_problem g))"
proof (induction gates arbitrary: seen)
  case (Cons g rest)
  show ?case by (simp add: Cons Ex_less_Suc2) (auto simp: eq_commute [of "g_name g"])
qed simp

lemma pair_problems_set:
  "p \<in> set (concat (map (\<lambda>(x, b). problem_if (P b) (Q x)) ps)) \<longleftrightarrow> (\<exists>(x, b)\<in>set ps. P b \<and> p = Q x)"
  by auto

lemma flag_problems_set:
  "(\<exists>(flag, b)\<in>set (required_booleans req). \<not> b \<and> p = Q flag) \<longleftrightarrow>
     (\<exists>(name, get)\<in>set mandatory_flags. \<not> get req \<and> p = Q (ascii name))"
  unfolding required_booleans_eq by force

lemma section_problems_set:
  "(\<exists>(label, n)\<in>set (section_lengths (cf_testing f) (cf_operation_fields f)). n = 0 \<and> p = Q label) \<longleftrightarrow>
     (\<exists>(name, empty)\<in>set required_sections. empty f \<and> p = Q (ascii name))"
proof -
  have "(\<exists>(label, n)\<in>set xs. n = 0 \<and> p = Q label) \<longleftrightarrow>
      (\<exists>(label, b)\<in>set (map (\<lambda>(label, n). (label, n = 0)) xs). b \<and> p = Q label)" for xs :: "(utext \<times> nat) list"
    by force
  from this [of "section_lengths (cf_testing f) (cf_operation_fields f)", unfolded section_lengths_eq] show ?thesis
    by force
qed

lemma contract_problems_set: "p \<in> set (contract_problems f) \<longleftrightarrow> broken f p"
proof -
  note sets = set_append Un_iff problem_if_set order_problems_set gate_problems_set pair_problems_set section_problems_set
    flag_problems_set fault_classes_eq
  have detail: "p \<in> set (detail_problem g) \<longleftrightarrow>
      p = NoCommand (g_name g) \<and> g_kind g \<in> {GK_Tool, GK_Nightly} \<and> g_command g = [] \<or>
      p = NoArgs (g_name g) \<and> g_kind g = GK_Cargo \<and> g_args g = [] \<or>
      p = NoTargets (g_name g) (g_kind g) \<and> g_kind g \<in> {GK_Test, GK_Slow} \<and> g_targets g = []" for g
    by (auto simp: detail_problem_def)
  have att: "p \<in> set (attribution_problems gates trailers) \<longleftrightarrow>
      p = GateWithoutPolicy \<and> (\<exists>g\<in>set gates. g_kind g = GK_Authorship) \<and> trailers = [] \<or>
      p = PolicyWithoutGate \<and> (\<forall>g\<in>set gates. g_kind g \<noteq> GK_Authorship) \<and> trailers \<noteq> [] \<or>
      (\<exists>key\<in>set trailers. p = UnusableTrailer key \<and> \<not> bare_key key)" for gates trailers
    by (auto simp: attribution_problems_def Let_def list_ex_iff usable_bare)
  have lay: "p \<in> set (layer_problems gates layers) \<longleftrightarrow>
      (\<exists>(layer, targets)\<in>set layers. \<exists>x\<in>set targets. p = UnclaimedTarget layer x \<and> (\<forall>g\<in>set gates. x \<notin> set (g_targets g)))"
    for gates layers
    by (auto simp: layer_problems_def)
  show ?thesis
    unfolding contract_problems_def Let_def sets detail att lay
    by (cases p) (auto simp: list_get_def split: if_splits)
qed

lemma contract_problems_Nil: "contract_problems f = [] \<longleftrightarrow> contract_wellformed f"
proof -
  have pairs: "concat (map (\<lambda>(x, b). problem_if (P b) (Q x)) ps) = [] \<longleftrightarrow> (\<forall>(x, b)\<in>set ps. \<not> P b)"
    for P :: "'b \<Rightarrow> bool" and Q :: "utext \<Rightarrow> problem" and ps
    by auto
  have flags: "(\<forall>(x, b)\<in>set (required_booleans req). b) \<longleftrightarrow> (\<forall>(name, get)\<in>set mandatory_flags. get req)" for req
    by (auto simp: required_booleans_eq)
  have sections: "(\<forall>(label, n)\<in>set (section_lengths (cf_testing f) (cf_operation_fields f)). n \<noteq> 0) \<longleftrightarrow>
      (\<forall>(name, empty)\<in>set required_sections. \<not> empty f)"
    using section_problems_set [of f "()" "\<lambda>_. ()"] by auto
  show ?thesis
    unfolding contract_problems_def contract_wellformed_def Let_def append_is_Nil_conv
    using same_order [of "map g_name (v_gates (cf_verification f))" "v_gate_order (cf_verification f)"]
    by (simp only: pairs problem_if_Nil gate_problems_Nil attribution_problems_Nil layer_problems_Nil list.set(1)
        Int_empty_right not_not fault_classes_eq flags sections eq_commute [of "map ascii fault_names"] simp_thms) argo
qed

text \<open>
  C39: The contract loader accepts exactly the contracts that meet its rules and otherwise names
  exactly the rules that are broken. It answers a contract when the file can be read and parsed and
  then meets every rule: the name, the order of the gates equal to their declaration and without
  duplicates, every gate with the detail its kind needs, an attribution policy exactly when a gate
  enforces it, trailer keys without colon and blanks, every layer's target run by a gate, each of the
  eleven mandatory flags and both switches set, every invariant on, the fault list equal to the
  twelve classes in order, and none of the eight sections empty. The contract it answers then has
  the file's value in every field. It answers an error of reading or parsing when that fails; and on
  a file that breaks rules it reports a problem for each rule that is broken, with the offending
  name, gate, position or target, and for no other.
\<close>

theorem load_accepts_exactly:
  "case load read_to_string from_toml path of
     Inr c \<Rightarrow> (\<exists>raw f. read_to_string path = Inr raw \<and> from_toml raw = Inr f \<and> contract_wellformed f \<and>
       contract_declared path f c)
   | Inl (CannotRead p e) \<Rightarrow> p = path \<and> read_to_string path = Inl e
   | Inl (BadToml p e) \<Rightarrow> p = path \<and> (\<exists>raw. read_to_string path = Inr raw \<and> from_toml raw = Inl e)
   | Inl (ValidationFailed p problems) \<Rightarrow> p = path \<and>
       (\<exists>raw f. read_to_string path = Inr raw \<and> from_toml raw = Inr f \<and> \<not> contract_wellformed f \<and>
          problems \<noteq> [] \<and> set problems = {problem. broken f problem})"
proof -
  have "set (contract_problems f) = {problem. broken f problem}" for f by (auto simp: contract_problems_set)
  then show ?thesis
    by (auto simp: load_def Let_def contract_problems_Nil contract_of_declared split: sum.split)
qed

text \<open>A contract with one command and the tracker as its gates.\<close>

definition demo_gate :: "gate_kind \<Rightarrow> utext \<Rightarrow> utext list \<Rightarrow> gate" where
  "demo_gate kind name command =
     \<lparr>g_name = name, g_kind = kind, g_command = command, g_args = [], g_targets = [], g_features = [], g_env = [],
      g_description = []\<rparr>"

definition demo_file :: "gate list \<Rightarrow> contract_file" where
  "demo_file gates =
     \<lparr>cf_spec_name = ascii ''theSix'', cf_spec_version = ascii ''2'',
      cf_verification = \<lparr>v_gates = gates,
        v_merge_readiness = \<lparr>mr_tracker = default_tracker, mr_expected_blocking = Some 1, mr_expected_should_fix = None\<rparr>,
        v_forbidden_trailers = [], v_gate_order = map g_name gates, v_verification_required = True,
        v_anti_vacuity_required = True,
        v_required = \<lparr>vr_fmt = True, vr_check_all_targets = True, vr_check_all_features = True, vr_tests_all_targets = True,
          vr_tests_all_features = True, vr_doctests = True, vr_clippy_warnings_as_errors = True, vr_documentation = True,
          vr_dependency_audit = True, vr_dependency_hygiene = True, vr_package_validation = True\<rparr>\<rparr>,
      cf_testing = \<lparr>te_layers = [], te_negative_cases = [[1]], te_faults = map ascii fault_names, te_invariants = [([1], True)],
        te_fuzz_targets = [[1]], te_recovery_requirements = [[1]], te_durability_events = [[1]],
        te_security_requirements = [[1]]\<rparr>,
      cf_operation_fields = [[1]]\<rparr>"

definition demo_gates :: "gate list" where
  "demo_gates = [demo_gate GK_Tool (ascii ''fmt'') [ascii ''/bin/true''], demo_gate GK_Tracker (ascii ''ready'') []]"

lemma demo_wellformed:
  assumes "distinct (map g_name gates)" "\<forall>g\<in>set gates. gate_detailed g" "\<forall>g\<in>set gates. g_kind g \<noteq> GK_Authorship"
  shows "contract_wellformed (demo_file gates)"
  using assms by (simp add: contract_wellformed_def demo_file_def mandatory_flags_def required_sections_def fault_names_def)

lemma demo_load:
  assumes "contract_wellformed (demo_file gates)"
  shows "load Inr (\<lambda>_. Inr (demo_file gates)) path = Inr (contract_of path (demo_file gates))"
  using assms by (simp add: load_def contract_problems_Nil)

lemma demo_gates_ok: "contract_wellformed (demo_file demo_gates)"
  by (rule demo_wellformed) (simp_all add: demo_gates_def demo_gate_def gate_detailed_def ascii_def)

text \<open>The same contract without its dependency audit.\<close>

definition demo_lax_file :: contract_file where
  "demo_lax_file =
     (let f = demo_file demo_gates; v = cf_verification f
      in f\<lparr>cf_verification := v\<lparr>v_required := (v_required v)\<lparr>vr_dependency_audit := False\<rparr>\<rparr>\<rparr>)"

lemma demo_lax_broken: "broken demo_lax_file p \<longleftrightarrow> p = RequiredFalse (ascii ''dependency_audit'')"
  by (cases p)
     (auto simp: demo_lax_file_def demo_file_def demo_gates_def demo_gate_def mandatory_flags_def required_sections_def
       fault_names_def ascii_inject Let_def less_Suc_eq nth_Cons' split: if_splits)

theorem load_accepts_exactly_witness:
  "(\<exists>c. load Inr (\<lambda>_. Inr (demo_file demo_gates) :: unit + contract_file) (ascii ''theSix.toml'') = Inr c \<and>
      con_gates c = demo_gates \<and> con_version c = ascii ''2'') \<and>
   (\<exists>ps. load Inr (\<lambda>_. Inr demo_lax_file :: unit + contract_file) (ascii ''theSix.toml'') =
        Inl (ValidationFailed (ascii ''theSix.toml'') ps) \<and> set ps = {RequiredFalse (ascii ''dependency_audit'')})"
proof -
  let ?p = "ascii ''theSix.toml''" and ?rd = "Inr :: utext \<Rightarrow> unit + utext"
  let ?good = "\<lambda>_. Inr (demo_file demo_gates) :: unit + contract_file" and ?lax = "\<lambda>_. Inr demo_lax_file :: unit + contract_file"
  note lax = demo_lax_broken contract_problems_set [of _ demo_lax_file]
  have "load ?rd ?good ?p = Inr (contract_of ?p (demo_file demo_gates))" by (rule demo_load [OF demo_gates_ok])
  with load_accepts_exactly [where read_to_string = ?rd and from_toml = ?good and path = ?p]
  have "\<exists>c. load ?rd ?good ?p = Inr c \<and> con_gates c = demo_gates \<and> con_version c = ascii ''2''"
    by (auto simp: contract_declared_def demo_file_def)
  moreover have all: "{p. broken demo_lax_file p} = {RequiredFalse (ascii ''dependency_audit'')}"
    using demo_lax_broken by blast
  moreover have "contract_problems demo_lax_file \<noteq> []" using lax by force
  then obtain ps where "load ?rd ?lax ?p = Inl (ValidationFailed ?p ps)" by (auto simp: load_def)
  with load_accepts_exactly [where read_to_string = ?rd and from_toml = ?lax and path = ?p]
  have "\<exists>ps. load ?rd ?lax ?p = Inl (ValidationFailed ?p ps) \<and> set ps = {RequiredFalse (ascii ''dependency_audit'')}"
    by (simp add: all)
  ultimately show ?thesis by blast
qed

lemma load_contract:
  assumes "load read_to_string from_toml path = Inr c"
  shows "\<exists>raw f. read_to_string path = Inr raw \<and> from_toml raw = Inr f \<and> contract_wellformed f \<and> c = contract_of path f"
  using assms by (auto simp: load_def Let_def contract_problems_Nil split: sum.splits if_splits)

lemma wellformed_gate_unique:
  assumes "contract_wellformed f" "g \<in> set (v_gates (cf_verification f))"
  shows "contract_gate (g_name g) (contract_of path f) = Some g"
proof -
  have d: "distinct (map g_name (v_gates (cf_verification f)))" using assms(1) by (simp add: contract_wellformed_def Let_def)
  from assms(2) have "\<exists>y. find (\<lambda>x. g_name x = g_name g) (v_gates (cf_verification f)) = Some y"
    by (auto simp: find_None_iff simp flip: not_None_eq)
  then obtain y where y: "find (\<lambda>x. g_name x = g_name g) (v_gates (cf_verification f)) = Some y" by blast
  then have "y \<in> set (v_gates (cf_verification f))" "g_name y = g_name g" by (auto simp: find_Some_iff)
  with d assms(2) have "y = g" by (auto simp: distinct_map inj_on_def)
  with y show ?thesis by (simp add: contract_gate_def contract_of_def Let_def)
qed

lemma passes_partition:
  "mset (default_pass c) + mset (deferred c) = mset (con_gates c)"
  by (simp add: default_pass_def deferred_def)

text \<open>A section left out altogether does not get the tracker path that an omitted key gets.\<close>

lemma missing_section_tracker: "mr_tracker merge_readiness_section_default \<noteq> default_tracker"
  by (simp add: merge_readiness_section_default_def default_tracker_def ascii_def)

end
