(* ===== verification/Gate_Runner.thy ===== *)
theory Gate_Runner
  imports Contract
begin

section \<open>Running gates (\<open>xtask/src/gates.rs\<close>)\<close>

text \<open>
  One gate is a child process or one of the two internal gates, which read the commit history and the
  findings tracker. The host is a parameter: the environment variables, which paths are files, what a
  file holds, what a child process with given arguments, directory and environment answers, the TOML
  parser of the tracker, and \<open>char::to_lowercase\<close>. The model keeps a result's name, outcome and detail,
  the detail as a value with the arguments of its message, and leaves out the durations that are
  only printed. \<open>None\<close> is a panic of the runner.
\<close>

subsection \<open>The host\<close>

record process_output =
  po_success :: bool
  po_code :: "int option"
  po_stdout :: bytes
  po_stderr :: bytes

record child =
  ch_program :: utext
  ch_args :: "utext list"
  ch_dir :: utext
  ch_env :: "utext \<rightharpoonup> utext"

record bug_entry =
  bug_id :: utext
  bug_title :: utext
  bug_status :: utext
  bug_blocks_merge :: bool
  bug_accepted_by :: "utext option"
  bug_rationale :: "utext option"

record 'e host =
  h_vars :: "(utext \<times> utext) list"
  h_is_file :: "utext \<Rightarrow> bool"
  h_read_to_string :: "utext \<Rightarrow> 'e + utext"
  h_output :: "child \<Rightarrow> 'e + process_output"
  h_parse_bugs :: "utext \<Rightarrow> 'e + bug_entry list"
  h_to_lowercase :: "nat \<Rightarrow> nat list"

definition h_var :: "'e host \<Rightarrow> utext \<Rightarrow> utext option" where
  "h_var h = map_of (h_vars h)"

definition lossy :: "bytes \<Rightarrow> utext" where
  "lossy bs = scalars (from_utf8_lossy bs)"

subsection \<open>Toolchain\<close>

record toolchain =
  tc_sccache :: "utext option"
  tc_linker :: "utext option"
  tc_mold :: "utext option"
  tc_nextest :: bool

definition CRATE :: utext where
  "CRATE = ascii ''thesix''"

definition which_bin :: "'e host \<Rightarrow> utext \<Rightarrow> utext option" where
  "which_bin h name =
     (case h_var h (ascii ''PATH'') of
        None \<Rightarrow> None
      | Some path \<Rightarrow> find (h_is_file h) (map (\<lambda>dir. path_join dir name) (split_on 58 path)))"

definition probe_toolchain :: "'e host \<Rightarrow> toolchain" where
  "probe_toolchain h =
     (let mold = which_bin h (ascii ''mold'');
          linker = (if mold \<noteq> None then which_bin h (ascii ''clang'') else None)
      in \<lparr>tc_sccache = which_bin h (ascii ''sccache''), tc_linker = linker, tc_mold = mold,
          tc_nextest = (which_bin h (ascii ''cargo-nextest'') \<noteq> None \<or> which_bin h (ascii ''cargo'') \<noteq> None)\<rparr>)"

definition file_name_or_default :: "utext \<Rightarrow> utext" where
  "file_name_or_default p = (case file_name p of None \<Rightarrow> [] | Some n \<Rightarrow> n)"

definition summary :: "toolchain \<Rightarrow> utext" where
  "summary tc =
     (let link = (case (tc_linker tc, tc_mold tc) of
                    (Some c, Some m) \<Rightarrow> file_name_or_default c @ ascii '' + '' @ file_name_or_default m
                  | (Some c, None) \<Rightarrow> file_name_or_default c
                  | _ \<Rightarrow> ascii ''system default'')
      in ascii ''crate: '' @ CRATE @ ascii '' | runner: '' @
         (if tc_nextest tc then ascii ''nextest'' else ascii ''cargo test'') @ ascii '' | sccache: '' @
         (if tc_sccache tc \<noteq> None then ascii ''on'' else ascii ''off'') @ ascii '' | linker: '' @ link)"

definition RUSTFLAGS_VAR :: utext where
  "RUSTFLAGS_VAR = ascii ''CARGO_TARGET_X86_64_UNKNOWN_LINUX_GNU_RUSTFLAGS''"

definition toolchain_env :: "'e host \<Rightarrow> toolchain \<Rightarrow> (utext \<times> utext) list" where
  "toolchain_env h tc =
     (case tc_sccache tc of
        None \<Rightarrow> []
      | Some s \<Rightarrow> [(ascii ''RUSTC_WRAPPER'', s), (ascii ''SCCACHE_CACHE_SIZE'', ascii ''20G'')]) @
     (case tc_linker tc of
        None \<Rightarrow> []
      | Some l \<Rightarrow> [(ascii ''CARGO_TARGET_X86_64_UNKNOWN_LINUX_GNU_LINKER'', l)]) @
     (if tc_mold tc \<noteq> None
      then (let existing = (case h_var h RUSTFLAGS_VAR of None \<Rightarrow> [] | Some v \<Rightarrow> v);
                flag = ascii ''-Clink-arg=-fuse-ld=mold''
            in [(RUSTFLAGS_VAR, if existing = [] then flag else existing @ ascii '' '' @ flag)])
      else [])"

subsection \<open>Gates as commands\<close>

datatype gate_outcome = Passed | GateFailed | Unavailable

definition scrubbed_fixed :: "utext list" where
  "scrubbed_fixed = map ascii
     [''CARGO'', ''CARGO_MANIFEST_DIR'', ''CARGO_MANIFEST_PATH'', ''CARGO_CRATE_NAME'', ''CARGO_BIN_NAME'',
      ''CARGO_PRIMARY_PACKAGE'', ''CARGO_TARGET_TMPDIR'']"

text \<open>The environment a command inherits, with the removals applied.\<close>

definition scrub_cargo_env :: "'e host \<Rightarrow> (utext \<rightharpoonup> utext) \<Rightarrow> (utext \<rightharpoonup> utext)" where
  "scrub_cargo_env h env =
     (let pkg_keys = filter (starts_with (ascii ''CARGO_PKG_'')) (map fst (h_vars h))
      in env |` (- set (scrubbed_fixed @ pkg_keys)))"

definition argv_for :: "gate \<Rightarrow> utext list" where
  "argv_for g =
     (case g_kind g of
        GK_Tool \<Rightarrow> g_command g
      | GK_Nightly \<Rightarrow> g_command g
      | GK_Cargo \<Rightarrow> ascii ''cargo'' # g_args g
      | GK_Doctest \<Rightarrow> [ascii ''cargo'', ascii ''test'', ascii ''--doc''] @ g_features g
      | GK_Tracker \<Rightarrow> [ascii ''xtask'', ascii ''internal:'' @ g_name g]
      | GK_Authorship \<Rightarrow> [ascii ''xtask'', ascii ''internal:'' @ g_name g]
      | _ \<Rightarrow>
          map ascii [''cargo'', ''nextest'', ''run'', ''--no-fail-fast'', ''--hide-progress-bar''] @ g_features g @
          concat (map (\<lambda>t. [ascii ''--test'', t]) (g_targets g)) @
          (if g_kind g = GK_Slow then [ascii ''--run-ignored'', ascii ''only''] else []))"

record run_options =
  ro_root :: utext
  ro_expected :: "expected_findings option"
  ro_tracker :: utext
  ro_forbidden_trailers :: "utext list"
  ro_toolchain :: toolchain
  ro_dry_run :: bool
  ro_verbose :: bool

definition set_vars :: "(utext \<times> utext) list \<Rightarrow> (utext \<rightharpoonup> utext) \<Rightarrow> (utext \<rightharpoonup> utext)" where
  "set_vars kvs env = foldl (\<lambda>m (k, v). m(k \<mapsto> v)) env kvs"

text \<open>The command that \<open>run\<close> builds for a gate whose argument vector is \<open>program # args\<close>.\<close>

definition gate_child :: "'e host \<Rightarrow> gate \<Rightarrow> run_options \<Rightarrow> utext \<Rightarrow> utext list \<Rightarrow> child" where
  "gate_child h g opts program args =
     \<lparr>ch_program = program, ch_args = args, ch_dir = ro_root opts,
      ch_env = (set_vars (g_env g) (set_vars (toolchain_env h (ro_toolchain opts))
                  (scrub_cargo_env h (h_var h))))
               (ascii ''CARGO_TERM_COLOR'' \<mapsto> (if ro_verbose opts then ascii ''always'' else ascii ''never''))\<rparr>"

definition external_subcommands :: "utext list" where
  "external_subcommands = map ascii
     [''nextest'', ''deny'', ''machete'', ''fuzz'', ''audit'', ''miri'', ''llvm-cov'', ''tarpaulin'']"

text \<open>The name of the missing binary.\<close>

definition missing_tool :: "'e host \<Rightarrow> utext \<Rightarrow> utext list \<Rightarrow> utext option" where
  "missing_tool h program argv =
     (let missing = (\<lambda>b. if which_bin h b = None then Some b else None)
      in if program = ascii ''cargo''
         then (case find (\<lambda>a. \<not> starts_with (ascii ''+'') a) (drop 1 argv) of
                 None \<Rightarrow> missing (ascii ''cargo'')
               | Some sub \<Rightarrow>
                   if sub \<in> set external_subcommands then missing (ascii ''cargo-'' @ sub) else None)
         else if starts_with (ascii ''cargo-'') program then missing program
         else if 47 \<in> set program \<or> ends_with (ascii ''cargo'') program then None
         else missing program)"

text \<open>\<open>trim_start_matches\<close> with the fixed prefix of a test summary.\<close>

function trim_result_prefix :: "utext \<Rightarrow> utext" where
  "trim_result_prefix l =
     (case strip_prefix (ascii ''test result: '') l of None \<Rightarrow> l | Some rest \<Rightarrow> trim_result_prefix rest)"
  by pat_completeness auto

termination
proof (relation "measure length")
  fix l rest assume "strip_prefix (ascii ''test result: '') l = Some rest"
  then show "(rest, l) \<in> measure length" using strip_prefix_shorter [of "ascii ''test result: ''"] by (simp add: ascii_def)
qed simp

declare trim_result_prefix.simps [simp del]

definition interesting :: "utext \<Rightarrow> bool" where
  "interesting l \<longleftrightarrow> l \<noteq> [] \<and>
     list_ex (\<lambda>w. contains_text (ascii w) l)
       [''Summary'', ''test result'', ''passed'', ''Checking'', ''Finished'', ''error'', ''warning'']"

definition shorten :: "utext \<Rightarrow> utext" where
  "shorten l = (if 110 < length l then take 107 l @ ascii ''...'' else l)"

datatype git_failure = GitSpawnFailed "utext list" | GitExited "utext list" utext

datatype count_problem = BlockingCount nat nat | ShouldFixCount nat nat | NoFindings

datatype finding_problem = StillOpen | RiskWithoutOwner | ResolvedWithoutRationale | UnknownStatus utext

datatype 'e detail =
    DryRun utext
  | NotInstalled utext utext
  | SpawnFailed utext 'e
  | SummaryLine utext
  | ExitedWith int
  | NothingToForbid
  | GitMissing
  | NotWorkTree utext utext
  | HistoryUnreadable git_failure
  | ShallowClone
  | NoCommits
  | HistoryClean nat
  | BannedTrailers "(utext \<times> utext \<times> utext) list"
  | TrackerAbsent utext
  | TrackerUnparsable utext 'e
  | NoExpectations
  | CountsDiffer "count_problem list"
  | FindingsCleared nat
  | FindingsBlock "(utext \<times> finding_problem \<times> utext) list"

record 'e gate_result =
  gr_name :: utext
  gr_outcome :: gate_outcome
  gr_detail :: "'e detail option"

definition summarize :: "utext \<Rightarrow> int option \<Rightarrow> 'e detail option" where
  "summarize out code =
     (case find interesting (map trim (rev (lines out))) of
        Some l \<Rightarrow> Some (SummaryLine (shorten (trim_result_prefix l)))
      | None \<Rightarrow> map_option ExitedWith code)"

subsection \<open>The commit history\<close>

definition FIELD_SEP :: nat where
  "FIELD_SEP = 0x1f"

definition RECORD_SEP :: nat where
  "RECORD_SEP = 0x1e"

definition normalise_key :: "(nat \<Rightarrow> nat list) \<Rightarrow> utext \<Rightarrow> utext" where
  "normalise_key lower key =
     concat (map lower (filter (\<lambda>c. c \<noteq> 45 \<and> c \<noteq> 95 \<and> \<not> is_whitespace c) key))"

text \<open>The declared spelling of the banned key of a line, if it is a banned trailer.\<close>

definition banned_key :: "(nat \<Rightarrow> nat list) \<Rightarrow> (utext \<times> utext) list \<Rightarrow> utext \<Rightarrow> utext option" where
  "banned_key lower wanted line =
     (case split_once 58 line of
        None \<Rightarrow> None
      | Some (key, _) \<Rightarrow> map_option snd (find (\<lambda>(w, _). w = normalise_key lower key) wanted))"

definition redact_banned :: "(nat \<Rightarrow> nat list) \<Rightarrow> utext \<Rightarrow> (utext \<times> utext) list \<Rightarrow> utext" where
  "redact_banned lower txt wanted =
     join (ascii '' '') (map (\<lambda>line.
       case split_once 58 line of
         None \<Rightarrow> line
       | Some (key, _) \<Rightarrow>
           if list_ex (\<lambda>(w, _). w = normalise_key lower key) wanted
           then ascii ''<withheld: banned trailer>'' else line) (lines txt))"

text \<open>
  The offending lines of one message. The commit is named by the first eight bytes of its id; cutting
  it inside a character is a panic.
\<close>

fun offending_lines ::
  "(nat \<Rightarrow> nat list) \<Rightarrow> (utext \<times> utext) list \<Rightarrow> utext \<Rightarrow> utext \<Rightarrow> utext list \<Rightarrow> (utext \<times> utext \<times> utext) list option"
where
  "offending_lines lower wanted sha subject [] = Some []"
| "offending_lines lower wanted sha subject (line # rest) =
     (case banned_key lower wanted line of
        None \<Rightarrow> offending_lines lower wanted sha subject rest
      | Some declared \<Rightarrow>
          (case byte_prefix (min (byte_length sha) 8) sha of
             None \<Rightarrow> None
           | Some short \<Rightarrow>
               map_option (Cons (short, declared, subject)) (offending_lines lower wanted sha subject rest)))"

fun scan_records ::
  "(nat \<Rightarrow> nat list) \<Rightarrow> (utext \<times> utext) list \<Rightarrow> utext list \<Rightarrow> (nat \<times> (utext \<times> utext \<times> utext) list) option"
where
  "scan_records lower wanted [] = Some (0, [])"
| "scan_records lower wanted (record0 # rest) =
     (let record = dropWhile (\<lambda>c. c = 10) record0
      in if trimmed_empty record then scan_records lower wanted rest
         else case splitn 3 FIELD_SEP record of
           sha # message # _ \<Rightarrow>
             (let subject = redact_banned lower
                    (trim (case lines message of [] \<Rightarrow> [] | l # _ \<Rightarrow> l)) wanted
              in case offending_lines lower wanted sha subject (lines message) of
                   None \<Rightarrow> None
                 | Some here \<Rightarrow> map_option (\<lambda>(n, found). (Suc n, here @ found)) (scan_records lower wanted rest))
         | _ \<Rightarrow> scan_records lower wanted rest)"

definition git_out :: "'e host \<Rightarrow> utext \<Rightarrow> utext \<Rightarrow> utext list \<Rightarrow> git_failure + utext" where
  "git_out h git root args =
     (case h_output h \<lparr>ch_program = git, ch_args = args, ch_dir = root, ch_env = scrub_cargo_env h (h_var h)\<rparr> of
        Inl e \<Rightarrow> Inl (GitSpawnFailed args)
      | Inr out \<Rightarrow>
          if \<not> po_success out then Inl (GitExited args (trim (lossy (po_stderr out))))
          else Inr (lossy (po_stdout out)))"

definition work_tree_args :: "utext list" where
  "work_tree_args = map ascii [''rev-parse'', ''--is-inside-work-tree'']"

definition shallow_args :: "utext list" where
  "shallow_args = map ascii [''rev-parse'', ''--is-shallow-repository'']"

definition log_args :: "utext list" where
  "log_args = map ascii [''log'', ''--all'', ''--no-color'', ''--format=%x1e%H%x1f%B'']"

definition authorship :: "'e host \<Rightarrow> utext \<Rightarrow> utext \<Rightarrow> utext list \<Rightarrow> 'e gate_result option" where
  "authorship h name root forbidden =
     (let fin = (\<lambda>out d. Some \<lparr>gr_name = name, gr_outcome = out, gr_detail = Some d\<rparr>)
      in if forbidden = [] then fin Unavailable NothingToForbid
         else case which_bin h (ascii ''git'') of
           None \<Rightarrow> fin Unavailable GitMissing
         | Some git \<Rightarrow>
             (case git_out h git root work_tree_args of
                Inl e \<Rightarrow> fin Unavailable (HistoryUnreadable e)
              | Inr answer \<Rightarrow>
                  if trim answer \<noteq> ascii ''true'' then fin Unavailable (NotWorkTree root answer)
                  else if (case git_out h git root shallow_args of
                             Inr answer2 \<Rightarrow> trim answer2 = ascii ''true''
                           | Inl _ \<Rightarrow> False)
                  then fin Unavailable ShallowClone
                  else case git_out h git root log_args of
                    Inl e \<Rightarrow> fin Unavailable (HistoryUnreadable e)
                  | Inr raw \<Rightarrow>
                      (let wanted = map (\<lambda>k. (normalise_key (h_to_lowercase h) k, k)) forbidden
                       in case scan_records (h_to_lowercase h) wanted (split_on RECORD_SEP raw) of
                            None \<Rightarrow> None
                          | Some (scanned, offenders) \<Rightarrow>
                              if scanned = 0 then fin Unavailable NoCommits
                              else if offenders = [] then fin Passed (HistoryClean scanned)
                              else fin GateFailed (BannedTrailers offenders))))"

subsection \<open>The findings tracker\<close>

definition blank :: "utext option \<Rightarrow> bool" where
  "blank s \<longleftrightarrow> (case s of None \<Rightarrow> True | Some v \<Rightarrow> trimmed_empty v)"

definition finding_problem_of :: "bug_entry \<Rightarrow> finding_problem option" where
  "finding_problem_of b =
     (if bug_status b = ascii ''open'' then Some StillOpen
      else if bug_status b = ascii ''accepted-risk''
      then (if blank (bug_accepted_by b) \<or> blank (bug_rationale b) then Some RiskWithoutOwner else None)
      else if bug_status b = ascii ''resolved''
      then (if blank (bug_rationale b) then Some ResolvedWithoutRationale else None)
      else Some (UnknownStatus (bug_status b)))"

definition count_problems :: "expected_findings \<Rightarrow> bug_entry list \<Rightarrow> count_problem list" where
  "count_problems expected bugs =
     (let actual_blocking = length (filter bug_blocks_merge bugs);
          actual_should_fix = length (filter (\<lambda>b. \<not> bug_blocks_merge b) bugs);
          ps = (case ef_blocking expected of
                  None \<Rightarrow> []
                | Some want \<Rightarrow> if want \<noteq> actual_blocking then [BlockingCount want actual_blocking] else []) @
               (case ef_should_fix expected of
                  None \<Rightarrow> []
                | Some want \<Rightarrow> if want \<noteq> actual_should_fix then [ShouldFixCount want actual_should_fix] else [])
      in if ps = [] \<and> bugs = [] then [NoFindings] else ps)"

definition blocking_findings :: "bug_entry list \<Rightarrow> (utext \<times> finding_problem \<times> utext) list" where
  "blocking_findings bugs =
     concat (map (\<lambda>b.
       if \<not> bug_blocks_merge b then []
       else case finding_problem_of b of None \<Rightarrow> [] | Some p \<Rightarrow> [(bug_id b, p, bug_title b)]) bugs)"

definition merge_readiness ::
  "'e host \<Rightarrow> utext \<Rightarrow> utext \<Rightarrow> expected_findings option \<Rightarrow> utext \<Rightarrow> 'e gate_result"
where
  "merge_readiness h name root expected tracker =
     (let fin = (\<lambda>out d. \<lparr>gr_name = name, gr_outcome = out, gr_detail = Some d\<rparr>);
          path = path_join root tracker
      in case h_read_to_string h path of
           Inl _ \<Rightarrow> fin Unavailable (TrackerAbsent path)
         | Inr raw \<Rightarrow>
             (case h_parse_bugs h raw of
                Inl e \<Rightarrow> fin Unavailable (TrackerUnparsable path e)
              | Inr bugs \<Rightarrow>
                  (case expected of
                     None \<Rightarrow> fin Unavailable NoExpectations
                   | Some want \<Rightarrow>
                       if count_problems want bugs \<noteq> [] then fin GateFailed (CountsDiffer (count_problems want bugs))
                       else if blocking_findings bugs = []
                       then fin Passed (FindingsCleared (length (filter bug_blocks_merge bugs)))
                       else fin GateFailed (FindingsBlock (blocking_findings bugs)))))"

subsection \<open>Executing one gate\<close>

text \<open>The result, and what was written to the standard error stream.\<close>

definition run :: "'e host \<Rightarrow> gate \<Rightarrow> run_options \<Rightarrow> ('e gate_result \<times> utext) option" where
  "run h g opts =
     (let fin = (\<lambda>out d. \<lparr>gr_name = g_name g, gr_outcome = out, gr_detail = d\<rparr>)
      in case argv_for g of
           [] \<Rightarrow> None
         | program # args \<Rightarrow>
             if ro_dry_run opts
             then Some (fin Passed (Some (DryRun (join (ascii '' '') (program # args)))), [])
             else if g_kind g = GK_Tracker
             then Some (merge_readiness h (g_name g) (ro_root opts) (ro_expected opts) (ro_tracker opts), [])
             else if g_kind g = GK_Authorship
             then map_option (\<lambda>r. (r, [])) (authorship h (g_name g) (ro_root opts) (ro_forbidden_trailers opts))
             else
               (case missing_tool h program (program # args) of
                  Some b \<Rightarrow> Some (fin Unavailable (Some (NotInstalled program b)), [])
                | None \<Rightarrow>
                    (case h_output h (gate_child h g opts program args) of
                       Inl e \<Rightarrow> Some (fin GateFailed (Some (SpawnFailed program e)), [])
                     | Inr out \<Rightarrow>
                         (let combined = lossy (po_stdout out) @ lossy (po_stderr out)
                          in Some (fin (if po_success out then Passed else GateFailed) (summarize combined (po_code out)),
                               if \<not> ro_verbose opts \<or> \<not> po_success out then combined else [])))))"

text \<open>The gates that a selector names.\<close>

definition resolve_gates :: "contract \<Rightarrow> utext option \<Rightarrow> (utext \<times> utext list) + gate list" where
  "resolve_gates c selector =
     (case selector of
        None \<Rightarrow> Inr (default_pass c)
      | Some name \<Rightarrow>
          if name = ascii ''all'' then Inr (con_gates c)
          else case contract_gate name c of
            Some g \<Rightarrow> Inr [g]
          | None \<Rightarrow> Inl (name, map g_name (con_gates c)))"

subsection \<open>What a child process sees\<close>

lemma set_vars_apply: "set_vars kvs env k = (case map_of (rev kvs) k of Some v \<Rightarrow> Some v | None \<Rightarrow> env k)"
  by (induction kvs rule: rev_induct) (auto simp: set_vars_def map_add_def split: option.split)

text \<open>
  A gate's command sees the caller's environment and nothing of the runner's own package. A
  variable has the value that the gate declares, else the one that the detected toolchain sets, else
  the caller's, except that the variables with which cargo describes the runner's package, including
  every one that starts with \<open>CARGO_PKG_\<close>, are not passed on; only the colour setting is always the
  runner's.
\<close>

theorem gate_child_environment:
  "ch_env (gate_child h g opts program args) k =
     (if k = ascii ''CARGO_TERM_COLOR'' then Some (if ro_verbose opts then ascii ''always'' else ascii ''never'')
      else case map_of (rev (g_env g)) k of
        Some v \<Rightarrow> Some v
      | None \<Rightarrow>
          (case map_of (rev (toolchain_env h (ro_toolchain opts))) k of
             Some v \<Rightarrow> Some v
           | None \<Rightarrow> if k \<in> set scrubbed_fixed \<or> starts_with (ascii ''CARGO_PKG_'') k then None else h_var h k))"
proof -
  have "scrub_cargo_env h (h_var h) k =
      (if k \<in> set scrubbed_fixed \<or> starts_with (ascii ''CARGO_PKG_'') k then None else h_var h k)"
    by (auto simp: scrub_cargo_env_def restrict_map_def h_var_def Let_def map_of_eq_None_iff [symmetric]
        intro: map_of_eq_None_iff [THEN iffD2])
  then show ?thesis by (simp add: gate_child_def set_vars_apply split: option.split)
qed

subsection \<open>What a passing gate has established\<close>

text \<open>A merge-blocking finding leaves the open state only with the record that its status needs.\<close>

definition finding_cleared :: "bug_entry \<Rightarrow> bool" where
  "finding_cleared b \<longleftrightarrow>
     bug_status b = ascii ''resolved'' \<and> \<not> blank (bug_rationale b) \<or>
     bug_status b = ascii ''accepted-risk'' \<and> \<not> blank (bug_accepted_by b) \<and> \<not> blank (bug_rationale b)"

definition tracker_ready :: "expected_findings \<Rightarrow> bug_entry list \<Rightarrow> bool" where
  "tracker_ready want bugs \<longleftrightarrow> bugs \<noteq> [] \<and>
     (\<forall>n. ef_blocking want = Some n \<longrightarrow> length (filter bug_blocks_merge bugs) = n) \<and>
     (\<forall>n. ef_should_fix want = Some n \<longrightarrow> length (filter (\<lambda>b. \<not> bug_blocks_merge b) bugs) = n) \<and>
     (\<forall>b\<in>set bugs. bug_blocks_merge b \<longrightarrow> finding_cleared b)"

lemma finding_problem_None: "finding_problem_of b = None \<longleftrightarrow> finding_cleared b"
  by (auto simp: finding_problem_of_def finding_cleared_def ascii_def)

lemma count_problems_Nil:
  "count_problems want bugs = [] \<longleftrightarrow> bugs \<noteq> [] \<and>
     (\<forall>n. ef_blocking want = Some n \<longrightarrow> length (filter bug_blocks_merge bugs) = n) \<and>
     (\<forall>n. ef_should_fix want = Some n \<longrightarrow> length (filter (\<lambda>b. \<not> bug_blocks_merge b) bugs) = n)"
  by (cases "ef_blocking want"; cases "ef_should_fix want") (auto simp: count_problems_def Let_def)

lemma blocking_findings_Nil: "blocking_findings bugs = [] \<longleftrightarrow> (\<forall>b\<in>set bugs. bug_blocks_merge b \<longrightarrow> finding_cleared b)"
  by (induction bugs) (auto simp: blocking_findings_def finding_problem_None [symmetric] split: option.split)

lemma tracker_ready_iff: "tracker_ready want bugs \<longleftrightarrow> count_problems want bugs = [] \<and> blocking_findings bugs = []"
  by (auto simp: tracker_ready_def count_problems_Nil blocking_findings_Nil)

text \<open>
  The merge-readiness gate passes exactly on a tracker that is ready. It passes when the tracker
  can be read and parsed, the contract supplies its expectations, the tracker is not empty and holds
  the expected numbers of findings, and every finding that blocks a merge is resolved with a
  rationale or accepted with an owner and a rationale. It answers unavailable, and never passed,
  when the tracker or the expectations are missing, and failed in every other case.
\<close>

theorem merge_readiness_exact:
  "gr_outcome (merge_readiness h name root expected tracker) =
     (case h_read_to_string h (path_join root tracker) of
        Inl _ \<Rightarrow> Unavailable
      | Inr raw \<Rightarrow>
          (case (h_parse_bugs h raw, expected) of
             (Inr bugs, Some want) \<Rightarrow> if tracker_ready want bugs then Passed else GateFailed
           | _ \<Rightarrow> Unavailable))"
  by (auto simp: merge_readiness_def Let_def tracker_ready_iff split: sum.split option.split)

subsection \<open>What the authorship gate sees\<close>

text \<open>
  The letters of a key that count: case is folded by \<open>lower\<close>, hyphens, underscores and blanks are
  passed over.
\<close>

fun folded :: "(nat \<Rightarrow> nat list) \<Rightarrow> utext \<Rightarrow> utext" where
  "folded lower [] = []"
| "folded lower (c # rest) =
     (if c = of_char CHR ''-'' \<or> c = of_char CHR ''_'' \<or> is_whitespace c then folded lower rest
      else lower c @ folded lower rest)"

text \<open>A line is a banned trailer when the text before its first colon is a forbidden key in some spelling.\<close>

definition is_banned :: "(nat \<Rightarrow> nat list) \<Rightarrow> utext list \<Rightarrow> utext \<Rightarrow> bool" where
  "is_banned lower forbidden line \<longleftrightarrow>
     (\<exists>key value k. line = key @ of_char CHR '':'' # value \<and> of_char CHR '':'' \<notin> set key \<and>
        k \<in> set forbidden \<and> folded lower k = folded lower key)"

lemma normalise_key_folded: "normalise_key lower key = folded lower key"
  by (induction key) (auto simp: normalise_key_def)

definition message_banned :: "(nat \<Rightarrow> nat list) \<Rightarrow> utext list \<Rightarrow> utext \<Rightarrow> bool" where
  "message_banned lower forbidden message \<longleftrightarrow> list_ex (is_banned lower forbidden) (lines message)"

definition wanted_keys :: "(nat \<Rightarrow> nat list) \<Rightarrow> utext list \<Rightarrow> (utext \<times> utext) list" where
  "wanted_keys lower forbidden = map (\<lambda>k. (normalise_key lower k, k)) forbidden"

text \<open>The output of \<open>git log\<close> for commits with the given ids and messages.\<close>

definition log_of :: "(utext \<times> utext) list \<Rightarrow> utext" where
  "log_of commits = concat (map (\<lambda>(sha, message). RECORD_SEP # sha @ FIELD_SEP # message) commits)"

definition plain_commit :: "utext \<times> utext \<Rightarrow> bool" where
  "plain_commit c \<longleftrightarrow> (case c of (sha, message) \<Rightarrow>
     sha \<noteq> [] \<and> (\<forall>d\<in>set sha. 33 \<le> d \<and> d < 127) \<and> RECORD_SEP \<notin> set message \<and> FIELD_SEP \<notin> set message)"

lemma banned_key_iff: "banned_key lower (wanted_keys lower forbidden) line = None \<longleftrightarrow> \<not> is_banned lower forbidden line"
proof (cases "split_once 58 line")
  case None
  then have "58 \<notin> set line" by (simp add: split_once_None)
  then show ?thesis by (auto simp: banned_key_def is_banned_def None)
next
  case (Some kv)
  obtain key v where kv: "kv = (key, v)" by (cases kv)
  have line: "line = key @ 58 # v" "58 \<notin> set key" using Some by (simp_all add: kv split_once_Some)
  have "is_banned lower forbidden line \<longleftrightarrow> (\<exists>k\<in>set forbidden. folded lower k = folded lower key)"
  proof
    assume "is_banned lower forbidden line"
    then obtain key' v' k where k: "line = key' @ 58 # v'" "58 \<notin> set key'" "k \<in> set forbidden" "folded lower k = folded lower key'"
      by (auto simp: is_banned_def)
    then have "split_once 58 line = Some (key', v')" by (simp add: split_once_Some)
    with Some kv k(3,4) show "\<exists>k\<in>set forbidden. folded lower k = folded lower key" by auto
  next
    assume "\<exists>k\<in>set forbidden. folded lower k = folded lower key"
    with line show "is_banned lower forbidden line" unfolding is_banned_def by auto
  qed
  then show ?thesis
    by (auto simp: banned_key_def wanted_keys_def find_None_iff Some kv normalise_key_folded)
qed

lemma offending_lines_ascii:
  assumes "\<forall>d\<in>set sha. d < 128"
  shows "\<exists>found. offending_lines lower wanted sha subject ls = Some found \<and>
    (found = [] \<longleftrightarrow> (\<forall>l\<in>set ls. banned_key lower wanted l = None))"
proof -
  have "byte_prefix (min (byte_length sha) 8) sha = Some (take (min (length sha) 8) sha)"
    using byte_prefix_ascii [OF assms, of "min (length sha) 8"] by simp
  then show ?thesis by (induction ls) (auto split: option.split)
qed

text \<open>
  The first piece of the log is empty, because git starts every commit with the separator; every
  further piece is one commit.
\<close>

lemma split_log:
  assumes "list_all plain_commit commits"
  shows "split_on RECORD_SEP (log_of commits) = [] # map (\<lambda>(sha, message). sha @ FIELD_SEP # message) commits"
  using assms
proof (induction commits)
  case (Cons c commits)
  obtain sha message where c: "c = (sha, message)" by fastforce
  let ?r = "sha @ FIELD_SEP # message"
  have free: "RECORD_SEP \<notin> set ?r" using Cons.prems by (auto simp: plain_commit_def c RECORD_SEP_def FIELD_SEP_def)
  have "split_on RECORD_SEP (?r @ log_of commits) = ?r # map (\<lambda>(sha, message). sha @ FIELD_SEP # message) commits"
  proof (cases commits)
    case Nil
    with free show ?thesis by (simp add: log_of_def split_on_free)
  next
    case (Cons d ds)
    then have "log_of commits = RECORD_SEP # tl (log_of commits)" by (auto simp: log_of_def split: prod.split)
    then have "split_on RECORD_SEP (?r @ log_of commits) = ?r # split_on RECORD_SEP (tl (log_of commits))"
      "split_on RECORD_SEP (log_of commits) = [] # split_on RECORD_SEP (tl (log_of commits))"
      using split_on_append [OF free] by (metis, metis split_on.simps(2))
    with Cons.IH Cons.prems show ?thesis by simp
  qed
  then show ?case by (simp add: log_of_def c)
qed (simp add: log_of_def)

lemma scan_plain:
  assumes "list_all plain_commit commits"
  shows "\<exists>found. scan_records lower (wanted_keys lower forbidden) (map (\<lambda>(sha, message). sha @ FIELD_SEP # message) commits) =
      Some (length commits, found) \<and>
    (found = [] \<longleftrightarrow> (\<forall>c\<in>set commits. \<not> message_banned lower forbidden (snd c)))"
  using assms
proof (induction commits)
  case (Cons c commits)
  let ?w = "wanted_keys lower forbidden"
  obtain sha message where c: "c = (sha, message)" by fastforce
  then obtain x xs where sha: "sha = x # xs" and ok: "\<forall>d\<in>set sha. 33 \<le> d \<and> d < 127" "FIELD_SEP \<notin> set message"
    using Cons.prems by (cases sha) (auto simp: plain_commit_def)
  have x: "x \<noteq> 10" "\<not> is_whitespace x" using ok(1) by (auto simp: sha is_whitespace_def)
  have fs: "FIELD_SEP \<notin> set sha" using ok(1) by (auto simp: FIELD_SEP_def)
  have "split_once FIELD_SEP (sha @ FIELD_SEP # message) = Some (sha, message)" "split_once FIELD_SEP message = None"
    using fs ok(2) by (auto simp: split_once_Some split_once_None)
  then have fields: "splitn 3 FIELD_SEP (sha @ FIELD_SEP # message) = [sha, message]"
    by (simp add: numeral_3_eq_3)
  have drop: "dropWhile (\<lambda>c. c = 10) (sha @ FIELD_SEP # message) = sha @ FIELD_SEP # message"
    "\<not> trimmed_empty (sha @ FIELD_SEP # message)"
    using x by (simp_all add: sha trimmed_empty_def)
  have "\<forall>d\<in>set sha. d < 128" using ok(1) by auto
  note here = offending_lines_ascii [OF this, of lower ?w
      "redact_banned lower (trim (case lines message of [] \<Rightarrow> [] | l # _ \<Rightarrow> l)) ?w" "lines message"]
  from here Cons.IH Cons.prems show ?case
    by (auto simp: c drop fields banned_key_iff message_banned_def list_ex_iff)
qed simp

text \<open>
  C40: The authorship gate is exact on ordinary histories. In a full clone whose commit messages
  contain neither separator of the log format, the gate passes exactly when there is a commit and no
  line of any message of any ref starts with a forbidden trailer key, in any spelling by case,
  hyphen, underscore or blanks; a forbidden trailer fails it and an empty log makes it unavailable.
\<close>

theorem authorship_exact:
  assumes "forbidden \<noteq> []" "which_bin h (ascii ''git'') = Some git"
    and "git_out h git root work_tree_args = Inr answer" "trim answer = ascii ''true''"
    and "git_out h git root shallow_args = Inr shallow" "trim shallow \<noteq> ascii ''true''"
    and "git_out h git root log_args = Inr (log_of commits)" "list_all plain_commit commits"
  shows "\<exists>r. authorship h name root forbidden = Some r \<and>
    gr_outcome r =
      (if commits = [] then Unavailable
       else if \<exists>c\<in>set commits. message_banned (h_to_lowercase h) forbidden (snd c)
       then GateFailed else Passed)"
proof -
  let ?lower = "h_to_lowercase h"
  from scan_plain [OF assms(8), of ?lower forbidden] obtain found where
    "scan_records ?lower (wanted_keys ?lower forbidden) (split_on RECORD_SEP (log_of commits)) = Some (length commits, found)"
    and "found = [] \<longleftrightarrow> (\<forall>c\<in>set commits. \<not> message_banned ?lower forbidden (snd c))"
    by (auto simp: split_log [OF assms(8)] trimmed_empty_def)
  then show ?thesis
    using assms(1-7) by (auto simp: authorship_def Let_def wanted_keys_def split: prod.splits)
qed

text \<open>A clone whose \<open>git log\<close> prints a given text.\<close>

definition ascii_lower :: "nat \<Rightarrow> nat list" where
  "ascii_lower c = [if 65 \<le> c \<and> c \<le> 90 then c + 32 else c]"

definition demo_clone :: "utext \<Rightarrow> unit host" where
  "demo_clone log =
     \<lparr>h_vars = [(ascii ''PATH'', ascii ''/bin'')], h_is_file = (\<lambda>p. p = ascii ''/bin/git''),
      h_read_to_string = (\<lambda>_. Inl ()),
      h_output = (\<lambda>c. Inr \<lparr>po_success = True, po_code = Some 0,
        po_stdout = map of_nat (if ch_args c = work_tree_args then ascii ''true''
          else if ch_args c = shallow_args then ascii ''false'' else log), po_stderr = []\<rparr>),
      h_parse_bugs = (\<lambda>_. Inl ()), h_to_lowercase = ascii_lower\<rparr>"

lemma lossy_ascii:
  assumes "\<forall>c\<in>set s. c < 128"
  shows "lossy (map of_nat s) = s"
proof -
  have enc: "concat (map utf8_char s) = s" using assms by (induction s) (simp_all add: utf8_char_def)
  have "list_all is_scalar s" using assms by (auto simp: list_all_iff is_scalar_def)
  from utf8_lossy_prefix [OF this, of "[]"] have "utf8_lossy s = s" by (simp add: enc)
  moreover have "map unat (map of_nat s :: bytes) = s"
    using assms by (auto simp: unat_of_nat intro!: map_idI)
  ultimately show ?thesis by (simp add: lossy_def)
qed

lemma demo_clone_git:
  assumes "\<forall>c\<in>set log. c < 128"
  shows "which_bin (demo_clone log) (ascii ''git'') = Some (ascii ''/bin/git'')"
    "git_out (demo_clone log) git root work_tree_args = Inr (ascii ''true'')"
    "git_out (demo_clone log) git root shallow_args = Inr (ascii ''false'')"
    "git_out (demo_clone log) git root log_args = Inr log"
proof -
  have "split_on 58 (ascii ''/bin'') = [ascii ''/bin'']" by (simp add: ascii_def)
  then show "which_bin (demo_clone log) (ascii ''git'') = Some (ascii ''/bin/git'')"
    by (simp add: which_bin_def demo_clone_def h_var_def path_join_def starts_with_def ends_with_def ascii_def)
  have "shallow_args \<noteq> work_tree_args" "log_args \<noteq> work_tree_args" "log_args \<noteq> shallow_args"
    by (simp_all add: shallow_args_def work_tree_args_def log_args_def ascii_def)
  moreover have "lossy (map of_nat (ascii ''true'')) = ascii ''true''" "lossy (map of_nat (ascii ''false'')) = ascii ''false''"
    by (rule lossy_ascii, simp add: ascii_def)+
  ultimately show "git_out (demo_clone log) git root work_tree_args = Inr (ascii ''true'')"
    "git_out (demo_clone log) git root shallow_args = Inr (ascii ''false'')"
    "git_out (demo_clone log) git root log_args = Inr log"
    using lossy_ascii [OF assms] by (simp_all add: git_out_def demo_clone_def)
qed

theorem authorship_exact_witness:
  "\<exists>r. authorship (demo_clone (log_of [(ascii ''a1b2c3d4e5'', ascii ''fix: a bug''), (ascii ''f6a7b8c9d0'', ascii ''co_Authored by: x'')]))
        (ascii ''authorship'') (ascii ''.'') [ascii ''Co-Authored-By''] = Some r \<and> gr_outcome r = GateFailed"
proof -
  let ?c = "[(ascii ''a1b2c3d4e5'', ascii ''fix: a bug''), (ascii ''f6a7b8c9d0'', ascii ''co_Authored by: x'')]"
  have log: "\<forall>c\<in>set (log_of ?c). c < 128" by (simp add: log_of_def ascii_def FIELD_SEP_def RECORD_SEP_def)
  have "lines (ascii ''co_Authored by: x'') = [ascii ''co_Authored by: x'']"
    by (simp add: lines_def line_of_def strip_suffix_def ascii_def)
  moreover have "ascii ''co_Authored by: x'' = ascii ''co_Authored by'' @ 58 # ascii '' x''" "58 \<notin> set (ascii ''co_Authored by'')"
    by (simp_all add: ascii_def)
  moreover have "folded ascii_lower (ascii ''Co-Authored-By'') = folded ascii_lower (ascii ''co_Authored by'')"
    by (simp add: ascii_lower_def ascii_def is_whitespace_def)
  ultimately have banned: "message_banned ascii_lower [ascii ''Co-Authored-By''] (ascii ''co_Authored by: x'')"
    unfolding message_banned_def is_banned_def by auto
  have plain: "list_all plain_commit ?c"
    by (simp add: plain_commit_def ascii_def FIELD_SEP_def RECORD_SEP_def)
  have "trim (ascii ''true'') = ascii ''true''" "trim (ascii ''false'') \<noteq> ascii ''true''"
    by (simp_all add: trim_def trim_start_def ascii_def is_whitespace_def)
  from authorship_exact [where commits = ?c, OF _ demo_clone_git(1,2) [OF log] this(1) demo_clone_git(3) [OF log] this(2)
      demo_clone_git(4) [OF log] plain, of "[ascii ''Co-Authored-By'']" "ascii ''authorship''"] banned
  show ?thesis by (simp add: demo_clone_def)
qed

text \<open>
  A field separator inside a message ends what the gate reads of it, although \<open>splitn\<close> keeps the rest
  of the text: a trailer after the separator is not seen.
\<close>

lemma separator_hides_trailer:
  "\<exists>r. authorship (demo_clone (RECORD_SEP # ascii ''a1b2c3d4e5'' @ FIELD_SEP # ascii ''fix'' @ FIELD_SEP #
        10 # ascii ''Co-Authored-By: x'')) (ascii ''authorship'') (ascii ''.'') [ascii ''Co-Authored-By''] = Some r \<and>
     gr_outcome r = Passed"
proof -
  let ?log = "RECORD_SEP # ascii ''a1b2c3d4e5'' @ FIELD_SEP # ascii ''fix'' @ FIELD_SEP # 10 # ascii ''Co-Authored-By: x''"
  have log: "\<forall>c\<in>set ?log. c < 128" by (simp add: ascii_def FIELD_SEP_def RECORD_SEP_def)
  have "scan_records ascii_lower w (split_on RECORD_SEP ?log) = Some (1, [])" for w
    by (simp add: ascii_def FIELD_SEP_def RECORD_SEP_def trimmed_empty_def is_whitespace_def numeral_3_eq_3 split_once_def
        lines_def line_of_def strip_suffix_def banned_key_def)
  moreover have "trim (ascii ''true'') = ascii ''true''" "trim (ascii ''false'') \<noteq> ascii ''true''"
    by (simp_all add: trim_def trim_start_def ascii_def is_whitespace_def)
  moreover have "h_to_lowercase (demo_clone ?log) = ascii_lower" by (simp add: demo_clone_def)
  ultimately show ?thesis by (simp add: authorship_def Let_def demo_clone_git [OF log] del: split_on.simps)
qed

end
