(* ===== verification/Xtask.thy ===== *)
theory Xtask
  imports Gate_Runner
begin

section \<open>The gate runner's command line (\<open>xtask/src/main.rs\<close>)\<close>

text \<open>
  Loading the contract, choosing gates, running them in order and the exit code of the process. Each
  gate may change what later gates find, so the host is a function of how many gates have run. The
  parsed command line is a parameter; what is printed is kept as values, without its colours.
\<close>

datatype command =
    C_Gates
  | C_Run utext
  | C_Contract
  | C_List
  | C_Deferred
  | C_Show utext
  | C_Toolchain
  | C_Layers

record cli =
  cli_root :: utext
  cli_dry_run :: bool
  cli_verbose :: bool
  cli_command :: "command option"

datatype exit_code = ExitSuccess | ExitFailure | ExitFrom nat

definition ROOT :: utext where
  "ROOT = ascii ''theSix.toml''"

fun run_each :: "(nat \<Rightarrow> 'e host) \<Rightarrow> run_options \<Rightarrow> nat \<Rightarrow> gate list \<Rightarrow> 'e gate_result list option" where
  "run_each hosts opts i [] = Some []"
| "run_each hosts opts i (g # rest) =
     (case run (hosts i) g opts of
        None \<Rightarrow> None
      | Some (r, printed) \<Rightarrow> map_option (Cons r) (run_each hosts opts (Suc i) rest))"

definition count_outcome :: "gate_outcome \<Rightarrow> 'e gate_result list \<Rightarrow> nat" where
  "count_outcome x results = length (filter (\<lambda>r. gr_outcome r = x) results)"

definition run_all ::
  "(nat \<Rightarrow> 'e host) \<Rightarrow> gate list \<Rightarrow> run_options \<Rightarrow> (exit_code \<times> 'e gate_result list) option"
where
  "run_all hosts selected opts =
     map_option (\<lambda>results.
       (if count_outcome GateFailed results > 0 then ExitFailure
        else if count_outcome Unavailable results > 0 then ExitFrom 3
        else ExitSuccess, results)) (run_each hosts opts 0 selected)"

datatype 'e report =
    R_LoadError "'e load_error"
  | R_Mismatch "(utext \<times> utext) list"
  | R_Contract utext utext nat nat "(string \<times> nat) list" "(utext \<times> bool) list"
  | R_Toolchain utext "utext option" "utext option" "utext option"
  | R_Gates "(utext \<times> string \<times> bool \<times> utext) list"
  | R_Layers "(utext \<times> utext) list"
  | R_Argv utext
  | R_NoGate utext
  | R_UnknownGate utext utext
  | R_Results "'e gate_result list"

definition print_contract :: "contract \<Rightarrow> 'e report" where
  "print_contract c =
     R_Contract (con_path c) (con_version c) (length (con_gates c)) (length (con_layers c))
       (declared_case_counts c) (con_required_booleans c)"

definition print_gates :: "contract \<Rightarrow> bool \<Rightarrow> 'e report" where
  "print_gates c deferred_only =
     R_Gates (map (\<lambda>g. (g_name g, gate_kind_str (g_kind g), deferred_only, g_description g))
       (if deferred_only then deferred c else default_pass c))"

definition options_of :: "cli \<Rightarrow> contract \<Rightarrow> toolchain \<Rightarrow> run_options" where
  "options_of args c tc =
     \<lparr>ro_root = cli_root args, ro_expected = Some (con_expected_findings c), ro_tracker = con_tracker c,
      ro_forbidden_trailers = con_forbidden_trailers c, ro_toolchain = tc, ro_dry_run = cli_dry_run args,
      ro_verbose = cli_verbose args\<rparr>"

definition xtask_main ::
  "(utext \<Rightarrow> 'e + contract_file) \<Rightarrow> 'e host \<Rightarrow> (nat \<Rightarrow> 'e host) \<Rightarrow> cli \<Rightarrow> (exit_code \<times> 'e report) option"
where
  "xtask_main from_toml h hosts args =
     (case load (h_read_to_string h) from_toml (path_join (cli_root args) ROOT) of
        Inl e \<Rightarrow> Some (ExitFrom 2, R_LoadError e)
      | Inr c \<Rightarrow>
          (case validate_targets (h_is_file h) (cli_root args) c of
             Inl problems \<Rightarrow> Some (ExitFrom 2, R_Mismatch problems)
           | Inr _ \<Rightarrow>
               (let tc = probe_toolchain h; opts = options_of args c tc;
                    go = (\<lambda>selected. map_option (\<lambda>(code, results). (code, R_Results results)) (run_all hosts selected opts))
                in case (case cli_command args of None \<Rightarrow> C_Gates | Some cmd \<Rightarrow> cmd) of
                     C_Contract \<Rightarrow> Some (ExitSuccess, print_contract c)
                   | C_Toolchain \<Rightarrow> Some (ExitSuccess, R_Toolchain (summary tc) (tc_sccache tc) (tc_linker tc) (tc_mold tc))
                   | C_List \<Rightarrow> Some (ExitSuccess, print_gates c False)
                   | C_Deferred \<Rightarrow> Some (ExitSuccess, print_gates c True)
                   | C_Layers \<Rightarrow>
                       Some (ExitSuccess, R_Layers (map (\<lambda>(layer, targets). (layer, join (ascii '', '') targets)) (con_layers c)))
                   | C_Show name \<Rightarrow>
                       (case contract_gate name c of
                          Some g \<Rightarrow> Some (ExitSuccess, R_Argv (join (ascii '' '') (argv_for g)))
                        | None \<Rightarrow> Some (ExitFrom 2, R_NoGate name))
                   | C_Run name \<Rightarrow>
                       (case resolve_gates c (Some name) of
                          Inl (n, known) \<Rightarrow> Some (ExitFrom 2, R_UnknownGate n (join (ascii '', '') known))
                        | Inr selected \<Rightarrow> go selected)
                   | C_Gates \<Rightarrow>
                       (case resolve_gates c None of
                          Inl _ \<Rightarrow> None
                        | Inr selected \<Rightarrow> go selected))))"

subsection \<open>What the exit code promises\<close>

text \<open>
  What must have happened for a gate to count as verified. A tracker gate: the tracker was read and is
  ready. An authorship gate: git reported a work tree and no shallow clone and printed its log, and if
  that log is the log of commits whose messages are free of the two separators of the log format, then
  there is a commit and no line of any message is a forbidden trailer. Any other gate: a child process
  with the declared command ran in the checkout and ended successfully.
\<close>

definition history_clean :: "'e host \<Rightarrow> run_options \<Rightarrow> bool" where
  "history_clean h opts \<longleftrightarrow>
     ro_forbidden_trailers opts \<noteq> [] \<and>
     (\<exists>git answer raw. which_bin h (ascii ''git'') = Some git \<and>
        git_out h git (ro_root opts) (map ascii [''rev-parse'', ''--is-inside-work-tree'']) = Inr answer \<and>
        trim answer = ascii ''true'' \<and>
        (\<forall>shallow. git_out h git (ro_root opts) (map ascii [''rev-parse'', ''--is-shallow-repository'']) = Inr shallow \<longrightarrow>
           trim shallow \<noteq> ascii ''true'') \<and>
        git_out h git (ro_root opts) (map ascii [''log'', ''--all'', ''--no-color'', ''--format=%x1e%H%x1f%B'']) = Inr raw \<and>
        (\<forall>commits. raw = log_of commits \<and> list_all plain_commit commits \<longrightarrow>
           commits \<noteq> [] \<and>
           (\<forall>(sha, message)\<in>set commits. \<forall>line\<in>set (lines message).
              \<not> is_banned (h_to_lowercase h) (ro_forbidden_trailers opts) line)))"

definition declared_command :: "gate \<Rightarrow> utext \<Rightarrow> utext list \<Rightarrow> bool" where
  "declared_command g program args \<longleftrightarrow>
     (case g_kind g of
        GK_Tool \<Rightarrow> program # args = g_command g
      | GK_Nightly \<Rightarrow> program # args = g_command g
      | GK_Cargo \<Rightarrow> program = ascii ''cargo'' \<and> args = g_args g
      | GK_Doctest \<Rightarrow> program = ascii ''cargo'' \<and> take 2 args = map ascii [''test'', ''--doc''] \<and> drop 2 args = g_features g
      | _ \<Rightarrow> program = ascii ''cargo'' \<and> take 2 args = map ascii [''nextest'', ''run''] \<and> set (g_features g) \<subseteq> set args \<and>
          (\<forall>t\<in>set (g_targets g). \<exists>before after. args = before @ [ascii ''--test'', t] @ after))"

definition verified :: "'e host \<Rightarrow> gate \<Rightarrow> run_options \<Rightarrow> bool" where
  "verified h g opts \<longleftrightarrow>
     (if g_kind g = GK_Tracker
      then \<exists>raw bugs want. h_read_to_string h (path_join (ro_root opts) (ro_tracker opts)) = Inr raw \<and>
             h_parse_bugs h raw = Inr bugs \<and> ro_expected opts = Some want \<and> tracker_ready want bugs
      else if g_kind g = GK_Authorship then history_clean h opts
      else \<exists>child out. declared_command g (ch_program child) (ch_args child) \<and> ch_dir child = ro_root opts \<and>
             h_output h child = Inr out \<and> po_success out)"

lemma merge_readiness_passed:
  assumes "gr_outcome (merge_readiness h name root expected tracker) = Passed"
  shows "\<exists>raw bugs want. h_read_to_string h (path_join root tracker) = Inr raw \<and> h_parse_bugs h raw = Inr bugs \<and>
    expected = Some want \<and> tracker_ready want bugs"
  using assms
  by (auto simp: merge_readiness_def Let_def tracker_ready_iff split: sum.splits option.splits if_splits)

lemma authorship_passed:
  assumes "authorship h name (ro_root opts) (ro_forbidden_trailers opts) = Some r" "gr_outcome r = Passed"
  shows "history_clean h opts"
proof -
  let ?lower = "h_to_lowercase h" and ?forbidden = "ro_forbidden_trailers opts"
  obtain git answer raw n where g: "?forbidden \<noteq> []" "which_bin h (ascii ''git'') = Some git"
    "git_out h git (ro_root opts) work_tree_args = Inr answer" "trim answer = ascii ''true''"
    "\<forall>s. git_out h git (ro_root opts) shallow_args = Inr s \<longrightarrow> trim s \<noteq> ascii ''true''"
    "git_out h git (ro_root opts) log_args = Inr raw"
    and scan: "scan_records ?lower (wanted_keys ?lower ?forbidden) (split_on RECORD_SEP raw) = Some (Suc n, [])"
    using assms
    by (auto simp: authorship_def Let_def wanted_keys_def gr0_conv_Suc split: sum.splits option.splits if_splits)
  have "commits \<noteq> [] \<and> (\<forall>(sha, message)\<in>set commits. \<forall>line\<in>set (lines message). \<not> is_banned ?lower ?forbidden line)"
    if c: "raw = log_of commits" "list_all plain_commit commits" for commits
  proof -
    obtain found where found: "scan_records ?lower (wanted_keys ?lower ?forbidden)
        (map (\<lambda>(sha, message). sha @ FIELD_SEP # message) commits) = Some (length commits, found)"
      "found = [] \<longleftrightarrow> (\<forall>c\<in>set commits. \<not> message_banned ?lower ?forbidden (snd c))"
      using scan_plain [OF c(2)] by blast
    with scan have "found = []" "commits \<noteq> []"
      by (auto simp: c(1) split_log [OF c(2)] trimmed_empty_def)
    with found(2) show ?thesis by (auto simp: message_banned_def list_ex_iff)
  qed
  with g show ?thesis
    unfolding history_clean_def work_tree_args_def shallow_args_def log_args_def by blast
qed

lemma argv_for_declared:
  assumes "argv_for g = program # args" "g_kind g \<noteq> GK_Tracker" "g_kind g \<noteq> GK_Authorship"
  shows "declared_command g program args"
proof -
  have "\<exists>before after. pre @ concat (map (\<lambda>t. [ascii ''--test'', t]) ts) @ post = before @ [ascii ''--test'', t] @ after"
    if "t \<in> set ts" for t ts and pre post :: "utext list"
  proof -
    from that obtain xs ys where "ts = xs @ t # ys" by (meson split_list)
    then have "pre @ concat (map (\<lambda>t. [ascii ''--test'', t]) ts) @ post =
        (pre @ concat (map (\<lambda>t. [ascii ''--test'', t]) xs)) @ [ascii ''--test'', t] @
        (concat (map (\<lambda>t. [ascii ''--test'', t]) ys) @ post)" by simp
    then show ?thesis by blast
  qed
  note tests = this [of _ "g_targets g" "map ascii [''nextest'', ''run'', ''--no-fail-fast'', ''--hide-progress-bar''] @ g_features g"]
  show ?thesis
    using assms tests tests [where post = "[]"] by (auto simp: argv_for_def declared_command_def split: gate_kind.splits)
qed

lemma run_passed:
  assumes "run h g opts = Some (r, printed)" "gr_outcome r = Passed" "\<not> ro_dry_run opts"
  shows "verified h g opts"
proof (cases "g_kind g = GK_Tracker \<or> g_kind g = GK_Authorship")
  case True
  with assms show ?thesis
    by (auto simp: run_def verified_def Let_def split: list.splits dest!: merge_readiness_passed authorship_passed)
next
  case False
  then obtain program args out where "argv_for g = program # args" "h_output h (gate_child h g opts program args) = Inr out"
    "po_success out"
    using assms by (auto simp: run_def Let_def split: list.splits option.splits sum.splits if_splits)
  with False argv_for_declared [of g program args] show ?thesis
    by (auto simp: verified_def gate_child_def intro!: exI [of _ "gate_child h g opts program args"])
qed

lemma argv_for_detailed: "gate_detailed g \<Longrightarrow> argv_for g \<noteq> []"
  by (auto simp: gate_detailed_def argv_for_def split: gate_kind.split)

lemma run_each_nth:
  assumes "run_each hosts opts i gates = Some results" "j < length gates"
  shows "length results = length gates \<and> (\<exists>printed. run (hosts (i + j)) (gates ! j) opts = Some (results ! j, printed))"
  using assms
proof (induction gates arbitrary: i j results)
  case (Cons g rest)
  then obtain r printed rs where r: "run (hosts i) g opts = Some (r, printed)" "run_each hosts opts (Suc i) rest = Some rs"
    "results = r # rs" by (auto split: option.splits)
  have len: "length rs = length rest" using Cons.IH [OF r(2)] r(2) by (cases rest) auto
  with Cons.IH [OF r(2)] Cons.prems(2) r show ?case by (cases j) auto
qed simp

lemma run_all_success:
  assumes "run_all hosts selected opts = Some (ExitSuccess, results)" "\<not> ro_dry_run opts" "j < length selected"
  shows "verified (hosts j) (selected ! j) opts"
proof -
  from assms(1) have r: "run_each hosts opts 0 selected = Some results"
    and none: "count_outcome GateFailed results = 0" "count_outcome Unavailable results = 0"
    by (auto simp: run_all_def split: if_splits)
  from run_each_nth [OF r assms(3)] obtain printed where
    run: "run (hosts j) (selected ! j) opts = Some (results ! j, printed)" "length results = length selected" by auto
  with assms(3) have "results ! j \<in> set results" by simp
  with none have "gr_outcome (results ! j) = Passed"
    by (cases "gr_outcome (results ! j)") (auto simp: count_outcome_def filter_empty_conv)
  from run_passed [OF run(1) this assms(2)] show ?thesis .
qed

lemma run_all_passed:
  assumes "run_each hosts opts 0 selected = Some results" "\<forall>r\<in>set results. gr_outcome r = Passed"
  shows "run_all hosts selected opts = Some (ExitSuccess, results)"
proof -
  have "count_outcome x results = 0" if "x \<noteq> Passed" for x
    using assms(2) that by (auto simp: count_outcome_def filter_empty_conv)
  with assms(1) show ?thesis by (simp add: run_all_def)
qed

text \<open>The gates a command runs.\<close>

definition selected_gates :: "contract \<Rightarrow> command option \<Rightarrow> gate list option" where
  "selected_gates c cmd =
     (case cmd of
        None \<Rightarrow> Some (default_pass c)
      | Some C_Gates \<Rightarrow> Some (default_pass c)
      | Some (C_Run name) \<Rightarrow>
          if name = ascii ''all'' then Some (con_gates c) else map_option (\<lambda>g. [g]) (contract_gate name c)
      | _ \<Rightarrow> None)"

lemma xtask_main_runs:
  assumes "xtask_main from_toml h hosts args = Some (ExitSuccess, rep)"
    and "cli_command args \<in> {None, Some C_Gates, Some (C_Run name)}"
  obtains c selected results where
    "load (h_read_to_string h) from_toml (path_join (cli_root args) ROOT) = Inr c"
    "validate_targets (h_is_file h) (cli_root args) c = Inr ()"
    "selected_gates c (cli_command args) = Some selected"
    "run_all hosts selected (options_of args c (probe_toolchain h)) = Some (ExitSuccess, results)"
  using assms
  by (fastforce simp: xtask_main_def selected_gates_def resolve_gates_def Let_def split: sum.splits option.splits if_splits)

lemma validate_targets_ok:
  assumes "validate_targets is_file root c = Inr ()" "g \<in> set (con_gates c)" "t \<in> set (g_targets g)"
  shows "test_target_exists is_file root t"
proof (rule ccontr)
  assume "\<not> test_target_exists is_file root t"
  with assms(2,3) have "(g_name g, t) \<in> set (concat (map (\<lambda>g. concat (map (\<lambda>t.
      if \<not> test_target_exists is_file root t then [(g_name g, t)] else []) (g_targets g))) (con_gates c)))"
    by force
  with assms(1) show False by (auto simp: validate_targets_def Let_def split: if_splits)
qed

text \<open>
  C38: A successful exit of the gate runner means that the gates ran and passed. When \<open>xtask\<close> runs
  gates, not as a dry run, and exits successfully, the contract file was read, parsed and meets every
  rule, every test target that a gate names exists in the checkout, and every selected gate was
  verified when its turn came. A command gate: a child process with the declared command, for a test
  gate with every declared target, ran in the checkout and ended successfully. A tracker gate: the
  tracker was read and is ready. An authorship gate: git reported a work tree, did not report a
  shallow clone and printed its log; and unless a message holds a separator of the log format, in
  which case the scan can miss a trailer, the history has a commit and no forbidden trailer in any
  spelling.
\<close>

theorem xtask_success_means_verified:
  assumes "xtask_main from_toml h hosts args = Some (ExitSuccess, rep)"
    and "cli_command args \<in> {None, Some C_Gates, Some (C_Run name)}" "\<not> cli_dry_run args"
  shows "\<exists>raw f c selected.
    h_read_to_string h (path_join (cli_root args) ROOT) = Inr raw \<and> from_toml raw = Inr f \<and> contract_wellformed f \<and>
    contract_declared (path_join (cli_root args) ROOT) f c \<and>
    (\<forall>g\<in>set (con_gates c). \<forall>t\<in>set (g_targets g). test_target_exists (h_is_file h) (cli_root args) t) \<and>
    selected_gates c (cli_command args) = Some selected \<and>
    (\<forall>j < length selected. verified (hosts j) (selected ! j) (options_of args c (probe_toolchain h)))"
proof -
  obtain c selected results where c: "load (h_read_to_string h) from_toml (path_join (cli_root args) ROOT) = Inr c"
    and t: "validate_targets (h_is_file h) (cli_root args) c = Inr ()"
    and s: "selected_gates c (cli_command args) = Some selected"
    and r: "run_all hosts selected (options_of args c (probe_toolchain h)) = Some (ExitSuccess, results)"
    by (rule xtask_main_runs [OF assms(1,2)])
  have "\<not> ro_dry_run (options_of args c (probe_toolchain h))" using assms(3) by (simp add: options_of_def)
  from run_all_success [OF r this] load_contract [OF c] contract_of_declared validate_targets_ok [OF t] s show ?thesis by blast
qed

definition demo_bug :: bug_entry where
  "demo_bug = \<lparr>bug_id = ascii ''B1'', bug_title = [], bug_status = ascii ''resolved'', bug_blocks_merge = True,
     bug_accepted_by = None, bug_rationale = Some (ascii ''guard'')\<rparr>"

definition demo_host :: "unit host" where
  "demo_host =
     \<lparr>h_vars = [], h_is_file = (\<lambda>_. False), h_read_to_string = Inr,
      h_output = (\<lambda>_. Inr \<lparr>po_success = True, po_code = Some 0, po_stdout = [], po_stderr = []\<rparr>),
      h_parse_bugs = (\<lambda>_. Inr [demo_bug]), h_to_lowercase = ascii_lower\<rparr>"

definition demo_cli :: "bool \<Rightarrow> cli" where
  "demo_cli dry = \<lparr>cli_root = ascii ''.'', cli_dry_run = dry, cli_verbose = False, cli_command = None\<rparr>"

lemma xtask_demo:
  assumes "contract_wellformed (demo_file gates)" "\<forall>g\<in>set gates. g_targets g = []"
  shows "xtask_main (\<lambda>_. Inr (demo_file gates)) demo_host hosts (demo_cli dry) =
    map_option (\<lambda>(code, results). (code, R_Results results))
      (run_all hosts (filter (\<lambda>g. in_default_pass (g_kind g)) gates)
        (options_of (demo_cli dry) (contract_of (ascii ''./theSix.toml'') (demo_file gates)) (probe_toolchain demo_host)))"
proof -
  have "path_join (ascii ''.'') ROOT = ascii ''./theSix.toml''"
    by (simp add: path_join_def ROOT_def ascii_def starts_with_def ends_with_def)
  moreover have gates: "con_gates (contract_of path (demo_file gates)) = gates" for path
    by (simp add: contract_of_def demo_file_def)
  moreover have "validate_targets (h_is_file demo_host) (ascii ''.'') (contract_of path (demo_file gates)) = Inr ()" for path
    using assms(2) by (simp add: validate_targets_def gates Let_def)
  moreover have "load (h_read_to_string demo_host) (\<lambda>_. Inr (demo_file gates)) path = Inr (contract_of path (demo_file gates))" for path
    using demo_load [OF assms(1)] by (simp add: demo_host_def)
  ultimately show ?thesis
    by (simp add: xtask_main_def demo_cli_def Let_def resolve_gates_def default_pass_def)
qed

theorem xtask_success_means_verified_witness:
  "\<exists>rep. xtask_main (\<lambda>_. Inr (demo_file demo_gates)) demo_host (\<lambda>_. demo_host) (demo_cli False) = Some (ExitSuccess, rep) \<and>
     verified demo_host (demo_gates ! 1) (options_of (demo_cli False)
       (contract_of (ascii ''./theSix.toml'') (demo_file demo_gates)) (probe_toolchain demo_host))"
proof -
  let ?opts = "options_of (demo_cli False) (contract_of (ascii ''./theSix.toml'') (demo_file demo_gates)) (probe_toolchain demo_host)"
  have root: "path_join (ascii ''.'') ROOT = ascii ''./theSix.toml''"
    by (simp add: path_join_def ROOT_def ascii_def starts_with_def ends_with_def)
  have tool: "\<exists>r p. run demo_host (demo_gates ! 0) ?opts = Some (r, p) \<and> gr_outcome r = Passed"
    by (simp add: run_def demo_gates_def demo_gate_def argv_for_def options_of_def demo_cli_def missing_tool_def Let_def
        ascii_def starts_with_def demo_host_def)
  have "tracker_ready \<lparr>ef_blocking = Some 1, ef_should_fix = None\<rparr> [demo_bug]"
    by (simp add: tracker_ready_def demo_bug_def finding_cleared_def blank_def trimmed_empty_def ascii_def is_whitespace_def)
  then have tracker: "\<exists>r p. run demo_host (demo_gates ! 1) ?opts = Some (r, p) \<and> gr_outcome r = Passed"
    by (simp add: run_def demo_gates_def demo_gate_def argv_for_def options_of_def demo_cli_def merge_readiness_def Let_def
        demo_host_def contract_of_def demo_file_def tracker_ready_iff)
  have "filter (\<lambda>g. in_default_pass (g_kind g)) demo_gates = [demo_gates ! 0, demo_gates ! 1]"
    by (simp add: demo_gates_def demo_gate_def in_default_pass_def)
  with tool tracker have "\<exists>results. run_each (\<lambda>_. demo_host) ?opts 0 (filter (\<lambda>g. in_default_pass (g_kind g)) demo_gates) =
      Some results \<and> (\<forall>r\<in>set results. gr_outcome r = Passed)"
    by auto
  then have "\<exists>results. run_all (\<lambda>_. demo_host) (filter (\<lambda>g. in_default_pass (g_kind g)) demo_gates) ?opts =
      Some (ExitSuccess, results)"
    using run_all_passed by blast
  then obtain rep where rep: "xtask_main (\<lambda>_. Inr (demo_file demo_gates)) demo_host (\<lambda>_. demo_host) (demo_cli False) =
      Some (ExitSuccess, rep)"
    using xtask_demo [OF demo_gates_ok, of "\<lambda>_. demo_host" False] by (auto simp: demo_gates_def demo_gate_def)
  from xtask_success_means_verified [OF rep, of undefined]
  have "\<forall>j < 2. verified demo_host (demo_gates ! j) ?opts"
    by (auto simp: contract_declared_iff demo_cli_def root selected_gates_def default_pass_def contract_of_def demo_file_def demo_gates_def
        demo_gate_def in_default_pass_def)
  with rep show ?thesis by auto
qed

subsection \<open>Success without verification\<close>

text \<open>A dry run reports every gate as passed and exits successfully, whatever the host answers.\<close>

lemma dry_run_claims_success:
  assumes "contract_wellformed (demo_file gates)" "\<forall>g\<in>set gates. g_targets g = []"
  shows "\<exists>rep. xtask_main (\<lambda>_. Inr (demo_file gates)) demo_host hosts (demo_cli True) = Some (ExitSuccess, rep)"
proof -
  let ?opts = "options_of (demo_cli True) (contract_of (ascii ''./theSix.toml'') (demo_file gates)) (probe_toolchain demo_host)"
  have det: "gate_detailed g" if "g \<in> set gates" for g
    using assms(1) that by (simp add: contract_wellformed_def demo_file_def)
  have "\<exists>r p. run h g ?opts = Some (r, p) \<and> gr_outcome r = Passed" if "g \<in> set gates" for h :: "unit host" and g
    using det [OF that] argv_for_detailed [of g] by (cases "argv_for g") (simp_all add: run_def options_of_def demo_cli_def)
  then have "\<exists>rs. run_each hosts ?opts i gs = Some rs \<and> (\<forall>r\<in>set rs. gr_outcome r = Passed)" if "set gs \<subseteq> set gates" for i gs
    using that
  proof (induction gs arbitrary: i)
    case (Cons g gs)
    then obtain r p rs where "run (hosts i) g ?opts = Some (r, p)" "gr_outcome r = Passed"
      "run_each hosts ?opts (Suc i) gs = Some rs" "\<forall>r\<in>set rs. gr_outcome r = Passed"
      by (metis insert_subset list.simps(15))
    then show ?case by auto
  qed simp
  from this [of "filter (\<lambda>g. in_default_pass (g_kind g)) gates" 0] show ?thesis
    by (auto simp: xtask_demo [OF assms] dest!: run_all_passed)
qed

text \<open>A contract that declares no gate meets every rule, and its default pass succeeds.\<close>

lemma no_gates_succeeds:
  "contract_wellformed (demo_file []) \<and>
   xtask_main (\<lambda>_. Inr (demo_file [])) demo_host hosts (demo_cli False) = Some (ExitSuccess, R_Results [])"
proof -
  have "contract_wellformed (demo_file [])" by (rule demo_wellformed) simp_all
  then show ?thesis by (simp add: xtask_demo run_all_def count_outcome_def)
qed

end
