(* ===== verification/Coverage_Check.thy ===== *)
theory Coverage_Check
  imports Contract
begin

section \<open>The registries of covered cases (\<open>testkit/src/coverage.rs\<close>)\<close>

text \<open>
  The lists that bind each clause of the contract to the test that proves it, and the functions that
  check them against the sources: whether a locator names a function, what text belongs to it and
  whether that text declares the clause. Reading a source file is a parameter. Text positions count
  characters where the code counts bytes; both only cut at the positions found.
\<close>

subsection \<open>The registries\<close>

definition NEGATIVE_CASES :: "utext list" where
  "NEGATIVE_CASES = map ascii [
      ''backend_unavailable'', ''backend_timeout'', ''backend_hang'', ''malformed_response'', ''malformed_payload'',
      ''corrupt_payload'', ''invalid_metadata'', ''capacity_exhaustion'', ''eviction_reclaims_a_saturated_ladder'',
      ''cancelled_operation'', ''duplicate_operation'', ''stale_generation'', ''write_contended'',
      ''generation_conflict'', ''partial_write'', ''partial_promotion'', ''authority_unavailable'',
      ''fallback_unavailable'', ''recovery_failure'', ''process_restart'', ''invalid_configuration'']"

definition FAULT_CLASSES :: "utext list" where
  "FAULT_CLASSES = map ascii [
      ''latency'', ''timeout'', ''hang'', ''read_failure'', ''write_failure'', ''metadata_failure'', ''corruption'',
      ''disconnect'', ''capacity_exhaustion'', ''failure_after_n_operations'', ''cancellation'', ''partial_write'']"

definition PROPERTY_INVARIANTS :: "utext list" where
  "PROPERTY_INVARIANTS = map ascii [
      ''no_silent_data_loss'', ''no_cross_key_corruption'', ''no_authority_inversion'',
      ''no_invalid_state_promotion'', ''no_deadlock'', ''no_lock_across_await'', ''no_capability_misreporting'',
      ''no_false_durability'', ''recovery_is_idempotent'']"

definition PROPERTY_CASE_PROOFS :: "(utext \<times> utext) list" where
  "PROPERTY_CASE_PROOFS = map (map_prod ascii ascii) [
      (''no_silent_data_loss'', ''tests/property/main.rs::no_silent_data_loss''),
      (''no_cross_key_corruption'', ''tests/property/main.rs::no_cross_key_corruption''),
      (''no_authority_inversion'', ''tests/property/main.rs::no_authority_inversion''),
      (''no_invalid_state_promotion'', ''tests/property/main.rs::no_invalid_state_promotion''),
      (''no_deadlock'', ''tests/property/main.rs::control_plane_survives_a_wedged_data_plane''),
      (''no_lock_across_await'', ''tests/property/main.rs::control_plane_survives_a_wedged_data_plane''),
      (''no_capability_misreporting'', ''tests/property/main.rs::no_capability_misreporting''),
      (''no_false_durability'', ''tests/property/main.rs::no_capability_misreporting''),
      (''recovery_is_idempotent'', ''tests/property/main.rs::recovery_is_idempotent'')]"

definition FAULT_CASE_PROOFS :: "(utext \<times> utext) list" where
  "FAULT_CASE_PROOFS = map (map_prod ascii ascii) [
      (''latency'', ''tests/fault_injection/main.rs::latency_stalls_without_failing''),
      (''timeout'', ''tests/fault_injection/main.rs::timeout_fails_the_operation''),
      (''hang'', ''tests/fault_injection/main.rs::hang_parks_the_operation_and_leaves_the_control_plane_free''),
      (''read_failure'', ''tests/fault_injection/main.rs::read_failure_fails_a_read_only''),
      (''write_failure'', ''tests/fault_injection/main.rs::write_failure_never_serves_the_replacement_and_leaves_no_intent''),
      (''metadata_failure'', ''tests/fault_injection/main.rs::metadata_failure_fails_the_operation_but_not_the_entry''),
      (''corruption'', ''tests/fault_injection/main.rs::corruption_is_detected_rather_than_served''),
      (''disconnect'', ''tests/fault_injection/main.rs::disconnect_looks_like_an_unavailable_rung''),
      (''capacity_exhaustion'', ''tests/fault_injection/main.rs::capacity_exhaustion_is_reported_as_such''),
      (''failure_after_n_operations'', ''tests/fault_injection/main.rs::failure_after_n_operations_succeeds_first_then_fails''),
      (''cancellation'', ''tests/fault_injection/main.rs::cancellation_releases_the_claim''),
      (''partial_write'', ''tests/fault_injection/main.rs::the_partial_write_fault_really_stores_bytes_before_failing'')]"

definition INVARIANT_PROOFS :: "(utext \<times> utext) list" where
  "INVARIANT_PROOFS = map (map_prod ascii ascii) [
      (''engineering.lock_across_await'', ''tests/property/main.rs::control_plane_survives_a_wedged_data_plane''),
      (''verification.anti_vacuity_required'', ''tests/contract/main.rs::required_verification_flags_are_all_set''),
      (''verification.required.check_all_features'', ''tests/contract/main.rs::required_verification_flags_are_all_set''),
      (''verification.required.check_all_targets'', ''tests/contract/main.rs::required_verification_flags_are_all_set''),
      (''verification.required.clippy_warnings_as_errors'', ''tests/contract/main.rs::required_verification_flags_are_all_set''),
      (''verification.required.dependency_audit'', ''tests/contract/main.rs::required_verification_flags_are_all_set''),
      (''verification.required.dependency_hygiene'', ''tests/contract/main.rs::required_verification_flags_are_all_set''),
      (''verification.required.doctests'', ''tests/contract/main.rs::required_verification_flags_are_all_set''),
      (''verification.required.documentation'', ''tests/contract/main.rs::required_verification_flags_are_all_set''),
      (''verification.required.fmt'', ''tests/contract/main.rs::required_verification_flags_are_all_set''),
      (''verification.required.package_validation'', ''tests/contract/main.rs::required_verification_flags_are_all_set''),
      (''verification.required.tests_all_features'', ''tests/contract/main.rs::required_verification_flags_are_all_set''),
      (''verification.required.tests_all_targets'', ''tests/contract/main.rs::required_verification_flags_are_all_set''),
      (''verification.verification_required'', ''tests/contract/main.rs::required_verification_flags_are_all_set''),
      (''capabilities.eviction_policy_is_tier_defined'', ''tests/capability.rs::eviction_policy_is_the_tiers_choice_not_the_crates''),
      (''cia.availability.write_race_exhaustion_reports_contended'', ''tests/negative/main.rs::write_contended''),
      (''engineering.ci_actions_sha_pinned'', ''tests/contract/main.rs::every_ci_action_reference_is_pinned_by_sha''),
      (''engineering.design.tier_topology_is_replaceable'', ''tests/capability.rs::the_tier_topology_is_replaceable_behind_the_trait''),
      (''engineering.eviction_is_control_plane_authorised'', ''tests/concurrency.rs::an_entry_under_population_is_not_evictable''),
      (''engineering.eviction_is_last_resort_after_degradation'', ''tests/soak/main.rs::the_manager_degrades_down_the_ladder_before_it_fails''),
      (''engineering.eviction_may_discard_a_ready_entry'', ''tests/negative/main.rs::eviction_reclaims_a_saturated_ladder''),
      (''engineering.fake_durability'', ''tests/durability/main.rs::verified_durability_is_earned_not_assumed''),
      (''engineering.hidden_blocking'', ''tests/await_safety.rs::the_crates_own_source_carries_no_unsafe_and_no_blocking_calls''),
      (''engineering.runtime_block_on'', ''tests/await_safety.rs::the_crates_own_source_carries_no_unsafe_and_no_blocking_calls''),
      (''engineering.rust_memory_safety_required'', ''tests/await_safety.rs::the_crates_own_source_carries_no_unsafe_and_no_blocking_calls''),
      (''engineering.silent_backend_substitution'', ''tests/l6_authority.rs::unbound_l6_is_reported_not_substituted''),
      (''engineering.unnecessary_dependencies'', ''tests/contract/workflow.rs::every_declared_gate_is_executed_by_a_ci_job''),
      (''engineering.unsafe_requires_justification'', ''tests/await_safety.rs::the_crates_own_source_carries_no_unsafe_and_no_blocking_calls''),
      (''verification.adversarial.concurrency'', ''tests/contract/main.rs::every_adversarial_layer_is_enabled_and_bound_to_a_target''),
      (''verification.adversarial.durability'', ''tests/contract/main.rs::every_adversarial_layer_is_enabled_and_bound_to_a_target''),
      (''verification.adversarial.fault_injection'', ''tests/contract/main.rs::every_adversarial_layer_is_enabled_and_bound_to_a_target''),
      (''verification.adversarial.fuzz'', ''tests/contract/main.rs::every_adversarial_layer_is_enabled_and_bound_to_a_target''),
      (''verification.adversarial.negative'', ''tests/contract/main.rs::every_adversarial_layer_is_enabled_and_bound_to_a_target''),
      (''verification.adversarial.performance'', ''tests/contract/main.rs::every_adversarial_layer_is_enabled_and_bound_to_a_target''),
      (''verification.adversarial.property'', ''tests/contract/main.rs::every_adversarial_layer_is_enabled_and_bound_to_a_target''),
      (''verification.adversarial.recovery'', ''tests/contract/main.rs::every_adversarial_layer_is_enabled_and_bound_to_a_target''),
      (''verification.adversarial.security'', ''tests/contract/main.rs::every_adversarial_layer_is_enabled_and_bound_to_a_target''),
      (''verification.adversarial.soak'', ''tests/contract/main.rs::every_adversarial_layer_is_enabled_and_bound_to_a_target''),
      (''verification.anti_vacuity.blocked_state_must_be_verified'', ''tests/fault_injection/main.rs::hang_parks_the_operation_and_leaves_the_control_plane_free''),
      (''verification.anti_vacuity.corruption_must_be_verified'', ''tests/fault_injection/main.rs::corruption_is_detected_rather_than_served''),
      (''verification.anti_vacuity.fallback_path_must_be_verified'', ''tests/soak/main.rs::the_manager_degrades_down_the_ladder_before_it_fails''),
      (''verification.anti_vacuity.fault_activation_must_be_verified'', ''tests/fault_injection/main.rs::latency_stalls_without_failing''),
      (''verification.anti_vacuity.recovery_path_must_be_verified'', ''tests/recovery/main.rs::an_aborted_prepared_write_is_not_left_readable''),
      (''verification.every_invariant_has_a_proof_or_waiver'', ''tests/contract/invariant.rs::every_declared_invariant_has_a_proof_or_a_waiver''),
      (''verification.merge_readiness.tracker'', ''xtask/src/gates.rs::the_tracker_path_is_read_from_the_contract''),
      (''concurrency.testing.promotion_eviction_races'', ''tests/concurrency.rs::eviction_invalidates_an_in_flight_commit''),
      (''capabilities.must_distinguish.recovering_from_available'', ''tests/capability.rs::recovering_is_reported_as_recovering_and_distinguished_from_available''),
      (''cia.availability.unbounded_retry'', ''tests/negative/main.rs::retry_counts_are_bounded_and_observed''),
      (''cia.integrity.silent_stale_data_acceptance'', ''tests/integration.rs::stale_service_is_reported_rather_than_silent''),
      (''concurrency.nested_block_on'', ''tests/await_safety.rs::nested_block_on_is_absent_from_the_crate_and_would_be_caught''),
      (''acid.atomicity.cancelled_operation_may_commit_partially'', ''tests/recovery/main.rs::an_aborted_prepared_write_is_not_left_readable''),
      (''acid.atomicity.commit_protocol'', ''tests/loom/main.rs::concurrent_commit_and_abort_leave_a_settled_state''),
      (''acid.atomicity.partial_commit_visible'', ''tests/fault_injection/main.rs::a_misreported_write_never_serves_its_residue''),
      (''acid.atomicity.prepare_state'', ''tests/recovery/main.rs::a_prepared_entry_is_invisible_to_readers''),
      (''acid.atomicity.read_of_uncommitted_entry'', ''tests/recovery/main.rs::a_prepared_entry_is_invisible_to_readers''),
      (''acid.atomicity.recovery_direction_prepare_move'', ''tests/contract/main.rs::declared_recovery_directions_match_what_the_runtime_can_execute''),
      (''acid.atomicity.recovery_direction_prepare_write'', ''tests/recovery/main.rs::an_aborted_prepared_write_is_not_left_readable''),
      (''acid.atomicity.recovery_must_be_idempotent'', ''tests/recovery/main.rs::recovery_is_idempotent''),
      (''acid.atomicity.required'', ''tests/contract/invariant.rs::every_semantic_section_is_marked_required''),
      (''acid.consistency.authority_inversion'', ''tests/property/main.rs::no_authority_inversion''),
      (''acid.consistency.corruption_may_be_silently_accepted'', ''tests/property/main.rs::corruption_is_never_swallowed''),
      (''acid.consistency.invalid_state_may_be_promoted'', ''tests/property/main.rs::no_invalid_state_promotion''),
      (''acid.consistency.required'', ''tests/contract/invariant.rs::every_semantic_section_is_marked_required''),
      (''acid.consistency.stale_generation_may_overwrite_newer_generation'', ''tests/security/main.rs::a_stale_generation_is_rejected''),
      (''acid.durability.committed_data_must_survive_required_failure_domain'', ''tests/durability/main.rs::a_committed_value_survives_a_restart''),
      (''acid.durability.fallback_may_claim_authority_durability'', ''tests/capability.rs::l0_reports_exactly_in_memory_and_volatile''),
      (''acid.durability.false_durability_claims'', ''tests/property/main.rs::no_capability_misreporting''),
      (''acid.durability.required'', ''tests/contract/invariant.rs::every_semantic_section_is_marked_required''),
      (''acid.isolation.cross_key_interference'', ''tests/property/main.rs::no_cross_key_corruption''),
      (''acid.isolation.deadlock_tolerance'', ''tests/property/main.rs::control_plane_survives_a_wedged_data_plane''),
      (''acid.isolation.intermediate_state_visibility'', ''tests/recovery/main.rs::a_prepared_entry_is_invisible_to_readers''),
      (''acid.isolation.lock_guard_across_await'', ''tests/await_safety.rs::control_plane_stays_responsive_while_a_tier_awaits''),
      (''acid.isolation.required'', ''tests/contract/invariant.rs::every_semantic_section_is_marked_required''),
      (''acid.required'', ''tests/contract/invariant.rs::every_semantic_section_is_marked_required''),
      (''authority.authority_loss_must_be_observable'', ''tests/durability/main.rs::authority_loss_is_observable''),
      (''authority.explicit'', ''tests/contract/main.rs::authority_semantics_are_explicit_not_inferred''),
      (''authority.l6.role'', ''tests/contract/main.rs::authority_rung_is_the_one_past_the_ladder''),
      (''autonomy.bootstrap.absent_url_binds_no_redis_backend'', ''src/governor/bootstrap.rs::a_missing_url_binds_nothing_and_is_not_an_error''),
      (''autonomy.bootstrap.degraded_binding_is_reported_loudly'', ''src/governor/bootstrap.rs::an_unreachable_server_degrades_loudly_and_rebindably''),
      (''autonomy.bootstrap.invalid_url_is_a_configuration_error'', ''src/governor/bootstrap.rs::a_non_redis_url_is_a_configuration_error''),
      (''autonomy.bootstrap.required'', ''tests/contract/invariant.rs::every_semantic_section_is_marked_required''),
      (''autonomy.bootstrap.valkey_scheme_is_normalized'', ''src/governor/bootstrap.rs::a_valkey_url_normalizes_to_what_the_client_parses''),
      (''autonomy.fully_autonomous_task_is_cancel_safe'', ''tests/autonomy.rs::aborting_the_spawned_governor_leaves_no_wedged_key''),
      (''autonomy.manual_mode_executes_nothing'', ''tests/autonomy.rs::manual_tick_returns_a_plan_and_executes_nothing''),
      (''autonomy.mode_is_escalating'', ''tests/autonomy.rs::the_modes_escalate_by_execution_surface''),
      (''autonomy.movement.acts_only_on_registered_keys'', ''tests/autonomy.rs::only_census_keys_are_moved''),
      (''autonomy.movement.cancelled_moves_are_resolved_by_the_next_tick'', ''tests/autonomy.rs::a_cancelled_move_is_resolved_by_the_next_tick''),
      (''autonomy.movement.has_no_key_of_its_own'', ''src/governor/mod.rs::a_missing_census_is_a_stated_skip''),
      (''autonomy.movement.move_budget_is_enforced'', ''src/governor/mod.rs::the_move_budget_saturates''),
      (''autonomy.movement.required'', ''tests/contract/invariant.rs::every_semantic_section_is_marked_required''),
      (''autonomy.movement.requires_observed_heat'', ''src/governor/mod.rs::a_missing_heat_source_is_a_stated_skip''),
      (''autonomy.movement.respects_last_cache_rung'', ''src/governor/mod.rs::the_planner_never_targets_the_authority_rung''),
      (''autonomy.movement.runs_through_the_manager'', ''tests/autonomy.rs::autonomous_moves_go_through_the_managers_public_api''),
      (''autonomy.rebind.rebind_preserves_capability_honesty'', ''src/tier/hot_rung.rs::the_wrapper_forwards_the_inner_tier_identity''),
      (''autonomy.rebind.rebind_refuses_a_foreign_rung'', ''src/tier/hot_rung.rs::a_swap_refuses_a_tier_claiming_another_rung''),
      (''autonomy.rebind.required'', ''tests/contract/invariant.rs::every_semantic_section_is_marked_required''),
      (''autonomy.required'', ''tests/contract/invariant.rs::every_semantic_section_is_marked_required''),
      (''autonomy.semi_mode_executes_maintenance_only'', ''tests/autonomy.rs::semi_tick_executes_maintenance_and_leaves_movement_unapplied''),
      (''autonomy.sweeps.expired_sweep_is_control_plane_only'', ''tests/autonomy.rs::the_expiry_sweep_touches_the_control_plane_never_data''),
      (''autonomy.sweeps.expired_sweep_spares_the_authority_rung'', ''src/control/cachelito.rs::the_expiry_sweep_spared_nothing_until_the_authority_won_that_rule''),
      (''autonomy.sweeps.maintenance_legs_are_planned_unconditionally'', ''src/governor/mod.rs::the_planner_never_targets_the_authority_rung''),
      (''autonomy.sweeps.required'', ''tests/contract/invariant.rs::every_semantic_section_is_marked_required''),
      (''autonomy.sweeps.sweeps_are_idempotent'', ''tests/autonomy.rs::sweeps_are_idempotent_across_ticks''),
      (''autonomy.stats.plane_stats_expose_no_key_or_payload'', ''src/control/cachelito.rs::plane_stats_counts_every_entry_exactly_once_and_exposes_nothing_else''),
      (''autonomy.stats.required'', ''tests/contract/invariant.rs::every_semantic_section_is_marked_required''),
      (''authority.fallback_may_be_authoritative'', ''tests/capability.rs::only_the_authority_rung_claims_authority''),
      (''authority.inferred_from_tier_number'', ''tests/contract/main.rs::authority_semantics_are_explicit_not_inferred''),
      (''authority.l6.durability_required'', ''tests/capability.rs::nothing_claims_verified_durability_without_a_restart_test''),
      (''authority.l6.implementation'', ''tests/contract/main.rs::authority_semantics_are_explicit_not_inferred''),
      (''authority.l6.last_cache_rung'', ''tests/contract/main.rs::authority_rung_is_the_one_past_the_ladder''),
      (''capabilities.model.durability_axis'', ''tests/contract/main.rs::capability_state_is_explicit''),
      (''capabilities.model.property_axis'', ''tests/contract/main.rs::capability_state_is_explicit''),
      (''capabilities.model.state_axis'', ''tests/contract/main.rs::capability_state_is_explicit''),
      (''capabilities.must_distinguish.degraded_from_healthy'', ''tests/capability.rs::operational_state_is_queryable_without_an_operation''),
      (''capabilities.must_distinguish.fallback_from_authority'', ''tests/capability.rs::default_build_reports_fallbacks_not_rich_backends''),
      (''capabilities.must_distinguish.unbound_from_unavailable'', ''tests/capability.rs::unbound_is_reported_as_unbound_not_unavailable''),
      (''capabilities.must_distinguish.volatile_from_persistent'', ''tests/capability.rs::the_persistent_rung_does_not_claim_persistence_by_default''),
      (''capabilities.operation_failure_must_not_be_primary_discovery_mechanism'', ''tests/capability.rs::operational_state_is_queryable_without_an_operation''),
      (''capabilities.required'', ''tests/contract/invariant.rs::every_semantic_section_is_marked_required''),
      (''capabilities.unbound_rung_is_substituted'', ''tests/property/main.rs::continuity_never_claims_an_unbound_rung_is_healthy''),
      (''cia.availability.control_plane_blocked_by_data_plane'', ''tests/await_safety.rs::control_plane_stays_responsive_while_a_tier_awaits''),
      (''cia.availability.recovery_required'', ''tests/recovery/main.rs::the_sweep_finds_a_generation_zero_intent''),
      (''cia.availability.required'', ''tests/contract/invariant.rs::every_semantic_section_is_marked_required''),
      (''cia.availability.single_tier_failure_must_cascade'', ''tests/recovery/main.rs::one_failing_rung_does_not_cascade''),
      (''cia.availability.unbounded_queue_growth'', ''tests/soak/main.rs::sustained_traffic_with_faults_keeps_serving''),
      (''cia.confidentiality.cross_key_data_exposure'', ''tests/security/main.rs::keys_within_a_tenant_are_isolated''),
      (''cia.confidentiality.cross_tenant_access'', ''tests/security/main.rs::one_tenant_cannot_overwrite_another''),
      (''cia.confidentiality.key_identity_is_non_reversible'', ''tests/security/main.rs::key_identity_is_not_reversible_by_construction''),
      (''cia.confidentiality.payload_in_error_messages'', ''tests/security/main.rs::errors_carry_no_payload_or_key''),
      (''cia.confidentiality.payload_in_telemetry'', ''tests/security/main.rs::telemetry_carries_no_payload_and_no_key''),
      (''cia.confidentiality.required'', ''tests/contract/invariant.rs::every_semantic_section_is_marked_required''),
      (''cia.confidentiality.unintended_tier_exposure'', ''tests/contract/main.rs::the_consumer_never_needs_backend_identity''),
      (''cia.integrity.corrupt_data_promoted'', ''tests/fault_injection/main.rs::corruption_is_detected_rather_than_served''),
      (''cia.integrity.digest'', ''src/integrity.rs::seeded_hasher_matches_the_byte_lane_it_mirrors''),
      (''cia.integrity.digest_is_cryptographic'', ''src/integrity.rs::blanket_digest_is_two_seeded_fnv_lanes_over_the_hash_stream''),
      (''cia.integrity.required'', ''tests/contract/invariant.rs::every_semantic_section_is_marked_required''),
      (''cia.integrity.silent_corruption'', ''tests/security/main.rs::a_corrupt_value_is_never_served''),
      (''cia.integrity.silent_generation_conflict'', ''tests/stampede.rs::test_stale_generation_rejection''),
      (''cia.required'', ''tests/contract/invariant.rs::every_semantic_section_is_marked_required''),
      (''concurrency.cancel_safe'', ''tests/recovery/main.rs::a_cancelled_set_releases_its_commit_intent''),
      (''concurrency.deadlock_free'', ''tests/property/main.rs::control_plane_survives_a_wedged_data_plane''),
      (''concurrency.lock_guard_across_await'', ''tests/await_safety.rs::control_plane_stays_responsive_while_a_tier_awaits''),
      (''concurrency.race_free'', ''tests/loom/main.rs::concurrent_commit_and_abort_leave_a_settled_state''),
      (''concurrency.required'', ''tests/contract/invariant.rs::every_semantic_section_is_marked_required''),
      (''concurrency.testing.adversarial_scheduler'', ''tests/loom/main.rs::concurrent_commit_and_abort_leave_a_settled_state''),
      (''concurrency.testing.cancellation_races'', ''tests/recovery/main.rs::a_cancelled_write_does_not_wedge_the_population_path''),
      (''concurrency.testing.concurrent_reads'', ''tests/concurrency.rs::test_concurrent_readers''),
      (''concurrency.testing.concurrent_writes'', ''tests/concurrency.rs::test_concurrent_writer_readers''),
      (''concurrency.testing.loom_scope'', ''tests/loom/main.rs::the_shard_lock_serialises_independent_keys_correctly''),
      (''concurrency.testing.random_interleavings'', ''tests/property/main.rs::generations_never_regress''),
      (''concurrency.testing.read_write_races'', ''tests/concurrency.rs::test_concurrent_writer_readers''),
      (''concurrency.testing.recovery_traffic_overlap'', ''tests/recovery/main.rs::continuity_is_observable_under_traffic''),
      (''continuity.backend_failure_isolation'', ''tests/fault_injection/main.rs::one_failing_rung_does_not_take_the_others_down''),
      (''continuity.explicit_state_transitions'', ''tests/recovery/main.rs::entry_states_classify_into_the_machine''),
      (''continuity.graceful_degradation'', ''tests/capability.rs::the_ladder_works_end_to_end_with_only_fallbacks''),
      (''continuity.reconciliation'', ''tests/recovery/main.rs::an_unresolvable_move_is_reported_separately_from_a_failure''),
      (''continuity.recovery.idempotent'', ''tests/recovery/main.rs::recovery_is_idempotent''),
      (''continuity.recovery.partial_recovery_safe'', ''tests/recovery/main.rs::concurrent_recovery_is_safe''),
      (''continuity.recovery.recovery_failure_must_be_observable'', ''tests/recovery/main.rs::recovery_outcomes_are_distinguishable''),
      (''continuity.recovery.repeatable'', ''tests/recovery/main.rs::recovery_is_idempotent''),
      (''continuity.required'', ''tests/contract/invariant.rs::every_semantic_section_is_marked_required''),
      (''hpa.control_plane.global_data_plane_lock'', ''tests/await_safety.rs::a_parked_tier_does_not_block_other_keys''),
      (''hpa.control_plane.must_remain_responsive_during_data_plane_stall'', ''tests/await_safety.rs::control_plane_stays_responsive_while_a_tier_awaits''),
      (''hpa.isolation.hot_key_may_block_unrelated_keys'', ''tests/performance/main.rs::a_hot_key_does_not_starve_cold_keys''),
      (''hpa.isolation.hot_shard_may_block_entire_pipeline'', ''tests/performance/main.rs::distinct_shards_do_not_serialise''),
      (''hpa.isolation.slow_backend_may_block_control_plane'', ''tests/fault_injection/main.rs::hang_parks_the_operation_and_leaves_the_control_plane_free''),
      (''hpa.required'', ''tests/contract/invariant.rs::every_semantic_section_is_marked_required'')]"

subsection \<open>Comparing lists\<close>

definition missing_from_contract :: "utext list \<Rightarrow> utext list \<Rightarrow> utext list" where
  "missing_from_contract req covered = filter (\<lambda>r. r \<notin> set covered) req"

definition diff :: "utext list \<Rightarrow> utext list \<Rightarrow> utext" where
  "diff expected actual =
     (let missing = filter (\<lambda>e. e \<notin> set actual) expected;
          extra = filter (\<lambda>a. a \<notin> set expected) actual;
          out = (if missing \<noteq> [] then 10 # ascii ''  missing: '' @ join (ascii '', '') missing else []) @
                (if extra \<noteq> [] then 10 # ascii ''  unexpected: '' @ join (ascii '', '') extra else [])
      in if out = [] then 10 # ascii ''  (lists match, but lengths differ: duplicate entries?)'' else out)"

definition unclaimed :: "utext list \<Rightarrow> (utext \<times> utext) list \<Rightarrow> utext list" where
  "unclaimed declared registry = filter (\<lambda>name. \<not> list_ex (\<lambda>entry. fst entry = name) registry) declared"

definition overclaimed :: "utext list \<Rightarrow> (utext \<times> utext) list \<Rightarrow> utext list" where
  "overclaimed declared registry = map fst (filter (\<lambda>entry. fst entry \<notin> set declared) registry)"

subsection \<open>Reading a test's declarations\<close>

text \<open>
  The two loops of \<open>string_literals\<close>: outside a literal, and inside one with the text so far. An
  unclosed literal is dropped.
\<close>

fun outside_literal :: "utext \<Rightarrow> utext list" and inside_literal :: "utext \<Rightarrow> utext \<Rightarrow> utext list" where
  "outside_literal [] = []"
| "outside_literal (c # s) =
     (if c \<noteq> 34 then (if c = 41 then [] else outside_literal s) else inside_literal [] s)"
| "inside_literal v [] = []"
| "inside_literal v (c # s) =
     (if c = 34 then v # outside_literal s
      else if c = 92 then (case s of [] \<Rightarrow> [] | e # s' \<Rightarrow> inside_literal (v @ [e]) s')
      else inside_literal (v @ [c]) s)"

definition string_literals :: "utext \<Rightarrow> utext list" where
  "string_literals args = outside_literal args"

fun declares_in :: "utext \<Rightarrow> bool \<Rightarrow> utext list \<Rightarrow> bool" where
  "declares_in clause collecting [] = False"
| "declares_in clause collecting (line # rest) =
     (let trimmed = trim_start line
      in if \<not> collecting
         then (case (case strip_prefix (ascii ''testkit::proves!('') trimmed of
                       Some r \<Rightarrow> Some r
                     | None \<Rightarrow> strip_prefix (ascii ''proves!('') trimmed) of
                 None \<Rightarrow> declares_in clause False rest
               | Some r \<Rightarrow>
                   if clause \<in> set (string_literals r) then True
                   else declares_in clause (41 \<notin> set r) rest)
         else if starts_with (ascii ''//'') trimmed then declares_in clause True rest
         else if clause \<in> set (string_literals trimmed) then True
         else declares_in clause (41 \<notin> set trimmed) rest)"

definition declares_clause :: "utext \<Rightarrow> utext \<Rightarrow> bool" where
  "declares_clause span clause = declares_in clause False (lines span)"

definition starts_fn :: "utext \<Rightarrow> bool" where
  "starts_fn trimmed \<longleftrightarrow>
     list_ex (\<lambda>p. starts_with (ascii p) trimmed)
       [''fn '', ''async fn '', ''pub fn '', ''pub async fn '', ''unsafe fn '', ''pub(crate) fn '']"

fun span_end :: "nat \<Rightarrow> utext list \<Rightarrow> nat option" where
  "span_end offset [] = None"
| "span_end offset (line # rest) =
     (let offset' = offset + length line
      in if offset = 0 then span_end offset' rest
         else if starts_fn (trim_start line) then Some offset'
         else span_end offset' rest)"

definition function_span :: "utext \<Rightarrow> utext \<Rightarrow> utext" where
  "function_span source needle =
     (case find_text needle source of
        None \<Rightarrow> []
      | Some start \<Rightarrow>
          (let rest = drop start source
           in case span_end 0 (split_inclusive 10 rest) of None \<Rightarrow> rest | Some n \<Rightarrow> take n rest))"

datatype 'e locator_problem =
    MalformedLocator utext utext
  | NoSuchFile utext utext
  | Unreadable utext utext 'e
  | NamesNoFunction utext utext
  | DoesNotDeclare utext utext

definition repo_root :: "utext \<Rightarrow> utext" where
  "repo_root manifest_dir = path_join manifest_dir (ascii ''..'')"

definition row_problem ::
  "(utext \<Rightarrow> bool) \<Rightarrow> (utext \<Rightarrow> 'e + utext) \<Rightarrow> utext \<Rightarrow> utext \<Rightarrow> utext \<Rightarrow> 'e locator_problem option"
where
  "row_problem is_file read_to_string root name locator =
     (case split_once_text (ascii ''::'') locator of
        None \<Rightarrow> Some (MalformedLocator name locator)
      | Some (path, fn_name) \<Rightarrow>
          if \<not> is_file (path_join root path) then Some (NoSuchFile name path)
          else case read_to_string (path_join root path) of
            Inl e \<Rightarrow> Some (Unreadable name path e)
          | Inr source \<Rightarrow>
              (let needle = ascii ''fn '' @ fn_name
               in if \<not> list_ex (\<lambda>l. starts_with needle (trim_start l) \<or> contains_text needle l) (lines source)
                  then Some (NamesNoFunction name locator)
                  else if \<not> declares_clause (function_span source needle) name
                  then Some (DoesNotDeclare name locator)
                  else None))"

definition missing_locators ::
  "(utext \<Rightarrow> bool) \<Rightarrow> (utext \<Rightarrow> 'e + utext) \<Rightarrow> utext \<Rightarrow> (utext \<times> utext) list \<Rightarrow> 'e locator_problem list"
where
  "missing_locators is_file read_to_string root registry =
     concat (map (\<lambda>(name, locator).
       case row_problem is_file read_to_string root name locator of None \<Rightarrow> [] | Some p \<Rightarrow> [p]) registry)"

subsection \<open>The registries agree with the crate\<close>

text \<open>
  The registries are complete and current. Every property invariant and every fault class is
  bound to a test and every binding is for a declared one, no list names a case twice, and the
  fault classes are the crate's own in the same order.
\<close>

theorem registries_complete:
  "unclaimed PROPERTY_INVARIANTS PROPERTY_CASE_PROOFS = [] \<and> overclaimed PROPERTY_INVARIANTS PROPERTY_CASE_PROOFS = [] \<and>
   unclaimed FAULT_CLASSES FAULT_CASE_PROOFS = [] \<and> overclaimed FAULT_CLASSES FAULT_CASE_PROOFS = [] \<and>
   distinct NEGATIVE_CASES \<and> distinct FAULT_CLASSES \<and> distinct PROPERTY_INVARIANTS \<and>
   FAULT_CLASSES = fault_classes"
proof -
  have proofs: "unclaimed PROPERTY_INVARIANTS PROPERTY_CASE_PROOFS = []" "overclaimed PROPERTY_INVARIANTS PROPERTY_CASE_PROOFS = []"
    by (simp_all add: unclaimed_def overclaimed_def PROPERTY_INVARIANTS_def PROPERTY_CASE_PROOFS_def ascii_inject)
  have faults: "unclaimed FAULT_CLASSES FAULT_CASE_PROOFS = []" "overclaimed FAULT_CLASSES FAULT_CASE_PROOFS = []"
    by (simp_all add: unclaimed_def overclaimed_def FAULT_CLASSES_def FAULT_CASE_PROOFS_def ascii_inject)
  have lists: "distinct NEGATIVE_CASES" "distinct FAULT_CLASSES" "distinct PROPERTY_INVARIANTS" "FAULT_CLASSES = fault_classes"
    by (simp_all add: NEGATIVE_CASES_def FAULT_CLASSES_def PROPERTY_INVARIANTS_def fault_classes_def fault_class_ALL_def ascii_inject)
  from proofs faults lists show ?thesis by simp
qed

lemma invariant_proofs_length: "length INVARIANT_PROOFS = 167"
  by (simp add: INVARIANT_PROOFS_def)

lemma no_difference_iff:
  "unclaimed declared registry = [] \<and> overclaimed declared registry = [] \<longleftrightarrow> set declared = fst ` set registry"
  by (auto simp: unclaimed_def overclaimed_def filter_empty_conv list_ex_iff)

subsection \<open>Declarations are read back\<close>

text \<open>A literal as a test writes it, and the argument list of a declaration.\<close>

definition quoted :: "utext \<Rightarrow> utext" where
  "quoted s = 34 # concat (map (\<lambda>c. if c = 34 \<or> c = 92 then [92, c] else [c]) s) @ [34]"

lemma inside_literal_quoted:
  "inside_literal v (concat (map (\<lambda>c. if c = 34 \<or> c = 92 then [92, c] else [c]) s) @ 34 # rest) = (v @ s) # outside_literal rest"
  by (induction s arbitrary: v) auto

lemma outside_literal_skip: "34 \<notin> set sep \<Longrightarrow> 41 \<notin> set sep \<Longrightarrow> outside_literal (sep @ s) = outside_literal s"
  by (induction sep) auto

text \<open>
  The clauses that a test declares are read back exactly. From the argument list of a
  declaration, written as quoted literals separated by any text without quotes and parentheses, the
  reader returns the clauses in order, and nothing from after the closing parenthesis.
\<close>

theorem string_literals_roundtrip:
  assumes "34 \<notin> set sep" "41 \<notin> set sep"
  shows "string_literals (join sep (map quoted clauses) @ 41 # rest) = clauses"
proof -
  have lit: "outside_literal (quoted c @ s) = c # outside_literal s" for c s
    using inside_literal_quoted [of "[]" c s] by (simp add: quoted_def)
  have "outside_literal (join sep (map quoted clauses) @ 41 # rest) = clauses"
  proof (induction clauses rule: induct_list012)
    case (2 c)
    then show ?case by (simp add: lit)
  next
    case (3 c d cs)
    then show ?case by (simp add: lit outside_literal_skip [OF assms])
  qed simp
  then show ?thesis by (simp add: string_literals_def)
qed

theorem string_literals_roundtrip_witness:
  "string_literals (join (ascii '', '') (map quoted [ascii ''a.b'', ascii ''say (hi)'']) @ 41 # ascii '' + 1'') =
     [ascii ''a.b'', ascii ''say (hi)'']"
  by (rule string_literals_roundtrip) (simp_all add: ascii_def)

text \<open>
  The text searched for a locator's function is a prefix of the name of any longer function, and the
  first occurrence counts: a clause that another test declares satisfies the row.
\<close>

lemma other_test_satisfies_row:
  "missing_locators (\<lambda>_. True)
     (\<lambda>_. Inr (join [10] (map ascii [''fn stale_reads() {'', '' proves!('' @ [CHR 0x22] @ ''c'' @ [CHR 0x22] @ '');'', ''}'',
        ''fn stale() {'', ''}'']))) (ascii ''.'') [(ascii ''c'', ascii ''t.rs::stale'')] = ([] :: unit locator_problem list)"
  by (simp add: missing_locators_def row_problem_def split_once_text_def starts_with_def ascii_def contains_text_def
      function_span_def declares_clause_def lines_def line_of_def strip_suffix_def strip_prefix_def string_literals_def
      trim_start_def is_whitespace_def starts_fn_def Let_def)

end
