(* ===== verification/Ladder_Placement.thy ===== *)
theory Ladder_Placement
  imports Manager_Safety
begin

section \<open>Where the manager places entries\<close>

text \<open>
  The control plane records, for every key it has seen, the rung that holds the key's value. This
  theory shows that no operation of the manager ever records the authority rung there: the entries of
  a plane stay on the cache ladder, whichever other operations are interleaved and wherever a caller
  drops its future. The rung an operation records is the rung it was routed to, the neighbour of the
  rung it found, or the target that its own commit token carries; each of the three is a cache rung.
\<close>

definition on_ladder :: "control_entry \<Rightarrow> bool" where
  "on_ladder e \<longleftrightarrow> is_cache_rung (e_tier e)"

definition ladder_placed :: "placement \<Rightarrow> 's world \<Rightarrow> bool" where
  "ladder_placed pl w \<longleftrightarrow>
     plane_ok pl (w_plane w) \<and> (\<forall>a e. plane_lookup (w_plane w) a = Some e \<longrightarrow> on_ladder e)"

text \<open>The rest of the process keeps it too, as the operations below do.\<close>

definition keeps_placed :: "placement \<Rightarrow> 's schedule \<Rightarrow> bool" where
  "keeps_placed pl sc \<longleftrightarrow> (\<forall>n w. ladder_placed pl w \<longrightarrow> ladder_placed pl (sc_between sc n w))"

text \<open>
  \<open>get_or_fetch\<close> and \<open>refresh\<close> claim the entry for the rung that the policy names, before anything
  else looks at that rung.
\<close>

definition routes_on_ladder :: "('s, 'v) manager \<Rightarrow> bool" where
  "routes_on_ladder m \<longleftrightarrow>
     (\<forall>op key ctx. is_cache_rung (pd_tier (resolve m (request_for op key ctx) ctx)))"

lemma steady_placed: "keeps_placed pl sc \<Longrightarrow> steady sc (ladder_placed pl)"
  by (simp add: steady_def blind_def ladder_placed_def keeps_placed_def)

lemma placed_stores [simp]: "ladder_placed pl (w\<lparr>w_stores := x\<rparr>) \<longleftrightarrow> ladder_placed pl w"
  by (simp add: ladder_placed_def)

lemma on_ladder_new [simp]: "on_ladder (entry_new a)"
  by (simp add: on_ladder_def entry_new_def e_tier_def as_u8_def is_cache_rung_iff from_usize_def)

text \<open>The transitions that leave the rung alone, and those that choose one.\<close>

lemma on_ladder_steps [simp]:
  "on_ladder e \<Longrightarrow> on_ladder (snd (entry_fail err e))"
  "on_ladder e \<Longrightarrow> on_ladder (snd (entry_invalidate e))"
  "on_ladder e \<Longrightarrow> on_ladder (snd (entry_release_population_claim e))"
  "on_ladder e \<Longrightarrow> on_ladder (snd (entry_reserve_eviction e))"
  "on_ladder e \<Longrightarrow> on_ladder (snd (entry_abort_inner err b e))"
  "on_ladder e \<Longrightarrow> on_ladder (snd (entry_abort_intent err e))"
  "on_ladder e \<Longrightarrow> on_ladder (snd (entry_prepare now g t k e))"
  "on_ladder e \<Longrightarrow> on_ladder (snd (entry_expire now e))"
  "on_ladder e \<Longrightarrow> on_ladder (snd (entry_bump_generation e))"
  "on_ladder e \<Longrightarrow> on_ladder (e_notify (e_set_state s e))"
  by (simp_all add: on_ladder_def step_defs Let_def)

lemma on_ladder_placing:
  assumes "on_ladder e" "is_cache_rung t"
  shows "on_ladder (snd (entry_acquire now t e))" "on_ladder (snd (entry_publish now g t ttl e))"
    "ct_target_tier token = as_u8 t \<Longrightarrow> on_ladder (snd (entry_commit now token ttl e))"
proof -
  show "on_ladder (snd (entry_acquire now t e))"
    using assms
    by (simp add: on_ladder_def entry_acquire_def e_compare_exchange_state_def Let_def del: state_to_u8.simps)
  show "on_ladder (snd (entry_publish now g t ttl e))"
    using assms by (simp add: on_ladder_def entry_publish_def Let_def)
  show "on_ladder (snd (entry_commit now token ttl e))" if "ct_target_tier token = as_u8 t"
    using assms that by (simp add: on_ladder_def entry_commit_def Let_def)
qed

lemma placed_with_entry:
  assumes w: "ladder_placed pl w" and f: "keeps f" "\<And>e. on_ladder e \<Longrightarrow> on_ladder (snd (f e))"
  shows "ladder_placed pl (w\<lparr>w_plane := snd (with_entry b ab f (w_plane w))\<rparr>)"
proof -
  have ok: "plane_ok pl (w_plane w)" using w by (simp add: ladder_placed_def)
  show ?thesis
    using w f(2) plane_ok_with_entry(1,2) [OF ok f(1), of b ab]
    by (auto simp: ladder_placed_def split: option.splits if_splits)
qed

lemma placed_with_or_create:
  assumes w: "ladder_placed pl w" and f: "keeps f" "\<And>e. on_ladder e \<Longrightarrow> on_ladder (snd (f e))"
  shows "ladder_placed pl (w\<lparr>w_plane := snd (with_or_create b f (w_plane w))\<rparr>)"
proof -
  have ok: "plane_ok pl (w_plane w)" using w by (simp add: ladder_placed_def)
  have "on_ladder (plane_entry (w_plane w) b)"
    using w by (simp add: ladder_placed_def plane_entry_def split: option.split)
  then show ?thesis
    using w f(2) plane_ok_with_or_create(1,2) [OF ok f(1), of b]
    by (auto simp: ladder_placed_def split: if_splits)
qed

text \<open>The methods of the plane that the manager calls.\<close>

lemma placed_plane_calls:
  assumes sc: "keeps_placed pl sc"
  shows "upholds (ladder_placed pl) (plane_call sc (\<lambda>now. cp_set_state key s))"
    "upholds (ladder_placed pl) (plane_call sc (\<lambda>now. cp_fail_with_error key err))"
    "upholds (ladder_placed pl) (plane_call sc (\<lambda>now. cp_invalidate key))"
    "upholds (ladder_placed pl) (plane_call sc (\<lambda>now. cp_release key))"
    "upholds (ladder_placed pl) (plane_call sc (\<lambda>now. cp_abort token err))"
    "upholds (ladder_placed pl) (plane_call sc (\<lambda>now. cp_abort_proven_clean token err))"
    "upholds (ladder_placed pl) (plane_call sc (\<lambda>now. cp_abort_intent_by_address a err))"
    "upholds (ladder_placed pl) (plane_call sc (\<lambda>now. cp_release_population_claim a))"
    "upholds (ladder_placed pl) (plane_call sc (\<lambda>now. cp_reserve_eviction a))"
    "upholds (ladder_placed pl) (plane_call sc (\<lambda>now. cp_prepare now key g t kind))"
  unfolding cp_defs
  by (rule upholds_plane_call [OF steady_placed [OF sc]],
      (rule placed_with_entry | rule placed_with_or_create), assumption,
      simp_all)+

lemma placed_placing_calls:
  assumes sc: "keeps_placed pl sc" and t: "is_cache_rung t"
  shows "upholds (ladder_placed pl) (plane_call sc (\<lambda>now. cp_acquire now key t))"
    "upholds (ladder_placed pl) (plane_call sc (\<lambda>now. cp_publish now key g t ttl))"
    "ct_target_tier token = as_u8 t \<Longrightarrow> upholds (ladder_placed pl) (plane_call sc (\<lambda>now. cp_commit now token ttl))"
  unfolding cp_defs
  by (rule upholds_plane_call [OF steady_placed [OF sc]],
      (rule placed_with_entry | rule placed_with_or_create), assumption,
      auto intro: on_ladder_placing [OF _ t])+

text \<open>The token that \<open>prepare\<close> hands out carries the rung it was asked for.\<close>

lemma prepare_token_target:
  fixes w :: "'s world"
  assumes "plane_call sc (\<lambda>now. cp_prepare now key g t kind) w = (Done (Inr token), w')" "ladder_placed pl (tick sc w)"
  shows "ct_target_tier token = as_u8 t"
proof -
  have ok: "plane_ok pl (w_plane (tick sc w))" using assms(2) by (simp add: ladder_placed_def)
  show ?thesis
    using assms(1) plane_ok_with_or_create(3) [OF ok keeps_steps(7) [of "w_now (tick sc w)" g t kind],
        of "plane_address_of (w_plane (tick sc w)) key"]
    by (auto simp: plane_call_def cp_prepare_def entry_prepare_def Let_def split: prod.splits if_splits)
qed

lemma placed_after_prepare:
  fixes sc :: "'s schedule" and f :: "commit_token result \<Rightarrow> ('s, 'b) io"
  assumes sc: "keeps_placed pl sc"
    and err: "\<And>e. upholds (ladder_placed pl) (f (Inl e))"
    and ok: "\<And>token. ct_target_tier token = as_u8 t \<Longrightarrow> upholds (ladder_placed pl) (f (Inr token))"
  shows "upholds (ladder_placed pl) (bind_task (plane_call sc (\<lambda>now. cp_prepare now key g t kind)) f)"
  unfolding upholds_def
proof (intro allI impI)
  fix w :: "'s world" assume w: "ladder_placed pl w"
  obtain r w' where c: "plane_call sc (\<lambda>now. cp_prepare now key g t kind) w = (Done r, w')"
    by (auto simp: plane_call_def Let_def case_prod_unfold)
  have w': "ladder_placed pl w'" using upholdsD [OF placed_plane_calls(10) [OF sc] w] c by (metis snd_conv)
  have "upholds (ladder_placed pl) (f r)"
  proof (cases r)
    case (Inr token)
    with c prepare_token_target [OF _ steady_tick [OF steady_placed [OF sc] w]] ok show ?thesis by simp
  qed (simp add: err)
  with c w' show "ladder_placed pl (snd (bind_task (plane_call sc (\<lambda>now. cp_prepare now key g t kind)) f w))"
    by (simp add: bind_task_def upholds_def)
qed

subsection \<open>The steps of the operations\<close>

lemma placed_tier_call: "keeps_placed pl sc \<Longrightarrow> upholds (ladder_placed pl) (tier_call sc i f)"
  by (rule upholds_tier_call) (simp_all add: steady_placed)

lemma placed_tier_sync: "keeps_placed pl sc \<Longrightarrow> upholds (ladder_placed pl) (tier_sync sc i f)"
  by (rule upholds_tier_sync) (simp_all add: steady_placed)

lemma placed_rungs:
  assumes "keeps_placed pl sc"
  shows "upholds (ladder_placed pl) (rung_get sc m t key)" "upholds (ladder_placed pl) (rung_set sc m t key v ttl)"
    "upholds (ladder_placed pl) (rung_remove sc m i key)" "upholds (ladder_placed pl) (rung_contains sc m t key)"
  unfolding rung_get_def rung_set_def rung_remove_def rung_contains_def by (rule placed_tier_call [OF assms])+

lemma placed_intent:
  assumes sc: "keeps_placed pl sc"
  shows "upholds (ladder_placed pl) (intent_guard_abort sc token e)"
    "upholds (ladder_placed pl) (release_intent sc token e)"
    "ladder_placed pl w \<Longrightarrow> ladder_placed pl (intent_guard_drop sc token w)"
    "ladder_placed pl w \<Longrightarrow> ladder_placed pl (population_guard_drop sc key w)"
  unfolding intent_guard_abort_def release_intent_def intent_guard_abort_proven_clean_def
    intent_guard_drop_def population_guard_drop_def
  by (auto intro!: upholds_then placed_plane_calls [OF sc] upholdsD [OF placed_plane_calls(5) [OF sc]]
      upholdsD [OF placed_plane_calls(2) [OF sc]])

lemma placed_set_rung:
  assumes sc: "keeps_placed pl sc" and t: "is_cache_rung t"
  shows "upholds (ladder_placed pl) (set_rung sc m key v ttl t n)"
proof (induction n)
  case (Suc n)
  have "upholds (ladder_placed pl) (set_attempt_body sc m key v ttl t b token)"
    if "ct_target_tier token = as_u8 t" for b token
    unfolding set_attempt_body_def
    by (intro upheld placed_placing_calls(3) [OF sc t that] placed_rungs [OF sc] placed_intent [OF sc]
        steady_placed [OF sc] steady_blind [OF steady_placed [OF sc]])
  with Suc show ?case
    unfolding set_rung.simps
    by (intro placed_after_prepare [OF sc])
       (auto intro!: upholds_bind upholds_guarded placed_intent [OF sc] split: set_attempt.split)
qed simp

lemma placed_set_walk:
  assumes "keeps_placed pl sc"
  shows "upholds (ladder_placed pl) (set_walk sc m key v ttl t e)"
  using assms
proof (induction sc m key v ttl t e rule: set_walk.induct)
  case (1 sc m key v ttl t e)
  then show ?case
    unfolding set_walk.simps [of sc m key v ttl t e]
    by (auto intro!: upholds_bind placed_set_rung split: rung_step.split)
qed

lemma placed_evict:
  assumes sc: "keeps_placed pl sc"
  shows "upholds (ladder_placed pl) (try_evict_at_rung sc m t n)" "upholds (ladder_placed pl) (try_free_from sc m ts n)"
proof -
  have "upholds (ladder_placed pl) (try_evict_at_rung sc m t n)" for t n
    by (induction n)
       (auto intro!: upholds_bind placed_plane_calls [OF sc] placed_tier_sync [OF sc]
          split: option.split sum.split bool.split)
  then show "upholds (ladder_placed pl) (try_evict_at_rung sc m t n)" "upholds (ladder_placed pl) (try_free_from sc m ts n)"
    by (auto intro!: upholds_bind split: prod.split, induction ts arbitrary: n) (auto intro!: upholds_bind split: prod.split)
qed

lemma placed_set_passes:
  assumes sc: "keeps_placed pl sc"
  shows "upholds (ladder_placed pl) (set_passes sc m key v ttl t n e)"
  by (induction n arbitrary: e)
     (auto intro!: upholds_bind placed_set_walk [OF sc] placed_evict [OF sc]
        simp: try_free_somewhere_in_the_ladder_def split: prod.split option.split)

lemma placed_move:
  assumes sc: "keeps_placed pl sc" and t: "is_cache_rung t"
  shows "upholds (ladder_placed pl) (move_entry sc m key key_ref snapshot t ctx)"
proof -
  have "upholds (ladder_placed pl) (move_body sc m key key_ref (cs_tier snapshot) t ctx token)"
    if "ct_target_tier token = as_u8 t" for token
    unfolding move_body_def
    by (intro upheld placed_placing_calls(3) [OF sc t that] placed_rungs [OF sc] placed_intent [OF sc]
        steady_placed [OF sc] steady_blind [OF steady_placed [OF sc]])
  then show ?thesis
    unfolding move_entry_def try_task_def
    by (intro placed_after_prepare [OF sc]) (auto intro!: upholds_guarded placed_intent [OF sc])
qed

lemma neighbour_rungs:
  "is_cache_rung t \<Longrightarrow> from_usize (as_usize t - Suc 0) = Some t' \<Longrightarrow> is_cache_rung t'"
  "\<not> LAST_CACHE_TIER \<le> t \<Longrightarrow> from_usize (Suc (as_usize t)) = Some t' \<Longrightarrow> is_cache_rung t'"
  by (cases t; auto simp: from_usize_def is_cache_rung_iff LAST_CACHE_TIER_def less_eq_tier_id_def)+

text \<open>The operations that write or only look.\<close>

lemma placed_writers:
  assumes sc: "keeps_placed pl sc"
  shows "upholds (ladder_placed pl) (set_op sc m key v ctx)"
    "upholds (ladder_placed pl) (invalidate_op sc m key ctx)"
    "upholds (ladder_placed pl) (remove_op sc m key ctx)"
    "upholds (ladder_placed pl) (exists_op sc m key ctx)"
    "upholds (ladder_placed pl) (promote_op sc m key ctx)"
    "upholds (ladder_placed pl) (demote_op sc m key ctx)"
proof -
  note st = steady_placed [OF sc]
  note bl = steady_blind [OF st]
  show "upholds (ladder_placed pl) (set_op sc m key v ctx)"
    unfolding set_op_def
    by (auto intro!: upholds_try upholds_try_pure upholds_bind upholds_peek upholds_resolve st
        placed_set_passes [OF sc] simp del: set_passes.simps)
  show "upholds (ladder_placed pl) (invalidate_op sc m key ctx)"
    unfolding invalidate_op_def by (auto intro!: upholds_try upholds_try_pure placed_plane_calls [OF sc])
  have "upholds (ladder_placed pl) (remove_from_rungs sc m key_ref is)" for key_ref "is"
    by (induction "is") (auto intro!: upholds_then upholds_unbounded placed_rungs [OF sc])
  then show "upholds (ladder_placed pl) (remove_op sc m key ctx)"
    unfolding remove_op_def by (auto intro!: upholds_then upholds_try upholds_try_pure placed_plane_calls [OF sc])
  show "upholds (ladder_placed pl) (exists_op sc m key ctx)"
    unfolding exists_op_def
    by (auto intro!: upholds_try upholds_try_pure upholds_peek upholds_bounded placed_rungs [OF sc] st bl)
  show "upholds (ladder_placed pl) (promote_op sc m key ctx)"
    unfolding promote_op_def
    by (auto intro!: upholds_try upholds_try_pure upholds_peek st placed_move [OF sc] intro: neighbour_rungs
        split: option.split)
  show "upholds (ladder_placed pl) (demote_op sc m key ctx)"
    unfolding demote_op_def
    by (auto intro!: upholds_try upholds_try_pure upholds_peek st placed_move [OF sc] intro: neighbour_rungs
        split: option.split)
qed

lemma placed_maintenance:
  assumes sc: "keeps_placed pl sc"
  shows "upholds (ladder_placed pl) (recover_older_than sc age)" "upholds (ladder_placed pl) (manager_sweep_expired sc)"
proof -
  have rec: "upholds (ladder_placed pl) (recover_all sc intents report)" for intents report
    by (induction intents arbitrary: report)
       (auto intro!: upholds_bind placed_plane_calls [OF sc] simp: Let_def split: intent_kind.split)
  have "upholds (ladder_placed pl) (plane_call sc (\<lambda>now p. (cp_stale_intents now (of_nat age) p, p)))"
    by (rule upholds_plane_call [OF steady_placed [OF sc]]) simp
  with rec show "upholds (ladder_placed pl) (recover_older_than sc age)"
    unfolding recover_older_than_def by (intro upholds_bind)
  show "upholds (ladder_placed pl) (manager_sweep_expired sc)"
    unfolding manager_sweep_expired_def
  proof (rule upholds_plane_call [OF steady_placed [OF sc]])
    fix w :: "'a world" assume w: "ladder_placed pl w"
    then have ok: "plane_ok pl (w_plane w)" by (simp add: ladder_placed_def)
    show "ladder_placed pl (w\<lparr>w_plane := snd (cp_sweep_expired (w_now w) (w_plane w))\<rparr>)"
      using w plane_ok_sweep [OF ok, of "w_now w"] by (auto simp: ladder_placed_def)
  qed
qed

lemma placed_populate:
  assumes sc: "keeps_placed pl sc"
  shows "upholds (ladder_placed pl) (become_population_owner sc m key key_ref g ctx decision fetch)"
proof -
  note st = steady_placed [OF sc]
  note bl = steady_blind [OF st]
  have "upholds (ladder_placed pl) (populate_once sc m key key_ref g ctx fetch decision)"
    unfolding populate_once_def
    by (auto intro!: upholds_try upholds_try_pure upholds_bind upholds_then upholds_bounded upholds_fetch_call
        upholds_observed upholds_record_outcome placed_rungs [OF sc] placed_placing_calls(2) [OF sc] st bl
        simp: nearest_bound_rung_cache split: option.split)
  moreover have "upholds (ladder_placed pl) (population_failed sc m key_ref decision e)" for e
    unfolding population_failed_def
    by (intro upholds_bind upholds_then upholds_read_now upholds_read_backend upholds_emit upholds_ret
        placed_plane_calls [OF sc] bl)
  ultimately have "upholds (ladder_placed pl) (populate_loop sc m key key_ref g ctx decision fetch n backoff)" for n backoff
    by (induction n arbitrary: backoff) (auto intro!: upholds_bind upholds_then upholds_sleep st split: sum.split)
  moreover have "upholds (ladder_placed pl) (try_fallback_from sc m key_ref cause ts)" for key_ref cause ts
    by (induction ts)
       (auto intro!: upholds_bind upholds_then upholds_bounded upholds_circuit_read upholds_observed
          placed_rungs [OF sc] st bl split: sum.split option.split)
  ultimately show ?thesis
    unfolding become_population_owner_def try_fallback_tier_def
    by (auto intro!: upholds_bind upholds_guarded upholds_try_pure placed_intent [OF sc] split: sum.split)
qed

text \<open>The operations that read, and those that populate on the rung the policy names.\<close>

lemma placed_readers:
  assumes sc: "keeps_placed pl sc"
  shows "upholds (ladder_placed pl) (get_op sc m key ctx)"
    "routes_on_ladder m \<Longrightarrow> upholds (ladder_placed pl) (get_or_fetch_op sc m key ctx fetch)"
    "routes_on_ladder m \<Longrightarrow> upholds (ladder_placed pl) (refresh_detailed sc m key ctx fetch)"
proof -
  note st = steady_placed [OF sc]
  note bl = steady_blind [OF st]
  note steps = upholds_try upholds_try_pure upholds_bind upholds_then upholds_bounded upholds_observed
    upholds_record_outcome upholds_peek upholds_read_now upholds_wait placed_plane_calls [OF sc] st bl
    placed_rungs [OF sc] placed_populate [OF sc]
  show "upholds (ladder_placed pl) (get_op sc m key ctx)"
    unfolding get_op_def get_ready_def get_waiting_def Let_def
    by (auto intro!: steps split: sum.split option.split)
  have wg: "upholds (ladder_placed pl) (wait_and_get sc m key ctx)"
    unfolding wait_and_get_def by (auto intro!: steps split: option.split)
  have loop: "upholds (ladder_placed pl) (get_or_fetch_loop sc m key key_ref ctx decision fetch n)"
    if "is_cache_rung (pd_tier decision)" for key_ref decision n
    by (induction n)
       (auto intro!: steps wg placed_placing_calls(1) [OF sc that]
          simp: reclaim_expired_def dispatch_claim_def fetch_fast_path_def split: sum.split option.split)
  show "upholds (ladder_placed pl) (get_or_fetch_op sc m key ctx fetch)" if "routes_on_ladder m"
    using that unfolding get_or_fetch_op_def Let_def
    by (auto intro!: steps loop simp: routes_on_ladder_def simp del: get_or_fetch_loop.simps)
  show "upholds (ladder_placed pl) (refresh_detailed sc m key ctx fetch)" if "routes_on_ladder m"
    using that unfolding refresh_detailed_def refresh_current_def Let_def
    by (auto intro!: steps placed_placing_calls(1) [OF sc] simp: routes_on_ladder_def split: sum.split)
qed

subsection \<open>The property\<close>

lemma default_routes_on_ladder:
  fixes tiers :: "('s, 'b) tier_ops list"
  shows "routes_on_ladder (manager_with_timeout default_select tiers timeout)"
proof -
  have cache: "is_cache_rung (pd_tier (default_select r s i))" if "is_cache_rung (base_tier (rq_operation r) (st_tier s))"
    for r :: "(bytes, 'b) cache_request" and s i
    using that by (simp add: default_select_tier Let_def capacity_fallback_cache_rung healthy_fallback_cache_rung)
  have "is_cache_rung (pd_tier (default_select (request_for op key ctx :: (bytes, 'b) cache_request) cache_state_new i))"
    for op key ctx i
    by (rule cache, rule base_tier_cache_rung) (simp add: cache_state_new_def is_cache_rung_iff)
  then show ?thesis by (simp add: routes_on_ladder_def resolve_def manager_with_timeout_def)
qed

lemma quiet_keeps_placed: "keeps_placed pl quiet" "keeps_placed pl (drop_at n)"
  by (simp_all add: keeps_placed_def quiet_def drop_at_def)

lemma idle_world_placed: "ladder_placed AllToZero (idle_world stores)"
  by (simp add: ladder_placed_def idle_world_def demo_plane_ok demo_plane_lookup)

text \<open>
  C14: Entries stay on the cache ladder. When every entry of the plane names one of the six cache
  rungs, every entry still does after any operation of the manager, whatever the rungs do, wherever
  the caller drops its future and whatever else runs meanwhile that keeps this too: a write, a read, a
  probe, an invalidation, a removal, a promotion, a demotion, a recovery pass and a sweep under any
  policy; a population and a refresh under a policy that names cache rungs for them, as the default
  policy does.
\<close>

theorem entries_stay_on_ladder:
  assumes "keeps_placed pl sc" "ladder_placed pl w"
  shows "ladder_placed pl (snd (set_op sc m key v ctx w)) \<and>
    ladder_placed pl (snd (get_op sc m key ctx w)) \<and>
    ladder_placed pl (snd (exists_op sc m key ctx w)) \<and>
    ladder_placed pl (snd (invalidate_op sc m key ctx w)) \<and>
    ladder_placed pl (snd (remove_op sc m key ctx w)) \<and>
    ladder_placed pl (snd (promote_op sc m key ctx w)) \<and>
    ladder_placed pl (snd (demote_op sc m key ctx w)) \<and>
    ladder_placed pl (snd (recover_older_than sc age w)) \<and>
    ladder_placed pl (snd (manager_sweep_expired sc w)) \<and>
    (routes_on_ladder m \<longrightarrow>
       ladder_placed pl (snd (get_or_fetch_op sc m key ctx fetch w)) \<and>
       ladder_placed pl (snd (refresh_detailed sc m key ctx fetch w))) \<and>
    routes_on_ladder (manager_with_timeout default_select tiers timeout)"
proof -
  note keep = upholdsD [where I = "ladder_placed pl" and w = w, OF _ assms(2)]
  show ?thesis
    by (intro conjI impI keep placed_writers [OF assms(1)] placed_readers [OF assms(1)]
        placed_maintenance [OF assms(1)] default_routes_on_ladder) assumption+
qed

theorem entries_stay_on_ladder_witness:
  "ladder_placed AllToZero (snd (get_or_fetch_op (drop_at 3) (manager_new default_select [hanging_ops, hanging_ops])
     [107] demo_context (\<lambda>_. Returns (Ok (5 :: nat))) (idle_world [(), ()])))"
proof -
  let ?m = "manager_new default_select [hanging_ops, hanging_ops] :: (unit, nat) manager"
  have "routes_on_ladder ?m" unfolding manager_new_def by (rule default_routes_on_ladder)
  with entries_stay_on_ladder [OF quiet_keeps_placed(2) [of AllToZero 3] idle_world_placed [of "[(), ()]"],
      where m = ?m and key = "[107]" and ctx = demo_context and fetch = "\<lambda>_. Returns (Ok (5 :: nat))"]
  show ?thesis by blast
qed

end
