(* ===== verification/Manager_Returns.thy ===== *)
theory Manager_Returns
  imports Manager_Safety
begin

section \<open>Operations that nobody drops return\<close>

text \<open>
  A task ends in one of three ways. \<open>Manager_Safety\<close> shows which operations never wait for ever;
  here an operation is shown to be dropped only at a suspension point where its caller drops it. An
  operation whose caller does not drop it therefore returns a result, whatever the policy, the rungs,
  the breakers and the other tasks of the process do.
\<close>

definition undropped :: "'s schedule \<Rightarrow> bool" where
  "undropped sc \<longleftrightarrow> (\<forall>n. \<not> sc_drop sc n)"

definition stays :: "('w, 'a) task \<Rightarrow> bool" where
  "stays m \<longleftrightarrow> (\<forall>w. fst (m w) \<noteq> Dropped)"

named_theorems staying \<open>tasks that are never dropped\<close>

lemma staysD: "stays m \<Longrightarrow> fst (m w) \<noteq> Dropped"
  by (simp add: stays_def)

lemma stays_ret [simp, staying]: "stays (ret x)"
  by (simp add: stays_def ret_def)

lemma stays_bind [staying]:
  assumes "stays m" "\<And>x. stays (f x)"
  shows "stays (bind_task m f)"
  unfolding stays_def
proof
  fix w
  obtain r w' where m: "m w = (r, w')" by (cases "m w")
  with staysD [OF assms(1), of w] staysD [OF assms(2)] show "fst (bind_task m f w) \<noteq> Dropped"
    by (cases r) (simp_all add: bind_task_def)
qed

lemma stays_then [staying]: "stays m \<Longrightarrow> stays k \<Longrightarrow> stays (then_task m k)"
  unfolding then_task_def by (rule stays_bind)

lemma stays_try [staying]: "stays m \<Longrightarrow> (\<And>x. stays (f x)) \<Longrightarrow> stays (try_task m f)"
  unfolding try_task_def by (rule stays_bind) (simp_all split: sum.split)

lemma stays_try_pure [staying]: "(\<And>x. stays (f x)) \<Longrightarrow> stays (try_pure r f)"
  by (simp add: try_pure_def split: sum.split)

lemma stays_guarded [staying]:
  assumes "stays body"
  shows "stays (guarded cleanup body)"
  unfolding stays_def
proof
  fix w
  obtain r w' where m: "body w = (r, w')" by (cases "body w")
  with staysD [OF assms, of w] show "fst (guarded cleanup body w) \<noteq> Dropped"
    by (cases r) (auto simp: guarded_def split: prod.split)
qed

lemma stays_primitives [simp]:
  "stays (plane_call sc f)" "stays (plane_peek sc key)" "stays (registry_call sc g)" "stays (tier_sync sc i h)"
  "stays read_now" "stays (read_backend m t)" "stays (emit r)" "stays (let_time_pass d)"
  "stays (enable_notified sc key)" "stays (resolve_with_snapshot sc m request ctx snapshot)"
  "stays (\<lambda>w0. let w = tick sc w0 in (Done (registry_circuit_open (w_registry w) t), w))"
  "stays (\<lambda>w. (Hung, w))" "stays (\<lambda>w. (Done (g' w), w))"
  by (simp_all add: stays_def plane_call_def plane_peek_def registry_call_def tier_sync_def read_now_def
      read_backend_def emit_def let_time_pass_def enable_notified_def resolve_with_snapshot_def Let_def
      case_prod_unfold)

lemma stays_suspend [simp]: "undropped sc \<Longrightarrow> stays (suspend sc)"
  by (simp add: undropped_def stays_def suspend_def)

lemma stays_tier_call:
  assumes "undropped sc"
  shows "stays (tier_call sc i f)"
proof -
  have "stays (\<lambda>w. case f (w_now w) (w_stores w ! i) of (r, s) \<Rightarrow> (Done r, w\<lparr>w_stores := (w_stores w)[i := s]\<rparr>))"
    by (simp add: stays_def case_prod_unfold)
  with assms show ?thesis unfolding tier_call_def by (intro staying) simp_all
qed

lemma stays_rungs [simp]:
  assumes "undropped sc"
  shows "stays (rung_get sc m t key)" "stays (rung_set sc m t key v ttl)" "stays (rung_remove sc m i key)"
    "stays (rung_contains sc m t key)"
  unfolding rung_get_def rung_set_def rung_remove_def rung_contains_def by (rule stays_tier_call [OF assms])+

lemma stays_bounded [simp]:
  "stays fut \<Longrightarrow> stays (bounded m fut)" "stays fut \<Longrightarrow> stays (unbounded fut)"
  unfolding bounded_def unbounded_def by (intro stays_bind; auto intro!: stays_then split: reply.split)+

lemma stays_observed [simp]:
  "stays fut \<Longrightarrow> stays (observed_read sc m op key t fut)"
  "stays fut' \<Longrightarrow> stays (observed_write sc m op key t fut')"
  "stays (observed_control_only op key t started out)" "stays (record_fallback m key t cause)"
  "stays (record_telemetry_refresh_failure key snapshot cause)"
  unfolding observed_read_def observed_write_def observed_control_only_def record_fallback_def
    record_telemetry_refresh_failure_def Let_def
  by (intro stays_bind stays_then; simp)+

lemma stays_record_outcome [simp]: "stays (record_outcome sc t r)"
  by (simp add: record_outcome_def split: sum.split)

lemma stays_sleep [simp]: "undropped sc \<Longrightarrow> stays (sleep sc d)"
  unfolding sleep_def by (intro staying) simp_all

lemma stays_wait [simp]:
  assumes "undropped sc"
  shows "stays (wait_for_population sc m key)"
proof -
  have "stays (\<lambda>w. if n < notified_count key w \<and> \<not> sc_timer sc (w_step w) then (Done (Ok ()), w)
      else then_task (let_time_pass (m_wait_timeout m)) (ret (Err Timeout)) w)" for n
    by (simp add: stays_def then_task_def bind_task_def let_time_pass_def ret_def)
  with assms have "stays (await_notified sc m key n)" for n
    unfolding await_notified_def by (intro stays_then) simp_all
  then show ?thesis
    unfolding wait_for_population_def by (auto intro!: stays_bind split: sum.split)
qed

subsection \<open>The operations\<close>

lemma stays_populate [simp]:
  assumes sc: "undropped sc"
  shows "stays (become_population_owner sc m key key_ref g ctx decision fetch)"
proof -
  have fetch: "stays (fetch_call sc fetch)"
    using sc unfolding fetch_call_def by (intro staying) simp_all
  have "stays (populate_once sc m key key_ref g ctx fetch decision)"
    using sc unfolding populate_once_def by (auto intro!: staying stays_bounded fetch split: option.split)
  moreover have "stays (population_failed sc m key_ref decision e)" for e
    unfolding population_failed_def by (intro stays_bind stays_then) simp_all
  ultimately have "stays (populate_loop sc m key key_ref g ctx decision fetch n backoff)" for n backoff
    using sc by (induction n arbitrary: backoff) (auto intro!: stays_bind stays_then split: sum.split)
  moreover have "stays (try_fallback_from sc m key_ref cause ts)" for key_ref cause ts
    using sc by (induction ts) (auto intro!: stays_bind stays_then split: sum.split option.split)
  ultimately show ?thesis
    unfolding become_population_owner_def try_fallback_tier_def
    by (auto intro!: staying split: sum.split)
qed

lemma stays_readers:
  assumes sc: "undropped sc"
  shows "stays (get_op sc m key ctx)" "stays (exists_op sc m key ctx)" "stays (invalidate_op sc m key ctx)"
    "stays (get_or_fetch_op sc m key ctx fetch)" "stays (refresh_detailed sc m key ctx fetch)"
    "stays (recover_older_than sc age)" "stays (remove_op sc m key ctx)"
proof -
  show "stays (get_op sc m key ctx)"
    using sc unfolding get_op_def get_ready_def get_waiting_def Let_def
    by (auto intro!: staying split: sum.split option.split)
  show "stays (exists_op sc m key ctx)" "stays (invalidate_op sc m key ctx)"
    using sc unfolding exists_op_def invalidate_op_def by (auto intro!: staying)
  have wg: "stays (wait_and_get sc m key ctx)"
    using sc unfolding wait_and_get_def by (auto intro!: staying split: option.split)
  have "stays (get_or_fetch_loop sc m key key_ref ctx decision fetch n)" for key_ref decision n
    using sc
    by (induction n)
       (auto intro!: staying wg simp: reclaim_expired_def dispatch_claim_def fetch_fast_path_def
          split: sum.split option.split)
  then show "stays (get_or_fetch_op sc m key ctx fetch)"
    unfolding get_or_fetch_op_def Let_def by (auto intro!: staying simp del: get_or_fetch_loop.simps)
  show "stays (refresh_detailed sc m key ctx fetch)"
    using sc unfolding refresh_detailed_def refresh_current_def Let_def by (auto intro!: staying split: sum.split)
  have "stays (recover_all sc intents report)" for intents report
    by (induction intents arbitrary: report) (auto intro!: stays_bind simp: Let_def split: intent_kind.split)
  then show "stays (recover_older_than sc age)"
    unfolding recover_older_than_def by (intro stays_bind) simp_all
  have "stays (remove_from_rungs sc m key_ref is)" for key_ref "is"
    using sc by (induction "is") (auto intro!: stays_then)
  then show "stays (remove_op sc m key ctx)"
    unfolding remove_op_def by (auto intro!: staying)
qed

lemma stays_abort [simp]:
  "stays (intent_guard_abort sc token e)" "stays (release_intent sc token e)"
  unfolding intent_guard_abort_def release_intent_def intent_guard_abort_proven_clean_def
  by (auto intro!: stays_then)

lemma stays_set_walk:
  assumes "undropped sc"
  shows "stays (set_walk sc m k v ttl t e)"
  using assms
proof (induction sc m k v ttl t e rule: set_walk.induct)
  case (1 sc m k v ttl t e)
  have "stays (set_attempt_body sc m k v ttl t b token)" for b token
    using "1.prems" unfolding set_attempt_body_def by (auto intro!: staying split: sum.split)
  then have "stays (set_rung sc m k v ttl t n)" for n
    by (induction n) (auto intro!: staying split: sum.split set_attempt.split)
  with 1 show ?case
    unfolding set_walk.simps [of sc m k v ttl t e]
    by (auto intro!: stays_bind split: rung_step.split)
qed

lemma stays_writers:
  assumes sc: "undropped sc"
  shows "stays (set_op sc m key v ctx)" "stays (promote_op sc m key ctx)" "stays (demote_op sc m key ctx)"
proof -
  have evict: "stays (try_evict_at_rung sc m t n)" for t n
    by (induction n) (auto intro!: stays_bind split: option.split sum.split bool.split)
  have free: "stays (try_free_from sc m ts n)" for ts n
    by (induction ts arbitrary: n) (auto intro!: stays_bind evict split: prod.split)
  have "stays (set_passes sc m k v ttl t n e)" for k ttl t n e
    by (induction n arbitrary: e)
       (auto intro!: stays_bind stays_set_walk [OF sc] free simp: try_free_somewhere_in_the_ladder_def
          split: prod.split option.split)
  then show "stays (set_op sc m key v ctx)"
    unfolding set_op_def by (auto intro!: staying simp del: set_passes.simps)
  have move: "stays (move_entry sc m key k snapshot t ctx)" for k snapshot t
    using sc unfolding move_entry_def move_body_def by (auto intro!: staying split: sum.split option.split)
  show "stays (promote_op sc m key ctx)" "stays (demote_op sc m key ctx)"
    unfolding promote_op_def demote_op_def by (auto intro!: staying move split: option.split)
qed

subsection \<open>The property\<close>

definition returns :: "('w, 'a) task \<Rightarrow> bool" where
  "returns m \<longleftrightarrow> (\<forall>w. \<exists>x w'. m w = (Done x, w'))"

lemma returnsI: "stays m \<Longrightarrow> completes m \<Longrightarrow> returns m"
  unfolding returns_def
proof
  fix w assume "stays m" "completes m"
  with staysD [of m w] completesD [of m w] show "\<exists>x w'. m w = (Done x, w')"
    by (cases "m w"; cases "fst (m w)") auto
qed

text \<open>
  An operation that its caller does not drop returns a result. A read, a population, a refresh, a
  probe, an invalidation and a recovery pass do so over rungs and fetches that answer, fail or hang as
  they like; a write, a removal, a promotion and a demotion do when no rung's \<open>remove\<close> hangs. Other
  tasks may do anything meanwhile.
\<close>

theorem undropped_operations_return:
  assumes "undropped sc"
  shows "returns (get_op sc m key ctx) \<and> returns (get_or_fetch_op sc m key ctx fetch) \<and>
    returns (refresh_detailed sc m key ctx fetch) \<and> returns (exists_op sc m key ctx) \<and>
    returns (invalidate_op sc m key ctx) \<and> returns (recover_older_than sc age) \<and>
    (removals_answer m \<longrightarrow>
       returns (set_op sc m key v ctx) \<and> returns (remove_op sc m key ctx) \<and>
       returns (promote_op sc m key ctx) \<and> returns (demote_op sc m key ctx))"
  by (intro conjI impI returnsI stays_readers [OF assms] stays_writers [OF assms] completes_readers completes_set_op
      completes_writers) assumption+

theorem undropped_operations_return_witness:
  "returns (set_op quiet (manager_new default_select [ideal_ops]) [107] (5 :: nat) demo_context)"
proof -
  have "undropped (quiet :: (bytes \<rightharpoonup> nat) schedule)" by (simp add: undropped_def quiet_def)
  moreover have "removals_answer (manager_new default_select [ideal_ops] :: (bytes \<rightharpoonup> nat, nat) manager)"
    by (simp add: removals_answer_def manager_new_def manager_with_timeout_def ideal_ops_def)
  ultimately show ?thesis
    using undropped_operations_return [of quiet "manager_new default_select [ideal_ops]" "[107]" demo_context _ _ 5] by blast
qed

end
