(* ===== verification/Value_Provenance.thy ===== *)
theory Value_Provenance
  imports Manager_Visibility
begin

section \<open>Where a value may come from\<close>

text \<open>
  The manager frames a caller's key with the tenant, and the rungs find a value by the address of the
  framed key. This theory follows values through both: a value that an operation hands to its caller
  was stored under the caller's own framed key (or one with the same address), or fetched for it. The
  set of values that belong to a key is a parameter \<open>P\<close>; the lemmas hold for every choice of it, so
  no operation invents a value, and none carries one from a key to another.

  \<open>authentic_rung\<close> is the part a rung plays: its store answers a read of a key only with values that
  belong to it, and stays like that when it is given such values. The in-memory rungs interpret it.
\<close>

subsection \<open>Tasks whose result has a property\<close>

definition yields :: "('w \<Rightarrow> bool) \<Rightarrow> ('a \<Rightarrow> bool) \<Rightarrow> ('w, 'a) task \<Rightarrow> bool" where
  "yields I R m \<longleftrightarrow> (\<forall>w. I w \<longrightarrow> I (snd (m w)) \<and> (\<forall>x. fst (m w) = Done x \<longrightarrow> R x))"

lemma yieldsD:
  assumes "yields I R m" "I w"
  shows "I (snd (m w))" "fst (m w) = Done x \<Longrightarrow> R x"
  using assms by (simp_all add: yields_def)

lemma yields_upholds: "yields I R m \<Longrightarrow> upholds I m"
  by (simp add: yields_def upholds_def)

lemma upholds_yields: "upholds I m \<Longrightarrow> yields I (\<lambda>_. True) m"
  by (simp add: yields_def upholds_def)

lemma yields_weaken: "yields I Q m \<Longrightarrow> (\<And>x. Q x \<Longrightarrow> R x) \<Longrightarrow> yields I R m"
  by (auto simp: yields_def)

lemma yields_ret: "R x \<Longrightarrow> yields I R (ret x)"
  by (simp add: yields_def ret_def)

lemma yields_bind:
  assumes "yields I Q m" "\<And>x. Q x \<Longrightarrow> yields I R (f x)"
  shows "yields I R (bind_task m f)"
  unfolding yields_def
proof (intro allI impI)
  fix w assume w: "I w"
  obtain r w' where m: "m w = (r, w')" by (cases "m w")
  with yieldsD(1) [OF assms(1) w] have w': "I w'" by simp
  show "I (snd (bind_task m f w)) \<and> (\<forall>x. fst (bind_task m f w) = Done x \<longrightarrow> R x)"
  proof (cases r)
    case (Done y)
    with m yieldsD(2) [OF assms(1) w] have "Q y" by simp
    from yieldsD [OF assms(2) [OF this] w'] m Done show ?thesis by (simp add: bind_task_def)
  qed (use m w' in \<open>simp_all add: bind_task_def\<close>)
qed

lemma yields_after: "upholds I m \<Longrightarrow> (\<And>x. yields I R (f x)) \<Longrightarrow> yields I R (bind_task m f)"
  by (rule yields_bind [OF upholds_yields])

lemma yields_then: "upholds I m \<Longrightarrow> yields I R k \<Longrightarrow> yields I R (then_task m k)"
  unfolding then_task_def by (rule yields_after)

lemma yields_try:
  assumes "yields I Q m" "\<And>x. Q (Inr x) \<Longrightarrow> yields I R (f x)" "\<And>e. R (Inl e)"
  shows "yields I R (try_task m f)"
  unfolding try_task_def using assms by (intro yields_bind [OF assms(1)]) (auto intro: yields_ret split: sum.split)

lemma yields_try_after:
  "upholds I m \<Longrightarrow> (\<And>x. yields I R (f x)) \<Longrightarrow> (\<And>e. R (Inl e)) \<Longrightarrow> yields I R (try_task m f)"
  by (rule yields_try [OF upholds_yields])

lemma yields_try_pure:
  "(\<And>x. r = Inr x \<Longrightarrow> yields I R (f x)) \<Longrightarrow> (\<And>e. R (Inl e)) \<Longrightarrow> yields I R (try_pure r f)"
  by (cases r) (auto intro: yields_ret)

lemma yields_guarded:
  assumes "yields I (\<lambda>(armed, x). R x) body" "\<And>w. I w \<Longrightarrow> I (cleanup w)"
  shows "yields I R (guarded cleanup body)"
  unfolding yields_def
proof (intro allI impI)
  fix w assume w: "I w"
  obtain r w' where m: "body w = (r, w')" by (cases "body w")
  with yieldsD(1) [OF assms(1) w] have w': "I w'" by simp
  show "I (snd (guarded cleanup body w)) \<and> (\<forall>x. fst (guarded cleanup body w) = Done x \<longrightarrow> R x)"
  proof (cases r)
    case (Done y)
    with m yieldsD(2) [OF assms(1) w, of y] w' assms(2) show ?thesis
      by (cases y) (simp add: guarded_def)
  qed (use m w' assms(2) in \<open>simp_all add: guarded_def\<close>)
qed

subsection \<open>The interface of a rung\<close>

locale authentic_rung =
  fixes ops :: "('s, 'v) tier_ops"
    and P :: "bytes \<Rightarrow> 'v \<Rightarrow> bool"
    and holds :: "'s \<Rightarrow> bool"
  assumes get_authentic: "holds s \<Longrightarrow> fst (t_get ops now k s) = Returns (Ok (Some v)) \<Longrightarrow> P k v"
    and holds_get: "holds s \<Longrightarrow> holds (snd (t_get ops now k s))"
    and holds_set: "holds s \<Longrightarrow> P k v \<Longrightarrow> holds (snd (t_set ops now k v ttl s))"
    and holds_remove: "holds s \<Longrightarrow> holds (snd (t_remove ops now k s))"
    and holds_contains: "holds s \<Longrightarrow> holds (snd (t_contains ops now k s))"
    and holds_evict: "holds s \<Longrightarrow> holds (snd (snd (t_eviction_candidate ops now c s)))"
    and holds_remove_if: "holds s \<Longrightarrow> holds (snd (t_remove_if_address ops a s))"

locale authentic_ladder =
  fixes m :: "('s, 'v) manager"
    and P :: "bytes \<Rightarrow> 'v \<Rightarrow> bool"
    and holds :: "'s \<Rightarrow> bool"
  assumes rungs: "i < length (m_tiers m) \<Longrightarrow> authentic_rung (m_tiers m ! i) P holds"

definition keeps_stores :: "('s \<Rightarrow> bool) \<Rightarrow> ('s, 'v) manager \<Rightarrow> 's schedule \<Rightarrow> bool" where
  "keeps_stores holds m sc \<longleftrightarrow>
     (\<forall>n w. stores_sound holds m w \<longrightarrow> stores_sound holds m (sc_between sc n w))"

lemma steady_stores: "keeps_stores holds m sc \<Longrightarrow> steady sc (stores_sound holds m)"
  by (simp add: steady_def blind_def stores_sound_def keeps_stores_def)

lemma stores_plane_call: "keeps_stores holds m sc \<Longrightarrow> upholds (stores_sound holds m) (plane_call sc f)"
  by (rule upholds_plane_call) (simp_all add: steady_stores, simp add: stores_sound_def)

lemma stores_intent:
  assumes sc: "keeps_stores holds m sc"
  shows "upholds (stores_sound holds m) (intent_guard_abort sc token e)"
    "upholds (stores_sound holds m) (release_intent sc token e)"
    "stores_sound holds m w \<Longrightarrow> stores_sound holds m (intent_guard_drop sc token w)"
    "stores_sound holds m w \<Longrightarrow> stores_sound holds m (population_guard_drop sc key w)"
  unfolding intent_guard_abort_def release_intent_def intent_guard_abort_proven_clean_def
    intent_guard_drop_def population_guard_drop_def
  by (auto intro!: upholds_then stores_plane_call [OF sc] upholdsD [OF stores_plane_call [OF sc]])

lemma stores_update:
  assumes "stores_sound holds m w" "i < length (m_tiers m) \<Longrightarrow> holds (w_stores w ! i) \<Longrightarrow> holds s"
  shows "stores_sound holds m (w\<lparr>w_stores := (w_stores w)[i := s]\<rparr>)"
proof (cases "i < length (m_tiers m)")
  case True
  with assms show ?thesis by (auto simp: stores_sound_def dest!: set_update_subset_insert [THEN subsetD])
qed (use assms in \<open>auto simp: stores_sound_def list_update_beyond\<close>)

lemma yields_tier_call:
  assumes sc: "keeps_stores holds m sc"
    and f: "\<And>now s. i < length (m_tiers m) \<Longrightarrow> holds s \<Longrightarrow> holds (snd (f now s))"
    and R: "\<And>now s. i < length (m_tiers m) \<Longrightarrow> holds s \<Longrightarrow> R (fst (f now s))"
    and i: "i < length (m_tiers m)"
  shows "yields (stores_sound holds m) R (tier_call sc i f)"
proof -
  let ?call = "\<lambda>w. case f (w_now w) (w_stores w ! i) of (r, s) \<Rightarrow> (Done r, w\<lparr>w_stores := (w_stores w)[i := s]\<rparr>)"
  have call: "yields (stores_sound holds m) R ?call"
    unfolding yields_def
  proof (intro allI impI)
    fix w :: "'a world" assume w: "stores_sound holds m w"
    then have "holds (w_stores w ! i)" using i by (simp add: stores_sound_def)
    with R [OF i] stores_update [OF w, of i "snd (f (w_now w) (w_stores w ! i))"] f
    show "stores_sound holds m (snd (?call w)) \<and> (\<forall>x. fst (?call w) = Done x \<longrightarrow> R x)"
      by (simp add: case_prod_unfold)
  qed
  show ?thesis
    unfolding tier_call_def
    by (intro yields_then yields_bind [OF call] upholds_suspend [OF steady_stores [OF sc]] yields_ret)
qed

lemma stores_tier_call:
  assumes sc: "keeps_stores holds m sc" and f: "\<And>now s. i < length (m_tiers m) \<Longrightarrow> holds s \<Longrightarrow> holds (snd (f now s))"
  shows "upholds (stores_sound holds m) (tier_call sc i f)"
  by (rule upholds_tier_call [OF steady_stores [OF sc]]) (auto intro!: stores_update f)

lemma stores_tier_sync:
  assumes sc: "keeps_stores holds m sc"
    and f: "\<And>now c s. i < length (m_tiers m) \<Longrightarrow> holds s \<Longrightarrow> holds (snd (snd (f now c s)))"
  shows "upholds (stores_sound holds m) (tier_sync sc i f)"
  by (rule upholds_tier_sync [OF steady_stores [OF sc]]) (auto intro!: stores_update f)

subsection \<open>The manager over such rungs\<close>

context authentic_ladder
begin

lemma stores_rungs:
  assumes sc: "keeps_stores holds m sc"
  shows "upholds (stores_sound holds m) (rung_get sc m t key)"
    "P key v \<Longrightarrow> upholds (stores_sound holds m) (rung_set sc m t key v ttl)"
    "upholds (stores_sound holds m) (rung_remove sc m i key)"
    "upholds (stores_sound holds m) (rung_contains sc m t key)"
  unfolding rung_get_def rung_set_def rung_remove_def rung_contains_def
  by (auto intro!: stores_tier_call [OF sc] intro: authentic_rung.holds_get [OF rungs] authentic_rung.holds_set [OF rungs]
      authentic_rung.holds_remove [OF rungs] authentic_rung.holds_contains [OF rungs])

lemma yields_read:
  assumes sc: "keeps_stores holds m sc" and t: "has_tier m t"
  shows "yields (stores_sound holds m) (\<lambda>r. \<forall>v. r = Ok (Some v) \<longrightarrow> P key v) (bounded m (rung_get sc m t key))"
    "yields (stores_sound holds m) (\<lambda>r. \<forall>v. r = Ok (Some v) \<longrightarrow> P key v)
       (observed_read sc m op key t (rung_get sc m t key))"
proof -
  have i: "as_usize t < length (m_tiers m)" using t by (simp add: has_tier_def)
  have get: "yields (stores_sound holds m) (\<lambda>r. \<forall>v. r = Returns (Ok (Some v)) \<longrightarrow> P key v) (rung_get sc m t key)"
    unfolding rung_get_def
    by (rule yields_tier_call [OF sc])
       (use i in \<open>auto intro: authentic_rung.holds_get [OF rungs] authentic_rung.get_authentic [OF rungs]\<close>)
  show b: "yields (stores_sound holds m) (\<lambda>r. \<forall>v. r = Ok (Some v) \<longrightarrow> P key v) (bounded m (rung_get sc m t key))"
    unfolding bounded_def
    by (rule yields_bind [OF get])
       (auto intro!: yields_ret yields_then upholds_let_time_pass steady_blind [OF steady_stores [OF sc]] split: reply.split)
  show "yields (stores_sound holds m) (\<lambda>r. \<forall>v. r = Ok (Some v) \<longrightarrow> P key v)
       (observed_read sc m op key t (rung_get sc m t key))"
    unfolding observed_read_def Let_def
    by (rule yields_after [OF upholds_read_now], rule yields_bind [OF b])
       (auto intro!: yields_after yields_then yields_ret upholds_read_now upholds_read_backend upholds_emit
          steady_blind [OF steady_stores [OF sc]])
qed

lemma stores_set_walk:
  assumes "keeps_stores holds m sc" "P key v"
  shows "upholds (stores_sound holds m) (set_walk sc m key v ttl t e)"
proof -
  note sc = assms(1)
  note st = steady_stores [OF sc]
  have body: "upholds (stores_sound holds m) (set_attempt_body sc m key v ttl t b token)" for t b token
    unfolding set_attempt_body_def
    by (intro upheld stores_plane_call [OF sc] stores_rungs [OF sc] stores_intent [OF sc] st steady_blind [OF st] assms(2))
  have rung: "upholds (stores_sound holds m) (set_rung sc m key v ttl t n)" for t n
    by (induction n)
       (auto intro!: upholds_bind upholds_guarded stores_plane_call [OF sc] stores_intent [OF sc] body
          split: sum.split set_attempt.split)
  show ?thesis
  proof (induction t arbitrary: e rule: measure_induct_rule [of rungs_left])
    case (less t)
    then show ?case
      unfolding set_walk.simps [of sc m key v ttl t e]
      by (auto intro!: upholds_bind rung simp: previous_rung_decreases split: rung_step.split)
  qed
qed

lemma stores_evict:
  assumes sc: "keeps_stores holds m sc"
  shows "upholds (stores_sound holds m) (try_free_from sc m ts n)"
proof -
  have nominate: "upholds (stores_sound holds m) (tier_sync sc i (t_eviction_candidate (m_tiers m ! i)))" for i
    by (rule stores_tier_sync [OF sc]) (rule authentic_rung.holds_evict [OF rungs])
  have drop: "upholds (stores_sound holds m) (tier_sync sc i (\<lambda>now cursor s.
      case t_remove_if_address (m_tiers m ! i) a s of (x, s') \<Rightarrow> (x, cursor, s')))" for i a
    by (rule stores_tier_sync [OF sc]) (simp add: case_prod_unfold authentic_rung.holds_remove_if [OF rungs])
  have "upholds (stores_sound holds m) (try_evict_at_rung sc m t n)" for t n
    by (induction n)
       (auto intro!: upholds_bind stores_plane_call [OF sc] nominate drop split: option.split sum.split bool.split)
  then show ?thesis by (induction ts arbitrary: n) (auto intro!: upholds_bind split: prod.split)
qed

lemma stores_set_op:
  assumes sc: "keeps_stores holds m sc" and k: "encode_key key ctx = Ok k" and v: "P k v"
  shows "upholds (stores_sound holds m) (set_op sc m key v ctx)"
proof -
  have "upholds (stores_sound holds m) (set_passes sc m k v ttl t n e)" for ttl t n e
    by (induction n arbitrary: e)
       (auto intro!: upholds_bind stores_set_walk [OF sc v] stores_evict [OF sc]
          simp: try_free_somewhere_in_the_ladder_def split: prod.split option.split)
  with k show ?thesis
    unfolding set_op_def
    by (auto intro!: upholds_try upholds_try_pure upholds_bind upholds_peek upholds_resolve steady_stores [OF sc]
        simp del: set_passes.simps)
qed

lemma stores_simple_ops:
  assumes sc: "keeps_stores holds m sc"
  shows "upholds (stores_sound holds m) (exists_op sc m key ctx)"
    "upholds (stores_sound holds m) (invalidate_op sc m key ctx)"
    "upholds (stores_sound holds m) (remove_op sc m key ctx)"
    "upholds (stores_sound holds m) (recover_older_than sc age)"
proof -
  note st = steady_stores [OF sc]
  show "upholds (stores_sound holds m) (exists_op sc m key ctx)"
    unfolding exists_op_def
    by (auto intro!: upholds_try upholds_try_pure upholds_peek upholds_bounded stores_rungs [OF sc] st steady_blind [OF st])
  show "upholds (stores_sound holds m) (invalidate_op sc m key ctx)"
    unfolding invalidate_op_def by (auto intro!: upholds_try upholds_try_pure stores_plane_call [OF sc])
  have "upholds (stores_sound holds m) (remove_from_rungs sc m key_ref is)" for key_ref "is"
    by (induction "is") (auto intro!: upholds_then upholds_unbounded stores_rungs [OF sc])
  then show "upholds (stores_sound holds m) (remove_op sc m key ctx)"
    unfolding remove_op_def by (auto intro!: upholds_then upholds_try upholds_try_pure stores_plane_call [OF sc])
  have rec: "upholds (stores_sound holds m) (recover_all sc intents report)" for intents report
    by (induction intents arbitrary: report)
       (auto intro!: upholds_bind stores_plane_call [OF sc] simp: Let_def split: intent_kind.split)
  show "upholds (stores_sound holds m) (recover_older_than sc age)"
    unfolding recover_older_than_def by (intro upholds_bind stores_plane_call [OF sc] rec)
qed

lemma stores_move:
  assumes sc: "keeps_stores holds m sc" and k: "encode_key key ctx = Ok k"
  shows "upholds (stores_sound holds m) (move_entry sc m key k snapshot t ctx)"
proof -
  note st = steady_stores [OF sc]
  note bl = steady_blind [OF st]
  let ?I = "stores_sound holds m"
  have stored: "upholds ?I (observed_write sc m op k to_id (rung_set sc m to_id k x ttl))" if "P k x"
    for op to_id x ttl
    by (intro upholds_observed bl stores_rungs [OF sc] that)
  have body: "upholds ?I (move_body sc m key k from_id to_id ctx token)" for from_id to_id token
  proof (cases "has_tier m from_id \<and> has_tier m to_id")
    case True
    have "yields ?I (\<lambda>_. True) (move_body sc m key k from_id to_id ctx token)"
      unfolding move_body_def k sum.case
      using True
      by (simp, intro yields_bind [OF yields_read(1) [OF sc]])
         (auto intro!: upholds_yields upholds_bind upholds_then upholds_unbounded stored stores_rungs [OF sc]
            stores_intent [OF sc] upholds_record_outcome stores_plane_call [OF sc] st split: sum.split option.split)
    then show ?thesis by (rule yields_upholds)
  qed (auto simp: move_body_def)
  show ?thesis
    unfolding move_entry_def
    by (intro upholds_try upholds_guarded stores_plane_call [OF sc] body stores_intent [OF sc])
qed

lemma stores_promote_demote:
  assumes sc: "keeps_stores holds m sc"
  shows "upholds (stores_sound holds m) (promote_op sc m key ctx)"
    "upholds (stores_sound holds m) (demote_op sc m key ctx)"
  unfolding promote_op_def demote_op_def
  by (cases "encode_key key ctx";
      auto intro!: upholds_try upholds_try_pure upholds_peek steady_stores [OF sc] stores_move [OF sc] split: option.split)+

text \<open>A read answers with a value of its key.\<close>

lemma yields_get:
  assumes sc: "keeps_stores holds m sc" and k: "encode_key key ctx = Ok k"
  shows "yields (stores_sound holds m) (\<lambda>r. \<forall>v. r = Ok (Some v) \<longrightarrow> P k v) (get_op sc m key ctx)"
proof -
  let ?I = "stores_sound holds m" and ?R = "\<lambda>r. \<forall>v. r = Ok (Some v) \<longrightarrow> P k v"
  note st = steady_stores [OF sc]
  note bl = steady_blind [OF st]
  have ready: "yields ?I ?R (get_ready sc m k snapshot started)" for snapshot started
  proof (cases "has_tier m (cs_tier snapshot)")
    case True
    then show ?thesis
      unfolding get_ready_def
      by (simp, intro yields_bind [OF yields_read(2) [OF sc]])
         (auto intro!: yields_then yields_after yields_ret upholds_record_outcome upholds_peek st split: sum.split)
  qed (auto simp: get_ready_def intro!: yields_then yields_ret upholds_observed bl)
  have waiting: "yields ?I ?R (get_waiting sc m k)"
    unfolding get_waiting_def
    by (intro yields_try_after upholds_wait upholds_peek st)
       (auto intro!: yields_ret yields_bind [OF yields_read(2) [OF sc]] yields_then upholds_record_outcome st split: option.split)
  show ?thesis
    unfolding get_op_def k Let_def
    by (auto intro!: yields_after yields_then yields_ret yields_try_after upholds_read_now upholds_observed upholds_peek
        stores_plane_call [OF sc] ready waiting st bl split: sum.split)
qed

lemma yields_populate:
  assumes sc: "keeps_stores holds m sc" and k: "encode_key key ctx = Ok k"
    and fetch: "\<And>n v. fetch n = Returns (Ok v) \<Longrightarrow> P k v"
  shows "yields (stores_sound holds m) (\<lambda>r. \<forall>v. r = Ok v \<longrightarrow> P k v)
    (become_population_owner sc m key k g ctx decision fetch)"
proof -
  let ?I = "stores_sound holds m" and ?R = "\<lambda>r. \<forall>v. r = Ok v \<longrightarrow> P k v"
  note st = steady_stores [OF sc]
  note bl = steady_blind [OF st]
  have "yields ?I (\<lambda>r. \<forall>v. r = Returns (Ok v) \<longrightarrow> P k v) (\<lambda>w. (Done (fetch (w_step w)), w))"
    using fetch by (simp add: yields_def)
  note asked = this
  have call: "yields ?I (\<lambda>r. \<forall>v. r = Returns (Ok v) \<longrightarrow> P k v) (fetch_call sc fetch)"
    unfolding fetch_call_def by (intro yields_then upholds_suspend st yields_bind [OF asked] yields_ret)
  have bound: "yields ?I ?R (bounded m (fetch_call sc fetch))"
    unfolding bounded_def
    by (rule yields_bind [OF call]) (auto intro!: yields_ret yields_then upholds_let_time_pass bl split: reply.split)
  have once: "yields ?I ?R (populate_once sc m key k g ctx fetch decision)"
    unfolding populate_once_def k
    by (rule yields_try [OF bound])
       (auto intro!: yields_ret yields_after yields_then yields_try_after yields_try_pure upholds_observed
          stores_rungs [OF sc] upholds_record_outcome stores_plane_call [OF sc] st bl split: option.split)
  have failed: "yields ?I (\<lambda>(a, r). ?R r) (population_failed sc m k decision e)" for e
    unfolding population_failed_def
    by (auto intro!: yields_after yields_then yields_ret upholds_read_now upholds_read_backend upholds_emit
        stores_plane_call [OF sc] bl)
  have loop: "yields ?I (\<lambda>(a, r). ?R r) (populate_loop sc m key k g ctx decision fetch n backoff)" for n backoff
    by (induction n arbitrary: backoff)
       (auto intro!: yields_bind [OF once] yields_ret yields_then failed upholds_sleep st split: sum.split)
  have fallback: "yields ?I ?R (try_fallback_from sc m k cause ts)" for cause ts
  proof (induction ts)
    case (Cons t ts)
    then show ?case
      by (auto intro!: yields_after yields_bind [OF yields_read(1) [OF sc]] yields_then yields_ret upholds_circuit_read
          upholds_observed st bl split: sum.split option.split)
  qed (auto intro: yields_ret)
  show ?thesis
    unfolding become_population_owner_def try_fallback_tier_def k
    by (rule yields_bind [OF yields_guarded [OF loop]])
       (auto intro!: yields_ret fallback stores_intent [OF sc] split: sum.split)
qed

lemma yields_get_or_fetch:
  assumes sc: "keeps_stores holds m sc" and k: "encode_key key ctx = Ok k"
    and fetch: "\<And>n v. fetch n = Returns (Ok v) \<Longrightarrow> P k v"
  shows "yields (stores_sound holds m) (\<lambda>r. \<forall>v. r = Ok v \<longrightarrow> P k v) (get_or_fetch_op sc m key ctx fetch)"
proof -
  let ?I = "stores_sound holds m" and ?R = "\<lambda>r. \<forall>v. r = Ok v \<longrightarrow> P k v"
  note st = steady_stores [OF sc]
  have wait: "yields ?I ?R (wait_and_get sc m key ctx)"
    unfolding wait_and_get_def k
    by (simp, intro yields_try_after upholds_wait upholds_peek st)
       (auto intro!: yields_ret yields_try [OF yields_read(2) [OF sc]] split: option.split)
  have fast: "yields ?I (\<lambda>r. \<forall>v. r = Some (Ok v) \<longrightarrow> P k v) (fetch_fast_path sc m k snapshot)" for snapshot
    unfolding fetch_fast_path_def
    by (auto intro!: yields_ret yields_bind [OF yields_read(2) [OF sc]] split: sum.split option.split)
  have dispatch: "yields ?I ?R (dispatch_claim sc m key k ctx decision fetch again snapshot)"
    if "yields ?I ?R again" for decision again snapshot
    unfolding dispatch_claim_def
    by (rule yields_bind [OF fast])
       (auto intro!: yields_ret wait that yields_try_after upholds_wait st yields_populate [OF sc k fetch] split: option.split)
  have "yields ?I ?R (get_or_fetch_loop sc m key k ctx decision fetch n)" for decision n
    by (induction n)
       (auto intro!: yields_ret yields_try_after dispatch upholds_then stores_plane_call [OF sc] simp: reclaim_expired_def)
  then show ?thesis
    unfolding get_or_fetch_op_def k Let_def
    by (auto intro!: yields_try_pure simp del: get_or_fetch_loop.simps)
qed

lemma yields_refresh:
  assumes sc: "keeps_stores holds m sc" and k: "encode_key key ctx = Ok k"
    and fetch: "\<And>n v. fetch n = Returns (Ok v) \<Longrightarrow> P k v"
  shows "yields (stores_sound holds m) (\<lambda>r. \<forall>l v. r = Ok l \<longrightarrow> lu_value l = Some v \<longrightarrow> P k v)
    (refresh_detailed sc m key ctx fetch)"
proof -
  let ?I = "stores_sound holds m"
  note st = steady_stores [OF sc]
  note bl = steady_blind [OF st]
  have current: "yields ?I (\<lambda>x. \<forall>v. x = Some v \<longrightarrow> P k v) (refresh_current sc m k before)" for before
    unfolding refresh_current_def
    by (auto intro!: yields_ret yields_bind [OF yields_read(1) [OF sc]] split: sum.splits)
  show ?thesis
    unfolding refresh_detailed_def k Let_def
    by (auto intro!: yields_try_pure yields_try_after upholds_peek st yields_bind [OF current] yields_then upholds_then
        stores_plane_call [OF sc] yields_ret yields_bind [OF yields_populate [OF sc k fetch]] upholds_observed bl
        split: sum.split)
qed

end

subsection \<open>The in-memory rungs\<close>

text \<open>Every stored value belongs to the address of the slot that names it.\<close>

definition fixed_holds :: "(key_address \<Rightarrow> 'v \<Rightarrow> bool) \<Rightarrow> 'v fixed_tier \<Rightarrow> bool" where
  "fixed_holds V t \<longleftrightarrow> fixed_wf t \<and>
     (\<forall>i s v. slot_at t i s \<and> pool_slots (ft_pool t) ! sl_pool_idx s = Some v \<longrightarrow> V (sl_address s) v)"

lemma fixed_holdsD:
  "fixed_holds V t \<Longrightarrow> slot_at t i s \<Longrightarrow> pool_slots (ft_pool t) ! sl_pool_idx s = Some v \<Longrightarrow> V (sl_address s) v"
  unfolding fixed_holds_def by blast

lemma fixed_holds_get:
  assumes "fixed_holds V t"
  shows "fst (fixed_get dg now key t) = Ok (Some v) \<Longrightarrow> V (address_of (ft_placement t) key) v"
    "fixed_holds V (snd (fixed_get dg now key t))"
proof -
  have wf: "fixed_wf t" using assms by (simp add: fixed_holds_def)
  show "V (address_of (ft_placement t) key) v" if get: "fst (fixed_get dg now key t) = Ok (Some v)"
  proof (cases "key_slot now t key")
    case None
    with get show ?thesis by (simp add: fixed_get_absent)
  next
    case (Some idx)
    then obtain s where at: "slot_at t idx s" "slot_matches (placement_hash (ft_placement t) key) (fingerprint_of key) s"
      by (rule key_slot_at)
    obtain u where u: "pool_slots (ft_pool t) ! sl_pool_idx s = Some u" "fixed_get dg now key t =
       (if dg u = sl_digest s then (Ok (Some u), t) else (Err Corrupted, t\<lparr>ft_corruptions := ft_corruptions t + 1\<rparr>))"
      by (rule fixed_get_found [OF wf Some at(1)])
    have "sl_address s = address_of (ft_placement t) key" using slot_matches_iff_address [OF wf at(1)] at(2) by blast
    moreover have "u = v" using u(2) get by (auto split: if_splits)
    ultimately show ?thesis using fixed_holdsD [OF assms at(1) u(1)] by simp
  qed
  show "fixed_holds V (snd (fixed_get dg now key t))"
    using assms by (auto simp: fixed_holds_def fixed_get_def fixed_wf_frame split: option.split)
qed

lemma fixed_holds_set:
  assumes "fixed_holds V t" "V (address_of (ft_placement t) key) v"
  shows "fixed_holds V (snd (fixed_set dg now key v ttl t))"
proof -
  have wf: "fixed_wf t" using assms(1) by (simp add: fixed_holds_def)
  note wf' = fixed_wf_set [OF wf, of dg now key v ttl]
  from wf show ?thesis
  proof (cases rule: fixed_set_cases [of _ now key dg v ttl])
    case (stored idx k q)
    have other: "sl_pool_idx s \<noteq> k" if "slot_at t j s" "j \<noteq> idx" for j s
      using stored(9) fixed_wfD(4,6) [OF wf] that by metis
    have len: "k < length (pool_slots (ft_pool t))" using stored(6) fixed_wfD(1) [OF wf] by (simp add: pool_wf_def)
    let ?t = "snd (fixed_set dg now key v ttl t)"
    have "V (sl_address s) u" if at: "slot_at ?t j s" and u: "pool_slots (ft_pool ?t) ! sl_pool_idx s = Some u" for j s u
    proof (cases "j = idx")
      case True
      with at u len assms(2) show ?thesis by (auto simp: stored(3,7))
    next
      case False
      with at have old: "slot_at t j s" by (simp add: stored(3))
      with u other [OF old False] have "pool_slots (ft_pool t) ! sl_pool_idx s = Some u" by (simp add: stored(3,7))
      then show ?thesis by (rule fixed_holdsD [OF assms(1) old])
    qed
    with wf' show ?thesis unfolding fixed_holds_def by blast
  qed (use assms in simp)
qed

lemma fixed_holds_take_slot:
  assumes "fixed_holds V t" "slot_at t idx s"
  shows "fixed_holds V (take_slot idx t)"
proof -
  have wf: "fixed_wf t" using assms(1) by (simp add: fixed_holds_def)
  have "pool_slots (ft_pool (take_slot idx t)) ! sl_pool_idx s' = pool_slots (ft_pool t) ! sl_pool_idx s'"
    if "slot_at t j s'" "j \<noteq> idx" for j s'
  proof -
    have "sl_pool_idx s \<noteq> sl_pool_idx s'" using that fixed_wfD(6) [OF wf assms(2) that(1)] by blast
    then show ?thesis
      using pool_deallocate_used(2) [OF fixed_wfD(1) [OF wf] fixed_wfD(4) [OF wf assms(2)]]
      by (simp add: take_slot_simps [OF assms(2)])
  qed
  then show ?thesis
    using assms(1) fixed_wf_take_slot [OF wf assms(2)]
    by (auto simp: fixed_holds_def take_slot_simps [OF assms(2)] split: if_splits)
qed

lemma fixed_holds_removals:
  assumes "fixed_holds V t"
  shows "fixed_holds V (snd (fixed_remove now key t))" "fixed_holds V (snd (fixed_remove_if_address a t))"
    "fixed_holds V (snd (fixed_eviction_candidate now t))"
proof -
  show "fixed_holds V (snd (fixed_remove now key t))"
    using assms fixed_holds_take_slot [OF assms]
    by (auto simp: fixed_remove_def split: option.split elim!: key_slot_at)
  show "fixed_holds V (snd (fixed_remove_if_address a t))"
    by (cases rule: remove_if_address_cases [of t a]) (auto simp: assms intro: fixed_holds_take_slot [OF assms])
  show "fixed_holds V (snd (fixed_eviction_candidate now t))"
    using assms by (auto simp: fixed_holds_def fixed_eviction_candidate_def Let_def fixed_wf_frame split: option.split)
qed

definition shard_holds :: "(key_address \<Rightarrow> 'v \<Rightarrow> bool) \<Rightarrow> 'v fixed_tier lock \<Rightarrow> bool" where
  "shard_holds V l \<longleftrightarrow> lk_poisoned l \<or> fixed_holds V (lk_value l) \<and> ft_placement (lk_value l) = PlaceDefault"

definition sharded_holds :: "(key_address \<Rightarrow> 'v \<Rightarrow> bool) \<Rightarrow> 'v sharded_tier \<Rightarrow> bool" where
  "sharded_holds V t \<longleftrightarrow> sharded_wf t \<and> list_all (shard_holds V) (st_shards t)"

lemma sharded_holds_on_shard:
  assumes "sharded_holds V t" "sharded_wf (snd (on_shard i call t))"
    and "\<And>s. fixed_holds V s \<Longrightarrow> ft_placement s = PlaceDefault \<Longrightarrow>
      fixed_holds V (snd (call s)) \<and> ft_placement (snd (call s)) = ft_placement s"
  shows "sharded_holds V (snd (on_shard i call t))"
proof (cases "i < length (st_shards t) \<and> \<not> lk_poisoned (st_shards t ! i)")
  case True
  then have "shard_holds V (st_shards t ! i)" using assms(1) by (auto simp: sharded_holds_def list_all_length)
  with assms True show ?thesis
    by (auto simp: sharded_holds_def on_shard_def Let_def case_prod_unfold list_all_length nth_list_update shard_holds_def)
next
  case False
  with assms show ?thesis
    by (auto simp: sharded_holds_def on_shard_def Let_def case_prod_unfold list_update_beyond not_less)
qed

lemma nominate_from_holds:
  assumes "list_all (shard_holds V) ls" "\<forall>i\<in>set ks. i < length ls"
  shows "list_all (shard_holds V) (snd (nominate_from now ks ls))"
  using assms
proof (induction now ks ls rule: nominate_from.induct)
  case (2 now i ks ls)
  obtain c s where c: "fixed_eviction_candidate now (lk_value (ls ! i)) = (c, s)" by force
  have "shard_holds V (ls ! i)" using 2(3,4) by (simp add: list_all_length)
  then have "shard_holds V ((ls ! i)\<lparr>lk_value := s\<rparr>)" if "\<not> lk_poisoned (ls ! i)"
    using that c fixed_holds_removals(3) [of V "lk_value (ls ! i)" now] fixed_placement_eviction(1) [of now "lk_value (ls ! i)"]
    by (simp add: shard_holds_def)
  then have u: "list_all (shard_holds V) (ls[i := (ls ! i)\<lparr>lk_value := s\<rparr>])" if "\<not> lk_poisoned (ls ! i)"
    using that 2(3,4) by (auto simp: list_all_length nth_list_update)
  show ?case using 2 c u by (cases c) (auto simp: Let_def)
qed simp

lemma remove_address_from_holds:
  "list_all (shard_holds V) ls \<Longrightarrow> list_all (shard_holds V) (snd (remove_address_from a ls))"
proof (induction ls)
  case (Cons l ls)
  obtain c s where c: "fixed_remove_if_address a (lk_value l) = (c, s)" by force
  have l: "shard_holds V (l\<lparr>lk_value := s\<rparr>)" if "\<not> lk_poisoned l"
    using that c Cons(2) fixed_holds_removals(2) [of V "lk_value l" a] fixed_placement_eviction(2) [of a "lk_value l"]
    by (simp add: shard_holds_def)
  show ?case using Cons c l by (auto split: sum.split bool.split prod.split)
qed simp

text \<open>The shipped in-memory rungs keep the contract, for values that belong to addresses.\<close>

interpretation stub_authentic: authentic_rung "stub_ops hasher dg name b f t"
  "\<lambda>k. V (address_of PlaceDefault k)" "sharded_holds V"
  for hasher :: "bytes \<Rightarrow> u64" and dg :: "'v \<Rightarrow> content_digest" and name b f t V
proof
  fix s :: "'v sharded_tier" and now k v ttl c a
  assume h: "sharded_holds V s"
  then have wf: "sharded_wf s" by (simp add: sharded_holds_def)
  note inv = sharded_store.inv_get [OF wf] sharded_store.inv_set [OF wf] sharded_store.inv_remove [OF wf]
  show "V (address_of PlaceDefault k) v" if "fst (t_get (stub_ops hasher dg name b f t) now k s) = Returns (Ok (Some v))"
  proof -
    let ?l = "st_shards s ! shard_for hasher s k"
    have g: "fst (sharded_get hasher dg now k s) = Ok (Some v)" using that by simp
    then have un: "\<not> lk_poisoned ?l" by (auto simp: sharded_get_def on_shard_def Let_def)
    then have "fst (fixed_get dg now k (lk_value ?l)) = Ok (Some v)"
      using g by (simp add: sharded_get_def on_shard_def Let_def case_prod_unfold)
    moreover have "shard_holds V ?l" using h shard_for_less [OF wf] by (simp add: sharded_holds_def list_all_length)
    ultimately show ?thesis using un fixed_holds_get(1) by (fastforce simp: shard_holds_def)
  qed
  show "sharded_holds V (snd (t_get (stub_ops hasher dg name b f t) now k s))"
    unfolding stub_ops_simps answer_simps sharded_get_def
    by (rule sharded_holds_on_shard [OF h inv(1) [unfolded sharded_get_def]]) (simp add: fixed_holds_get(2))
  show "sharded_holds V (snd (t_set (stub_ops hasher dg name b f t) now k v ttl s))" if "V (address_of PlaceDefault k) v"
    unfolding stub_ops_simps answer_simps sharded_set_def
    by (rule sharded_holds_on_shard [OF h inv(2) [unfolded sharded_set_def]]) (simp add: fixed_holds_set that)
  show "sharded_holds V (snd (t_remove (stub_ops hasher dg name b f t) now k s))"
    unfolding stub_ops_simps answer_simps sharded_remove_def
    by (rule sharded_holds_on_shard [OF h inv(3) [unfolded sharded_remove_def]]) (simp add: fixed_holds_removals(1))
  show "sharded_holds V (snd (t_contains (stub_ops hasher dg name b f t) now k s))"
    using h by (simp add: stub_ops_def)
  show "sharded_holds V (snd (snd (t_eviction_candidate (stub_ops hasher dg name b f t) now c s)))"
    using h sharded_wf_eviction(1) [OF wf, of now c] nominate_from_holds [of V "st_shards s"]
    by (auto simp: sharded_holds_def sharded_eviction_candidate_def Let_def case_prod_unfold probe_order_def)
  show "sharded_holds V (snd (t_remove_if_address (stub_ops hasher dg name b f t) a s))"
    using h sharded_wf_eviction(2) [OF wf, of a] remove_address_from_holds [of V "st_shards s" a]
    by (auto simp: sharded_holds_def sharded_remove_if_address_def case_prod_unfold)
qed

interpretation stub_provenance: authentic_ladder "manager_with_timeout policy (stub_tiers hasher dg) timeout"
  "\<lambda>k. V (address_of PlaceDefault k)" "sharded_holds V"
  for policy :: "(bytes, 'v) cache_policy" and hasher dg timeout V
proof (rule authentic_ladder.intro)
  fix i assume "i < length (m_tiers (manager_with_timeout policy (stub_tiers hasher dg) timeout))"
  then show "authentic_rung (m_tiers (manager_with_timeout policy (stub_tiers hasher dg) timeout) ! i)
      (\<lambda>k. V (address_of PlaceDefault k)) (sharded_holds V)"
    using stub_authentic.authentic_rung_axioms
    by (auto simp: manager_with_timeout_def stub_tiers_def l0_ops_def l1_ops_def l2_ops_def l3_ops_def l4_ops_def
        l5_ops_def less_Suc_eq)
qed

subsection \<open>The property\<close>

lemma demo_sharded_holds: "sharded_holds V demo_sharded"
proof -
  have "fixed_holds V t" if "fixed_with_capacity n = Ok t" for n t
    using that fixed_wf_with_capacity [OF that]
    by (auto simp: fixed_holds_def fixed_with_capacity_def slot_at_def try_then_def split: if_splits sum.splits)
  then have "list_all (\<lambda>l. fixed_holds V (lk_value l)) ls" if "build_shards n c = Ok ls" for n c ls
    using that by (induction n arbitrary: ls) (auto simp: try_then_def new_lock_def split: sum.splits)
  then have shards: "list_all (\<lambda>l. fixed_holds V (lk_value l)) (st_shards t)"
    if "sharded_with_shards n c = Ok t" for n c t
    using that by (auto simp: sharded_with_shards_def Let_def try_then_def split: sum.splits)
  have "list_all (\<lambda>l. fixed_holds V (lk_value l)) (st_shards demo_sharded)"
    by (rule shards [OF demo_sharded_built])
  with demo_sharded_wf show ?thesis
    by (auto simp: sharded_holds_def shard_holds_def sharded_wf_def list_all_iff)
qed

text \<open>
  C7: A caller is given only values that belong to its own key. Fix which values belong to which
  framed key (tenant, separator, key), and let every rung's store hold only such values. Then they
  still do after any operation of any caller, provided that what the caller writes or its fetch
  answers belongs to the key it named; and the value that a read, a population or a refresh hands out
  belongs to the key framed from the caller's own tenant and key. This holds for every policy, for
  every interleaving with operations that keep the stores so, for dropped futures, evictions, moves
  between rungs, fallbacks and rungs that fail: no operation invents a value or carries one from a
  tenant or a key to another.
\<close>

theorem values_stay_with_their_key:
  assumes "authentic_ladder m P holds" "keeps_stores holds m sc" "stores_sound holds m w"
    and "encode_key key ctx = Ok k"
  shows "(P k v \<longrightarrow> stores_sound holds m (snd (set_op sc m key v ctx w))) \<and>
    stores_sound holds m (snd (get_op sc m key ctx w)) \<and>
    (\<forall>x. fst (get_op sc m key ctx w) = Done (Ok (Some x)) \<longrightarrow> P k x) \<and>
    ((\<forall>n x. fetch n = Returns (Ok x) \<longrightarrow> P k x) \<longrightarrow>
       stores_sound holds m (snd (get_or_fetch_op sc m key ctx fetch w)) \<and>
       (\<forall>x. fst (get_or_fetch_op sc m key ctx fetch w) = Done (Ok x) \<longrightarrow> P k x) \<and>
       stores_sound holds m (snd (refresh_detailed sc m key ctx fetch w)) \<and>
       (\<forall>l x. fst (refresh_detailed sc m key ctx fetch w) = Done (Ok l) \<and> lu_value l = Some x \<longrightarrow> P k x)) \<and>
    stores_sound holds m (snd (promote_op sc m key ctx w)) \<and>
    stores_sound holds m (snd (demote_op sc m key ctx w)) \<and>
    stores_sound holds m (snd (remove_op sc m key ctx w)) \<and>
    stores_sound holds m (snd (invalidate_op sc m key ctx w)) \<and>
    stores_sound holds m (snd (exists_op sc m key ctx w)) \<and>
    stores_sound holds m (snd (recover_older_than sc age w))"
proof -
  note l = assms(1) and sc = assms(2) and w = assms(3) and k = assms(4)
  note keep = upholdsD [where I = "stores_sound holds m" and w = w, OF _ w]
  note get = yieldsD [OF authentic_ladder.yields_get [OF l sc k] w]
  have fetching: "stores_sound holds m (snd (get_or_fetch_op sc m key ctx fetch w)) \<and>
       (\<forall>x. fst (get_or_fetch_op sc m key ctx fetch w) = Done (Ok x) \<longrightarrow> P k x) \<and>
       stores_sound holds m (snd (refresh_detailed sc m key ctx fetch w)) \<and>
       (\<forall>l x. fst (refresh_detailed sc m key ctx fetch w) = Done (Ok l) \<and> lu_value l = Some x \<longrightarrow> P k x)"
    if f: "\<forall>n x. fetch n = Returns (Ok x) \<longrightarrow> P k x"
  proof -
    have "yields (stores_sound holds m) (\<lambda>r. \<forall>x. r = Ok x \<longrightarrow> P k x) (get_or_fetch_op sc m key ctx fetch)"
      by (rule authentic_ladder.yields_get_or_fetch [OF l sc k]) (use f in blast)
    moreover have "yields (stores_sound holds m) (\<lambda>r. \<forall>l x. r = Ok l \<longrightarrow> lu_value l = Some x \<longrightarrow> P k x)
        (refresh_detailed sc m key ctx fetch)"
      by (rule authentic_ladder.yields_refresh [OF l sc k]) (use f in blast)
    ultimately show ?thesis using w by (auto simp: yields_def)
  qed
  have reading: "stores_sound holds m (snd (get_op sc m key ctx w)) \<and>
      (\<forall>x. fst (get_op sc m key ctx w) = Done (Ok (Some x)) \<longrightarrow> P k x)"
    using get by blast
  have writing: "P k v \<longrightarrow> stores_sound holds m (snd (set_op sc m key v ctx w))"
    by (intro impI keep authentic_ladder.stores_set_op [OF l sc k])
  have moving: "stores_sound holds m (snd (promote_op sc m key ctx w)) \<and>
      stores_sound holds m (snd (demote_op sc m key ctx w)) \<and>
      stores_sound holds m (snd (remove_op sc m key ctx w)) \<and>
      stores_sound holds m (snd (invalidate_op sc m key ctx w)) \<and>
      stores_sound holds m (snd (exists_op sc m key ctx w)) \<and>
      stores_sound holds m (snd (recover_older_than sc age w))"
    by (intro conjI keep authentic_ladder.stores_promote_demote [OF l sc] authentic_ladder.stores_simple_ops [OF l sc])
  show ?thesis using reading writing moving fetching by blast
qed

text \<open>The shipped ladder, empty, with the values written under the demonstration key as the only ones that belong anywhere.\<close>

theorem values_stay_with_their_key_witness:
  "stores_sound (sharded_holds (\<lambda>_ v. v = [7, 8])) demo_manager
     (snd (set_op quiet demo_manager [107] [7, 8] demo_context demo_world)) \<and>
   fst (get_op quiet demo_manager [107] demo_context
     (snd (set_op quiet demo_manager [107] [7, 8] demo_context demo_world))) \<noteq> Done (Ok (Some [9]))"
proof -
  let ?V = "\<lambda>(a :: key_address) v. v = ([7, 8] :: bytes)"
  have l: "authentic_ladder demo_manager (\<lambda>k. ?V (address_of PlaceDefault k)) (sharded_holds ?V)"
    unfolding demo_manager_def by (rule stub_provenance.authentic_ladder_axioms)
  have sc: "keeps_stores (sharded_holds ?V) demo_manager quiet" by (simp add: keeps_stores_def quiet_def)
  have w: "stores_sound (sharded_holds ?V) demo_manager demo_world"
    by (simp add: stores_sound_def demo_world_def idle_world_def demo_sharded_holds demo_manager_def
        manager_with_timeout_def stub_tiers_def)
  have s: "stores_sound (sharded_holds ?V) demo_manager (snd (set_op quiet demo_manager [107] [7, 8] demo_context demo_world))"
    using values_stay_with_their_key [OF l sc w demo_key, where v = "[7, 8]"] by blast
  let ?got = "fst (get_op quiet demo_manager [107] demo_context
      (snd (set_op quiet demo_manager [107] [7, 8] demo_context demo_world)))"
  have g: "\<forall>x. ?got = Done (Ok (Some x)) \<longrightarrow> x = [7, 8]"
    using values_stay_with_their_key [OF l sc s demo_key] by blast
  show ?thesis
  proof (intro conjI s notI)
    assume "?got = Done (Ok (Some [9]))"
    then have "[9] = ([7, 8] :: bytes)" by (rule g [rule_format])
    then show False by simp
  qed
qed

end
