(* ===== verification/Fuzz_Targets.thy ===== *)
theory Fuzz_Targets
  imports Ladder_Placement Manager_Returns Test_Kit Telemetry_Display "HOL-Library.Sublist"
begin

section \<open>The fuzz targets (\<open>fuzz/fuzz_targets\<close>)\<close>

text \<open>
  Each fuzz target is a program over arbitrary bytes that must not panic. A target is modelled as
  the truth value of "it returns": a failed assertion, a failed \<open>expect\<close> and a failed \<open>unwrap\<close>
  are false. What a target reads from outside its input is a parameter: the clock (any instants),
  the hash of the sharding layer, the digest of the value type where the target's result cannot
  depend on it. The tokio runtime of a target runs one task and nothing beside it, so only time
  passes between the steps of an operation.

  The theorems say that every target returns on every input: what the fuzzer samples holds without
  exception. They also say which assertions cannot fail whatever the crate does, because the state
  the target builds never reaches them.
\<close>

text \<open>\<open>format!("k{n}")\<close>, as bytes.\<close>

definition numbered_key :: "nat \<Rightarrow> bytes" where
  "numbered_key n = ascii_bytes (''k'' @ decimal n)"

text \<open>The first byte of the input, or zero.\<close>

definition first_byte :: "bytes \<Rightarrow> nat" where
  "first_byte data = (case data of [] \<Rightarrow> 0 | b # _ \<Rightarrow> unat b)"

text \<open>\<open>iter().position(p)\<close>.\<close>

definition position_of :: "('a \<Rightarrow> bool) \<Rightarrow> 'a list \<Rightarrow> nat option" where
  "position_of P xs =
     (let n = length (takeWhile (\<lambda>x. \<not> P x) xs) in if n < length xs then Some n else None)"

subsection \<open>Keys\<close>

definition fuzz_keys :: "bytes \<Rightarrow> bool" where
  "fuzz_keys data =
     (let split = (case data of [] \<Rightarrow> 0 | b # _ \<Rightarrow> unat b mod max (length data) 1);
          tenant_bytes = take (min split (length data)) data;
          key_bytes = drop (min split (length data)) data;
          tenant = from_utf8_lossy tenant_bytes
      in case frame_tenant_key (as_bytes tenant) key_bytes (replicate 512 0) of
           Inr (n, buf) \<Rightarrow>
             (let framed = take n buf in
              case position_of (\<lambda>b. b = TENANT_SEPARATOR) framed of
                Some i \<Rightarrow> from_utf8_lossy (take i framed) = tenant \<and> drop (i + 1) framed = key_bytes
              | None \<Rightarrow> True)
         | Inl _ \<Rightarrow> True)"

subsection \<open>Serialized payloads\<close>

definition fuzz_serialized_payloads :: "bytes \<Rightarrow> bool" where
  "fuzz_serialized_payloads data =
     (let a = digest_of_bytes data; b = digest_of_bytes data; f = fingerprint_of data in
      a = b \<and> f = fingerprint_of data \<and>
      (length data \<ge> 4 \<longrightarrow>
        (let split = length data div 2;
             t1 = take split data; k1 = drop split data;
             t2 = take (length data - split) data; k2 = drop (length data - split) data
         in t1 \<noteq> t2 \<or> k1 \<noteq> k2 \<longrightarrow>
           (case (frame_tenant_key (as_bytes (from_utf8_lossy t1)) k1 (replicate 1024 0),
                  frame_tenant_key (as_bytes (from_utf8_lossy t2)) k2 (replicate 1024 0)) of
              (Inr (a, buf1), Inr (b, buf2)) \<Rightarrow> take a buf1 \<noteq> take b buf2
            | _ \<Rightarrow> True))) \<and>
      (case frame_tenant_key (ascii_bytes ''t'') data (replicate 2048 0) of
         Inr (n, _) \<Rightarrow> n = length data + 2
       | Inl _ \<Rightarrow> True))"

subsection \<open>Payloads\<close>

text \<open>
  What the standard library's \<open>Hash\<close> for a byte vector writes: the length as a native-endian
  \<open>usize\<close>, then the bytes.
\<close>

definition usize_le_bytes :: "nat \<Rightarrow> bytes" where
  "usize_le_bytes n = map (\<lambda>i. of_nat (n div 256 ^ i mod 256)) [0..<8]"

definition vec_chunks :: "bytes \<Rightarrow> bytes list" where
  "vec_chunks v = [usize_le_bytes (length v), v]"

definition vec_digest :: "bytes \<Rightarrow> content_digest" where
  "vec_digest = content_digest vec_chunks"

definition payload_key :: bytes where
  "payload_key = ascii_bytes ''payload''"

definition damaged_payload :: "bytes \<Rightarrow> bytes" where
  "damaged_payload data = (let last = length data - 1 in data[last := data ! last XOR 0xFF])"

definition fuzz_payloads :: "(nat \<Rightarrow> instant) \<Rightarrow> bytes \<Rightarrow> bool" where
  "fuzz_payloads clock data =
     (case fixed_with_capacity 4 of
        Inl _ \<Rightarrow> False
      | Inr stub \<Rightarrow>
          (case fixed_set vec_digest (clock 0) payload_key data None stub of
             (Inl _, _) \<Rightarrow> False
           | (Inr _, stub1) \<Rightarrow>
               (case fixed_get vec_digest (clock 1) payload_key stub1 of
                  (Inl _, _) \<Rightarrow> False
                | (Inr got, stub2) \<Rightarrow>
                    got = Some data \<and>
                    (data \<noteq> [] \<and> damaged_payload data \<noteq> data \<longrightarrow>
                      (case fixed_corrupt (clock 2) payload_key (damaged_payload data) stub2 of
                         (Inl _, _) \<Rightarrow> False
                       | (Inr _, stub3) \<Rightarrow>
                           fst (fixed_get vec_digest (clock 3) payload_key stub3) = Err Corrupted)))))"

subsection \<open>Capabilities\<close>

definition fuzz_flags :: "u16 \<Rightarrow> capability_flags" where
  "fuzz_flags bits =
     fold (\<lambda>known flags. if bits AND known \<noteq> 0 then flags_union flags known else flags) flags_ALL CF_EMPTY"

definition fuzz_capabilities :: "u16 \<Rightarrow> bool" where
  "fuzz_capabilities bits =
     (let flags = fuzz_flags bits;
          state = (if bits mod 3 = 0 then OS_Unbound else if bits mod 3 = 1 then OS_Healthy else OS_Degraded);
          durability = (if bits mod 3 = 0 then DC_Volatile else if bits mod 3 = 1 then DC_Delegated else DC_Verified);
          cap = capability_new BK_InMemory flags state durability
      in (capability_is_bound cap \<longleftrightarrow> state \<noteq> OS_Unbound) \<and>
         (capability_is_authoritative cap \<longleftrightarrow> flags_contains flags CF_AUTHORITATIVE) \<and>
         (capability_survives_restart cap \<longleftrightarrow> durability = DC_Delegated \<or> durability = DC_Verified) \<and>
         (\<not> capability_is_bound cap \<and> capability_is_authoritative cap \<longrightarrow>
            sublist ''authoritative'' (capability_summary cap)) \<and>
         list_all (\<lambda>f. flags_contains (tc_flags cap) f) (flags_iter flags))"

subsection \<open>Configuration\<close>

text \<open>One turn of the loop over the keys: whether nothing failed so far, and the plane.\<close>

definition configuration_turn :: "(nat \<Rightarrow> instant) \<Rightarrow> nat \<Rightarrow> bool \<times> cachelito \<Rightarrow> bool \<times> cachelito" where
  "configuration_turn clock i s =
     (case s of (fine, p) \<Rightarrow>
        (case cp_bump_generation (numbered_key i) p of
           (bumped, p') \<Rightarrow> (fine \<and> is_ok (cp_peek (clock i) (numbered_key i) p) \<and> is_ok bumped, p')))"

definition fuzz_configuration :: "(nat \<Rightarrow> instant) \<Rightarrow> bytes \<Rightarrow> bool" where
  "fuzz_configuration clock data =
     (case data of
        [] \<Rightarrow> True
      | first # _ \<Rightarrow>
          (let capacity = unat first mod 64; shards = max capacity 1 in
           (is_ok (fixed_with_capacity capacity :: utf8_string fixed_tier result) \<or> capacity = 0) \<and>
           (is_ok (pool_new capacity :: utf8_string memory_pool result) \<or> capacity = 0) \<and>
           fst (fold (configuration_turn clock) [0..<8] (True, plane_with_shards shards)) \<and>
           registry_len registry_new = length tier_ALL))"

subsection \<open>Generations\<close>

definition fuzz_generation_metadata :: "(nat \<Rightarrow> instant) \<Rightarrow> bytes \<Rightarrow> bool" where
  "fuzz_generation_metadata clock data =
     (case data of
        [] \<Rightarrow> True
      | raw # _ \<Rightarrow>
          (case cp_prepare (clock 0) (ascii_bytes ''k'') None L1 IK_Write plane_new of
             (Inl _, _) \<Rightarrow> True
           | (Inr token, p1) \<Rightarrow>
               (case cp_commit (clock 1) token None p1 of
                  (committed, p2) \<Rightarrow>
                    (let offset = saturating_add_u64 (ucast raw) 1;
                         stale = token\<lparr>ct_generation := offset\<rparr>;
                         base = saturating_add_u64 (ucast raw) 1;
                         older = base - 1
                     in is_ok committed \<and>
                        fst (cp_commit (clock 2) stale None p2) = Err StaleGeneration \<and>
                        generation_is_stale older base \<and> \<not> generation_is_stale base older \<and>
                        \<not> generation_is_stale base base \<and>
                        \<not> generation_is_stale (saturating_add_u64 base 1) base))))"

subsection \<open>Metadata\<close>

definition metadata_key :: "u8 \<Rightarrow> bytes" where
  "metadata_key byte = numbered_key (unat byte mod 8)"

text \<open>One operation of the stream; \<open>clock\<close> holds the instants of the calls inside it.\<close>

definition metadata_op :: "(nat \<Rightarrow> instant) \<Rightarrow> u8 \<Rightarrow> cachelito \<Rightarrow> cachelito" where
  "metadata_op clock byte p =
     (let key = metadata_key byte; op = unat byte mod 6 in
      if op = 0 then p
      else if op = 1 then snd (cp_acquire (clock 0) key L0 p)
      else if op = 2
      then (case cp_prepare (clock 0) key None L1 IK_Write p of
              (Inr token, p') \<Rightarrow> snd (cp_commit (clock 1) token None p')
            | (Inl _, p') \<Rightarrow> p')
      else if op = 3
      then (case cp_prepare (clock 0) key None L2 IK_Move p of
              (Inr token, p') \<Rightarrow> snd (cp_abort token Cancelled p')
            | (Inl _, p') \<Rightarrow> p')
      else if op = 4 then snd (cp_bump_generation key p)
      else p)"

definition metadata_check :: "instant \<Rightarrow> u8 \<Rightarrow> cachelito \<Rightarrow> bool" where
  "metadata_check now byte p =
     (case cp_peek now (metadata_key byte) p of
        Inr s \<Rightarrow> \<not> (cs_state s = Prepared \<and> is_readable (cs_state s)) \<and>
          (cs_intent s \<noteq> None \<longrightarrow> cs_state s = Prepared)
      | Inl _ \<Rightarrow> True)"

fun metadata_stream :: "(nat \<Rightarrow> nat \<Rightarrow> instant) \<Rightarrow> nat \<Rightarrow> bytes \<Rightarrow> cachelito \<Rightarrow> bool \<times> cachelito" where
  "metadata_stream clock i [] p = (True, p)"
| "metadata_stream clock i (byte # bytes) p =
     (let p' = metadata_op (clock i) byte p in
      case metadata_stream clock (Suc i) bytes p' of
        (fine, q) \<Rightarrow> (metadata_check (clock i 2) byte p' \<and> fine, q))"

text \<open>The recovery loop, with the number of intents it resolved.\<close>

fun metadata_recovery :: "(nat \<Rightarrow> nat \<Rightarrow> instant) \<Rightarrow> nat \<Rightarrow> bytes \<Rightarrow> cachelito \<Rightarrow> nat \<times> cachelito" where
  "metadata_recovery clock i [] p = (0, p)"
| "metadata_recovery clock i (byte # bytes) p =
     (case cp_peek (clock i 3) (metadata_key byte) p of
        Inr s \<Rightarrow>
          (case cs_intent s of
             Some intent \<Rightarrow>
               (case metadata_recovery clock (Suc i) bytes (snd (cp_resolve_intent (clock i 4) (metadata_key byte)
                       intent (direction_for_kind (ci_kind intent)) p)) of
                  (n, q) \<Rightarrow> (Suc n, q))
           | None \<Rightarrow> metadata_recovery clock (Suc i) bytes p)
      | Inl _ \<Rightarrow> metadata_recovery clock (Suc i) bytes p)"

text \<open>The recovery loop asserts nothing: the target returns when the stream does.\<close>

definition fuzz_metadata :: "(nat \<Rightarrow> nat \<Rightarrow> instant) \<Rightarrow> bytes \<Rightarrow> bool" where
  "fuzz_metadata clock data =
     (case metadata_stream clock 0 data plane_new of
        (fine, p) \<Rightarrow> fine \<and> (case metadata_recovery clock 0 data p of (resolved, q) \<Rightarrow> True))"

subsection \<open>The targets that run a manager\<close>

text \<open>Nothing runs beside the task; between its steps time passes.\<close>

definition alone :: "(nat \<Rightarrow> duration) \<Rightarrow> (nat \<Rightarrow> bool) \<Rightarrow> 's schedule" where
  "alone elapsed timer =
     \<lparr>sc_between = (\<lambda>n w. w\<lparr>w_now := w_now w + elapsed n\<rparr>), sc_drop = (\<lambda>_. False), sc_timer = timer\<rparr>"

text \<open>\<open>ShardedTierStub::new\<close>; the \<open>expect\<close> in it never fires, since neither constant is zero.\<close>

definition stub_store :: "'v sharded_tier" where
  "stub_store =
     (case sharded_with_shards DEFAULT_SHARDS DEFAULT_CAPACITY_PER_SHARD of
        Inr t \<Rightarrow> t | Inl _ \<Rightarrow> \<lparr>st_shards = [], st_mask = 0\<rparr>)"

definition fresh_world :: "u64 \<Rightarrow> instant \<Rightarrow> 's list \<Rightarrow> 's world" where
  "fresh_world cursor now stores =
     \<lparr>w_plane = plane_new, w_registry = registry_new, w_stores = stores, w_cursor = cursor, w_log = [],
      w_now = now, w_step = 0\<rparr>"

definition response_classes :: "fault_class list" where
  "response_classes =
     [FC_Timeout, FC_ReadFailure, FC_WriteFailure, FC_Disconnect, FC_CapacityExhaustion, FC_Corruption,
      FC_MetadataFailure]"

definition response_class :: "bytes \<Rightarrow> fault_class" where
  "response_class data = response_classes ! (first_byte data mod length response_classes)"

text \<open>The target's manager and the state it starts from: one faulty rung over an in-memory stub.\<close>

definition response_manager ::
  "(bytes \<Rightarrow> u64) \<Rightarrow> ('v \<Rightarrow> content_digest) \<Rightarrow> (('v sharded_tier, 'v) faulty, 'v) manager"
where
  "response_manager hasher dg =
     fst (manager_from_parts default_select plane_new [faulty_ops (l0_ops hasher dg)] 80000000)"

definition response_world :: "u64 \<Rightarrow> instant \<Rightarrow> bytes \<Rightarrow> ('v sharded_tier, 'v) faulty world" where
  "response_world cursor now data =
     fresh_world cursor now [faulty_with_plan stub_store (plan_push Op_Get (response_class data) plan_new)]"

definition fuzz_backend_responses ::
  "(bytes \<Rightarrow> u64) \<Rightarrow> ('v \<Rightarrow> content_digest) \<Rightarrow> ('v sharded_tier, 'v) faulty schedule \<Rightarrow> u64 \<Rightarrow> instant \<Rightarrow> bytes
     \<Rightarrow> bool flow"
where
  "fuzz_backend_responses hasher dg sc cursor now data =
     fst (bind_task (get_op sc (response_manager hasher dg) (numbered_key (length data)) test_ctx)
        (\<lambda>result w.
           (Done (ledger_fired (fy_ledger (w_stores w ! 0)) (response_class data) > 0 \<longrightarrow>
                (case result of Inr (Some _) \<Rightarrow> False | _ \<Rightarrow> True) \<and>
                (response_class data = FC_Corruption \<longrightarrow> result = Err Corrupted)), w))
        (response_world cursor now data))"

definition routing_tiers ::
  "(bytes \<Rightarrow> u64) \<Rightarrow> ('v \<Rightarrow> content_digest) \<Rightarrow> nat \<Rightarrow> ('v sharded_tier, 'v) tier_ops list"
where
  "routing_tiers hasher dg n =
     (let tiers = replicate n (l0_ops hasher dg) in if n > 1 then tiers[1 := l1_ops hasher dg] else tiers)"

text \<open>One round over the key that byte \<open>i\<close> of the input names.\<close>

definition routing_round ::
  "'s schedule \<Rightarrow> ('s, 'v) manager \<Rightarrow> 'v \<Rightarrow> bytes \<Rightarrow> ('s, bool) io"
where
  "routing_round sc m v key =
     then_task (set_op sc m key v test_ctx)
     (then_task (get_op sc m key test_ctx)
     (then_task (promote_op sc m key test_ctx)
     (then_task (demote_op sc m key test_ctx)
       (case try_framed_key test_ctx key of
          None \<Rightarrow> ret False
        | Some framed \<Rightarrow>
            bind_task (plane_peek sc framed) (\<lambda>snap.
              case snap of
                Inr snap \<Rightarrow> ret (is_cache_rung (cs_tier snap) \<and> cs_tier snap \<noteq> L6)
              | Inl _ \<Rightarrow> ret True)))))"

fun routing_rounds :: "'s schedule \<Rightarrow> ('s, 'v) manager \<Rightarrow> 'v \<Rightarrow> bytes list \<Rightarrow> ('s, bool) io" where
  "routing_rounds sc m v [] = ret True"
| "routing_rounds sc m v (key # keys) =
     bind_task (routing_round sc m v key) (\<lambda>fine.
       if fine then routing_rounds sc m v keys else ret False)"

definition routing_keys :: "bytes \<Rightarrow> bytes list" where
  "routing_keys data =
     map (\<lambda>i. numbered_key ((if i < length data then unat (data ! i) else 0) mod 8)) [0..<4]"

definition fuzz_routing ::
  "(bytes \<Rightarrow> u64) \<Rightarrow> ('v \<Rightarrow> content_digest) \<Rightarrow> 'v sharded_tier schedule \<Rightarrow> u64 \<Rightarrow> instant \<Rightarrow> 'v \<Rightarrow> bytes
     \<Rightarrow> bool flow"
where
  "fuzz_routing hasher dg sc cursor now v data =
     (let n = first_byte data mod 7;
          m = manager_from_tiers default_select (routing_tiers hasher dg n) 60000000
      in fst (bind_task (routing_rounds sc m v (routing_keys data)) (\<lambda>fine.
           ret (fine \<and> as_usize LAST_CACHE_TIER = LAST_CACHE_RUNG_INDEX \<and>
             list_all (\<lambda>t. is_cache_rung t \<and> t \<noteq> L6) cache_ladder))
         (fresh_world cursor now (replicate n stub_store))))"

section \<open>Every target returns on every input\<close>

subsection \<open>Frames\<close>

lemma from_utf8_lossy_as_bytes [simp]: "from_utf8_lossy (as_bytes s) = s"
proof -
  have "scalars (from_utf8_lossy (as_bytes s)) = scalars s"
    using utf8_lossy_prefix [OF scalars_valid [of s], of "[]"] by (simp add: unat_as_bytes)
  then show ?thesis by (simp add: scalars.rep_eq Rep_utf8_string_inject)
qed

lemma position_of_frame: "s \<notin> set t \<Longrightarrow> position_of (\<lambda>b. b = s) (t @ [s] @ k) = Some (length t)"
proof -
  assume "s \<notin> set t"
  then have "takeWhile (\<lambda>b. b \<noteq> s) (t @ [s] @ k) = t" by (induction t) auto
  then show ?thesis by (simp add: position_of_def)
qed

lemma fuzz_keys_returns: "fuzz_keys data"
proof -
  have frame: "case frame_tenant_key (as_bytes s) k buf of
      Inr (n, buf) \<Rightarrow> (let framed = take n buf in
        case position_of (\<lambda>b. b = TENANT_SEPARATOR) framed of
          Some i \<Rightarrow> from_utf8_lossy (take i framed) = s \<and> drop (i + 1) framed = k | None \<Rightarrow> True)
    | Inl _ \<Rightarrow> True" for s k buf
  proof (cases "frame_tenant_key (as_bytes s) k buf")
    case (Inr x)
    obtain n buf' where x: "x = (n, buf')" by (cases x)
    note f = Inr [unfolded x]
    show ?thesis
      using frame_tenant_key_bytes [OF f] frame_tenant_key_Ok(4) [OF f] position_of_frame [of TENANT_SEPARATOR "as_bytes s" k]
      by (simp add: f)
  qed simp
  show ?thesis unfolding fuzz_keys_def Let_def by (rule frame [unfolded Let_def])
qed

lemma fuzz_serialized_payloads_returns: "fuzz_serialized_payloads data"
proof -
  have len: "n = length data + 2" if "frame_tenant_key (ascii_bytes ''t'') data buf = Inr (n, buf')" for n buf buf'
    using frame_tenant_key_Ok(1) [OF that] by (simp add: ascii_bytes_def)
  have diff: "take a buf1 \<noteq> take b buf2"
    if "frame_tenant_key t1 k1 b1 = Inr (a, buf1)" "frame_tenant_key t2 k2 b2 = Inr (b, buf2)" "k1 \<noteq> k2"
    for t1 t2 k1 k2 b1 b2 a b and buf1 buf2 :: bytes
    using frame_tenant_key_bytes [OF that(1)] frame_tenant_key_bytes [OF that(2)]
      frame_tenant_key_Ok(4) [OF that(1)] frame_tenant_key_Ok(4) [OF that(2)] that(3)
      separator_split_unique [of t1 TENANT_SEPARATOR k1 t2 k2]
    by metis
  let ?h = "length data div 2" and ?r = "length data - length data div 2"
  have keys: "drop ?h data \<noteq> drop ?r data" if "take ?h data \<noteq> take ?r data \<or> drop ?h data \<noteq> drop ?r data"
  proof
    assume "drop ?h data = drop ?r data"
    then have "length (drop ?h data) = length (drop ?r data)" by simp
    then have "?h = ?r" by simp
    with that show False by simp
  qed
  show ?thesis
    unfolding fuzz_serialized_payloads_def Let_def
    by (auto split: sum.split prod.split dest: len diff [OF _ _ keys])
qed

subsection \<open>Payloads\<close>

lemma damaged_payload_snoc: "damaged_payload (p @ [b]) = p @ [b XOR 0xFF]"
  by (simp add: damaged_payload_def Let_def)

lemma vec_digest_eq: "vec_digest v = digest_of_bytes (usize_le_bytes (length v) @ v)"
  by (simp add: vec_digest_def content_digest_def digest_of_bytes_def seeded_hash_eq_fnv1a vec_chunks_def)

lemma payload_stub:
  obtains stub where "(fixed_with_capacity 4 :: bytes fixed_tier result) = Ok stub" "fixed_wf stub"
    "\<And>now data. fst (fixed_set vec_digest now payload_key data None stub) = Ok ()"
proof -
  let ?t = "\<lparr>ft_pool = \<lparr>pool_slots = replicate 4 None, pool_free = [0..<4], pool_capacity = 4\<rparr>,
      ft_slots = replicate 4 None, ft_placement = PlaceDefault, ft_corruptions = 0, ft_cursor = 0\<rparr> :: bytes fixed_tier"
  have t: "fixed_with_capacity 4 = Ok ?t"
    by (simp add: fixed_with_capacity_def pool_new_def try_then_def)
  then have wf: "fixed_wf ?t" by (rule fixed_wf_with_capacity)
  have "fst (fixed_set vec_digest now payload_key data None ?t) = Ok ()" for now data
    using fixed_set_fails_iff [OF wf, of vec_digest now payload_key data None]
    by (auto dest: spec [of _ 0])
  with t wf show ?thesis by (rule that)
qed

text \<open>The slot that is found does not depend on the instant, as long as one is.\<close>

lemma key_slot_instant:
  assumes "key_slot now t key = Some i" "key_slot now' t key = Some j"
  shows "i = j"
proof -
  have "i = j" if "scan (find_slot_step now p fp) xs ns = Some i" "scan (find_slot_step now' p fp) xs ns = Some j"
    for p fp xs ns
    using that by (induction ns) (auto simp: find_slot_step_def split: option.splits if_splits)
  with assms show ?thesis by (simp add: key_slot_def find_slot_def probe_eq_scan)
qed

lemma fuzz_payloads_returns: "fuzz_payloads clock data"
proof -
  obtain stub where stub: "(fixed_with_capacity 4 :: bytes fixed_tier result) = Ok stub" and wf: "fixed_wf stub"
    and ok: "\<And>now data. fst (fixed_set vec_digest now payload_key data None stub) = Ok ()"
    by (rule payload_stub) blast
  obtain stub1 where set: "fixed_set vec_digest (clock 0) payload_key data None stub = (Ok (), stub1)"
    using ok [of "clock 0" data] by (metis prod.collapse)
  have wf1: "fixed_wf stub1" using fixed_wf_set [OF wf, of vec_digest "clock 0" payload_key data None] set by simp
  have get: "fixed_get vec_digest now payload_key stub1 = (Ok (Some data), stub1)" for now
  proof -
    have "fst (fixed_get vec_digest now payload_key stub1) = Ok (Some data)"
      using fixed_get_after_set [OF wf set, of now] by (simp add: unexpired_def)
    moreover have "snd (fixed_get dg now k t) = t" if "fst (fixed_get dg now k t) = Ok x" for dg k x and t :: "bytes fixed_tier"
      using that by (auto simp: fixed_get_def split: option.splits if_splits)
    ultimately show ?thesis by (metis prod.collapse)
  qed
  have refused: "case fixed_corrupt (clock 2) payload_key (damaged_payload data) stub1 of (Inl _, _) \<Rightarrow> False
      | (Inr _, stub3) \<Rightarrow> fst (fixed_get vec_digest (clock 3) payload_key stub3) = Err Corrupted"
    if "data \<noteq> []" "damaged_payload data \<noteq> data"
  proof -
    obtain p b where d: "data = p @ [b]" using \<open>data \<noteq> []\<close> by (metis rev_exhaust)
    have diff: "vec_digest (damaged_payload data) \<noteq> vec_digest data"
      using that(2) fnv1a_one_byte [of "usize_le_bytes (Suc (length p)) @ p" "b XOR 0xFF" "[]" _ b]
      by (simp add: d damaged_payload_snoc vec_digest_eq digest_of_bytes_def from_hashes_inject)
    obtain i j where "key_slot (clock 2) stub1 payload_key = Some i" "key_slot (clock 3) stub1 payload_key = Some j"
      using get [of "clock 2"] get [of "clock 3"] by (fastforce simp: fixed_get_def split: option.splits)
    with key_slot_instant have "key_slot (clock 2) stub1 payload_key = key_slot (clock 3) stub1 payload_key" by metis
    then have "fixed_corrupt (clock 2) payload_key w stub1 = fixed_corrupt (clock 3) payload_key w stub1" for w
      by (simp add: fixed_corrupt_def)
    moreover obtain stub3 where "fixed_corrupt (clock 3) payload_key (damaged_payload data) stub1 = (Ok True, stub3)"
      using fixed_get_after_corrupt(1) [OF wf1 get diff] by blast
    ultimately show ?thesis using fixed_get_after_corrupt(2) [OF wf1 get diff, of "clock 3"] by simp
  qed
  show ?thesis unfolding fuzz_payloads_def by (simp add: stub set get refused)
qed

subsection \<open>Capabilities\<close>

lemma sublist_within: "sublist x b \<Longrightarrow> sublist x (a @ b @ c)"
  by (rule sublist_order.order_trans [OF _ sublist_appendI])

lemma sublist_join: "x \<in> set xs \<Longrightarrow> sublist x (join_with sep xs)"
proof (induction sep xs rule: join_with.induct)
  case (3 sep a b bs)
  show ?case
  proof (cases "x = a")
    case True
    then show ?thesis using sublist_within [of x x "[]"] by simp
  next
    case False
    with 3 have "sublist x (join_with sep (b # bs))" by simp
    from sublist_within [OF this, of "a @ sep" "[]"] show ?thesis by simp
  qed
qed simp_all

lemma authoritative_visible:
  assumes "capability_is_authoritative cap"
  shows "sublist ''authoritative'' (capability_summary cap)"
proof -
  have "flag_name CF_AUTHORITATIVE = ''authoritative''" by (simp add: flag_name_def flag_consts)
  moreover have "CF_AUTHORITATIVE \<in> set (flags_iter (tc_flags cap))"
    using assms by (simp add: capability_is_authoritative_def flags_iter_def flags_ALL_def)
  ultimately have n: "''authoritative'' \<in> set (flags_names (tc_flags cap))"
    unfolding flags_names_def by (metis image_eqI set_map)
  then have "flags_display (tc_flags cap) = join_with ''|'' (flags_names (tc_flags cap))"
    by (auto simp: flags_display_def Let_def)
  with sublist_join [OF n, of "''|''"] have "sublist ''authoritative'' (flags_display (tc_flags cap))" by (simp only:)
  from sublist_within [OF this, of "backend_display (tc_backend cap) @ ''[''" "''] state='' @
     operational_name (tc_state cap) @ '' durability='' @ durability_name (tc_durability cap)"]
  show ?thesis unfolding capability_summary_def append.assoc .
qed

lemma fuzz_capabilities_returns: "fuzz_capabilities bits"
proof -
  have "list_all (\<lambda>f. flags_contains (fuzz_flags bits) f) (flags_iter (fuzz_flags bits))"
    by (simp add: flags_iter_def list_all_iff)
  moreover have "capability_survives_restart (capability_new b f s d) \<longleftrightarrow> d = DC_Delegated \<or> d = DC_Verified" for b f s d
    by (simp add: capability_survives_restart_def capability_new_def)
  ultimately show ?thesis
    using authoritative_visible
    unfolding fuzz_capabilities_def Let_def
    by (intro conjI impI)
       (simp_all add: capability_is_bound_def capability_is_authoritative_def capability_new_def)
qed

subsection \<open>Configuration\<close>

text \<open>A creating method fills at most one slot, so a shard that has seen few keys has room.\<close>

definition filled :: "shard \<Rightarrow> nat" where
  "filled sh = length (filter (\<lambda>x. x \<noteq> None) sh)"

definition slots_used :: "cachelito \<Rightarrow> nat \<Rightarrow> nat" where
  "slots_used p i = filled (lk_value (cl_shards p ! i))"

lemma filter_update_le: "length (filter P (xs[i := x])) \<le> Suc (length (filter P xs))"
  by (induction xs arbitrary: i) (auto split: nat.split intro: le_SucI)

lemma filled_update: "filled (sh[i := x]) \<le> Suc (filled sh)"
  unfolding filled_def by (rule filter_update_le)

lemma slots_used_with_or_create: "slots_used (snd (with_or_create a f p)) i \<le> Suc (slots_used p i)"
proof -
  have upd: "filled (lk_value ((ls[j := (ls ! j)\<lparr>lk_value := sh\<rparr>]) ! i)) \<le> Suc (filled (lk_value (ls ! i)))"
    if "filled sh \<le> Suc (filled (lk_value (ls ! j)))" for ls :: "shard lock list" and j sh
    using that by (cases "i = j"; cases "j < length ls") (simp_all add: list_update_beyond)
  show ?thesis
    unfolding with_or_create_def slots_used_def find_or_create_entry_def Let_def
    by (auto split: option.split prod.split sum.split intro!: upd simp: filled_update)
qed

lemma plane_admits_room:
  assumes "plane_ok pl p" "slots_used p (plane_shard_for p a) < cl_capacity_per_shard p"
  shows "plane_admits p a"
proof -
  note wf = plane_okD(1) [OF assms(1)]
  let ?sh = "lk_value (cl_shards p ! plane_shard_for p a)"
  have len: "length ?sh = cl_capacity_per_shard p" by (rule plane_wfD(2) [OF wf plane_shard_for_less [OF wf]])
  have "\<exists>i < length ?sh. ?sh ! i = None"
  proof (rule ccontr)
    assume "\<not> ?thesis"
    then have "filter (\<lambda>x. x \<noteq> None) ?sh = ?sh" by (auto simp: filter_id_conv in_set_conv_nth)
    with assms(2) len show False by (simp add: slots_used_def filled_def)
  qed
  then show ?thesis using plane_admits_iff [OF wf] len by auto
qed

lemma with_or_create_capacity [simp]:
  "cl_capacity_per_shard (snd (with_or_create a f p)) = cl_capacity_per_shard p"
  "length (cl_shards (snd (with_or_create a f p))) = length (cl_shards p)"
  by (auto simp: with_or_create_def Let_def split: option.split prod.split sum.split)

definition roomy :: "nat \<Rightarrow> cachelito \<Rightarrow> bool" where
  "roomy n p \<longleftrightarrow> plane_ok PlaceDefault p \<and>
     (\<forall>i < length (cl_shards p). slots_used p i + n \<le> cl_capacity_per_shard p)"

lemma plane_peek_total: "plane_ok pl p \<Longrightarrow> is_ok (cp_peek now key p)"
  using cp_peek_None [of pl p key now] cp_peek_Some [of pl p key _ now]
  by (cases "plane_lookup p (address_of pl key)") auto

lemma configuration_turn_fine:
  assumes "roomy (Suc n) p"
  shows "fst (configuration_turn clock i (True, p))" "roomy n (snd (configuration_turn clock i (True, p)))"
proof -
  have ok: "plane_ok PlaceDefault p" and room: "\<And>i. i < length (cl_shards p) \<Longrightarrow> slots_used p i + Suc n \<le> cl_capacity_per_shard p"
    using assms by (auto simp: roomy_def)
  let ?a = "plane_address_of p (numbered_key i)"
  have "slots_used p (plane_shard_for p ?a) < cl_capacity_per_shard p" 
    using room [OF plane_shard_for_less_length [OF plane_okD(1) [OF ok]], of ?a] by simp
  from plane_admits_room [OF ok this] have adm: "plane_admits p ?a" .
  note woc = plane_ok_with_or_create [OF ok keeps_steps(4), of ?a]
  show "fst (configuration_turn clock i (True, p))"
    using woc(3) adm plane_peek_total [OF ok]
    by (simp add: configuration_turn_def cp_bump_generation_def case_prod_unfold entry_bump_generation_def Let_def)
  have "slots_used (snd (with_or_create ?a entry_bump_generation p)) j + n \<le> cl_capacity_per_shard p"
    if "j < length (cl_shards p)" for j
    using slots_used_with_or_create [of ?a entry_bump_generation p j] room [OF that] by simp
  with woc(1) show "roomy n (snd (configuration_turn clock i (True, p)))"
    by (simp add: roomy_def configuration_turn_def cp_bump_generation_def case_prod_unfold)
qed

lemma configuration_turns_fine: "roomy (length is) p \<Longrightarrow> fst (fold (configuration_turn clock) is (True, p))"
proof (induction "is" arbitrary: p)
  case (Cons i "is")
  obtain b q where t: "configuration_turn clock i (True, p) = (b, q)" by (cases "configuration_turn clock i (True, p)")
  with configuration_turn_fine [of "length is" p clock i] Cons.prems have "b" "roomy (length is) q" by simp_all
  with Cons.IH t show ?case by simp
qed simp

lemma plane_with_shards_ok: "plane_ok PlaceDefault (plane_with_shards n)"
proof -
  have "(plane_sized n c)\<lparr>cl_placement := PlaceDefault\<rparr> = plane_sized n c" for c
    by (simp add: plane_sized_def Let_def)
  then show ?thesis unfolding plane_with_shards_def by (metis plane_ok_sized)
qed

lemma fuzz_configuration_returns: "fuzz_configuration clock data"
proof -
  have "slots_used (plane_with_shards n) i = 0" if "i < max n 1" for n i
    using that by (simp add: slots_used_def filled_def plane_with_shards_def plane_sized_def Let_def new_lock_def shard_new_def)
  moreover have "length (cl_shards (plane_with_shards n)) = max n 1"
    "cl_capacity_per_shard (plane_with_shards n) = 1024" for n
    by (simp_all add: plane_with_shards_def plane_sized_def Let_def CONTROL_CAPACITY_PER_SHARD_def)
  ultimately have "roomy (length [0..<8]) (plane_with_shards n)" for n
    using plane_with_shards_ok by (simp add: roomy_def)
  from configuration_turns_fine [OF this]
  have "fst (fold (configuration_turn clock) [0..<8] (True, plane_with_shards n))" for n .
  moreover have "registry_len registry_new = length tier_ALL"
    by (simp add: registry_len_def registry_new_def tier_ALL_def Let_def)
  moreover have "is_ok (fixed_with_capacity c :: utf8_string fixed_tier result) \<or> c = 0"
    "is_ok (pool_new c :: utf8_string memory_pool result) \<or> c = 0" for c
    by (simp_all add: fixed_with_capacity_def pool_new_def try_then_def)
  ultimately show ?thesis
    unfolding fuzz_configuration_def Let_def by (cases data) (simp_all del: upt_rec_numeral fold_simps)
qed

subsection \<open>Generations\<close>

lemma plane_new_facts:
  "plane_ok PlaceDefault plane_new" "plane_lookup plane_new a = None" "plane_admits plane_new a"
proof -
  have "(plane_sized n c)\<lparr>cl_placement := PlaceDefault\<rparr> = plane_sized n c" for n c
    by (simp add: plane_sized_def Let_def)
  then have eq: "plane_new = (plane_sized DEFAULT_SHARD_COUNT CONTROL_CAPACITY_PER_SHARD)\<lparr>cl_placement := PlaceDefault\<rparr>"
    by (simp add: plane_new_def plane_with_shards_def)
  show "plane_ok PlaceDefault plane_new" "plane_lookup plane_new a = None" unfolding eq
    by (rule plane_ok_sized plane_lookup_sized)+
  show "plane_admits plane_new a" unfolding eq by (rule plane_admits_sized) (simp add: CONTROL_CAPACITY_PER_SHARD_def)
qed

text \<open>
  After its commit the entry is \<open>Ready\<close>, and there no token commits, whichever generation it
  carries; the right one is refused as well as the wrong ones.
\<close>

lemma committed_refuses:
  assumes "cp_prepare t0 key None L1 IK_Write plane_new = (Ok token, p1)" "cp_commit t1 token None p1 = (r, p2)"
  shows "is_ok r" "fst (cp_commit t2 (token\<lparr>ct_generation := g\<rparr>) ttl p2) = Err StaleGeneration"
proof -
  note new = plane_new_facts
  obtain tok q e1 where prep: "cp_prepare t0 key None L1 IK_Write plane_new = (Ok tok, q)" "plane_ok PlaceDefault q"
    "plane_lookup q = (plane_lookup plane_new)(address_of PlaceDefault key \<mapsto> e1)" "e_state e1 = Prepared"
    "ce_generation e1 = ct_generation tok" "ct_address tok = address_of PlaceDefault key"
    by (rule cp_prepare_ok [where key = key and now = t0 and target = L1 and kind = IK_Write, OF new(1) new(3)]) blast
  with assms(1) have eq: "tok = token" "q = p1" by simp_all
  note prep = prep [unfolded eq]
  have e1: "plane_lookup p1 (ct_address token) = Some e1" by (simp add: prep)
  note c = cp_commit_Some [OF prep(2) e1, of t1 None]
  obtain e2 where ec: "entry_commit t1 token None e1 = (Ok (), e2)" "e_state e2 = Ready"
    by (rule entry_commit_ok [OF prep(4,5), of t1 None]) blast
  show "is_ok r" using c(1) ec(1) assms(2) by simp
  let ?stale = "token\<lparr>ct_generation := g\<rparr>"
  have p2: "plane_ok PlaceDefault p2" "plane_lookup p2 (ct_address ?stale) = Some e2"
    using c(2,3) ec(1) assms(2) by simp_all
  show "fst (cp_commit t2 ?stale ttl p2) = Err StaleGeneration"
    using cp_commit_Some(1) [OF p2] ec(2) by (simp add: entry_commit_def)
qed

lemma byte_successor:
  fixes raw :: u8
  shows "saturating_add_u64 (ucast raw) 1 = ucast raw + 1" "(ucast raw :: u64) < ucast raw + 1"
    "(ucast raw + 1 :: u64) \<le> saturating_add_u64 (ucast raw + 1) 1"
proof -
  have b: "unat raw < 256" using unsigned_less [of raw] by simp
  then have u: "unat (ucast raw :: u64) = unat raw" by (simp add: unsigned_ucast_eq take_bit_nat_eq_self)
  have s: "unat (ucast raw + 1 :: u64) = unat raw + 1" using u b by (simp add: unat_word_ariths)
  show "saturating_add_u64 (ucast raw) 1 = ucast raw + 1" using u b by (simp add: saturating_add_u64_def)
  show "(ucast raw :: u64) < ucast raw + 1" using u s by (simp add: word_less_nat_alt)
  have "unat (ucast raw + 1 + 1 :: u64) = unat raw + 2"
    using s b unat_add_lem [of "ucast raw + 1 :: u64" 1] by simp
  then show "(ucast raw + 1 :: u64) \<le> saturating_add_u64 (ucast raw + 1) 1"
    using s b by (simp add: saturating_add_u64_def word_le_nat_alt)
qed

lemma fuzz_generation_metadata_returns: "fuzz_generation_metadata clock data"
proof (cases data)
  case (Cons raw rest)
  obtain r p1 where prep: "cp_prepare (clock 0) (ascii_bytes ''k'') None L1 IK_Write plane_new = (r, p1)"
    by (cases "cp_prepare (clock 0) (ascii_bytes ''k'') None L1 IK_Write plane_new")
  show ?thesis
  proof (cases r)
    case (Inr token)
    obtain c p2 where com: "cp_commit (clock 1) token None p1 = (c, p2)" by (cases "cp_commit (clock 1) token None p1")
    note facts = committed_refuses [OF prep [unfolded Inr] com]
    have "\<not> saturating_add_u64 (ucast raw + 1) 1 < (ucast raw + 1 :: u64)" using byte_successor(3) by (simp add: not_less)
    with facts byte_successor [of raw] show ?thesis
      by (simp add: fuzz_generation_metadata_def Cons prep Inr com [unfolded One_nat_def] Let_def generation_is_stale_def less_imp_not_less)
  qed (simp add: fuzz_generation_metadata_def Cons prep)
qed (simp add: fuzz_generation_metadata_def)

subsection \<open>Metadata\<close>

text \<open>No operation of the stream leaves an entry prepared or an intent recorded.\<close>

definition at_rest :: "control_entry \<Rightarrow> bool" where
  "at_rest e \<longleftrightarrow> e_state e \<noteq> Prepared \<and> e_intent e = None"

definition plane_at_rest :: "cachelito \<Rightarrow> bool" where
  "plane_at_rest p \<longleftrightarrow> plane_ok PlaceDefault p \<and> (\<forall>a e. plane_lookup p a = Some e \<longrightarrow> at_rest e)"

lemma at_rest_new: "at_rest (entry_new a)"
  by (simp add: at_rest_def entry_new_def e_state_def e_intent_def state_of_u8_def state_try_from_def)

lemma at_rest_with_or_create:
  assumes "plane_at_rest p" "keeps f" "\<And>e. at_rest e \<Longrightarrow> at_rest (snd (f e))"
  shows "plane_at_rest (snd (with_or_create a f p))"
proof -
  have ok: "plane_ok PlaceDefault p" using assms(1) by (simp add: plane_at_rest_def)
  have "at_rest (plane_entry p a)"
    using assms(1) by (simp add: plane_at_rest_def plane_entry_def at_rest_new split: option.split)
  then show ?thesis
    using assms plane_ok_with_or_create(1,2) [OF ok assms(2), of a]
    by (auto simp: plane_at_rest_def split: if_splits)
qed

text \<open>A prepared entry that is committed or aborted at once is at rest again.\<close>

lemma at_rest_settle:
  assumes p: "plane_at_rest p"
    and f: "\<And>token. keeps (f token)"
      "\<And>token e. e_state e = Prepared \<Longrightarrow> ce_generation e = ct_generation token \<Longrightarrow> at_rest (snd (f token e))"
  shows "plane_at_rest (case cp_prepare t key None target kind p of
      (Inr token, p') \<Rightarrow> snd (with_entry (ct_address token) ab (f token) p') | (Inl _, p') \<Rightarrow> p')"
proof -
  have ok: "plane_ok PlaceDefault p" using p by (simp add: plane_at_rest_def)
  show ?thesis
  proof (cases "plane_admits p (address_of PlaceDefault key)")
    case True
    obtain tok q e1 where prep: "cp_prepare t key None target kind p = (Ok tok, q)" "plane_ok PlaceDefault q"
      "plane_lookup q = (plane_lookup p)(address_of PlaceDefault key \<mapsto> e1)" "e_state e1 = Prepared"
      "ce_generation e1 = ct_generation tok" "ct_address tok = address_of PlaceDefault key"
      by (rule cp_prepare_ok [where now = t and target = target and kind = kind, OF ok True]) blast
    note w = plane_ok_with_entry(1,2) [OF prep(2) f(1) [of tok], of "ct_address tok" ab]
    show ?thesis
      using p w f(2) [OF prep(4,5)] by (auto simp: prep(1) plane_at_rest_def prep(3,6) split: if_splits)
  next
    case False
    then have "cp_prepare t key None target kind p = (Err ConfigurationError, p)"
      by (simp add: cp_prepare_def plane_okD(4) [OF ok] with_or_create_full)
    with p show ?thesis by simp
  qed
qed

lemma metadata_op_at_rest:
  assumes p: "plane_at_rest p"
  shows "plane_at_rest (metadata_op clock byte p)"
proof -
  have acq: "at_rest (snd (entry_acquire now t e))" if "at_rest e" for now t e
    using that by (auto simp: at_rest_def entry_acquire_def e_compare_exchange_def Let_def simp del: state_to_u8.simps)
  have bump: "at_rest (snd (entry_bump_generation e))" if "at_rest e" for e
    using that by (simp add: at_rest_def entry_bump_generation_def Let_def)
  have commit: "at_rest (snd (entry_commit now token ttl e))"
    if "e_state e = Prepared" "ce_generation e = ct_generation token" for now token ttl e
    using that by (simp add: at_rest_def entry_commit_def token_expired_by_def Let_def split: option.split)
  have abort: "at_rest (snd (entry_abort_inner err False e))" if "e_state e = Prepared" for err e
    using that by (simp add: at_rest_def entry_abort_inner_def Let_def)
  show ?thesis
    unfolding metadata_op_def Let_def cp_acquire_def cp_bump_generation_def cp_commit_def cp_abort_def
    using p at_rest_settle [where f = "\<lambda>token. entry_commit (clock 1) token None", OF p keeps_steps(8) commit]
      at_rest_settle [where f = "\<lambda>_. entry_abort_inner Cancelled False", OF p keeps_steps(9) abort]
    by (auto intro!: at_rest_with_or_create acq bump)
qed

lemma metadata_peek:
  assumes "plane_at_rest p"
  shows "\<exists>s. cp_peek now key p = Ok s \<and> cs_intent s = None \<and> cs_state s \<noteq> Prepared"
proof (cases "plane_lookup p (address_of PlaceDefault key)")
  case None
  with assms show ?thesis using cp_peek_None [of PlaceDefault p key now]
    by (simp add: plane_at_rest_def absent_snapshot_def)
next
  case (Some e)
  with assms show ?thesis using cp_peek_Some [of PlaceDefault p key e now]
    by (auto simp: plane_at_rest_def snapshot_of_def at_rest_def)
qed

lemma metadata_stream_fine:
  "plane_at_rest p \<Longrightarrow> fst (metadata_stream clock i bytes p) \<and> plane_at_rest (snd (metadata_stream clock i bytes p))"
proof (induction bytes arbitrary: i p)
  case (Cons byte bytes)
  let ?q = "metadata_op (clock i) byte p"
  have q: "plane_at_rest ?q" by (rule metadata_op_at_rest [OF Cons.prems])
  obtain s where "cp_peek (clock i 2) (metadata_key byte) ?q = Ok s" "cs_intent s = None" "cs_state s \<noteq> Prepared"
    using metadata_peek [OF q] by blast
  then have "metadata_check (clock i 2) byte ?q" by (simp add: metadata_check_def)
  with Cons.IH [OF q] show ?case by (simp add: Let_def case_prod_unfold)
qed simp

lemma metadata_recovery_idle: "plane_at_rest p \<Longrightarrow> metadata_recovery clock i bytes p = (0, p)"
proof (induction bytes arbitrary: i)
  case (Cons byte bytes)
  with metadata_peek [of p "clock i 3" "metadata_key byte"] show ?case by auto
qed simp

lemma plane_new_at_rest: "plane_at_rest plane_new"
  by (simp add: plane_at_rest_def plane_new_facts)

lemma fuzz_metadata_returns: "fuzz_metadata clock data"
  using metadata_stream_fine [OF plane_new_at_rest] by (simp add: fuzz_metadata_def case_prod_unfold)

subsection \<open>Routing\<close>

lemma alone_facts:
  "undropped (alone elapsed timer)" "keeps_placed pl (alone elapsed timer)"
  "w_plane (tick (alone elapsed timer) w) = w_plane w" "w_stores (tick (alone elapsed timer) w) = w_stores w"
  by (simp_all add: alone_def undropped_def keeps_placed_def ladder_placed_def tick_def)

lemma routing_removals: "removals_answer (manager_with_timeout policy (routing_tiers hasher dg n) timeout)"
proof -
  have "routing_tiers hasher dg n ! i \<in> {l0_ops hasher dg, l1_ops hasher dg}" if "i < n" for i
    using that by (auto simp: routing_tiers_def Let_def nth_list_update)
  moreover have "fst (t_remove ops now k s) \<noteq> Hangs" if "ops \<in> {l0_ops hasher dg, l1_ops hasher dg}" for ops now k s
    using that by (auto simp: l0_ops_def l1_ops_def stub_ops_def answer_def case_prod_unfold)
  moreover have "length (routing_tiers hasher dg n) = n" by (simp add: routing_tiers_def Let_def)
  ultimately show ?thesis by (simp add: removals_answer_def manager_with_timeout_def)
qed

text \<open>A task that returns and keeps a predicate, and the check that ends a round.\<close>

lemma returns_upholds:
  assumes "returns m" "upholds I m" "I w"
  obtains x w' where "m w = (Done x, w')" "I w'"
  using assms upholdsD [OF assms(2,3)] by (metis returns_def snd_conv)

lemma placed_peek:
  assumes "ladder_placed pl w" "plane_peek (alone elapsed timer) key w = (Done (Ok s), w')"
  shows "is_cache_rung (cs_tier s)"
proof -
  have ok: "plane_ok pl (w_plane w)" using assms(1) by (simp add: ladder_placed_def)
  obtain now where s: "cp_peek now key (w_plane w) = Ok s"
    using assms(2) by (auto simp: plane_peek_def plane_call_def Let_def alone_facts)
  show ?thesis
  proof (cases "plane_lookup (w_plane w) (address_of pl key)")
    case None
    with s cp_peek_None [OF ok None, of now] show ?thesis by (auto simp: absent_snapshot_def is_cache_rung_iff)
  next
    case (Some e)
    moreover from Some assms(1) have "is_cache_rung (e_tier e)" by (auto simp: ladder_placed_def on_ladder_def)
    ultimately show ?thesis using s cp_peek_Some [OF ok Some, of now] by (auto simp: snapshot_of_def)
  qed
qed

lemma numbered_key_framed: "n < 10 \<Longrightarrow> try_framed_key test_ctx (numbered_key n) \<noteq> None"
proof -
  assume "n < 10"
  then have len: "length (numbered_key n) = 2" by (simp add: numbered_key_def ascii_bytes_def decimal.simps)
  let ?t = "tenant (ctx_identity test_ctx)"
  have t: "?t = map of_char ''test-tenant''" by (simp add: test_ctx_def ctx_for_tenant_def context_new_def ascii_bytes_def)
  have "TENANT_SEPARATOR \<notin> set ?t" unfolding t TENANT_SEPARATOR_def by simp
  moreover have "length ?t = 11" unfolding t by simp
  ultimately obtain m buf where "frame_tenant_key ?t (numbered_key n) (replicate MAX_KEY_SIZE 0) = Ok (m, buf)"
    using frame_tenant_key_Ok_iff [of ?t "numbered_key n" "replicate MAX_KEY_SIZE 0"] len by (auto simp: MAX_KEY_SIZE_def)
  then show ?thesis by (simp add: try_framed_key_def len MAX_KEY_SIZE_def)
qed

lemma routing_round_fine:
  assumes w: "ladder_placed pl w" and m: "removals_answer m" and key: "try_framed_key test_ctx key \<noteq> None"
  obtains w' where "routing_round (alone elapsed timer) m v key w = (Done True, w')" "ladder_placed pl w'"
proof -
  let ?sc = "alone elapsed timer"
  note st = stays_readers [OF alone_facts(1)] stays_writers [OF alone_facts(1)]
  note pl = placed_writers [OF alone_facts(2)] placed_readers [OF alone_facts(2)]
  obtain x1 w1 where 1: "set_op ?sc m key v test_ctx w = (Done x1, w1)" "ladder_placed pl w1"
    by (rule returns_upholds [OF returnsI [OF st(8) completes_set_op [OF m]] pl(1) w]) blast
  obtain x2 w2 where 2: "get_op ?sc m key test_ctx w1 = (Done x2, w2)" "ladder_placed pl w2"
    by (rule returns_upholds [OF returnsI [OF st(1) completes_readers(1)] pl(7) 1(2)]) blast
  obtain x3 w3 where 3: "promote_op ?sc m key test_ctx w2 = (Done x3, w3)" "ladder_placed pl w3"
    by (rule returns_upholds [OF returnsI [OF st(9) completes_writers(2) [OF m]] pl(5) 2(2)]) blast
  obtain x4 w4 where 4: "demote_op ?sc m key test_ctx w3 = (Done x4, w4)" "ladder_placed pl w4"
    by (rule returns_upholds [OF returnsI [OF st(10) completes_writers(3) [OF m]] pl(6) 3(2)]) blast
  obtain framed where f: "try_framed_key test_ctx key = Some framed" using key by blast
  obtain s w5 where 5: "plane_peek ?sc framed w4 = (Done s, w5)"
    by (auto simp: plane_peek_def plane_call_def Let_def)
  have w5: "ladder_placed pl w5"
    using upholdsD [OF upholds_peek [OF steady_placed [OF alone_facts(2)]] 4(2)] 5 by (metis snd_conv)
  have "routing_round ?sc m v key w = (Done True, w5)"
    unfolding routing_round_def f option.case
      then_Done [where m = "set_op _ _ _ _ _", OF 1(1)] then_Done [where m = "get_op _ _ _ _", OF 2(1)]
      then_Done [where m = "promote_op _ _ _ _", OF 3(1)] then_Done [where m = "demote_op _ _ _ _", OF 4(1)]
      bind_Done [where m = "plane_peek _ _", OF 5]
    using placed_peek [OF 4(2)] 5 by (cases s) (auto simp: ret_def is_cache_rung_iff)
  then show ?thesis using w5 by (rule that)
qed

lemma routing_rounds_fine:
  assumes "removals_answer m" "\<forall>key\<in>set keys. try_framed_key test_ctx key \<noteq> None" "ladder_placed pl w"
  shows "\<exists>w'. routing_rounds (alone elapsed timer) m v keys w = (Done True, w')"
  using assms(2,3)
proof (induction keys arbitrary: w)
  case (Cons key keys)
  obtain w1 where 1: "routing_round (alone elapsed timer) m v key w = (Done True, w1)" "ladder_placed pl w1"
    by (rule routing_round_fine [OF Cons.prems(2) assms(1), of key elapsed timer v]) (use Cons.prems(1) in auto)
  with Cons.IH [OF _ 1(2)] Cons.prems(1) show ?case
    by (simp add: bind_Done [where m = "routing_round _ _ _ _", OF 1(1)])
qed (simp add: ret_def)

lemma fresh_world_placed: "ladder_placed PlaceDefault (fresh_world cursor now stores)"
  by (simp add: ladder_placed_def fresh_world_def plane_new_facts)

lemma fuzz_routing_returns: "fuzz_routing hasher dg (alone elapsed timer) cursor now v data = Done True"
proof -
  let ?n = "first_byte data mod 7"
  let ?m = "manager_from_tiers default_select (routing_tiers hasher dg ?n) 60000000"
  have "\<forall>key\<in>set (routing_keys data). try_framed_key test_ctx key \<noteq> None"
    by (auto simp: routing_keys_def simp del: upt_rec_numeral intro!: numbered_key_framed [unfolded not_None_eq])
  moreover have "removals_answer ?m" unfolding manager_from_tiers_def by (rule routing_removals)
  ultimately have "\<exists>w'. routing_rounds (alone elapsed timer) ?m v (routing_keys data)
      (fresh_world cursor now (replicate ?n stub_store)) = (Done True, w')"
    by (intro routing_rounds_fine [OF _ _ fresh_world_placed])
  then obtain w' where r: "routing_rounds (alone elapsed timer) ?m v (routing_keys data)
      (fresh_world cursor now (replicate ?n stub_store)) = (Done True, w')" by (elim exE)
  have "list_all (\<lambda>t. is_cache_rung t \<and> t \<noteq> L6) cache_ladder"
    by (simp add: cache_ladder_def is_cache_rung_iff)
  moreover have "as_usize LAST_CACHE_TIER = LAST_CACHE_RUNG_INDEX"
    by (simp add: LAST_CACHE_TIER_def LAST_CACHE_RUNG_INDEX_def)
  ultimately show ?thesis
    unfolding fuzz_routing_def Let_def by (simp add: bind_Done [where m = "routing_rounds _ _ _ _", OF r] ret_def)
qed

subsection \<open>Backend responses\<close>

text \<open>
  The plane of the target is fresh, so the read is answered by the plane alone: a miss, or the
  refusal of a key too long to frame. The faulty rung is never called.
\<close>

lemma response_get:
  obtains e w' where
    "get_op (alone elapsed timer) (response_manager hasher dg) key test_ctx (response_world cursor now data) =
       (Done (Err e), w')"
    "w_stores w' = w_stores (response_world cursor now data :: ('v sharded_tier, 'v) faulty world)"
proof -
  let ?m = "response_manager hasher dg :: (('v sharded_tier, 'v) faulty, 'v) manager"
  let ?w = "response_world cursor now data :: ('v sharded_tier, 'v) faulty world"
  let ?sc = "alone elapsed timer :: ('v sharded_tier, 'v) faulty schedule"
  have auth: "check_auth test_ctx = Ok ()"
    by (simp add: check_auth_def context_authenticated_def identity_authenticated_def test_ctx_def ctx_for_tenant_def
        context_new_def ascii_bytes_def)
  have allow: "authorize (resolve ?m (request_for OpGet key test_ctx) test_ctx) = Ok ()"
    by (simp add: authorize_def resolve_def response_manager_def manager_from_parts_def manager_with_timeout_def)
  have peek: "plane_peek ?sc k ?w = (Done (Ok absent_snapshot), tick ?sc ?w)" for k
    using cp_peek_None [OF plane_new_facts(1,2)]
    by (simp add: plane_peek_def plane_call_def Let_def alone_facts response_world_def fresh_world_def)
  show ?thesis
  proof (cases "encode_key key test_ctx")
    case (Inl e)
    then have "get_op ?sc ?m key test_ctx ?w = (Done (Err e), ?w)"
      by (simp add: get_op_def bind_task_def read_now_def ret_def)
    then show ?thesis by (rule that) simp
  next
    case (Inr k)
    define w' where "w' = snd (get_op ?sc ?m key test_ctx ?w)"
    have "get_op ?sc ?m key test_ctx ?w = (Done (Err Miss), w')"
      unfolding w'_def
      by (simp add: get_op_def bind_task_def [of read_now] read_now_def Inr auth allow Let_def
          try_Done [where m = "plane_peek _ _", OF peek])
         (simp add: absent_snapshot_def then_task_def observed_control_only_def bind_task_def read_now_def emit_def ret_def)
    moreover have "w_stores w' = w_stores ?w"
      unfolding w'_def
      by (simp add: get_op_def bind_task_def [of read_now] read_now_def Inr auth allow Let_def
          try_Done [where m = "plane_peek _ _", OF peek])
         (simp add: absent_snapshot_def then_task_def observed_control_only_def bind_task_def read_now_def emit_def ret_def
            alone_facts)
    ultimately show ?thesis by (rule that)
  qed
qed

lemma response_never_fired: "ledger_fired (fy_ledger (w_stores (response_world cursor now data) ! 0)) c = 0"
  by (cases c) (simp_all add: response_world_def fresh_world_def faulty_with_plan_def ledger_new_def ledger_fired_def)

lemma fuzz_backend_responses_returns:
  fixes dg :: "'v \<Rightarrow> content_digest"
  shows "fuzz_backend_responses hasher dg (alone elapsed timer) cursor now data = Done True"
proof -
  obtain e w' where g: "get_op (alone elapsed timer) (response_manager hasher dg) (numbered_key (length data)) test_ctx
      (response_world cursor now data) = (Done (Err e), w')" "w_stores w' = w_stores (response_world cursor now data :: ('v sharded_tier, 'v) faulty world)"
    by (rule response_get)
  show ?thesis
    unfolding fuzz_backend_responses_def bind_Done [where m = "get_op _ _ _ _", OF g(1)]
    by (simp add: g(2) response_never_fired)
qed

subsection \<open>The properties\<close>

text \<open>
  C37: Every fuzz target returns on every input, at any instants, over any sharding hash. No key frame
  decodes to another tenant or key; two splits of one input never frame alike; a payload is read back
  and its damaged form refused; capabilities agree with their flags; every shard count works; the
  token made up after a commit is refused; no sequence of plane operations leaves an intent outside a
  prepared entry; and no sequence of writes, reads, promotions and demotions places an entry outside
  the cache ladder, on ladders of zero to six rungs.
\<close>

theorem fuzz_targets_return:
  "fuzz_keys data \<and> fuzz_serialized_payloads data \<and> fuzz_payloads clock data \<and> fuzz_capabilities bits \<and>
   fuzz_configuration clock data \<and> fuzz_generation_metadata clock data \<and> fuzz_metadata clocks data \<and>
   fuzz_routing hasher dg (alone elapsed timer) cursor now v data = Done True \<and>
   fuzz_backend_responses hasher dg (alone elapsed timer) cursor now data = Done True"
  by (intro conjI fuzz_keys_returns fuzz_serialized_payloads_returns fuzz_payloads_returns
      fuzz_capabilities_returns fuzz_configuration_returns fuzz_generation_metadata_returns fuzz_metadata_returns
      fuzz_routing_returns fuzz_backend_responses_returns)

text \<open>
  Three of the targets cannot fail where they mean to look. The faulty rung of \<open>backend_responses\<close> is
  never read, so no fault fires and its assertions are not evaluated. The recovery loop of \<open>metadata\<close>
  finds no intent to resolve. The token that \<open>generation_metadata\<close> offers after the commit is refused
  for the state of the entry: a token with the generation that was committed is refused as well.
\<close>

theorem fuzz_targets_blind:
  "ledger_fired (fy_ledger (w_stores (snd (get_op (alone elapsed timer) (response_manager hasher dg)
     (numbered_key (length data)) test_ctx (response_world cursor now data))) ! 0)) c = 0"
  "fst (metadata_recovery clocks 0 data (snd (metadata_stream clocks 0 data plane_new))) = 0"
  "cp_prepare t0 key None L1 IK_Write plane_new = (Ok token, p1) \<Longrightarrow> cp_commit t1 token None p1 = (r, p2) \<Longrightarrow>
     fst (cp_commit t2 token ttl p2) = Err StaleGeneration"
proof -
  obtain e w' where "get_op (alone elapsed timer) (response_manager hasher dg) (numbered_key (length data)) test_ctx
      (response_world cursor now data) = (Done (Err e), w')" "w_stores w' = w_stores (response_world cursor now data)"
    by (rule response_get)
  then show "ledger_fired (fy_ledger (w_stores (snd (get_op (alone elapsed timer) (response_manager hasher dg)
     (numbered_key (length data)) test_ctx (response_world cursor now data))) ! 0)) c = 0"
    by (simp add: response_never_fired)
  show "fst (metadata_recovery clocks 0 data (snd (metadata_stream clocks 0 data plane_new))) = 0"
    using metadata_stream_fine [OF plane_new_at_rest] by (simp add: metadata_recovery_idle)
  show "fst (cp_commit t2 token ttl p2) = Err StaleGeneration"
    if "cp_prepare t0 key None L1 IK_Write plane_new = (Ok token, p1)" "cp_commit t1 token None p1 = (r, p2)"
    using committed_refuses(2) [OF that, of t2 "ct_generation token"] by simp
qed

end
