(* ===== verification/Thief_Tier.thy ===== *)
theory Thief_Tier
  imports Test_Kit Manager_Visibility
begin

section \<open>The rung that wins every race (\<open>testkit/src/lib.rs\<close>, \<open>ThiefTier\<close>)\<close>

text \<open>
  A wrapper whose \<open>set\<close> first writes the same application key through the manager that called it. That
  call needs the world and not only the wrapped rung's store, so \<open>set\<close> is a task over the world and the
  thief's own fields; every other method forwards. The manager holds the thief at its rung, and the
  manager's write inside \<open>set\<close> comes back to the same thief, which then forwards because it is
  stealing. So the method table that this inner write sees is \<open>thief_ops\<close>, and the manager handed to
  \<open>thief_set\<close> has it at the thief's rung. The weak reference to the manager is live, since the manager
  is the caller.
\<close>

record thief =
  th_key :: bytes
  th_attached :: bool
  th_stealing :: bool
  th_steals :: u64

definition thief_wrap :: "bytes \<Rightarrow> thief" where
  "thief_wrap key = \<lparr>th_key = key, th_attached = False, th_stealing = False, th_steals = 0\<rparr>"

definition thief_attach :: "thief \<Rightarrow> thief" where
  "thief_attach th = th\<lparr>th_attached := True\<rparr>"

text \<open>The methods as they are while the thief is stealing; the optional ones are the trait's defaults.\<close>

definition thief_ops :: "('s, 'v) tier_ops \<Rightarrow> ('s, 'v) tier_ops" where
  "thief_ops ops =
     ops\<lparr>t_capability := (\<lambda>s. default_capability (t_backend ops s)),
         t_eviction_candidate := default_eviction_candidate, t_capacity := default_tier_capacity,
         t_remove_if_address := default_remove_if_address\<rparr>"

definition thief_value :: utf8_string where
  "thief_value = from_utf8_lossy (ascii_bytes ''thief'')"

text \<open>A task of the world that leaves the thief's fields alone.\<close>

definition on_world :: "('s world, 'a) task \<Rightarrow> ('s world \<times> thief, 'a) task" where
  "on_world f x = (case f (fst x) of (r, w) \<Rightarrow> (r, w, snd x))"

definition update_thief :: "(thief \<Rightarrow> thief) \<Rightarrow> ('s world \<times> thief, unit) task" where
  "update_thief f x = (Done (), fst x, f (snd x))"

text \<open>The guarded part of \<open>set\<close>: \<open>stealing.swap\<close>, the count, the competing write, \<open>stealing.store\<close>.\<close>

definition steal ::
  "'s schedule \<Rightarrow> ('s, utf8_string) manager \<Rightarrow> ('s world \<times> thief, unit) task"
where
  "steal sc m x =
     (if th_stealing (snd x) then ret () x
      else
        then_task (update_thief (\<lambda>th. th\<lparr>th_stealing := True, th_steals := th_steals th + 1\<rparr>))
        (then_task
           (\<lambda>y. if th_attached (snd y)
                then then_task (on_world (set_op sc m (th_key (snd y)) thief_value test_ctx)) (ret ()) y
                else ret () y)
           (update_thief (\<lambda>th. th\<lparr>th_stealing := False\<rparr>))) x)"

definition thief_set ::
  "'s schedule \<Rightarrow> ('s, utf8_string) manager \<Rightarrow> tier_id \<Rightarrow> bytes \<Rightarrow> utf8_string \<Rightarrow> duration option
     \<Rightarrow> ('s world \<times> thief, unit reply) task"
where
  "thief_set sc m t key v ttl = then_task (steal sc m) (on_world (rung_set sc m t key v ttl))"

subsection \<open>What a theft does\<close>

lemma on_world_simps [simp]:
  "fst (on_world f x) = fst (f (fst x))" "snd (on_world f x) = (snd (f (fst x)), snd x)"
  by (simp_all add: on_world_def split: prod.split)

lemma steal_stealing: "th_stealing th \<Longrightarrow> steal sc m (w, th) = (Done (), w, th)"
  by (simp add: steal_def ret_def)

lemma steal_attached:
  assumes "th_attached th" "\<not> th_stealing th"
  shows "steal sc m (w, th) =
    (case set_op sc m (th_key th) thief_value test_ctx w of
       (Done _, w') \<Rightarrow> (Done (), w', th\<lparr>th_steals := th_steals th + 1\<rparr>)
     | (Dropped, w') \<Rightarrow> (Dropped, w', th\<lparr>th_stealing := True, th_steals := th_steals th + 1\<rparr>)
     | (Hung, w') \<Rightarrow> (Hung, w', th\<lparr>th_stealing := True, th_steals := th_steals th + 1\<rparr>))"
proof -
  obtain r w' where "set_op sc m (th_key th) thief_value test_ctx w = (r, w')" by force
  with assms show ?thesis
    by (cases th; cases r) (simp_all add: steal_def then_task_def bind_task_def update_thief_def on_world_def ret_def)
qed

text \<open>A forwarding thief is the wrapped rung: it keeps the contract the manager relies on.\<close>

lemma thief_forwards: "rung_contract ops sound \<Longrightarrow> rung_contract (thief_ops ops) sound"
  unfolding rung_contract_def
  by (simp add: thief_ops_def default_eviction_candidate_def default_remove_if_address_def)

text \<open>
  The thief wins. When the competing write that \<open>set\<close> makes has succeeded, every token of the key that
  was prepared before is refused from then on, whatever generation it carries: the writer the thief
  stole from cannot commit. One competitor runs per call. The key's generation plays no part: the
  entry is \<open>Ready\<close> again, and that is why the token is refused.
\<close>

theorem thief_wins:
  assumes "ladder_contract m sound" "encode_key (th_key th) test_ctx = Ok k"
    and "minds pl sound m k sc" "ladder_ok pl sound m w"
    and "th_attached th" "\<not> th_stealing th"
    and "set_op sc m (th_key th) thief_value test_ctx w = (Done (Ok ()), w1)"
    and "ct_address token = address_of pl k"
  shows "snd (snd (thief_set sc m t k v ttl (w, th))) = th\<lparr>th_steals := th_steals th + 1\<rparr> \<and>
    fst (cp_commit now token ttl' (w_plane (fst (snd (thief_set sc m t k v ttl (w, th)))))) = Err StaleGeneration"
proof -
  have ttl: "ctx_ttl test_ctx = None" by (simp add: test_ctx_def ctx_for_tenant_def context_new_def)
  have "committed pl m k thief_value w1"
    using ladder_contract.set_op_commits [OF assms(1,2) ttl assms(3,4,7)] by blast
  then obtain e where e: "entry_is pl (address_of pl k) e w1" "e_state e = Ready"
    by (auto simp: committed_def entry_is_def)
  have "upholds (entry_is pl (address_of pl k) e) (rung_set sc m t k v ttl)"
    unfolding rung_set_def
    by (rule upholds_tier_call [OF steady_entry_is [OF minds_leaves [OF assms(3)]]]) (simp add: entry_is_def)
  then have "entry_is pl (address_of pl k) e (snd (rung_set sc m t k v ttl w1))"
    using e(1) by (rule upholdsD)
  then have p: "plane_ok pl (w_plane (snd (rung_set sc m t k v ttl w1)))"
    "plane_lookup (w_plane (snd (rung_set sc m t k v ttl w1))) (ct_address token) = Some e"
    by (simp_all add: entry_is_def assms(8))
  have "fst (cp_commit now token ttl' (w_plane (snd (rung_set sc m t k v ttl w1)))) = Err StaleGeneration"
    using e(2) by (simp add: cp_commit_Some(1) [OF p] entry_commit_def)
  moreover have "thief_set sc m t k v ttl (w, th) =
      on_world (rung_set sc m t k v ttl) (w1, th\<lparr>th_steals := th_steals th + 1\<rparr>)"
    using assms(5-7) by (simp add: thief_set_def then_task_def bind_task_def steal_attached)
  ultimately show ?thesis by simp
qed

text \<open>
  A caller that drops its write during the theft leaves the thief marked as stealing, and from then on
  it steals nothing: its calls go straight to the wrapped rung.
\<close>

theorem dropped_theft_disarms:
  assumes "th_attached th" "\<not> th_stealing th"
    and "fst (set_op sc m (th_key th) thief_value test_ctx w) = Dropped"
    and "snd (thief_set sc m t k v ttl (w, th)) = (w', th')"
  shows "th_stealing th' \<and> thief_set sc' m t k' v' ttl' (u, th') = on_world (rung_set sc' m t k' v' ttl') (u, th')"
proof -
  obtain w1 where "set_op sc m (th_key th) thief_value test_ctx w = (Dropped, w1)"
    using assms(3) by (metis prod.collapse)
  then have "th' = th\<lparr>th_stealing := True, th_steals := th_steals th + 1\<rparr>"
    using assms(1,2,4) by (simp add: thief_set_def then_task_def bind_task_def steal_attached)
  then show ?thesis by (simp add: thief_set_def then_task_def bind_task_def steal_stealing)
qed

end
