(* ===== verification/Spec2Isabelle.thy ===== *)
theory Spec2Isabelle
  imports
    Prelude Errors Tier_Id Integrity Key_Frame Pool Store_Interface Fixed_Tier Sharded_Tier
    Table_Interface Control_Entry Continuity Control_Plane Control_Properties Capability Policy
    Telemetry Task_Effects Rungs Manager Manager_Ops Manager_Logic Manager_Claims
    Manager_Safety Manager_Visibility Manager_Effects Manager_Recovery Hot_Rung Census Governor Governor_Plan
    Governor_Safety Bootstrap Utf8 Fault Record_Codec Backends Backend_Properties Test_Kit Test_Kit_Properties
    Rust_Text Telemetry_Display Contract Gate_Runner Xtask Coverage_Check
    Ladder_Placement Manager_Returns Value_Provenance Fuzz_Targets Thief_Tier
begin

text \<open>
  \<^bold>\<open>A verification of theSix, the policy-driven cache ladder.\<close>

  \<^bold>\<open>The program.\<close> Values live on up to seven rungs: \<open>L0\<close> to \<open>L5\<close> are caches, \<open>L6\<close> is the authority.
  The payload is on the rungs (\<open>src/src/tier\<close>). A control plane (\<open>src/src/control/cachelito.rs\<close>) keeps
  one payload-free entry per key: state, generation, rung, expiry, population owner and commit
  intent. The manager (\<open>src/src/manager.rs\<close>) asks the policy (\<open>src/src/policy.rs\<close>) for a rung, drives a
  two-phase commit on the plane around each call of a rung, feeds the circuit breakers
  (\<open>src/src/tier/mod.rs\<close>) and records telemetry (\<open>src/src/telemetry.rs\<close>). The governor
  (\<open>src/src/governor\<close>) is a maintenance loop that watches the plane and the breakers and acts through
  the manager's operations: it sweeps, rebinds degraded rungs and moves entries.

  \<^bold>\<open>The theories, bottom up.\<close>

  \<^item> \<open>Prelude\<close>, \<open>Errors\<close>: machine integers, locks, instants, list and word lemmas; \<open>CacheError\<close> and
    results (\<open>src/src/error.rs\<close>).

  \<^item> \<open>Tier_Id\<close>: rung identities and the breaker registry. \<open>Integrity\<close>: digests, fingerprints, addresses
    (\<open>src/src/integrity.rs\<close>). \<open>Key_Frame\<close>: key encoding, tenant framing, identities (\<open>src/src/key.rs\<close>,
    \<open>src/src/identity.rs\<close>). \<open>Pool\<close>: the free list (\<open>src/src/pool.rs\<close>).

  \<^item> \<open>Store_Interface\<close> is the locale of a key-value store with expiry; \<open>Fixed_Tier\<close>
    (\<open>src/src/tier/fixed_tier_stub.rs\<close>) and \<open>Sharded_Tier\<close> (\<open>src/src/tier/sharded_stub.rs\<close>) model the slot
    table and the sharded table and interpret it.

  \<^item> \<open>Table_Interface\<close> is the locale of the plane's table of entries. \<open>Control_Entry\<close> models one entry
    and the body of each plane operation on it, \<open>Control_Plane\<close> the sharded open-addressed table and
    every public operation of \<open>Cachelito\<close>, and shows that the table implements a map.
    \<open>Control_Properties\<close> holds the protocol theorems over any interleaving of plane calls.

  \<^item> \<open>Continuity\<close>, \<open>Capability\<close>, \<open>Policy\<close>, \<open>Telemetry\<close>: the files of those names. \<open>Telemetry_Display\<close>: what
    telemetry prints, and that a printed key identity determines the identity.

  \<^item> \<open>Task_Effects\<close>: what an asynchronous function is here, with guards, cancellation and hanging
    futures, and its two program logics (predicates upheld on every exit, and triples). \<open>Rungs\<close>: the
    \<open>CacheTier\<close> methods as a record, the stub rungs, the test rung, and \<open>rung_contract\<close>, the locale of
    what the manager relies on. \<open>Hot_Rung\<close>: the rebindable wrapper (\<open>src/src/tier/hot_rung.rs\<close>).

  \<^item> \<open>Manager\<close>, \<open>Manager_Ops\<close>: the world, the schedule and every operation of \<open>CacheManager\<close>.
    \<open>Manager_Logic\<close> lifts the logics to it. \<open>Manager_Claims\<close>: no operation leaves a key claimed.
    \<open>Manager_Safety\<close>: the authority is never written, operations end, a refused caller changes
    nothing. \<open>Manager_Visibility\<close>: read your write, what an answer of \<open>get\<close> and of \<open>refresh\<close> means, with
    the locale \<open>ladder_contract\<close>. \<open>Manager_Effects\<close>: what refreshes, moves and removals make
    visible, over any history of a key. \<open>Manager_Recovery\<close>: what a recovery pass does and reports.
    \<open>Manager_Returns\<close>: an operation that is not dropped returns. \<open>Ladder_Placement\<close>: no entry leaves the
    cache rungs. \<open>Value_Provenance\<close>: the locales \<open>authentic_rung\<close> and \<open>authentic_ladder\<close>, a rung and a
    manager whose stores hold only values that belong to their keys, interpreted for the in-memory
    rungs; no operation carries a value from a tenant or a key to another.

  \<^item> \<open>Census\<close>, \<open>Governor\<close>, \<open>Bootstrap\<close>: the governor's key census, its tick and loop, and the assembly
    of a ladder from the environment. \<open>Governor_Plan\<close>: the planner is exact. \<open>Governor_Safety\<close>: ticks
    stay within their budgets, leave the authority and every key at rest alone, and end.

  \<^item> \<open>Utf8\<close>: strings and their bytes. \<open>Rust_Text\<close>: the text functions of the standard library. \<open>Record_Codec\<close>, \<open>Backends\<close>: the codecs and the adapters to Redis, sled,
    an origin and Oxigraph (\<open>src/src/tier/backends\<close>), over records of the calls they make.
    \<open>Backend_Properties\<close>: the sled rung keeps what it stores, and where the other adapters do not.

  \<^item> \<open>Fault\<close>: fault plans and the ledger (\<open>src/src/fault.rs\<close>). \<open>Test_Kit\<close>: the wrapping rungs and builders of
    \<open>src/testkit/src/lib.rs\<close>. \<open>Test_Kit_Properties\<close>: transparency, scheduled failures, residue.
    \<open>Thief_Tier\<close>: the rung that writes through its own manager, and that it wins the race.
    \<open>Coverage_Check\<close>: the registries that bind contract clauses to tests and the functions that check
    them (\<open>src/testkit/src/coverage.rs\<close>).

  \<^item> \<open>Contract\<close>: the architectural contract and its validation (\<open>src/xtask/src/contract.rs\<close>).
    \<open>Gate_Runner\<close>: running one gate, the authorship and the merge-readiness gate
    (\<open>src/xtask/src/gates.rs\<close>). \<open>Xtask\<close>: the command line and its exit codes
    (\<open>src/xtask/src/main.rs\<close>), and what a successful exit means.

  \<^item> \<open>Fuzz_Targets\<close>: the nine programs of \<open>src/fuzz/fuzz_targets\<close>, each as the truth value of its
    returning; all of them return on every input.

  \<^bold>\<open>State and interleaving.\<close> A shared world holds the plane, the breakers, the stores of the rungs, the
  eviction cursor, the telemetry log and the clock. An operation is a task over it, run against a
  schedule: before every access to shared state and at every suspension point the schedule lets the
  rest of the process change the world, and at every suspension point it may drop the future. A
  statement for every schedule therefore covers every interleaving at the granularity of one plane
  call or one rung call, and every cancellation point. Plane calls hold a shard's lock for their whole
  body, so that granularity is the code's. Atomic fields of an entry are read and written under that
  lock. Lock poisoning is kept as a flag where the code checks it.

  \<^bold>\<open>Numbers.\<close> Generations, digests, timestamps and TTLs are 64-bit words and wrap or saturate where
  the code does; the theorems that need it say that fewer than \<open>2 ^ 64\<close> steps have run. Sizes and
  counters bounded by memory are naturals. \<open>f64\<close> values are reals. A \<open>String\<close> that the code prints or
  compares is a \<open>string\<close>; an environment string is the list of its Unicode scalar values.

  \<^bold>\<open>Loops.\<close> Loops with a budget (commit attempts, eviction passes, population attempts, retries, move
  budgets) recurse on the budget of the source; the walks over rungs recurse on the rung. No fuel is
  chosen by the model. The governor's endless loop is any finite number of its rounds.

  \<^bold>\<open>Parameters.\<close> The hasher that picks a shard, the caller's fetch, the rebinder, the connection
  attempt, the stores behind the adapters, the policy, and the methods of an arbitrary rung are parameters of the definitions that
  call them, and so are the host of the gate runner (files, processes, environment variables), the
  TOML parser, the parsed command line and \<open>char::to_lowercase\<close>; hypotheses on them are named (\<open>rung_contract\<close>, \<open>removals_answer\<close>, \<open>rebinder_answers\<close>, \<open>tree_laws\<close>, \<open>quad_laws\<close>, \<open>codec_roundtrips\<close>, \<open>authentic_ladder\<close>) and
  shown for the shipped rungs by interpretation or for an instance in a witness.

  \<^bold>\<open>What the model shows to be wrong.\<close> Besides the properties there are theorems about behaviour that
  its documentation denies: a slot table can store a key twice (\<open>fixed_duplicate_resurrects\<close>), two
  clean aborts wedge an entry (\<open>double_clean_abort_wedges\<close>), a spent token commits again
  (\<open>spent_token_commits_again\<close>), a late failure overwrites a newer value (\<open>late_failure_clobbers_ready\<close>), a
  hung \<open>remove\<close> is not bounded (in \<open>operations_end\<close>), a degraded start can never be rebound (in
  \<open>assembled_ladder_exact\<close>), planned demotions exceed the budget (\<open>planned_demotions_exceed_budget\<close>), a
  second write to Oxigraph adds to the first (\<open>oxigraph_set_accumulates\<close>), a TTL under a second fails on
  Redis (\<open>redis_subsecond_ttl_refused\<close>), a second scheduled fault fires at once
  (\<open>second_window_fires_at_once\<close>), a refused move hides a committed value (\<open>refused_move_hides_value\<close>) and
  a move replaces an entry's lifetime (\<open>move_replaces_lifetime\<close>), a dry run and a contract without gates
  count as success (\<open>dry_run_claims_success\<close>, \<open>no_gates_succeeds\<close>), a separator in a commit message hides
  a trailer (\<open>separator_hides_trailer\<close>), a row of a registry can be satisfied by another test
  (\<open>other_test_satisfies_row\<close>), three fuzz targets never reach what they mean to test
  (\<open>fuzz_targets_blind\<close>), a dropped write disarms the stealing rung (\<open>dropped_theft_disarms\<close>), a read
  never waits for a population that somebody owns (\<open>get_never_joins_an_owner\<close>), with the setting for
  hot at zero one tick promotes and demotes an entry (\<open>zero_hot_heat_plans_both\<close>), and no shards are
  taken as one (\<open>zero_shards_accepted\<close>).

  \<^bold>\<open>Not modelled.\<close> The stores behind the adapters, which are third-party: a property of an adapter
  names what it needs of its store. Loading a \<open>.env\<close> file. \<open>Debug\<close> implementations that only
  print, colours and durations that are only printed. The macros that expand to test functions,
  the tests themselves, examples and benches: they are callers of the library.
\<close>

section \<open>A ladder whose every rung can be rebound\<close>

text \<open>
  The wrapper keeps the contract of whatever backend it holds, so a manager over rebindable rungs
  satisfies the contract its clients rely on, before and after any accepted rebinding to a sound
  backend.
\<close>

interpretation hot_ladder: ladder_contract
    "manager_with_timeout policy (map hot_rung_at rungs) timeout"
    "\<lambda>s. Hot (hot_of s) = s \<and> hot_sound sound (hot_of s)"
  for policy :: "(bytes, 'v) cache_policy" and rungs timeout and sound :: "'s \<Rightarrow> bool"
  by (rule ladder_contract.intro) (simp add: manager_with_timeout_def hot_rung_cell.rung_contract_axioms)

lemma rebound_cell_sound:
  assumes "Hot (hot_of s) = s" "hot_sound sound (hot_of s)" "rung_contract ops sound" "sound b"
    and "hot_swap (ops, b) (hot_of s) = (Ok displaced, h)"
  shows "hot_sound sound (hot_of (Hot h))"
  using assms by (auto simp: hot_sound_def hot_swap_def split: if_splits)

end
